(* ===== verification/Prelude.thy ===== *)
theory Prelude
  imports Main "HOL-Library.Word" "HOL-Library.Signed_Division" "HOL-Library.Sublist"
begin

text \<open>
  What the components share: the result monad of the lifter (every operation of the C++
  classes takes the state of the lifter object and returns a value and the new state, or ends
  the run), the two ways a run ends early (a failing \<open>assert\<close> or an \<open>exit(-1)\<close> with a message),
  the prefix order on block lists, and the facts on machine words that tie the integer
  arithmetic of the emitted LLVM instructions to the 64- and 32-bit registers of BPF.
\<close>

unbundle bit_operations_syntax

section \<open>Automation collections\<close>

named_theorems wp_intro \<open>symbolic-execution rules for emitted code\<close>
named_theorems word_bridge \<open>word operations read through their unsigned integer value\<close>

section \<open>The result monad\<close>

text \<open>\<open>Assertion\<close> is a failing C++ \<open>assert\<close>; \<open>ExitError\<close> is an \<open>exit(-1)\<close> with the message
  the code writes before it.\<close>

datatype lift_error = Assertion string | ExitError string

type_synonym ('s, 'a) action = "'s \<Rightarrow> lift_error + 'a \<times> 's"

definition ret :: "'a \<Rightarrow> ('s, 'a) action" where
  "ret v s = Inr (v, s)"

definition bnd :: "('s, 'a) action \<Rightarrow> ('a \<Rightarrow> ('s, 'b) action) \<Rightarrow> ('s, 'b) action" where
  "bnd m k s = (case m s of Inl e \<Rightarrow> Inl e | Inr (v, s') \<Rightarrow> k v s')"

definition andthen :: "('s, 'a) action \<Rightarrow> ('s, 'b) action \<Rightarrow> ('s, 'b) action" where
  "andthen m k = bnd m (\<lambda>_. k)"

definition fail :: "lift_error \<Rightarrow> ('s, 'a) action" where
  "fail e s = Inl e"

definition check :: "bool \<Rightarrow> lift_error \<Rightarrow> ('s, unit) action" where
  "check b e = (if b then ret () else fail e)"

definition gets :: "('s \<Rightarrow> 'a) \<Rightarrow> ('s, 'a) action" where
  "gets f s = Inr (f s, s)"

definition modify :: "('s \<Rightarrow> 's) \<Rightarrow> ('s, unit) action" where
  "modify f s = Inr ((), f s)"

definition from_option :: "lift_error \<Rightarrow> 'a option \<Rightarrow> ('s, 'a) action" where
  "from_option e x = (case x of None \<Rightarrow> fail e | Some v \<Rightarrow> ret v)"

fun for_each :: "'a list \<Rightarrow> ('a \<Rightarrow> ('s, unit) action) \<Rightarrow> ('s, unit) action" where
  "for_each [] f = ret ()"
| "for_each (x # xs) f = andthen (f x) (for_each xs f)"

lemma ret_apply [simp]: "ret v s = Inr (v, s)"
  by (simp add: ret_def)

lemma fail_apply [simp]: "fail e s = Inl e"
  by (simp add: fail_def)

lemma gets_apply [simp]: "gets f s = Inr (f s, s)"
  by (simp add: gets_def)

lemma modify_apply [simp]: "modify f s = Inr ((), f s)"
  by (simp add: modify_def)

lemma check_apply [simp]: "check b e s = (if b then Inr ((), s) else Inl e)"
  by (simp add: check_def)

lemma from_option_simps [simp]:
  "from_option e None s = Inl e" "from_option e (Some v) s = Inr (v, s)"
  by (simp_all add: from_option_def)

lemma bnd_Inr [simp]: "m s = Inr (v, s') \<Longrightarrow> bnd m k s = k v s'"
  by (simp add: bnd_def)

lemma bnd_Inl [simp]: "m s = Inl e \<Longrightarrow> bnd m k s = Inl e"
  by (simp add: bnd_def)

lemma andthen_Inr [simp]: "m s = Inr (v, s') \<Longrightarrow> andthen m k s = k s'"
  by (simp add: andthen_def)

lemma andthen_Inl [simp]: "m s = Inl e \<Longrightarrow> andthen m k s = Inl e"
  by (simp add: andthen_def)

lemma bnd_eq_Inr:
  "bnd m k s = Inr (u, t) \<longleftrightarrow> (\<exists>v s'. m s = Inr (v, s') \<and> k v s' = Inr (u, t))"
  by (auto simp: bnd_def split: sum.splits prod.splits)

lemma andthen_eq_Inr:
  "andthen m k s = Inr (u, t) \<longleftrightarrow> (\<exists>v s'. m s = Inr (v, s') \<and> k s' = Inr (u, t))"
  by (simp add: andthen_def bnd_eq_Inr)

lemma bnd_assoc: "bnd (bnd m f) g = bnd m (\<lambda>v. bnd (f v) g)"
  by (rule ext) (simp add: bnd_def split: sum.splits)

lemma bnd_ret: "bnd (ret v) k = k v"
  by (rule ext) simp

lemma bnd_ret_right: "bnd m ret = m"
  by (rule ext) (simp add: bnd_def split: sum.splits)

section \<open>Simulation of a loop by a fold\<close>

text \<open>A loop \<open>for_each\<close> whose body maintains a relation with an abstract state maintains it over the
  whole run: an invariant is the case of a relation that ignores the abstract state.\<close>

lemma for_each_Cons_Inr:
  "for_each (x # xs) f s = Inr (u, t) \<longleftrightarrow> (\<exists>s'. f x s = Inr ((), s') \<and> for_each xs f s' = Inr (u, t))"
  by (auto simp: andthen_eq_Inr)

lemma for_each_append: "for_each (xs @ ys) f = andthen (for_each xs f) (for_each ys f)"
  by (induction xs) (simp_all add: andthen_def bnd_assoc bnd_ret)

locale loop_simulation =
  fixes rel :: "'a \<Rightarrow> 's \<Rightarrow> bool" and body :: "'e \<Rightarrow> ('s, unit) action" and astep :: "'e \<Rightarrow> 'a \<Rightarrow> 'a"
  assumes body_step: "rel a s \<Longrightarrow> body e s = Inr (u, s') \<Longrightarrow> rel (astep e a) s'"
begin

lemma loop: "rel a s \<Longrightarrow> for_each es body s = Inr (u, s') \<Longrightarrow> rel (fold astep es a) s'"
proof (induction es arbitrary: a s)
  case (Cons e es)
  from Cons.prems(2) obtain s1 where "body e s = Inr ((), s1)" "for_each es body s1 = Inr (u, s')"
    unfolding for_each_Cons_Inr by blast
  from Cons.IH[OF body_step[OF Cons.prems(1) this(1)] this(2)] show ?case by simp
qed simp

end

locale loop_invariant =
  fixes inv :: "'s \<Rightarrow> bool" and body :: "'e \<Rightarrow> ('s, unit) action"
  assumes body_keeps: "inv s \<Longrightarrow> body e s = Inr (u, s') \<Longrightarrow> inv s'"

sublocale loop_invariant \<subseteq> loop_simulation "\<lambda>_. inv" body "\<lambda>_ a. a"
  using body_keeps by unfold_locales

context loop_invariant
begin

lemma loop_keeps: "inv s \<Longrightarrow> for_each es body s = Inr (u, s') \<Longrightarrow> inv s'"
  by (rule loop)

end

section \<open>Decimal strings (\<open>std::to_string\<close> on unsigned values)\<close>

definition digit_char :: "nat \<Rightarrow> char" where
  "digit_char d = ''0123456789'' ! d"

fun to_string :: "nat \<Rightarrow> string" where
  "to_string n = (if n < 10 then [digit_char n] else to_string (n div 10) @ [digit_char (n mod 10)])"

declare to_string.simps [simp del]

lemma digit_char_inj: "d < 10 \<Longrightarrow> e < 10 \<Longrightarrow> digit_char d = digit_char e \<longleftrightarrow> d = e"
  unfolding digit_char_def by (rule nth_eq_iff_index_eq) simp_all

lemma to_string_nonempty: "to_string n \<noteq> []"
  by (subst to_string.simps) simp

lemma to_string_digits: "set (to_string n) \<subseteq> set ''0123456789''"
proof (induction n rule: to_string.induct)
  case (1 n)
  have d: "digit_char k \<in> set ''0123456789''" if "k < 10" for k
    unfolding digit_char_def using that by (intro nth_mem) simp
  show ?case
  proof (cases "n < 10")
    case True
    then show ?thesis by (subst to_string.simps) (use d in auto)
  next
    case False
    with 1 d[of "n mod 10"] show ?thesis by (subst to_string.simps) auto
  qed
qed

lemma to_string_inj: "to_string m = to_string n \<Longrightarrow> m = n"
proof (induction m arbitrary: n rule: to_string.induct)
  case (1 m)
  have last: "last (to_string k) = digit_char (k mod 10)" for k
    by (subst to_string.simps) simp
  have but: "butlast (to_string k) = (if k < 10 then [] else to_string (k div 10))" for k
    by (subst to_string.simps) simp
  from 1(2) have "m mod 10 = n mod 10"
    using digit_char_inj[of "m mod 10" "n mod 10"] last[of m] last[of n] by simp
  moreover have "m div 10 = n div 10"
  proof (cases "m < 10")
    case True
    then show ?thesis using 1(2) but[of m] but[of n] to_string_nonempty[of "n div 10"] by (auto split: if_splits)
  next
    case False
    then show ?thesis using 1 but[of m] but[of n] to_string_nonempty[of "m div 10"] by (auto split: if_splits)
  qed
  ultimately show ?case by (metis div_mult_mod_eq)
qed

end
