(* ===== verification/LLVM_IR.thy ===== *)
theory LLVM_IR
  imports Prelude
begin

text \<open>
  The vocabulary of the IR the lifter emits: one constructor per LLVM API call the code makes
  (\<open>new LoadInst\<close>, \<open>BinaryOperator::Create\<close>, ...), the blocks of the function under construction,
  and an evaluator for such code.

  LLVM itself is not part of this repository. The integer, memory and call behaviour of the
  instructions is therefore a parameter, the record \<open>llvm_sem\<close>; the locale \<open>langref\<close> states what
  the LLVM Language Reference documents of it, and only for the cases the reference defines:
  nothing is assumed of a division by zero, of \<open>INT_MIN / -1\<close>, of a shift by the bit width or
  more, or of an atomic access at an address that is not a multiple of its alignment, so a proof about lifted code has to show that these are never reached.
\<close>

section \<open>Types, values and instructions\<close>

datatype ty = IntTy nat | PtrTy | VoidTy | StructTy "ty list" | ArrayTy nat ty | VectorTy nat ty
  | HalfTy | FloatTy | DoubleTy | FP128Ty

text \<open>An SSA value is identified by the creation number of its instruction (\<open>Local\<close>), as LLVM
  identifies it by the instruction's address; names play no role in its identity.\<close>

datatype llvalue = ConstInt nat int | ConstVec nat "int list" | Local nat ty | ArgV nat ty
  | GlobalV string

datatype binop = Add | Sub | Mul | UDiv | SDiv | URem | SRem | Shl | LShr | AShr | And | Or | Xor

datatype pred = ICMP_EQ | ICMP_NE | ICMP_UGT | ICMP_UGE | ICMP_ULT | ICMP_ULE
  | ICMP_SGT | ICMP_SGE | ICMP_SLT | ICMP_SLE

datatype castop = Trunc | ZExt | SExt | PtrToInt | IntToPtr

datatype rmwop = RmwAdd | RmwAnd | RmwOr | RmwXor | RmwXchg

datatype instr =
    AllocaI ty llvalue
  | LoadI ty llvalue
  | StoreI llvalue llvalue
  | GEPI ty llvalue llvalue
  | BinopI binop llvalue llvalue
  | ICmpI pred llvalue llvalue
  | SelectI llvalue llvalue llvalue
  | CastI castop llvalue ty
  | BSwapI llvalue
  | CallI string "llvalue list" ty
  | AtomicRMWI rmwop llvalue llvalue nat
  | CmpXchgI llvalue llvalue llvalue nat
  | ExtractValueI llvalue nat
  | CondBrI llvalue nat nat
  | BrI nat
  | RetI "llvalue option"
  | UnreachableI

type_synonym insn = "nat \<times> string \<times> instr"
type_synonym code = "(string \<times> insn list) list"

fun type_of :: "llvalue \<Rightarrow> ty" where
  "type_of (ConstInt w _) = IntTy w"
| "type_of (ConstVec w xs) = VectorTy (length xs) (IntTy w)"
| "type_of (Local _ t) = t"
| "type_of (ArgV _ t) = t"
| "type_of (GlobalV _) = PtrTy"

fun is_terminator :: "instr \<Rightarrow> bool" where
  "is_terminator (CondBrI _ _ _) = True"
| "is_terminator (BrI _) = True"
| "is_terminator (RetI _) = True"
| "is_terminator UnreachableI = True"
| "is_terminator _ = False"

section \<open>The semantics parameter\<close>

text \<open>
  Integers are the unsigned residues of their width; a width is a bit count. The operations
  return \<open>None\<close> where the reference gives no defined value.
\<close>

record 'm llvm_sem =
  sem_bin :: "binop \<Rightarrow> nat \<Rightarrow> int \<Rightarrow> int \<Rightarrow> int option"
  sem_icmp :: "pred \<Rightarrow> nat \<Rightarrow> int \<Rightarrow> int \<Rightarrow> bool"
  sem_cast :: "castop \<Rightarrow> nat \<Rightarrow> nat \<Rightarrow> int \<Rightarrow> int"
  sem_bswap :: "nat \<Rightarrow> int \<Rightarrow> int"
  sem_gep :: "int \<Rightarrow> int \<Rightarrow> int"
  sem_load :: "'m \<Rightarrow> nat \<Rightarrow> int \<Rightarrow> int option"
  sem_store :: "'m \<Rightarrow> nat \<Rightarrow> int \<Rightarrow> int \<Rightarrow> 'm option"
  sem_rmw :: "rmwop \<Rightarrow> 'm \<Rightarrow> nat \<Rightarrow> nat \<Rightarrow> int \<Rightarrow> int \<Rightarrow> (int \<times> 'm) option"
  sem_cmpxchg :: "'m \<Rightarrow> nat \<Rightarrow> nat \<Rightarrow> int \<Rightarrow> int \<Rightarrow> int \<Rightarrow> (int \<times> 'm) option"
  sem_global :: "string \<Rightarrow> int"
  sem_call :: "string \<Rightarrow> (nat \<times> int) list \<Rightarrow> 'm \<Rightarrow> (int \<times> 'm) option"

definition sgn_of :: "nat \<Rightarrow> int \<Rightarrow> int" where
  "sgn_of w x = signed_take_bit (w - 1) x"

definition in_width :: "nat \<Rightarrow> int \<Rightarrow> bool" where
  "in_width w x \<longleftrightarrow> 0 \<le> x \<and> x < 2 ^ w"

text \<open>The byte at position \<open>i\<close>, and the value with its bytes in the opposite order.\<close>

definition byte_at :: "nat \<Rightarrow> int \<Rightarrow> int" where
  "byte_at i x = take_bit 8 (drop_bit (8 * i) x)"

definition rev_bytes :: "nat \<Rightarrow> int \<Rightarrow> int" where
  "rev_bytes n x = (\<Sum>i<n. byte_at (n - 1 - i) x * 2 ^ (8 * i))"

fun rmw_result :: "rmwop \<Rightarrow> nat \<Rightarrow> int \<Rightarrow> int \<Rightarrow> int" where
  "rmw_result RmwAdd w old v = take_bit w (old + v)"
| "rmw_result RmwAnd w old v = old AND v"
| "rmw_result RmwOr w old v = old OR v"
| "rmw_result RmwXor w old v = old XOR v"
| "rmw_result RmwXchg w old v = v"

locale langref =
  fixes S :: "'m llvm_sem"
  assumes bin_add: "in_width w a \<Longrightarrow> in_width w b \<Longrightarrow>
      sem_bin S Add w a b = Some (take_bit w (a + b))"
    and bin_sub: "in_width w a \<Longrightarrow> in_width w b \<Longrightarrow>
      sem_bin S Sub w a b = Some (take_bit w (a - b))"
    and bin_mul: "in_width w a \<Longrightarrow> in_width w b \<Longrightarrow>
      sem_bin S Mul w a b = Some (take_bit w (a * b))"
    and bin_and: "in_width w a \<Longrightarrow> in_width w b \<Longrightarrow> sem_bin S And w a b = Some (a AND b)"
    and bin_or: "in_width w a \<Longrightarrow> in_width w b \<Longrightarrow> sem_bin S Or w a b = Some (a OR b)"
    and bin_xor: "in_width w a \<Longrightarrow> in_width w b \<Longrightarrow> sem_bin S Xor w a b = Some (a XOR b)"
    and bin_shl: "in_width w a \<Longrightarrow> in_width w b \<Longrightarrow> b < int w \<Longrightarrow>
      sem_bin S Shl w a b = Some (take_bit w (push_bit (nat b) a))"
    and bin_lshr: "in_width w a \<Longrightarrow> in_width w b \<Longrightarrow> b < int w \<Longrightarrow>
      sem_bin S LShr w a b = Some (drop_bit (nat b) a)"
    and bin_ashr: "in_width w a \<Longrightarrow> in_width w b \<Longrightarrow> b < int w \<Longrightarrow>
      sem_bin S AShr w a b = Some (take_bit w (drop_bit (nat b) (sgn_of w a)))"
    and bin_udiv: "in_width w a \<Longrightarrow> in_width w b \<Longrightarrow> b \<noteq> 0 \<Longrightarrow>
      sem_bin S UDiv w a b = Some (a div b)"
    and bin_urem: "in_width w a \<Longrightarrow> in_width w b \<Longrightarrow> b \<noteq> 0 \<Longrightarrow>
      sem_bin S URem w a b = Some (a mod b)"
    and bin_sdiv: "in_width w a \<Longrightarrow> in_width w b \<Longrightarrow> b \<noteq> 0 \<Longrightarrow>
      \<not> (a = 2 ^ (w - 1) \<and> b = 2 ^ w - 1) \<Longrightarrow>
      sem_bin S SDiv w a b = Some (take_bit w (sgn_of w a sdiv sgn_of w b))"
    and bin_srem: "in_width w a \<Longrightarrow> in_width w b \<Longrightarrow> b \<noteq> 0 \<Longrightarrow>
      \<not> (a = 2 ^ (w - 1) \<and> b = 2 ^ w - 1) \<Longrightarrow>
      sem_bin S SRem w a b = Some (take_bit w (sgn_of w a smod sgn_of w b))"
    and icmp_eq: "in_width w a \<Longrightarrow> in_width w b \<Longrightarrow> sem_icmp S ICMP_EQ w a b = (a = b)"
    and icmp_ne: "in_width w a \<Longrightarrow> in_width w b \<Longrightarrow> sem_icmp S ICMP_NE w a b = (a \<noteq> b)"
    and icmp_ugt: "in_width w a \<Longrightarrow> in_width w b \<Longrightarrow> sem_icmp S ICMP_UGT w a b = (b < a)"
    and icmp_uge: "in_width w a \<Longrightarrow> in_width w b \<Longrightarrow> sem_icmp S ICMP_UGE w a b = (b \<le> a)"
    and icmp_ult: "in_width w a \<Longrightarrow> in_width w b \<Longrightarrow> sem_icmp S ICMP_ULT w a b = (a < b)"
    and icmp_ule: "in_width w a \<Longrightarrow> in_width w b \<Longrightarrow> sem_icmp S ICMP_ULE w a b = (a \<le> b)"
    and icmp_sgt: "in_width w a \<Longrightarrow> in_width w b \<Longrightarrow>
      sem_icmp S ICMP_SGT w a b = (sgn_of w b < sgn_of w a)"
    and icmp_sge: "in_width w a \<Longrightarrow> in_width w b \<Longrightarrow>
      sem_icmp S ICMP_SGE w a b = (sgn_of w b \<le> sgn_of w a)"
    and icmp_slt: "in_width w a \<Longrightarrow> in_width w b \<Longrightarrow>
      sem_icmp S ICMP_SLT w a b = (sgn_of w a < sgn_of w b)"
    and icmp_sle: "in_width w a \<Longrightarrow> in_width w b \<Longrightarrow>
      sem_icmp S ICMP_SLE w a b = (sgn_of w a \<le> sgn_of w b)"
    and cast_trunc: "in_width w a \<Longrightarrow> w' < w \<Longrightarrow> sem_cast S Trunc w w' a = take_bit w' a"
    and cast_zext: "in_width w a \<Longrightarrow> w < w' \<Longrightarrow> sem_cast S ZExt w w' a = a"
    and cast_sext: "in_width w a \<Longrightarrow> w < w' \<Longrightarrow> sem_cast S SExt w w' a = take_bit w' (sgn_of w a)"
    and bswap: "in_width (16 * k) a \<Longrightarrow> sem_bswap S (16 * k) a = rev_bytes (2 * k) a"
    and gep: "in_width 64 p \<Longrightarrow> in_width 64 off \<Longrightarrow> sem_gep S p off = take_bit 64 (p + off)"
    and load_range: "sem_load S m w p = Some x \<Longrightarrow> in_width w x"
    and rmw: "p mod int al = 0 \<Longrightarrow> sem_load S m w p = Some old \<Longrightarrow>
      sem_store S m w p (rmw_result rop w old x) = Some m' \<Longrightarrow>
      sem_rmw S rop m w al p x = Some (old, m')"
    and cmpxchg_hit: "p mod int al = 0 \<Longrightarrow> sem_load S m w p = Some old \<Longrightarrow>
      sem_store S m w p x = Some m' \<Longrightarrow> sem_cmpxchg S m w al p old x = Some (old, m')"
    and cmpxchg_miss: "p mod int al = 0 \<Longrightarrow> sem_load S m w p = Some old \<Longrightarrow> old \<noteq> e \<Longrightarrow>
      sem_cmpxchg S m w al p e x = Some (old, m)"
    and global_range: "in_width 64 (sem_global S g)"
begin

lemmas defined_ops = bin_add bin_sub bin_mul bin_and bin_or bin_xor bin_shl bin_lshr bin_ashr
  bin_udiv bin_urem bin_sdiv bin_srem

lemmas comparisons = icmp_eq icmp_ne icmp_ugt icmp_uge icmp_ult icmp_ule
  icmp_sgt icmp_sge icmp_slt icmp_sle

end

end
