(* ===== verification/MC.thy ===== *)
theory MC
  imports LLVM_IR
begin

text \<open>
  Machine instructions as the lifter receives them from LLVM's assembly parser or disassembler:
  registers, operands, opcodes. The opcode enumeration is generated by LLVM's TableGen
  (\<open>BPFGenInstrInfo.inc\<close>); a constructor with arguments groups opcodes whose enumerator names are
  built from the same parts, e.g. \<open>ALU ALU_ADD RI B32\<close> is \<open>BPF::ADD_ri_32\<close>,
  \<open>JCOND JSGT RR B64\<close> is \<open>BPF::JSGT_rr\<close>. \<open>OTHER\<close> is any opcode the lifter has no case for.
\<close>

section \<open>Registers and operands\<close>

text \<open>\<open>R n\<close> and \<open>W n\<close> are \<open>BPF::R0 + n\<close> and \<open>BPF::W0 + n\<close>: the two enumerations are consecutive,
  which \<open>mapRegToBackingReg\<close> relies on.\<close>

datatype reg = NoRegister | R nat | W nat

datatype mcexpr = SymbolRef string | SpecifierExpr nat mcexpr | ConstantExpr int | UnaryExpr mcexpr
  | BinaryExpr mcexpr mcexpr | TargetExpr

datatype mcoperand = is_RegOp: RegOp reg | is_ImmOp: ImmOp int | is_ExprOp: ExprOp mcexpr

section \<open>Opcodes\<close>

datatype src_kind = RR | RI
datatype reg_width = B64 | B32

datatype alu_name = ALU_ADD | ALU_SUB | ALU_MUL | ALU_AND | ALU_OR | ALU_XOR | ALU_SLL | ALU_SRL
  | ALU_SRA | ALU_DIV | ALU_MOD | ALU_SDIV | ALU_SMOD

datatype cond_name = JEQ | JNE | JUGT | JUGE | JULT | JULE | JSGT | JSGE | JSLT | JSLE

datatype endian_name = BE16 | BE32 | BE64 | LE16 | LE32 | LE64 | BSWAP16 | BSWAP32 | BSWAP64

datatype load_name = LDD | LDW | LDH | LDB | LDWSX | LDHSX | LDBSX | LDW32 | LDH32 | LDB32

datatype store_name = STD | STW | STH | STB | STW32 | STH32 | STB32

datatype store_imm_name = STD_imm | STW_imm | STH_imm | STB_imm

datatype movsx_name = MOVSX_rr_8 | MOVSX_rr_16 | MOVSX_rr_32 | MOVSX_rr_32_8 | MOVSX_rr_32_16

datatype atomic_name = XADDW | XADDW32 | XADDD | XANDW32 | XANDD | XORW32 | XORD | XXORW32 | XXORD
  | XFADDW32 | XFADDD | XFANDW32 | XFANDD | XFORW32 | XFORD | XFXORW32 | XFXORD | XCHGW32 | XCHGD

datatype opcode = NOP
  | ALU alu_name src_kind reg_width
  | NEG_64 | NEG_32
  | MOV_rr | MOV_ri | MOV_rr_32 | MOV_ri_32 | MOV_32_64
  | MOVSX movsx_name
  | LD_imm64
  | ENDIAN endian_name
  | LOAD load_name | STORE store_name | STORE_IMM store_imm_name
  | JMP | JMPL
  | JCOND cond_name src_kind reg_width
  | JSET src_kind reg_width
  | ATOMIC atomic_name
  | CMPXCHGD | CMPXCHGW32
  | JAL | RET
  | OTHER string

text \<open>\<open>loc\<close> is the pointer the streamer stores in an instruction's \<open>SMLoc\<close>: the number of the source
  instruction it came from, if the debug line maps to one.\<close>

record mcinst =
  getOpcode :: opcode
  operands :: "mcoperand list"
  loc :: "nat option"

definition mk_inst :: "opcode \<Rightarrow> mcoperand list \<Rightarrow> mcinst" where
  "mk_inst op os = \<lparr>getOpcode = op, operands = os, loc = None\<rparr>"

lemma mk_inst_sel [simp]:
  "getOpcode (mk_inst op os) = op" "operands (mk_inst op os) = os" "loc (mk_inst op os) = None"
  by (simp_all add: mk_inst_def)

section \<open>Basic blocks of machine instructions\<close>

text \<open>\<open>MCBasicBlock\<close> of \<open>streamerwrapper.h\<close>. Successors are pointers into the function's block
  vector there; blocks have distinct names, so the names stand for them here.\<close>

record MCBasicBlock =
  getName :: string
  getInstrs :: "mcinst list"
  getSuccs :: "string list"

end
