(* ===== verification/Builder.thy ===== *)
theory Builder
  imports MC
begin

text \<open>
  The instruction builder of class \<open>mc2llvm\<close> (\<open>src/src/lifter/mc2llvm.h\<close>) and the total divisions of
  \<open>mc2llvm.cpp\<close>: the object's state, the \<open>create...\<close> helpers, each of which appends instructions to
  the current block \<open>LLVMBB\<close>, and the constants. An SSA value is returned as in the code.
\<close>

section \<open>State of the lifter object\<close>

text \<open>\<open>fn\<close> are the blocks of \<open>liftedFn\<close> in creation order, \<open>LLVMBB\<close> the index of the block under
  construction, \<open>nid\<close> the number the next instruction gets. \<open>MCBB\<close> is the machine block being
  lifted: its name and its successors' names. \<open>RegFile\<close> is the \<open>std::map\<close> from backing register to its
  storage. \<open>unspecifiedMem\<close> says whether the scratch global was created.\<close>

record lstate =
  fn :: code
  LLVMBB :: nat
  nid :: nat
  RegFile :: "nat \<rightharpoonup> llvalue"
  stackMem :: llvalue
  armInstNum :: nat
  llvmInstNum :: nat
  unspecifiedMem :: bool
  unspecifiedOff :: nat
  MCBB :: "string \<times> string list"
  CurInst :: mcinst
  PrevInst :: "mcinst option"
  bytesMode :: bool
  decls :: "(string \<times> nat) list"

type_synonym 'a lifter = "(lstate, 'a) action"

section \<open>Appending instructions\<close>

definition append_insn :: "insn \<Rightarrow> nat \<Rightarrow> code \<Rightarrow> code" where
  "append_insn x b F = F[b := (fst (F ! b), snd (F ! b) @ [x])]"

text \<open>Every LLVM instruction constructor called with \<open>LLVMBB\<close> as insertion point.\<close>

definition emit :: "string \<Rightarrow> ty \<Rightarrow> instr \<Rightarrow> llvalue lifter" where
  "emit nm t ins s = Inr (Local (nid s) t,
     s\<lparr>fn := append_insn (nid s, nm, ins) (LLVMBB s) (fn s), nid := Suc (nid s)\<rparr>)"

definition emit_void :: "instr \<Rightarrow> unit lifter" where
  "emit_void ins = bnd (emit '''' VoidTy ins) (\<lambda>_. ret ())"

definition nextName :: "string lifter" where
  "nextName s = Inr (''a'' @ to_string (armInstNum s) @ ''_'' @ to_string (llvmInstNum s),
     s\<lparr>llvmInstNum := Suc (llvmInstNum s)\<rparr>)"

definition emit_named :: "ty \<Rightarrow> instr \<Rightarrow> llvalue lifter" where
  "emit_named t ins = bnd nextName (\<lambda>nm. emit nm t ins)"

definition set_bb :: "nat \<Rightarrow> unit lifter" where
  "set_bb b = modify (\<lambda>s. s\<lparr>LLVMBB := b\<rparr>)"

text \<open>\<open>BasicBlock::Create(Ctx, name, liftedFn)\<close> appends an empty block to the function.\<close>

definition newBlock :: "string \<Rightarrow> nat lifter" where
  "newBlock nm s = Inr (length (fn s), s\<lparr>fn := fn s @ [(nm, [])]\<rparr>)"

section \<open>Types and constants\<close>

fun getScalarSizeInBits :: "ty \<Rightarrow> nat" where
  "getScalarSizeInBits (IntTy w) = w"
| "getScalarSizeInBits HalfTy = 16"
| "getScalarSizeInBits FloatTy = 32"
| "getScalarSizeInBits DoubleTy = 64"
| "getScalarSizeInBits FP128Ty = 128"
| "getScalarSizeInBits _ = 0"

fun getBitWidth :: "ty \<Rightarrow> nat option" where
  "getBitWidth (VectorTy n t) = Some (getScalarSizeInBits t * n)"
| "getBitWidth (IntTy w) = Some w"
| "getBitWidth HalfTy = Some 16"
| "getBitWidth FloatTy = Some 32"
| "getBitWidth DoubleTy = Some 64"
| "getBitWidth FP128Ty = Some 128"
| "getBitWidth PtrTy = Some 64"
| "getBitWidth _ = None"

definition bit_width :: "llvalue \<Rightarrow> nat lifter" where
  "bit_width v = from_option (Assertion ''Unhandled type'') (getBitWidth (type_of v))"

text \<open>\<open>APInt(bits, val)\<close> of the pinned LLVM asserts that the value fits the width; that is the
  crash the conformance report describes for byte stores of 128 and more.\<close>

definition getUnsignedIntConst :: "int \<Rightarrow> nat \<Rightarrow> llvalue lifter" where
  "getUnsignedIntConst x bits =
     (if 0 \<le> x \<and> x < 2 ^ bits then ret (ConstInt bits x)
      else fail (Assertion ''Value is not an N-bit unsigned value''))"

definition getSignedIntConst :: "int \<Rightarrow> nat \<Rightarrow> llvalue lifter" where
  "getSignedIntConst x bits =
     (if - (2 ^ (bits - 1)) \<le> x \<and> x < 2 ^ (bits - 1) then ret (ConstInt bits (take_bit bits x))
      else fail (Assertion ''Value is not an N-bit signed value''))"

definition getAllOnesConst :: "nat \<Rightarrow> llvalue" where
  "getAllOnesConst bits = ConstInt bits (2 ^ bits - 1)"

definition getSignedMaxConst :: "nat \<Rightarrow> llvalue" where
  "getSignedMaxConst bits = ConstInt bits (2 ^ (bits - 1) - 1)"

definition getSignedMinConst :: "nat \<Rightarrow> llvalue" where
  "getSignedMinConst bits = ConstInt bits (2 ^ (bits - 1))"

definition getBoolConst :: "bool \<Rightarrow> llvalue" where
  "getBoolConst b = ConstInt 1 (if b then 1 else 0)"

fun getMaskByType :: "ty \<Rightarrow> llvalue lifter" where
  "getMaskByType (IntTy w) = getUnsignedIntConst (int (w - 1)) w"
| "getMaskByType (VectorTy n t) = (case t of
     IntTy w \<Rightarrow> ret (ConstVec w (replicate n (int w - 1)))
   | _ \<Rightarrow> fail (Assertion ''integer element type expected''))"
| "getMaskByType _ = fail (Assertion ''getMaskByType only handles integer or vector type right now'')"

section \<open>The \<open>create\<close> helpers\<close>

definition createAlloca :: "ty \<Rightarrow> llvalue \<Rightarrow> string \<Rightarrow> llvalue lifter" where
  "createAlloca t sz nm = emit nm PtrTy (AllocaI t sz)"

definition createGEP :: "ty \<Rightarrow> llvalue \<Rightarrow> llvalue \<Rightarrow> string \<Rightarrow> llvalue lifter" where
  "createGEP t v idx nm = emit nm PtrTy (GEPI t v idx)"

definition createCondBranch :: "llvalue \<Rightarrow> nat \<Rightarrow> nat \<Rightarrow> unit lifter" where
  "createCondBranch c t f = emit_void (CondBrI c t f)"

definition createBranch :: "nat \<Rightarrow> unit lifter" where
  "createBranch dst = emit_void (BrI dst)"

definition createLoad :: "ty \<Rightarrow> llvalue \<Rightarrow> llvalue lifter" where
  "createLoad t p = emit_named t (LoadI t p)"

definition createStore :: "llvalue \<Rightarrow> llvalue \<Rightarrow> unit lifter" where
  "createStore v p = emit_void (StoreI v p)"

definition createSelect :: "llvalue \<Rightarrow> llvalue \<Rightarrow> llvalue \<Rightarrow> llvalue lifter" where
  "createSelect c a b = emit_named (type_of a) (SelectI c a b)"

definition createICmp :: "pred \<Rightarrow> llvalue \<Rightarrow> llvalue \<Rightarrow> llvalue lifter" where
  "createICmp p a b = emit_named (IntTy 1) (ICmpI p a b)"

definition createBinop :: "llvalue \<Rightarrow> llvalue \<Rightarrow> binop \<Rightarrow> llvalue lifter" where
  "createBinop a b bop = emit_named (type_of a) (BinopI bop a b)"

definition createUDiv :: "llvalue \<Rightarrow> llvalue \<Rightarrow> llvalue lifter" where
  "createUDiv a b = emit_named (type_of a) (BinopI UDiv a b)"

definition createSDiv :: "llvalue \<Rightarrow> llvalue \<Rightarrow> llvalue lifter" where
  "createSDiv a b = emit_named (type_of a) (BinopI SDiv a b)"

definition createURem :: "llvalue \<Rightarrow> llvalue \<Rightarrow> llvalue lifter" where
  "createURem a b = emit_named (type_of a) (BinopI URem a b)"

definition createSRem :: "llvalue \<Rightarrow> llvalue \<Rightarrow> llvalue lifter" where
  "createSRem a b = emit_named (type_of a) (BinopI SRem a b)"

definition createSub :: "llvalue \<Rightarrow> llvalue \<Rightarrow> llvalue lifter" where
  "createSub a b = emit_named (type_of a) (BinopI Sub a b)"

definition createRawShl :: "llvalue \<Rightarrow> llvalue \<Rightarrow> llvalue lifter" where
  "createRawShl a b = emit_named (type_of a) (BinopI Shl a b)"

definition createAnd :: "llvalue \<Rightarrow> llvalue \<Rightarrow> llvalue lifter" where
  "createAnd a b = emit_named (type_of a) (BinopI And a b)"

definition createOr :: "llvalue \<Rightarrow> llvalue \<Rightarrow> llvalue lifter" where
  "createOr a b = emit_named (type_of a) (BinopI Or a b)"

definition createMul :: "llvalue \<Rightarrow> llvalue \<Rightarrow> llvalue lifter" where
  "createMul a b = emit_named (type_of a) (BinopI Mul a b)"

definition createAdd :: "llvalue \<Rightarrow> llvalue \<Rightarrow> llvalue lifter" where
  "createAdd a b = emit_named (type_of a) (BinopI Add a b)"

definition createXor :: "llvalue \<Rightarrow> llvalue \<Rightarrow> llvalue lifter" where
  "createXor a b = emit_named (type_of a) (BinopI Xor a b)"

definition createRawLShr :: "llvalue \<Rightarrow> llvalue \<Rightarrow> llvalue lifter" where
  "createRawLShr a b = emit_named (type_of a) (BinopI LShr a b)"

definition createRawAShr :: "llvalue \<Rightarrow> llvalue \<Rightarrow> llvalue lifter" where
  "createRawAShr a b = emit_named (type_of a) (BinopI AShr a b)"

definition createBSwap :: "llvalue \<Rightarrow> llvalue lifter" where
  "createBSwap v = emit_named (type_of v) (BSwapI v)"

definition createTrunc :: "llvalue \<Rightarrow> ty \<Rightarrow> llvalue lifter" where
  "createTrunc v t = (if type_of v = t then ret v else emit_named t (CastI Trunc v t))"

definition createSExt :: "llvalue \<Rightarrow> ty \<Rightarrow> llvalue lifter" where
  "createSExt v t = emit_named t (CastI SExt v t)"

definition createZExt :: "llvalue \<Rightarrow> ty \<Rightarrow> llvalue lifter" where
  "createZExt v t = emit_named t (CastI ZExt v t)"

definition createExtractValue :: "llvalue \<Rightarrow> nat \<Rightarrow> llvalue lifter" where
  "createExtractValue v i = (case type_of v of
     StructTy ts \<Rightarrow> if i < length ts then emit_named (ts ! i) (ExtractValueI v i)
       else fail (Assertion ''invalid extractvalue index'')
   | _ \<Rightarrow> fail (Assertion ''invalid extractvalue operand''))"

definition createReturn :: "llvalue option \<Rightarrow> unit lifter" where
  "createReturn v = emit_void (RetI v)"

definition getLowOnes :: "nat \<Rightarrow> nat \<Rightarrow> llvalue lifter" where
  "getLowOnes ones w = bnd (getUnsignedIntConst 0 ones) (\<lambda>zero. bnd (getUnsignedIntConst 1 ones) (\<lambda>one.
     bnd (createSub zero one) (\<lambda>minusOne. createZExt minusOne (IntTy w))))"

text \<open>\<open>createMSL\<close>: shift left, shifting ones in.\<close>

definition createMSL :: "llvalue \<Rightarrow> nat \<Rightarrow> llvalue lifter" where
  "createMSL a b = bnd (bit_width a) (\<lambda>w. bnd (getUnsignedIntConst (int b) w) (\<lambda>amt.
     bnd (emit_named (type_of a) (BinopI Shl a amt)) (\<lambda>v.
     bnd (getLowOnes b w) (\<lambda>ones. createOr v ones))))"

text \<open>The two casts the code builds with \<open>new PtrToIntInst\<close> and \<open>new IntToPtrInst\<close>, unnamed.\<close>

definition newPtrToInt :: "llvalue \<Rightarrow> ty \<Rightarrow> llvalue lifter" where
  "newPtrToInt v t = emit '''' t (CastI PtrToInt v t)"

definition newIntToPtr :: "llvalue \<Rightarrow> llvalue lifter" where
  "newIntToPtr v = emit '''' PtrTy (CastI IntToPtr v PtrTy)"

section \<open>Masked shifts\<close>

definition masked_shift :: "binop \<Rightarrow> llvalue \<Rightarrow> llvalue \<Rightarrow> llvalue lifter" where
  "masked_shift bop a b =
     andthen (check (type_of a = type_of b) (Assertion ''Expected values of same type''))
     (bnd (getMaskByType (type_of a)) (\<lambda>mask.
      andthen (check (type_of a = type_of mask) (Assertion ''Expected values of same type''))
      (bnd (emit_named (type_of mask) (BinopI And mask b)) (\<lambda>masked.
       emit_named (type_of a) (BinopI bop a masked)))))"

definition createMaskedLShr :: "llvalue \<Rightarrow> llvalue \<Rightarrow> llvalue lifter" where
  "createMaskedLShr a b = masked_shift LShr a b"

definition createMaskedAShr :: "llvalue \<Rightarrow> llvalue \<Rightarrow> llvalue lifter" where
  "createMaskedAShr a b = masked_shift AShr a b"

definition createMaskedShl :: "llvalue \<Rightarrow> llvalue \<Rightarrow> llvalue lifter" where
  "createMaskedShl a b = masked_shift Shl a b"

text \<open>Shifts by a signed amount: a negative amount goes the other direction.\<close>

definition createUSHL :: "llvalue \<Rightarrow> llvalue \<Rightarrow> llvalue lifter" where
  "createUSHL a b =
     bnd (bit_width b) (\<lambda>w. bnd (getUnsignedIntConst 0 w) (\<lambda>zero.
     bnd (createICmp ICMP_SGT b zero) (\<lambda>c.
     bnd (createSub zero b) (\<lambda>neg.
     bnd (createMaskedShl a b) (\<lambda>posRes.
     bnd (createMaskedLShr a neg) (\<lambda>negRes.
     createSelect c posRes negRes))))))"

definition createSSHL :: "llvalue \<Rightarrow> llvalue \<Rightarrow> llvalue lifter" where
  "createSSHL a b =
     bnd (bit_width b) (\<lambda>w. bnd (getUnsignedIntConst 0 w) (\<lambda>zero.
     bnd (createICmp ICMP_SGT b zero) (\<lambda>c.
     bnd (createSub zero b) (\<lambda>neg.
     bnd (createMaskedShl a b) (\<lambda>posRes.
     bnd (createMaskedAShr a neg) (\<lambda>negRes.
     createSelect c posRes negRes))))))"

definition concat_bits :: "llvalue \<Rightarrow> llvalue \<Rightarrow> llvalue lifter" where
  "concat_bits a b =
     bnd (bit_width a) (\<lambda>wa. bnd (bit_width b) (\<lambda>wb.
     bnd (createZExt a (IntTy (wa + wb))) (\<lambda>wide_a.
     bnd (createZExt b (IntTy (wa + wb))) (\<lambda>wide_b.
     bnd (getUnsignedIntConst (int wb) (wa + wb)) (\<lambda>amount.
     bnd (createRawShl wide_a amount) (\<lambda>shifted_a.
     createOr shifted_a wide_b))))))"

section \<open>Total divisions\<close>

text \<open>Division by zero and \<open>INT_MIN / -1\<close> are undefined in LLVM; these build a diamond that
  substitutes a given value and leave \<open>LLVMBB\<close> at the join block.\<close>

definition checked_unsigned :: "binop \<Rightarrow> llvalue \<Rightarrow> llvalue \<Rightarrow> llvalue \<Rightarrow> llvalue lifter" where
  "checked_unsigned bop a b ifDivByZero =
     bnd (bit_width a) (\<lambda>size. bnd (bit_width b) (\<lambda>sizeb.
     andthen (check (size = sizeb) (Assertion ''size == sizeb''))
     (bnd (newBlock '''') (\<lambda>divBB. bnd (newBlock '''') (\<lambda>retBB.
      bnd (getUnsignedIntConst 0 size) (\<lambda>zero.
      bnd (getUnsignedIntConst 1 64) (\<lambda>one.
      bnd (createAlloca (IntTy size) one '''') (\<lambda>resPtr.
      andthen (createStore ifDivByZero resPtr)
      (bnd (createICmp ICMP_EQ b zero) (\<lambda>RHSIsZero.
      andthen (createCondBranch RHSIsZero retBB divBB)
      (andthen (set_bb divBB)
      (bnd (emit_named (type_of a) (BinopI bop a b)) (\<lambda>divResult.
      andthen (createStore divResult resPtr)
      (andthen (createBranch retBB)
      (andthen (set_bb retBB)
      (createLoad (IntTy size) resPtr))))))))))))))))"

definition createCheckedUDiv :: "llvalue \<Rightarrow> llvalue \<Rightarrow> llvalue \<Rightarrow> llvalue lifter" where
  "createCheckedUDiv a b ifDivByZero = checked_unsigned UDiv a b ifDivByZero"

definition createCheckedURem :: "llvalue \<Rightarrow> llvalue \<Rightarrow> llvalue \<Rightarrow> llvalue lifter" where
  "createCheckedURem a b ifDivByZero = checked_unsigned URem a b ifDivByZero"

definition checked_signed ::
    "binop \<Rightarrow> llvalue \<Rightarrow> llvalue \<Rightarrow> llvalue \<Rightarrow> llvalue \<Rightarrow> llvalue lifter" where
  "checked_signed bop a b ifDivByZero ifOverflow =
     bnd (bit_width a) (\<lambda>size. bnd (bit_width b) (\<lambda>sizeb.
     andthen (check (size = sizeb) (Assertion ''size == sizeb''))
     (bnd (newBlock '''') (\<lambda>checkOverflowBB. bnd (newBlock '''') (\<lambda>overflowBB.
      bnd (newBlock '''') (\<lambda>divBB. bnd (newBlock '''') (\<lambda>retBB.
      bnd (getUnsignedIntConst 0 size) (\<lambda>zero.
      bnd (getUnsignedIntConst 1 64) (\<lambda>one.
      bnd (createAlloca (IntTy size) one '''') (\<lambda>resPtr.
      andthen (createStore ifDivByZero resPtr)
      (bnd (createICmp ICMP_EQ b zero) (\<lambda>RHSIsZero.
      andthen (createCondBranch RHSIsZero retBB checkOverflowBB)
      (andthen (set_bb checkOverflowBB)
      (bnd (createICmp ICMP_EQ a (getSignedMinConst size)) (\<lambda>LHSIsIntMin.
      bnd (createICmp ICMP_EQ b (getAllOnesConst size)) (\<lambda>RHSIsAllOnes.
      bnd (createAnd LHSIsIntMin RHSIsAllOnes) (\<lambda>isOverflow.
      andthen (createCondBranch isOverflow overflowBB divBB)
      (andthen (set_bb overflowBB)
      (andthen (createStore ifOverflow resPtr)
      (andthen (createBranch retBB)
      (andthen (set_bb divBB)
      (bnd (emit_named (type_of a) (BinopI bop a b)) (\<lambda>divResult.
      andthen (createStore divResult resPtr)
      (andthen (createBranch retBB)
      (andthen (set_bb retBB)
      (createLoad (IntTy size) resPtr))))))))))))))))))))))))))"

definition createCheckedSDiv ::
    "llvalue \<Rightarrow> llvalue \<Rightarrow> llvalue \<Rightarrow> llvalue \<Rightarrow> llvalue lifter" where
  "createCheckedSDiv a b ifDivByZero ifOverflow = checked_signed SDiv a b ifDivByZero ifOverflow"

definition createCheckedSRem ::
    "llvalue \<Rightarrow> llvalue \<Rightarrow> llvalue \<Rightarrow> llvalue \<Rightarrow> llvalue lifter" where
  "createCheckedSRem a b ifDivByZero ifOverflow = checked_signed SRem a b ifDivByZero ifOverflow"

end
