(* ===== verification/LLVM_Exec.thy ===== *)
theory LLVM_Exec
  imports LLVM_IR
begin

text \<open>
  Execution of emitted code over the semantics parameter: a small-step machine on
  (block, position) with the SSA environment, the storage of allocas and an abstract memory.
  Storage of an alloca is kept apart from memory and addressed by the alloca's own number:
  the lifter only ever loads from and stores to its register and scratch allocas, it never
  lets their address flow into a value. Pointers into memory are physical 64-bit addresses
  (Alive2's assembly-mode view, which the driver switches on).
\<close>

datatype val = VInt nat int | VPtr int | VSlot nat | VStruct "val list"

record 'm machine =
  env :: "nat \<Rightarrow> val option"
  slots :: "nat \<Rightarrow> (nat \<times> int) option"
  mem :: 'm
  args :: "nat \<Rightarrow> val option"

definition eval :: "'m llvm_sem \<Rightarrow> 'm machine \<Rightarrow> llvalue \<Rightarrow> val option" where
  "eval S \<sigma> v = (case v of
     ConstInt w x \<Rightarrow> Some (VInt w x)
   | ConstVec w xs \<Rightarrow> None
   | Local i _ \<Rightarrow> env \<sigma> i
   | ArgV i _ \<Rightarrow> args \<sigma> i
   | GlobalV g \<Rightarrow> Some (VPtr (sem_global S g)))"

fun bits_of :: "ty \<Rightarrow> nat option" where
  "bits_of (IntTy w) = Some w"
| "bits_of PtrTy = Some 64"
| "bits_of _ = None"

fun scalar :: "ty \<Rightarrow> int \<Rightarrow> val option" where
  "scalar (IntTy w) x = Some (VInt w x)"
| "scalar PtrTy x = Some (VPtr x)"
| "scalar _ x = None"

fun scalar_bits :: "val \<Rightarrow> (nat \<times> int) option" where
  "scalar_bits (VInt w x) = Some (w, x)"
| "scalar_bits (VPtr x) = Some (64, x)"
| "scalar_bits _ = None"

definition define_local :: "nat \<Rightarrow> val \<Rightarrow> 'm machine \<Rightarrow> 'm machine" where
  "define_local k x \<sigma> = \<sigma>\<lparr>env := (env \<sigma>)(k \<mapsto> x)\<rparr>"

definition exec_cast :: "'m llvm_sem \<Rightarrow> castop \<Rightarrow> val \<Rightarrow> ty \<Rightarrow> val option" where
  "exec_cast S c v t = (case c of
     PtrToInt \<Rightarrow> (case (v, t) of (VPtr x, IntTy w) \<Rightarrow> if w = 64 then Some (VInt 64 x) else None | _ \<Rightarrow> None)
   | IntToPtr \<Rightarrow> (case (v, t) of (VInt w x, PtrTy) \<Rightarrow> if w = 64 then Some (VPtr x) else None | _ \<Rightarrow> None)
   | Trunc \<Rightarrow> (case (v, t) of (VInt w x, IntTy w') \<Rightarrow>
       if w' < w then Some (VInt w' (sem_cast S Trunc w w' x)) else None | _ \<Rightarrow> None)
   | _ \<Rightarrow> (case (v, t) of (VInt w x, IntTy w') \<Rightarrow>
       if w < w' then Some (VInt w' (sem_cast S c w w' x)) else None | _ \<Rightarrow> None))"

lemma exec_cast_simps [simp]:
  "exec_cast S PtrToInt (VPtr x) (IntTy w) = (if w = 64 then Some (VInt 64 x) else None)"
  "exec_cast S IntToPtr (VInt w x) PtrTy = (if w = 64 then Some (VPtr x) else None)"
  "exec_cast S Trunc (VInt w x) (IntTy w') = (if w' < w then Some (VInt w' (sem_cast S Trunc w w' x)) else None)"
  "exec_cast S ZExt (VInt w x) (IntTy w') = (if w < w' then Some (VInt w' (sem_cast S ZExt w w' x)) else None)"
  "exec_cast S SExt (VInt w x) (IntTy w') = (if w < w' then Some (VInt w' (sem_cast S SExt w w' x)) else None)"
  by (simp_all add: exec_cast_def)

definition exec_load :: "'m llvm_sem \<Rightarrow> ty \<Rightarrow> val \<Rightarrow> 'm machine \<Rightarrow> val option" where
  "exec_load S t p \<sigma> = (case bits_of t of None \<Rightarrow> None | Some w \<Rightarrow> (case p of
     VSlot j \<Rightarrow> (case slots \<sigma> j of
        Some (w', x) \<Rightarrow> if w' = w then scalar t x else None
      | None \<Rightarrow> None)
   | VPtr a \<Rightarrow> Option.bind (sem_load S (mem \<sigma>) w a) (scalar t)
   | _ \<Rightarrow> None))"

definition exec_store :: "'m llvm_sem \<Rightarrow> val \<Rightarrow> val \<Rightarrow> 'm machine \<Rightarrow> 'm machine option" where
  "exec_store S v p \<sigma> = (case scalar_bits v of None \<Rightarrow> None | Some (w, x) \<Rightarrow> (case p of
     VSlot j \<Rightarrow> Some (\<sigma>\<lparr>slots := (slots \<sigma>)(j \<mapsto> (w, x))\<rparr>)
   | VPtr a \<Rightarrow> map_option (\<lambda>m. \<sigma>\<lparr>mem := m\<rparr>) (sem_store S (mem \<sigma>) w a x)
   | _ \<Rightarrow> None))"

text \<open>Evaluation of one instruction that is not a terminator: the value it defines (if any) and
  the state it leaves, before its result is bound.\<close>

definition exec_instr ::
    "'m llvm_sem \<Rightarrow> nat \<Rightarrow> instr \<Rightarrow> 'm machine \<Rightarrow> (val option \<times> 'm machine) option" where
  "exec_instr S k ins \<sigma> = (case ins of
     AllocaI t n \<Rightarrow> Some (Some (VSlot k), \<sigma>\<lparr>slots := (slots \<sigma>)(k := None)\<rparr>)
   | LoadI t p \<Rightarrow> Option.bind (eval S \<sigma> p) (\<lambda>pv.
       map_option (\<lambda>x. (Some x, \<sigma>)) (exec_load S t pv \<sigma>))
   | StoreI v p \<Rightarrow> Option.bind (eval S \<sigma> v) (\<lambda>x. Option.bind (eval S \<sigma> p) (\<lambda>pv.
       map_option (\<lambda>\<sigma>'. (None, \<sigma>')) (exec_store S x pv \<sigma>)))
   | GEPI t p i \<Rightarrow> (case (t, eval S \<sigma> p, eval S \<sigma> i) of
       (IntTy w, Some (VPtr a), Some (VInt w' x)) \<Rightarrow>
         if w = 8 \<and> w' = 64 then Some (Some (VPtr (sem_gep S a x)), \<sigma>) else None
     | _ \<Rightarrow> None)
   | BinopI bop a b \<Rightarrow> (case (eval S \<sigma> a, eval S \<sigma> b) of
       (Some (VInt w x), Some (VInt w' y)) \<Rightarrow>
         if w = w' then map_option (\<lambda>z. (Some (VInt w z), \<sigma>)) (sem_bin S bop w x y) else None
     | _ \<Rightarrow> None)
   | ICmpI p a b \<Rightarrow> (case (eval S \<sigma> a, eval S \<sigma> b) of
       (Some (VInt w x), Some (VInt w' y)) \<Rightarrow>
         if w = w' then Some (Some (VInt 1 (of_bool (sem_icmp S p w x y))), \<sigma>) else None
     | _ \<Rightarrow> None)
   | SelectI c a b \<Rightarrow> (case eval S \<sigma> c of
       Some (VInt w x) \<Rightarrow> if w = 1 then
           map_option (\<lambda>v. (Some v, \<sigma>)) (eval S \<sigma> (if x = 1 then a else b)) else None
     | _ \<Rightarrow> None)
   | CastI c v t \<Rightarrow> Option.bind (eval S \<sigma> v) (\<lambda>x.
       map_option (\<lambda>y. (Some y, \<sigma>)) (exec_cast S c x t))
   | BSwapI v \<Rightarrow> (case eval S \<sigma> v of
       Some (VInt w x) \<Rightarrow> Some (Some (VInt w (sem_bswap S w x)), \<sigma>)
     | _ \<Rightarrow> None)
   | CallI f as t \<Rightarrow> Option.bind (those (map (eval S \<sigma>) as)) (\<lambda>vs.
       Option.bind (those (map scalar_bits vs)) (\<lambda>xs.
       Option.bind (sem_call S f xs (mem \<sigma>)) (\<lambda>(r, m).
         if t = VoidTy then Some (None, \<sigma>\<lparr>mem := m\<rparr>)
         else map_option (\<lambda>y. (Some y, \<sigma>\<lparr>mem := m\<rparr>)) (scalar t r))))
   | AtomicRMWI rop p v al \<Rightarrow> (case (eval S \<sigma> p, eval S \<sigma> v) of
       (Some (VPtr a), Some (VInt w x)) \<Rightarrow>
         map_option (\<lambda>(old, m). (Some (VInt w old), \<sigma>\<lparr>mem := m\<rparr>)) (sem_rmw S rop (mem \<sigma>) w al a x)
     | _ \<Rightarrow> None)
   | CmpXchgI p e v al \<Rightarrow> (case (eval S \<sigma> p, eval S \<sigma> e, eval S \<sigma> v) of
       (Some (VPtr a), Some (VInt w x), Some (VInt w' y)) \<Rightarrow>
         if w = w' then map_option (\<lambda>(old, m).
             (Some (VStruct [VInt w old, VInt 1 (of_bool (old = x))]), \<sigma>\<lparr>mem := m\<rparr>))
             (sem_cmpxchg S (mem \<sigma>) w al a x y) else None
     | _ \<Rightarrow> None)
   | ExtractValueI v i \<Rightarrow> (case eval S \<sigma> v of
       Some (VStruct vs) \<Rightarrow> if i < length vs then Some (Some (vs ! i), \<sigma>) else None
     | _ \<Rightarrow> None)
   | _ \<Rightarrow> None)"

section \<open>Program positions and steps\<close>

datatype 'm conf = Run nat nat "'m machine" | Returned "val option" "'m machine"

definition fetch :: "code \<Rightarrow> nat \<Rightarrow> nat \<Rightarrow> insn option" where
  "fetch F b i = (if b < length F \<and> i < length (snd (F ! b)) then Some (snd (F ! b) ! i) else None)"

definition exec_at :: "'m llvm_sem \<Rightarrow> nat \<Rightarrow> nat \<Rightarrow> insn \<Rightarrow> 'm machine \<Rightarrow> 'm conf option" where
  "exec_at S b i x \<sigma> = (case x of (k, nm, ins) \<Rightarrow> (case ins of
     CondBrI c t f \<Rightarrow> (case eval S \<sigma> c of
       Some (VInt w y) \<Rightarrow> if w = 1 then Some (Run (if y = 1 then t else f) 0 \<sigma>) else None
     | _ \<Rightarrow> None)
   | BrI t \<Rightarrow> Some (Run t 0 \<sigma>)
   | RetI None \<Rightarrow> Some (Returned None \<sigma>)
   | RetI (Some v) \<Rightarrow> map_option (\<lambda>y. Returned (Some y) \<sigma>) (eval S \<sigma> v)
   | _ \<Rightarrow> (case exec_instr S k ins \<sigma> of
       None \<Rightarrow> None
     | Some (None, \<sigma>') \<Rightarrow> Some (Run b (Suc i) \<sigma>')
     | Some (Some y, \<sigma>') \<Rightarrow> Some (Run b (Suc i) (define_local k y \<sigma>')))))"

fun step :: "'m llvm_sem \<Rightarrow> code \<Rightarrow> 'm conf \<Rightarrow> 'm conf option" where
  "step S F (Run b i \<sigma>) = (case fetch F b i of None \<Rightarrow> None | Some x \<Rightarrow> exec_at S b i x \<sigma>)"
| "step S F (Returned v \<sigma>) = None"

inductive steps :: "'m llvm_sem \<Rightarrow> code \<Rightarrow> 'm conf \<Rightarrow> 'm conf \<Rightarrow> bool" for S F where
  steps_refl [simp, intro]: "steps S F c c"
| steps_step: "step S F c = Some c' \<Longrightarrow> steps S F c' c'' \<Longrightarrow> steps S F c c''"

inductive_cases steps_returnedE: "steps S F (Returned v \<sigma>) c"
inductive_cases steps_toE: "steps S F c c'"

fun run_fuel :: "nat \<Rightarrow> 'm llvm_sem \<Rightarrow> code \<Rightarrow> 'm conf \<Rightarrow> 'm conf option" where
  "run_fuel 0 S F c = None"
| "run_fuel (Suc n) S F c = (case c of Returned _ _ \<Rightarrow> Some c
     | Run _ _ _ \<Rightarrow> Option.bind (step S F c) (run_fuel n S F))"

section \<open>Code only grows: executions persist\<close>

definition code_le :: "code \<Rightarrow> code \<Rightarrow> bool" where
  "code_le F G \<longleftrightarrow> length F \<le> length G \<and>
     (\<forall>b < length F. fst (G ! b) = fst (F ! b) \<and> prefix (snd (F ! b)) (snd (G ! b)))"

lemma code_le_refl [simp]: "code_le F F"
  by (simp add: code_le_def)

lemma code_le_trans:
  assumes FG: "code_le F G" and GH: "code_le G H"
  shows "code_le F H"
  unfolding code_le_def
proof (intro conjI allI impI)
  show "length F \<le> length H" using FG GH by (simp add: code_le_def)
  fix b assume b: "b < length F"
  with FG have b': "b < length G" by (simp add: code_le_def)
  show "fst (H ! b) = fst (F ! b)"
    using FG GH b b' by (simp add: code_le_def)
  show "prefix (snd (F ! b)) (snd (H ! b))"
    using FG GH b b' unfolding code_le_def by (blast intro: prefix_order.trans)
qed

lemma fetch_mono: "code_le F G \<Longrightarrow> fetch F b i = Some x \<Longrightarrow> fetch G b i = Some x"
  by (auto simp: code_le_def fetch_def prefix_def nth_append split: if_splits)

lemma step_mono: "code_le F G \<Longrightarrow> step S F c = Some c' \<Longrightarrow> step S G c = Some c'"
  by (cases c) (auto split: option.splits dest: fetch_mono)

lemma steps_mono: "steps S F c c' \<Longrightarrow> code_le F G \<Longrightarrow> steps S G c c'"
  by (induction rule: steps.induct) (auto intro: step_mono steps_step)

lemma steps_trans: "steps S F c c' \<Longrightarrow> steps S F c' c'' \<Longrightarrow> steps S F c c''"
  by (induction rule: steps.induct) (auto intro: steps_step)

lemma steps_one: "step S F c = Some c' \<Longrightarrow> steps S F c c'"
  by (rule steps_step) auto

lemma steps_returned_final: "steps S F (Returned v \<sigma>) c \<Longrightarrow> c = Returned v \<sigma>"
  by (auto elim: steps_returnedE)

lemma steps_after_step: "steps S F c (Returned v \<sigma>) \<Longrightarrow> step S F c = Some d \<Longrightarrow> steps S F d (Returned v \<sigma>)"
  by (auto elim: steps_toE)

text \<open>The machine is deterministic: two returning executions from one position agree.\<close>

lemma steps_returned_unique:
  "steps S F c d \<Longrightarrow> d = Returned v \<sigma> \<Longrightarrow> steps S F c (Returned v' \<sigma>') \<Longrightarrow> v = v' \<and> \<sigma> = \<sigma>'"
  by (induction rule: steps.induct) (auto dest: steps_returned_final steps_after_step)

text \<open>The executable runner computes such an execution.\<close>

lemma run_fuel_steps: "run_fuel n S F c = Some d \<Longrightarrow> steps S F c d"
  by (induction n arbitrary: c) (auto split: conf.splits bind_splits intro: steps_step)

end
