(* ===== verification/Emission.thy ===== *)
theory Emission
  imports Builder LLVM_Exec
begin

text \<open>
  How emitted code behaves: a weakest-precondition calculus for builder actions. \<open>wp S m Q s \<sigma>\<close> says
  that the action \<open>m\<close> succeeds from lifter state \<open>s\<close>, only appends code, and that executing the
  code it appended, from the machine state \<open>\<sigma>\<close> at the position where emission stood, reaches the
  position where emission stands afterwards in a state with \<open>Q\<close>. \<open>wpj\<close> is the same for actions that
  end in a terminator and leave for another position. The relation \<open>pure\<close> collects what code
  without stores to registers or memory preserves; \<open>hw s \<sigma> v x\<close> says that the SSA value \<open>v\<close> holds the
  machine word \<open>x\<close>.
\<close>

section \<open>Positions, growth, and the two predicates\<close>

definition cur :: "lstate \<Rightarrow> 'm machine \<Rightarrow> 'm conf" where
  "cur s \<sigma> = Run (LLVMBB s) (length (snd (fn s ! LLVMBB s))) \<sigma>"

definition wf :: "lstate \<Rightarrow> bool" where
  "wf s \<longleftrightarrow> LLVMBB s < length (fn s)"

definition grows :: "lstate \<Rightarrow> lstate \<Rightarrow> bool" where
  "grows s s' \<longleftrightarrow> code_le (fn s) (fn s') \<and> nid s \<le> nid s'"

definition wp :: "'m llvm_sem \<Rightarrow> 'a lifter \<Rightarrow> ('a \<Rightarrow> lstate \<Rightarrow> 'm machine \<Rightarrow> bool) \<Rightarrow>
    lstate \<Rightarrow> 'm machine \<Rightarrow> bool" where
  "wp S m Q s \<sigma> \<longleftrightarrow> (\<exists>v s' \<sigma>'. m s = Inr (v, s') \<and> grows s s' \<and>
     steps S (fn s') (cur s \<sigma>) (cur s' \<sigma>') \<and> Q v s' \<sigma>')"

definition wpj :: "'m llvm_sem \<Rightarrow> 'a lifter \<Rightarrow> (lstate \<Rightarrow> 'm conf \<Rightarrow> bool) \<Rightarrow>
    lstate \<Rightarrow> 'm machine \<Rightarrow> bool" where
  "wpj S m Q s \<sigma> \<longleftrightarrow> (\<exists>v s' c. m s = Inr (v, s') \<and> grows s s' \<and>
     steps S (fn s') (cur s \<sigma>) c \<and> Q s' c)"

lemma grows_refl [simp]: "grows s s"
  by (simp add: grows_def)

lemma grows_trans: "grows s s' \<Longrightarrow> grows s' s'' \<Longrightarrow> grows s s''"
  by (auto simp: grows_def intro: code_le_trans)

lemma wp_ret [wp_intro]: "Q v s \<sigma> \<Longrightarrow> wp S (ret v) Q s \<sigma>"
  by (auto simp: wp_def)

lemma wp_gets [wp_intro]: "Q (f s) s \<sigma> \<Longrightarrow> wp S (gets f) Q s \<sigma>"
  by (auto simp: wp_def)

lemma wp_check [wp_intro]: "b \<Longrightarrow> Q () s \<sigma> \<Longrightarrow> wp S (check b e) Q s \<sigma>"
  by (auto simp: wp_def)

lemma wp_from_option [wp_intro]: "x = Some v \<Longrightarrow> Q v s \<sigma> \<Longrightarrow> wp S (from_option e x) Q s \<sigma>"
  by (auto simp: wp_def)

lemma wp_weaken: "wp S m Q s \<sigma> \<Longrightarrow> (\<And>v s' \<sigma>'. Q v s' \<sigma>' \<Longrightarrow> Q' v s' \<sigma>') \<Longrightarrow> wp S m Q' s \<sigma>"
  unfolding wp_def by blast

lemma wp_bnd:
  assumes "wp S m (\<lambda>v s' \<sigma>'. wp S (k v) Q s' \<sigma>') s \<sigma>"
  shows "wp S (bnd m k) Q s \<sigma>"
proof -
  from assms obtain v s1 \<sigma>1 where 1: "m s = Inr (v, s1)" "grows s s1"
      "steps S (fn s1) (cur s \<sigma>) (cur s1 \<sigma>1)" and "wp S (k v) Q s1 \<sigma>1"
    unfolding wp_def by blast
  then obtain u s2 \<sigma>2 where 2: "k v s1 = Inr (u, s2)" "grows s1 s2"
      "steps S (fn s2) (cur s1 \<sigma>1) (cur s2 \<sigma>2)" "Q u s2 \<sigma>2"
    unfolding wp_def by blast
  have "steps S (fn s2) (cur s \<sigma>) (cur s1 \<sigma>1)"
    using 1(3) 2(2) by (auto simp: grows_def intro: steps_mono)
  with 1 2 show ?thesis
    unfolding wp_def by (auto intro: grows_trans steps_trans)
qed

lemma wp_andthen: "wp S m (\<lambda>_ s' \<sigma>'. wp S k Q s' \<sigma>') s \<sigma> \<Longrightarrow> wp S (andthen m k) Q s \<sigma>"
  unfolding andthen_def by (rule wp_bnd)

lemma wpj_bnd:
  assumes "wp S m (\<lambda>v s' \<sigma>'. wpj S (k v) Q s' \<sigma>') s \<sigma>"
  shows "wpj S (bnd m k) Q s \<sigma>"
proof -
  from assms obtain v s1 \<sigma>1 where 1: "m s = Inr (v, s1)" "grows s s1"
      "steps S (fn s1) (cur s \<sigma>) (cur s1 \<sigma>1)" and "wpj S (k v) Q s1 \<sigma>1"
    unfolding wp_def by blast
  then obtain u s2 c where 2: "k v s1 = Inr (u, s2)" "grows s1 s2"
      "steps S (fn s2) (cur s1 \<sigma>1) c" "Q s2 c"
    unfolding wpj_def by blast
  have "steps S (fn s2) (cur s \<sigma>) (cur s1 \<sigma>1)"
    using 1(3) 2(2) by (auto simp: grows_def intro: steps_mono)
  with 1 2 show ?thesis
    unfolding wpj_def by (auto intro: grows_trans steps_trans)
qed

lemma wpj_andthen: "wp S m (\<lambda>_ s' \<sigma>'. wpj S k Q s' \<sigma>') s \<sigma> \<Longrightarrow> wpj S (andthen m k) Q s \<sigma>"
  unfolding andthen_def by (rule wpj_bnd)

section \<open>What straight-line code preserves\<close>

definition same_ctx :: "lstate \<Rightarrow> lstate \<Rightarrow> bool" where
  "same_ctx s s' \<longleftrightarrow> RegFile s' = RegFile s \<and> CurInst s' = CurInst s \<and> MCBB s' = MCBB s
     \<and> bytesMode s' = bytesMode s \<and> stackMem s' = stackMem s
     \<and> (\<forall>b < length (fn s). fst (fn s' ! b) = fst (fn s ! b)) \<and> length (fn s) \<le> length (fn s')"

definition keeps :: "lstate \<Rightarrow> 'm machine \<Rightarrow> 'm machine \<Rightarrow> bool" where
  "keeps s \<sigma> \<sigma>' \<longleftrightarrow> (\<forall>i < nid s. env \<sigma>' i = env \<sigma> i) \<and> args \<sigma>' = args \<sigma>"

definition pure :: "lstate \<Rightarrow> 'm machine \<Rightarrow> lstate \<Rightarrow> 'm machine \<Rightarrow> bool" where
  "pure s \<sigma> s' \<sigma>' \<longleftrightarrow> wf s' \<and> nid s \<le> nid s' \<and> same_ctx s s' \<and> keeps s \<sigma> \<sigma>'
     \<and> (\<forall>k < nid s. slots \<sigma>' k = slots \<sigma> k) \<and> mem \<sigma>' = mem \<sigma>"

lemma same_ctx_refl [simp]: "same_ctx s s"
  by (simp add: same_ctx_def)

lemma same_ctx_trans: "same_ctx s s' \<Longrightarrow> same_ctx s' s'' \<Longrightarrow> same_ctx s s''"
  by (auto simp: same_ctx_def)

lemma pure_refl: "wf s \<Longrightarrow> pure s \<sigma> s \<sigma>"
  by (simp add: pure_def keeps_def)

lemma pure_trans: "pure s \<sigma> s' \<sigma>' \<Longrightarrow> pure s' \<sigma>' s'' \<sigma>'' \<Longrightarrow> pure s \<sigma> s'' \<sigma>''"
  by (auto simp: pure_def keeps_def intro: same_ctx_trans)

lemma pure_wf: "pure s \<sigma> s' \<sigma>' \<Longrightarrow> wf s'"
  by (simp add: pure_def)

section \<open>Values\<close>

fun ssa_below :: "nat \<Rightarrow> llvalue \<Rightarrow> bool" where
  "ssa_below n (Local i _) = (i < n)"
| "ssa_below n _ = True"

definition holds :: "'m llvm_sem \<Rightarrow> lstate \<Rightarrow> 'm machine \<Rightarrow> llvalue \<Rightarrow> val \<Rightarrow> bool" where
  "holds S s \<sigma> v x \<longleftrightarrow> ssa_below (nid s) v \<and> eval S \<sigma> v = Some x"

definition hw :: "'m llvm_sem \<Rightarrow> lstate \<Rightarrow> 'm machine \<Rightarrow> llvalue \<Rightarrow> 'w::len word \<Rightarrow> bool" where
  "hw S s \<sigma> v x \<longleftrightarrow> holds S s \<sigma> v (VInt LENGTH('w) (uint x)) \<and> type_of v = IntTy LENGTH('w)"

definition hp :: "'m llvm_sem \<Rightarrow> lstate \<Rightarrow> 'm machine \<Rightarrow> llvalue \<Rightarrow> 64 word \<Rightarrow> bool" where
  "hp S s \<sigma> v x \<longleftrightarrow> holds S s \<sigma> v (VPtr (uint x)) \<and> type_of v = PtrTy"

definition hb :: "'m llvm_sem \<Rightarrow> lstate \<Rightarrow> 'm machine \<Rightarrow> llvalue \<Rightarrow> bool \<Rightarrow> bool" where
  "hb S s \<sigma> v b \<longleftrightarrow> holds S s \<sigma> v (VInt 1 (of_bool b)) \<and> type_of v = IntTy 1"

lemma holds_keeps:
  assumes "holds S s \<sigma> v x" and "nid s \<le> nid s'" and "keeps s \<sigma> \<sigma>'"
  shows "holds S s' \<sigma>' v x"
  using assms by (cases v) (auto simp: holds_def keeps_def eval_def)

lemma holds_pure: "holds S s \<sigma> v x \<Longrightarrow> pure s \<sigma> s' \<sigma>' \<Longrightarrow> holds S s' \<sigma>' v x"
  by (auto simp: pure_def intro: holds_keeps)

lemma hw_pure: "hw S s \<sigma> v x \<Longrightarrow> pure s \<sigma> s' \<sigma>' \<Longrightarrow> hw S s' \<sigma>' v x"
  by (auto simp: hw_def intro: holds_pure)

lemma hp_pure: "hp S s \<sigma> v x \<Longrightarrow> pure s \<sigma> s' \<sigma>' \<Longrightarrow> hp S s' \<sigma>' v x"
  by (auto simp: hp_def intro: holds_pure)

lemma hb_pure: "hb S s \<sigma> v x \<Longrightarrow> pure s \<sigma> s' \<sigma>' \<Longrightarrow> hb S s' \<sigma>' v x"
  by (auto simp: hb_def intro: holds_pure)

lemma hw_type: "hw S s \<sigma> v (x :: 'w::len word) \<Longrightarrow> type_of v = IntTy LENGTH('w)"
  by (simp add: hw_def)

lemma hw_const: "x = take_bit LENGTH('w) n \<Longrightarrow> hw S s \<sigma> (ConstInt LENGTH('w) x) (word_of_int n :: 'w::len word)"
  by (simp add: hw_def holds_def eval_def uint_word_of_int_eq)

text \<open>\<open>hslot\<close>: the SSA value is the pointer to the alloca number \<open>k\<close>.\<close>

definition hslot :: "lstate \<Rightarrow> 'm machine \<Rightarrow> llvalue \<Rightarrow> nat \<Rightarrow> bool" where
  "hslot s \<sigma> p k \<longleftrightarrow> (\<exists>i. p = Local i PtrTy \<and> i < nid s \<and> env \<sigma> i = Some (VSlot k))"

lemma hslot_pure: "hslot s \<sigma> p k \<Longrightarrow> pure s \<sigma> s' \<sigma>' \<Longrightarrow> hslot s' \<sigma>' p k"
  by (auto simp: hslot_def pure_def keeps_def)

lemma eval_hslot: "hslot s \<sigma> p k \<Longrightarrow> eval S \<sigma> p = Some (VSlot k)"
  by (auto simp: hslot_def eval_def)

section \<open>Appending one instruction\<close>

lemma append_insn_simps:
  assumes "b < length F"
  shows "length (append_insn x b F) = length F"
    and "snd (append_insn x b F ! b) = snd (F ! b) @ [x]"
    and "fst (append_insn x b F ! c) = fst (F ! c)"
    and "code_le F (append_insn x b F)"
  using assms by (auto simp: append_insn_def code_le_def nth_list_update)

lemma fetch_appended:
  assumes "b < length F"
  shows "fetch (append_insn x b F) b (length (snd (F ! b))) = Some x"
  using assms by (simp add: fetch_def append_insn_simps)

lemma emit_facts:
  assumes "wf s" and "emit nm t ins s = Inr (v, s')"
  shows "v = Local (nid s) t" "wf s'" "grows s s'" "same_ctx s s'" "nid s' = Suc (nid s)"
    "LLVMBB s' = LLVMBB s"
    "snd (fn s' ! LLVMBB s) = snd (fn s ! LLVMBB s) @ [(nid s, nm, ins)]"
    "fetch (fn s') (LLVMBB s) (length (snd (fn s ! LLVMBB s))) = Some (nid s, nm, ins)"
  using assms by (auto simp: emit_def wf_def grows_def same_ctx_def append_insn_simps fetch_appended)

lemma exec_at_value:
  "exec_instr S k ins \<sigma> = Some (Some x, \<sigma>') \<Longrightarrow>
    exec_at S b i (k, nm, ins) \<sigma> = Some (Run b (Suc i) (define_local k x \<sigma>'))"
  by (cases ins) (auto simp: exec_at_def exec_instr_def split: option.splits)

lemma exec_at_void:
  "exec_instr S k ins \<sigma> = Some (None, \<sigma>') \<Longrightarrow>
    exec_at S b i (k, nm, ins) \<sigma> = Some (Run b (Suc i) \<sigma>')"
  by (cases ins) (auto simp: exec_at_def exec_instr_def split: option.splits)

lemma steps_emit_value:
  assumes "wf s" and "emit nm t ins s = Inr (v, s')"
    and "exec_instr S (nid s) ins \<sigma> = Some (Some x, \<sigma>')"
  shows "steps S (fn s') (cur s \<sigma>) (cur s' (define_local (nid s) x \<sigma>'))"
  using emit_facts[OF assms(1,2)] assms(3)
  by (auto simp: cur_def exec_at_value intro!: steps_one)

lemma steps_emit_void:
  assumes "wf s" and "emit nm t ins s = Inr (v, s')"
    and "exec_instr S (nid s) ins \<sigma> = Some (None, \<sigma>')"
  shows "steps S (fn s') (cur s \<sigma>) (cur s' \<sigma>')"
  using emit_facts[OF assms(1,2)] assms(3)
  by (auto simp: cur_def exec_at_void intro!: steps_one)

lemma pure_emitted:
  assumes "wf s" and "emit nm t ins s = Inr (v, s')"
  shows "pure s \<sigma> s' \<sigma>" and "pure s \<sigma> s' (define_local (nid s) x \<sigma>)"
  using emit_facts[OF assms] by (auto simp: pure_def keeps_def define_local_def)

lemma wp_emit_value:
  assumes w: "wf s" and ex: "exec_instr S (nid s) ins \<sigma> = Some (Some x, \<tau>)"
    and Q: "\<And>v s' \<sigma>'. pure s \<tau> s' \<sigma>' \<Longrightarrow> holds S s' \<sigma>' v x \<Longrightarrow> type_of v = t \<Longrightarrow> Q v s' \<sigma>'"
  shows "wp S (emit nm t ins) Q s \<sigma>"
proof -
  obtain v s' where e: "emit nm t ins s = Inr (v, s')" by (simp add: emit_def)
  note f = emit_facts[OF w e]
  have "Q v s' (define_local (nid s) x \<tau>)"
    using f by (intro Q pure_emitted(2)[OF w e]) (auto simp: define_local_def holds_def eval_def)
  then show ?thesis
    unfolding wp_def using e f(3) steps_emit_value[OF w e ex] by blast
qed

lemma wp_emit_void:
  assumes w: "wf s" and ex: "exec_instr S (nid s) ins \<sigma> = Some (None, \<tau>)"
    and Q: "\<And>s'. pure s \<tau> s' \<tau> \<Longrightarrow> Q () s' \<tau>"
  shows "wp S (emit_void ins) Q s \<sigma>"
proof -
  obtain v s' where e: "emit '''' VoidTy ins s = Inr (v, s')" by (simp add: emit_def)
  have "wp S (emit '''' VoidTy ins) (\<lambda>v. wp S (ret ()) Q) s \<sigma>"
    unfolding wp_def[of S "emit _ _ _"]
    using e emit_facts(3)[OF w e] steps_emit_void[OF w e ex] Q[OF pure_emitted(1)[OF w e]]
    by (auto intro!: wp_ret)
  then show ?thesis unfolding emit_void_def by (rule wp_bnd)
qed

lemma wpj_emit:
  assumes w: "wf s"
    and ex: "\<And>b i. exec_at S b i (nid s, '''', ins) \<sigma> = Some c"
    and Q: "\<And>s'. pure s \<sigma> s' \<sigma> \<Longrightarrow> Q s' c"
  shows "wpj S (emit_void ins) Q s \<sigma>"
proof -
  obtain v s' where e: "emit '''' VoidTy ins s = Inr (v, s')" by (simp add: emit_def)
  note f = emit_facts[OF w e]
  have "steps S (fn s') (cur s \<sigma>) c"
    using f(8) ex by (auto simp: cur_def intro!: steps_one)
  moreover have "emit_void ins s = Inr ((), s')" by (simp add: emit_void_def e)
  ultimately show ?thesis
    unfolding wpj_def using f(3) Q[OF pure_emitted(1)[OF w e]] by blast
qed

lemma wp_nextName:
  assumes w: "wf s" and Q: "\<And>nm s'. (\<And>\<tau> :: 'm machine. pure s \<tau> s' \<tau>) \<Longrightarrow> nid s' = nid s \<Longrightarrow> Q nm s' \<sigma>"
  shows "wp S nextName Q s (\<sigma> :: 'm machine)"
proof -
  obtain nm s' where e: "nextName s = Inr (nm, s')" and
      s': "s' = s\<lparr>llvmInstNum := Suc (llvmInstNum s)\<rparr>"
    by (simp add: nextName_def)
  have "Q nm s' \<sigma>"
    using w s' by (intro Q) (auto simp: pure_def keeps_def same_ctx_def wf_def)
  then show ?thesis
    unfolding wp_def using e s' by (auto simp: grows_def cur_def intro!: exI[of _ s'] exI[of _ \<sigma>])
qed

lemma wp_emit_named:
  fixes \<sigma> :: "'m machine"
  assumes w: "wf s"
    and ex: "exec_instr S (nid s) ins \<sigma> = Some (Some x, \<tau>)"
    and Q: "\<And>v s' \<sigma>'. pure s \<tau> s' \<sigma>' \<Longrightarrow> holds S s' \<sigma>' v x \<Longrightarrow> type_of v = t \<Longrightarrow> Q v s' \<sigma>'"
  shows "wp S (emit_named t ins) Q s \<sigma>"
  unfolding emit_named_def
proof (rule wp_bnd, rule wp_nextName[OF w])
  fix nm s1 assume 1: "\<And>\<tau> :: 'm machine. pure s \<tau> s1 \<tau>" "nid s1 = nid s"
  show "wp S (emit nm t ins) Q s1 \<sigma>"
  proof (rule wp_emit_value[OF pure_wf[OF 1(1)]])
    show "exec_instr S (nid s1) ins \<sigma> = Some (Some x, \<tau>)" using ex 1(2) by simp
  qed (rule Q[OF pure_trans[OF 1(1)]], assumption+)
qed

end
