(* ===== verification/Word_Ops.thy ===== *)
theory Word_Ops
  imports LLVM_IR
begin

text \<open>
  The documented LLVM integer operations on machine words: \<open>bop_word\<close> and \<open>pred_word\<close> read an
  operation at the width of the word type, \<open>None\<close> where the Language Reference leaves it
  undefined. The lemmas inside \<open>langref\<close> carry the laws of the parameter over to words; every
  later proof about emitted arithmetic goes through them.
\<close>

section \<open>Unsigned and signed readings\<close>

lemma len64: "LENGTH(64) = 64" and len32: "LENGTH(32) = 32"
  by simp_all

lemma in_width_uint [simp]: "in_width LENGTH('w) (uint (a :: 'w::len word))"
  by (simp add: in_width_def)

lemma in_width_uint_num [simp]:
  "in_width 64 (uint (a :: 64 word))" "in_width 32 (uint (b :: 32 word))"
  "in_width 16 (uint (c :: 16 word))" "in_width 8 (uint (d :: 8 word))"
  using in_width_uint[of a] in_width_uint[of b] in_width_uint[of c] in_width_uint[of d] by simp_all

lemma in_width_word: "in_width LENGTH('w) x \<Longrightarrow> uint (word_of_int x :: 'w::len word) = x"
  by (simp add: in_width_def uint_word_of_int_eq take_bit_int_eq_self)

lemma word_of_int_take_bit: "(word_of_int (take_bit LENGTH('w) n) :: 'w::len word) = word_of_int n"
  by (simp add: word_uint_eq_iff uint_word_of_int_eq)

lemma sgn_of_uint [word_bridge]: "sgn_of LENGTH('w) (uint a) = sint (a :: 'w::len word)"
  by (simp add: sgn_of_def sint_uint)

lemma uint_add [word_bridge]: "take_bit LENGTH('w) (uint a + uint b) = uint (a + b :: 'w::len word)"
  by (simp add: uint_word_arith_bintrs)

lemma uint_sub [word_bridge]: "take_bit LENGTH('w) (uint a - uint b) = uint (a - b :: 'w::len word)"
  by (simp add: uint_word_arith_bintrs)

lemma uint_mul [word_bridge]: "take_bit LENGTH('w) (uint a * uint b) = uint (a * b :: 'w::len word)"
  by (simp add: uint_word_arith_bintrs)

lemma uint_and' [word_bridge]: "uint a AND uint b = uint (a AND b :: 'w::len word)"
  by (simp add: unsigned_and_eq)

lemma uint_or' [word_bridge]: "uint a OR uint b = uint (a OR b :: 'w::len word)"
  by (simp add: unsigned_or_eq)

lemma uint_xor' [word_bridge]: "uint a XOR uint b = uint (a XOR b :: 'w::len word)"
  by (simp add: unsigned_xor_eq)

lemma uint_shl [word_bridge]:
  "take_bit LENGTH('w) (push_bit n (uint a)) = uint (push_bit n a :: 'w::len word)"
  by (simp add: unsigned_push_bit_eq)

lemma uint_lshr [word_bridge]: "drop_bit n (uint a) = uint (drop_bit n a :: 'w::len word)"
  by (simp add: unsigned_drop_bit_eq take_bit_int_eq_self)

lemma uint_ashr [word_bridge]:
  "take_bit LENGTH('w) (drop_bit n (sint a)) = uint (signed_drop_bit n a :: 'w::len word)"
  by transfer simp

lemma uint_div' [word_bridge]: "uint a div uint b = uint (a div b :: 'w::len word)"
  by (simp add: uint_div_distrib)

lemma uint_mod' [word_bridge]: "uint a mod uint b = uint (a mod b :: 'w::len word)"
  by (simp add: uint_mod_distrib)

lemma uint_scast: "take_bit LENGTH('v) (sint (a :: 'w::len word)) = uint (scast a :: 'v::len word)"
  by transfer simp

lemma uint_ucast_down: "take_bit LENGTH('v) (uint (a :: 'w::len word)) = uint (ucast a :: 'v::len word)"
  by transfer simp

lemma uint_ucast_up:
  "LENGTH('w) < LENGTH('v) \<Longrightarrow> uint (ucast (a :: 'w::len word) :: 'v::len word) = uint a"
  by transfer simp

lemma uint_all_ones: "uint (a :: 'w::len word) = 2 ^ LENGTH('w) - 1 \<longleftrightarrow> a = - 1"
  unfolding word_uint_eq_iff by (simp only: unsigned_minus_1_eq_mask mask_eq_exp_minus_1)

lemma uint_int_min: "uint (a :: 'w::len word) = 2 ^ (LENGTH('w) - 1) \<Longrightarrow> sint a = - (2 ^ (LENGTH('w) - 1))"
  by (simp add: sint_uint signed_take_bit_eq_if_negative bit_exp_iff mask_eq_exp_minus_1
      not_eq_complement)

section \<open>Operations at the width of a word type\<close>

definition sdiv_word :: "'w::len word \<Rightarrow> 'w word \<Rightarrow> 'w word" where
  "sdiv_word a b = word_of_int (sint a sdiv sint b)"

definition smod_word :: "'w::len word \<Rightarrow> 'w word \<Rightarrow> 'w word" where
  "smod_word a b = word_of_int (sint a smod sint b)"

definition int_min :: "'w::len word \<Rightarrow> bool" where
  "int_min a \<longleftrightarrow> uint a = 2 ^ (LENGTH('w) - 1)"

lemma sdiv_word_overflow: "int_min a \<Longrightarrow> sdiv_word a (- 1) = a"
proof -
  assume "int_min a"
  then have "sint a sdiv sint (- 1 :: 'a word) = uint a"
    by (simp add: int_min_def uint_int_min)
  then show ?thesis by (simp add: sdiv_word_def)
qed

lemma smod_word_minus_1: "smod_word a (- 1) = 0"
  by (simp add: smod_word_def smod_int_alt_def)

definition bop_word :: "binop \<Rightarrow> 'w::len word \<Rightarrow> 'w word \<Rightarrow> 'w word option" where
  "bop_word bop a b = (case bop of
     Add \<Rightarrow> Some (a + b) | Sub \<Rightarrow> Some (a - b) | Mul \<Rightarrow> Some (a * b)
   | And \<Rightarrow> Some (a AND b) | Or \<Rightarrow> Some (a OR b) | Xor \<Rightarrow> Some (a XOR b)
   | Shl \<Rightarrow> if uint b < int LENGTH('w) then Some (push_bit (unat b) a) else None
   | LShr \<Rightarrow> if uint b < int LENGTH('w) then Some (drop_bit (unat b) a) else None
   | AShr \<Rightarrow> if uint b < int LENGTH('w) then Some (signed_drop_bit (unat b) a) else None
   | UDiv \<Rightarrow> if b \<noteq> 0 then Some (a div b) else None
   | URem \<Rightarrow> if b \<noteq> 0 then Some (a mod b) else None
   | SDiv \<Rightarrow> if b \<noteq> 0 \<and> \<not> (int_min a \<and> b = - 1) then Some (sdiv_word a b) else None
   | SRem \<Rightarrow> if b \<noteq> 0 \<and> \<not> (int_min a \<and> b = - 1) then Some (smod_word a b) else None)"

text \<open>A masked shift amount: the low \<open>log\<^sub>2 w\<close> bits of the operand.\<close>

definition shift_mask :: "'w::len word" where
  "shift_mask = word_of_int (int (LENGTH('w) - 1))"

definition shift_amount :: "'w::len word \<Rightarrow> nat" where
  "shift_amount y = unat (shift_mask AND y)"

lemma uint_shift_mask: "uint (shift_mask :: 'w::len word) = int (LENGTH('w) - 1)"
proof -
  have "LENGTH('w) - 1 < 2 ^ LENGTH('w)"
    using less_exp[of "LENGTH('w)"] by linarith
  then have "int (LENGTH('w) - 1) < 2 ^ LENGTH('w)"
    by (metis of_nat_less_iff of_nat_numeral of_nat_power)
  then show ?thesis
    by (simp only: shift_mask_def uint_word_of_int_eq take_bit_int_eq_self of_nat_0_le_iff)
qed

lemma shift_amount_less: "uint (shift_mask AND y :: 'w::len word) < int LENGTH('w)"
proof -
  have "(shift_mask AND y :: 'w word) \<le> shift_mask"
    by (rule word_and_le2)
  then have "uint (shift_mask AND y :: 'w word) \<le> int (LENGTH('w) - 1)"
    by (simp only: word_le_def uint_shift_mask)
  then show ?thesis using len_gt_0[where 'a='w] by linarith
qed

lemma shift_amount_64: "shift_amount (y :: 64 word) = unat y mod 64"
proof -
  have "(shift_mask :: 64 word) = mask 6" by (simp add: mask_eq_exp_minus_1 shift_mask_def)
  then have "shift_mask AND y = take_bit 6 y" by (simp add: take_bit_eq_mask and.commute)
  then show ?thesis by (simp add: shift_amount_def take_bit_eq_mod unat_mod_distrib)
qed

lemma shift_amount_32: "shift_amount (y :: 32 word) = unat y mod 32"
proof -
  have "(shift_mask :: 32 word) = mask 5" by (simp add: mask_eq_exp_minus_1 shift_mask_def)
  then have "shift_mask AND y = take_bit 5 y" by (simp add: take_bit_eq_mask and.commute)
  then show ?thesis by (simp add: shift_amount_def take_bit_eq_mod unat_mod_distrib)
qed

text \<open>Byte reversal.\<close>

definition bswap_word :: "'w::len word \<Rightarrow> 'w word" where
  "bswap_word x = word_of_int (rev_bytes (LENGTH('w) div 8) (uint x))"

lemma byte_at_bounds: "0 \<le> byte_at i x" "byte_at i x < 256"
  using take_bit_int_less_exp[of 8 "drop_bit (8 * i) x"] by (simp_all add: byte_at_def)

lemma byte_sum_bounds:
  "(\<And>i. 0 \<le> f i \<and> f i < (256 :: int)) \<Longrightarrow>
    0 \<le> (\<Sum>i<n. f i * 2 ^ (8 * i)) \<and> (\<Sum>i<n. f i * 2 ^ (8 * i)) < 2 ^ (8 * n)"
proof (induction n)
  case (Suc n)
  have "f n * 2 ^ (8 * n) \<le> 255 * 2 ^ (8 * n)" using Suc.prems[of n] by (intro mult_right_mono) auto
  moreover have "0 \<le> f n * 2 ^ (8 * n)" using Suc.prems[of n] by simp
  moreover have "2 ^ (8 * Suc n) = 256 * (2 ^ (8 * n) :: int)" by (simp add: power_add)
  ultimately show ?case using Suc.IH[OF Suc.prems] by (simp only: sum.lessThan_Suc) linarith
qed simp

lemma in_width_rev_bytes: "in_width (8 * n) (rev_bytes n x)"
  unfolding in_width_def rev_bytes_def
  by (rule byte_sum_bounds) (simp add: byte_at_bounds)

definition pred_word :: "pred \<Rightarrow> 'w::len word \<Rightarrow> 'w word \<Rightarrow> bool" where
  "pred_word p a b = (case p of
     ICMP_EQ \<Rightarrow> a = b | ICMP_NE \<Rightarrow> a \<noteq> b
   | ICMP_UGT \<Rightarrow> b < a | ICMP_UGE \<Rightarrow> b \<le> a | ICMP_ULT \<Rightarrow> a < b | ICMP_ULE \<Rightarrow> a \<le> b
   | ICMP_SGT \<Rightarrow> sint b < sint a | ICMP_SGE \<Rightarrow> sint b \<le> sint a
   | ICMP_SLT \<Rightarrow> sint a < sint b | ICMP_SLE \<Rightarrow> sint a \<le> sint b)"

lemma word_eq_uint: "(a :: 'w::len word) = b \<longleftrightarrow> uint a = uint b"
  by (rule word_uint_eq_iff)

context langref
begin

lemma sem_bin_word:
  fixes a b c :: "'w::len word"
  assumes "bop_word bop a b = Some c"
  shows "sem_bin S bop LENGTH('w) (uint a) (uint b) = Some (uint c)"
proof -
  have ovf: "int_min a \<and> b = - 1 \<longleftrightarrow> uint a = 2 ^ (LENGTH('w) - 1) \<and> uint b = 2 ^ LENGTH('w) - 1"
    unfolding int_min_def uint_all_ones by (rule refl)
  have nz: "b \<noteq> 0 \<longleftrightarrow> uint b \<noteq> 0" by (simp add: word_uint_eq_iff)
  note sdivs = bin_sdiv[OF in_width_uint in_width_uint, of b a, unfolded sgn_of_uint]
    bin_srem[OF in_width_uint in_width_uint, of b a, unfolded sgn_of_uint]
  show ?thesis
  proof (cases "bop = SDiv \<or> bop = SRem")
    case True
    with assms have "uint b \<noteq> 0" and "\<not> (uint a = 2 ^ (LENGTH('w) - 1) \<and> uint b = 2 ^ LENGTH('w) - 1)"
      unfolding ovf[symmetric] nz[symmetric] by (auto simp: bop_word_def split: if_splits)
    with True sdivs assms show ?thesis
      by (auto simp: bop_word_def sdiv_word_def smod_word_def uint_word_of_int_eq split: if_splits)
  next
    case False
    with assms show ?thesis
      by (cases bop) (auto simp: bop_word_def defined_ops word_bridge nat_uint_eq word_uint_eq_iff[of b 0] split: if_splits)
  qed
qed

lemma sem_icmp_word:
  fixes a b :: "'w::len word"
  shows "sem_icmp S p LENGTH('w) (uint a) (uint b) = pred_word p a b"
  by (cases p) (simp_all add: comparisons pred_word_def word_bridge word_less_def word_le_def
      word_eq_uint)

lemma sem_trunc_word:
  assumes "LENGTH('v) < LENGTH('w)"
  shows "sem_cast S Trunc LENGTH('w) LENGTH('v) (uint (a :: 'w::len word)) = uint (ucast a :: 'v::len word)"
  using assms by (simp add: cast_trunc uint_ucast_down)

lemma sem_zext_word:
  assumes "LENGTH('w) < LENGTH('v)"
  shows "sem_cast S ZExt LENGTH('w) LENGTH('v) (uint (a :: 'w::len word)) = uint (ucast a :: 'v::len word)"
  using assms by (simp add: cast_zext uint_ucast_up)

lemma sem_sext_word:
  assumes "LENGTH('w) < LENGTH('v)"
  shows "sem_cast S SExt LENGTH('w) LENGTH('v) (uint (a :: 'w::len word)) = uint (scast a :: 'v::len word)"
  using assms by (simp add: cast_sext word_bridge uint_scast)

lemma sem_bswap_word:
  assumes "LENGTH('w) = 16 * k"
  shows "sem_bswap S LENGTH('w) (uint x) = uint (bswap_word x :: 'w::len word)"
proof -
  have d: "LENGTH('w) div 8 = 2 * k" using assms by simp
  have "in_width LENGTH('w) (rev_bytes (2 * k) (uint x))"
    using in_width_rev_bytes[of "2 * k"] assms by simp
  then have "uint (bswap_word x) = rev_bytes (2 * k) (uint x)"
    unfolding bswap_word_def d by (rule in_width_word)
  moreover have "in_width (16 * k) (uint x)" using in_width_uint[of x] assms by simp
  ultimately show ?thesis using bswap[of k "uint x"] assms by simp
qed

lemma sem_gep_word: "sem_gep S (uint p) (uint off) = uint (p + off :: 64 word)"
  using gep[of "uint p" "uint off"] uint_add[of p off] by simp

end

end
