(* ===== verification/Bpf_Isa.thy ===== *)
theory Bpf_Isa
  imports MC Word_Ops
begin

text \<open>
  The abstract machine the lifter is judged against: the BPF instruction set of RFC 9669 on a file
  of 64-bit registers and a memory. A 32-bit operation works on the low halves and zeroes the upper
  half of its destination; division by zero gives 0, modulo by zero leaves the destination;
  \<open>INT_MIN / -1\<close> wraps; shift amounts are taken modulo the width. Memory is the one of the
  semantics parameter, so that a fault (an access the parameter does not define) is \<open>None\<close>.
\<close>

section \<open>Memory at machine width\<close>

definition load_word :: "'m llvm_sem \<Rightarrow> 'm \<Rightarrow> 64 word \<Rightarrow> 'w::len word option" where
  "load_word S m a = map_option word_of_int (sem_load S m LENGTH('w) (uint a))"

definition store_word :: "'m llvm_sem \<Rightarrow> 'm \<Rightarrow> 64 word \<Rightarrow> 'w::len word \<Rightarrow> 'm option" where
  "store_word S m a x = sem_store S m LENGTH('w) (uint a) (uint x)"

fun rmw_word :: "rmwop \<Rightarrow> 'w::len word \<Rightarrow> 'w word \<Rightarrow> 'w word" where
  "rmw_word RmwAdd old v = old + v"
| "rmw_word RmwAnd old v = old AND v"
| "rmw_word RmwOr old v = old OR v"
| "rmw_word RmwXor old v = old XOR v"
| "rmw_word RmwXchg old v = v"

lemma uint_rmw_word: "rmw_result rop LENGTH('w) (uint old) (uint v) = uint (rmw_word rop old (v :: 'w::len word))"
  by (cases rop) (simp_all add: word_bridge)

section \<open>Registers and operands\<close>

type_synonym regs = "nat \<Rightarrow> 64 word"

text \<open>The register an operand names; \<open>w\<close> registers are the low halves of \<open>r\<close> registers.\<close>

fun reg_no :: "reg \<Rightarrow> nat option" where
  "reg_no (R n) = (if n \<le> 11 then Some n else None)"
| "reg_no (W n) = (if n \<le> 11 then Some n else None)"
| "reg_no NoRegister = None"

definition imm32 :: "int \<Rightarrow> bool" where
  "imm32 i \<longleftrightarrow> - (2 ^ 31) \<le> i \<and> i < 2 ^ 31"

definition imm64 :: "int \<Rightarrow> bool" where
  "imm64 i \<longleftrightarrow> - (2 ^ 63) \<le> i \<and> i < 2 ^ 63"

definition low32 :: "64 word \<Rightarrow> 32 word" where
  "low32 x = ucast x"

definition zext32 :: "32 word \<Rightarrow> 64 word" where
  "zext32 x = ucast x"

text \<open>A source operand is a register or a sign-extended 32-bit immediate.\<close>

definition src64 :: "regs \<Rightarrow> mcoperand \<Rightarrow> 64 word option" where
  "src64 \<rho> op = (case op of RegOp r \<Rightarrow> map_option \<rho> (reg_no r)
     | ImmOp i \<Rightarrow> if imm32 i then Some (word_of_int i) else None | ExprOp e \<Rightarrow> None)"

definition src32 :: "regs \<Rightarrow> mcoperand \<Rightarrow> 32 word option" where
  "src32 \<rho> op = (case op of RegOp r \<Rightarrow> map_option (low32 \<circ> \<rho>) (reg_no r)
     | ImmOp i \<Rightarrow> if imm32 i then Some (word_of_int i) else None | ExprOp e \<Rightarrow> None)"

section \<open>Arithmetic\<close>

definition alu_sem :: "alu_name \<Rightarrow> 'w::len word \<Rightarrow> 'w word \<Rightarrow> 'w word" where
  "alu_sem n x y = (case n of
     ALU_ADD \<Rightarrow> x + y | ALU_SUB \<Rightarrow> x - y | ALU_MUL \<Rightarrow> x * y
   | ALU_AND \<Rightarrow> x AND y | ALU_OR \<Rightarrow> x OR y | ALU_XOR \<Rightarrow> x XOR y
   | ALU_SLL \<Rightarrow> push_bit (unat y mod LENGTH('w)) x
   | ALU_SRL \<Rightarrow> drop_bit (unat y mod LENGTH('w)) x
   | ALU_SRA \<Rightarrow> signed_drop_bit (unat y mod LENGTH('w)) x
   | ALU_DIV \<Rightarrow> if y = 0 then 0 else x div y
   | ALU_MOD \<Rightarrow> if y = 0 then x else x mod y
   | ALU_SDIV \<Rightarrow> if y = 0 then 0 else sdiv_word x y
   | ALU_SMOD \<Rightarrow> if y = 0 then x else smod_word x y)"

definition movsx_sem :: "movsx_name \<Rightarrow> 64 word \<Rightarrow> 64 word" where
  "movsx_sem n x = (case n of
     MOVSX_rr_8 \<Rightarrow> scast (ucast x :: 8 word)
   | MOVSX_rr_16 \<Rightarrow> scast (ucast x :: 16 word)
   | MOVSX_rr_32 \<Rightarrow> scast (low32 x)
   | MOVSX_rr_32_8 \<Rightarrow> zext32 (scast (ucast (low32 x) :: 8 word))
   | MOVSX_rr_32_16 \<Rightarrow> zext32 (scast (ucast (low32 x) :: 16 word)))"

text \<open>Byte order conversions on a little-endian host: to little endian is a truncation.\<close>

definition endian_sem :: "endian_name \<Rightarrow> 64 word \<Rightarrow> 64 word" where
  "endian_sem n x = (
     if n \<in> {BE16, BSWAP16} then ucast (bswap_word (ucast x :: 16 word))
     else if n \<in> {BE32, BSWAP32} then ucast (bswap_word (ucast x :: 32 word))
     else if n \<in> {BE64, BSWAP64} then bswap_word x
     else if n = LE16 then ucast (ucast x :: 16 word)
     else if n = LE32 then ucast (ucast x :: 32 word)
     else x)"

section \<open>Memory access\<close>

definition load_sem :: "'m llvm_sem \<Rightarrow> 'm \<Rightarrow> 64 word \<Rightarrow> load_name \<Rightarrow> 64 word option" where
  "load_sem S m a n = (case n of
     LDD \<Rightarrow> load_word S m a
   | LDW \<Rightarrow> map_option ucast (load_word S m a :: 32 word option)
   | LDH \<Rightarrow> map_option ucast (load_word S m a :: 16 word option)
   | LDB \<Rightarrow> map_option ucast (load_word S m a :: 8 word option)
   | LDWSX \<Rightarrow> map_option scast (load_word S m a :: 32 word option)
   | LDHSX \<Rightarrow> map_option scast (load_word S m a :: 16 word option)
   | LDBSX \<Rightarrow> map_option scast (load_word S m a :: 8 word option)
   | LDW32 \<Rightarrow> map_option ucast (load_word S m a :: 32 word option)
   | LDH32 \<Rightarrow> map_option ucast (load_word S m a :: 16 word option)
   | LDB32 \<Rightarrow> map_option ucast (load_word S m a :: 8 word option))"

definition store_sem :: "'m llvm_sem \<Rightarrow> 'm \<Rightarrow> 64 word \<Rightarrow> store_name \<Rightarrow> 64 word \<Rightarrow> 'm option" where
  "store_sem S m a n x = (
     if n = STD then store_word S m a x
     else if n \<in> {STW, STW32} then store_word S m a (ucast x :: 32 word)
     else if n \<in> {STH, STH32} then store_word S m a (ucast x :: 16 word)
     else store_word S m a (ucast x :: 8 word))"

definition store_imm_sem :: "'m llvm_sem \<Rightarrow> 'm \<Rightarrow> 64 word \<Rightarrow> store_imm_name \<Rightarrow> int \<Rightarrow> 'm option" where
  "store_imm_sem S m a n i = (case n of
     STD_imm \<Rightarrow> store_word S m a (word_of_int i :: 64 word)
   | STW_imm \<Rightarrow> store_word S m a (word_of_int i :: 32 word)
   | STH_imm \<Rightarrow> store_word S m a (word_of_int i :: 16 word)
   | STB_imm \<Rightarrow> store_word S m a (word_of_int i :: 8 word))"

text \<open>The operation of an atomic instruction, its memory width and whether it fetches.\<close>

fun atomic_sem :: "atomic_name \<Rightarrow> rmwop \<times> reg_width \<times> bool" where
  "atomic_sem XADDW = (RmwAdd, B32, False)" | "atomic_sem XADDW32 = (RmwAdd, B32, False)"
| "atomic_sem XADDD = (RmwAdd, B64, False)"
| "atomic_sem XANDW32 = (RmwAnd, B32, False)" | "atomic_sem XANDD = (RmwAnd, B64, False)"
| "atomic_sem XORW32 = (RmwOr, B32, False)" | "atomic_sem XORD = (RmwOr, B64, False)"
| "atomic_sem XXORW32 = (RmwXor, B32, False)" | "atomic_sem XXORD = (RmwXor, B64, False)"
| "atomic_sem XFADDW32 = (RmwAdd, B32, True)" | "atomic_sem XFADDD = (RmwAdd, B64, True)"
| "atomic_sem XFANDW32 = (RmwAnd, B32, True)" | "atomic_sem XFANDD = (RmwAnd, B64, True)"
| "atomic_sem XFORW32 = (RmwOr, B32, True)" | "atomic_sem XFORD = (RmwOr, B64, True)"
| "atomic_sem XFXORW32 = (RmwXor, B32, True)" | "atomic_sem XFXORD = (RmwXor, B64, True)"
| "atomic_sem XCHGW32 = (RmwXchg, B32, True)" | "atomic_sem XCHGD = (RmwXchg, B64, True)"

text \<open>The atomic update: the old value and the new memory. The address is a multiple of the
  access size.\<close>

definition rmw_sem :: "'m llvm_sem \<Rightarrow> 'm \<Rightarrow> 64 word \<Rightarrow> rmwop \<Rightarrow> reg_width \<Rightarrow> 64 word \<Rightarrow> (64 word \<times> 'm) option" where
  "rmw_sem S m a rop w x = (case w of
     B64 \<Rightarrow> if uint a mod 8 \<noteq> 0 then None else
       Option.bind (load_word S m a) (\<lambda>old :: 64 word.
       map_option (\<lambda>m'. (old, m')) (store_word S m a (rmw_word rop old x)))
   | B32 \<Rightarrow> if uint a mod 4 \<noteq> 0 then None else
       Option.bind (load_word S m a) (\<lambda>old :: 32 word.
       map_option (\<lambda>m'. (zext32 old, m')) (store_word S m a (rmw_word rop old (low32 x)))))"

definition cmpxchg_sem :: "'m llvm_sem \<Rightarrow> 'm \<Rightarrow> 64 word \<Rightarrow> reg_width \<Rightarrow> 64 word \<Rightarrow> 64 word \<Rightarrow> (64 word \<times> 'm) option" where
  "cmpxchg_sem S m a w e x = (case w of
     B64 \<Rightarrow> if uint a mod 8 \<noteq> 0 then None else
       Option.bind (load_word S m a) (\<lambda>old :: 64 word.
       if old = e then map_option (\<lambda>m'. (old, m')) (store_word S m a x) else Some (old, m))
   | B32 \<Rightarrow> if uint a mod 4 \<noteq> 0 then None else
       Option.bind (load_word S m a) (\<lambda>old :: 32 word.
       if old = low32 e then map_option (\<lambda>m'. (zext32 old, m')) (store_word S m a (low32 x))
       else Some (zext32 old, m)))"

section \<open>One instruction\<close>

text \<open>\<open>isa_exec\<close>: the effect of an instruction that does not transfer control, \<open>None\<close> for a malformed
  instruction, a fault, or an instruction of another kind. The two-operand arithmetic instructions
  have their destination tied to their first source.\<close>

definition isa_alu :: "alu_name \<Rightarrow> reg_width \<Rightarrow> mcoperand list \<Rightarrow> regs \<Rightarrow> regs option" where
  "isa_alu n w ops \<rho> = (case ops of
     [RegOp d, RegOp d', src] \<Rightarrow> if d \<noteq> d' then None else
       Option.bind (reg_no d) (\<lambda>i. case w of
         B64 \<Rightarrow> map_option (\<lambda>y. \<rho>(i := alu_sem n (\<rho> i) y)) (src64 \<rho> src)
       | B32 \<Rightarrow> map_option (\<lambda>y. \<rho>(i := zext32 (alu_sem n (low32 (\<rho> i)) y))) (src32 \<rho> src))
   | _ \<Rightarrow> None)"

definition isa_unary :: "(64 word \<Rightarrow> 64 word) \<Rightarrow> mcoperand list \<Rightarrow> regs \<Rightarrow> regs option" where
  "isa_unary f ops \<rho> = (case ops of
     [RegOp d, RegOp r] \<Rightarrow> Option.bind (reg_no d) (\<lambda>i. map_option (\<lambda>j. \<rho>(i := f (\<rho> j))) (reg_no r))
   | _ \<Rightarrow> None)"

definition isa_mov_imm :: "(int \<Rightarrow> bool) \<Rightarrow> (int \<Rightarrow> 64 word) \<Rightarrow> mcoperand list \<Rightarrow> regs \<Rightarrow> regs option" where
  "isa_mov_imm ok f ops \<rho> = (case ops of
     [RegOp d, ImmOp i] \<Rightarrow> if ok i then map_option (\<lambda>r. \<rho>(r := f i)) (reg_no d) else None
   | _ \<Rightarrow> None)"

definition mem_addr :: "regs \<Rightarrow> reg \<Rightarrow> int \<Rightarrow> 64 word option" where
  "mem_addr \<rho> b off = (if imm64 off then map_option (\<lambda>i. \<rho> i + word_of_int off) (reg_no b) else None)"

definition isa_load :: "'m llvm_sem \<Rightarrow> load_name \<Rightarrow> mcoperand list \<Rightarrow> regs \<times> 'm \<Rightarrow> (regs \<times> 'm) option" where
  "isa_load S n ops st = (case st of (\<rho>, m) \<Rightarrow> (case ops of
     [RegOp d, RegOp b, ImmOp off] \<Rightarrow> Option.bind (reg_no d) (\<lambda>i. Option.bind (mem_addr \<rho> b off) (\<lambda>a.
       map_option (\<lambda>v. (\<rho>(i := v), m)) (load_sem S m a n)))
   | _ \<Rightarrow> None))"

definition isa_store :: "'m llvm_sem \<Rightarrow> store_name \<Rightarrow> mcoperand list \<Rightarrow> regs \<times> 'm \<Rightarrow> (regs \<times> 'm) option" where
  "isa_store S n ops st = (case st of (\<rho>, m) \<Rightarrow> (case ops of
     [RegOp r, RegOp b, ImmOp off] \<Rightarrow> Option.bind (reg_no r) (\<lambda>i. Option.bind (mem_addr \<rho> b off) (\<lambda>a.
       map_option (\<lambda>m'. (\<rho>, m')) (store_sem S m a n (\<rho> i))))
   | _ \<Rightarrow> None))"

definition isa_store_imm :: "'m llvm_sem \<Rightarrow> store_imm_name \<Rightarrow> mcoperand list \<Rightarrow> regs \<times> 'm \<Rightarrow> (regs \<times> 'm) option" where
  "isa_store_imm S n ops st = (case st of (\<rho>, m) \<Rightarrow> (case ops of
     [ImmOp i, RegOp b, ImmOp off] \<Rightarrow> Option.bind (mem_addr \<rho> b off) (\<lambda>a.
       map_option (\<lambda>m'. (\<rho>, m')) (store_imm_sem S m a n i))
   | _ \<Rightarrow> None))"

definition isa_atomic :: "'m llvm_sem \<Rightarrow> atomic_name \<Rightarrow> mcoperand list \<Rightarrow> regs \<times> 'm \<Rightarrow> (regs \<times> 'm) option" where
  "isa_atomic S n ops st = (case st of (\<rho>, m) \<Rightarrow> (case ops of
     [RegOp d, RegOp b, ImmOp off, RegOp v] \<Rightarrow> if d \<noteq> v then None else
       Option.bind (reg_no d) (\<lambda>i. Option.bind (mem_addr \<rho> b off) (\<lambda>a. case atomic_sem n of (rop, w, fetch) \<Rightarrow>
       map_option (\<lambda>(old, m'). (if fetch then \<rho>(i := old) else \<rho>, m')) (rmw_sem S m a rop w (\<rho> i))))
   | _ \<Rightarrow> None))"

definition isa_cmpxchg :: "'m llvm_sem \<Rightarrow> reg_width \<Rightarrow> mcoperand list \<Rightarrow> regs \<times> 'm \<Rightarrow> (regs \<times> 'm) option" where
  "isa_cmpxchg S w ops st = (case st of (\<rho>, m) \<Rightarrow> (case ops of
     [RegOp b, ImmOp off, RegOp v] \<Rightarrow> Option.bind (reg_no v) (\<lambda>i. Option.bind (mem_addr \<rho> b off) (\<lambda>a.
       map_option (\<lambda>(old, m'). (\<rho>(0 := old), m')) (cmpxchg_sem S m a w (\<rho> 0) (\<rho> i))))
   | _ \<Rightarrow> None))"

definition isa_exec :: "'m llvm_sem \<Rightarrow> mcinst \<Rightarrow> regs \<times> 'm \<Rightarrow> (regs \<times> 'm) option" where
  "isa_exec S I st = (case st of (\<rho>, m) \<Rightarrow> (case getOpcode I of
     NOP \<Rightarrow> Some st
   | ALU n k w \<Rightarrow> map_option (\<lambda>\<rho>'. (\<rho>', m)) (isa_alu n w (operands I) \<rho>)
   | NEG_64 \<Rightarrow> map_option (\<lambda>\<rho>'. (\<rho>', m)) (isa_unary uminus (operands I) \<rho>)
   | NEG_32 \<Rightarrow> map_option (\<lambda>\<rho>'. (\<rho>', m)) (isa_unary (\<lambda>x. zext32 (- low32 x)) (operands I) \<rho>)
   | MOV_rr \<Rightarrow> map_option (\<lambda>\<rho>'. (\<rho>', m)) (isa_unary id (operands I) \<rho>)
   | MOV_ri \<Rightarrow> map_option (\<lambda>\<rho>'. (\<rho>', m)) (isa_mov_imm imm32 word_of_int (operands I) \<rho>)
   | MOV_rr_32 \<Rightarrow> map_option (\<lambda>\<rho>'. (\<rho>', m)) (isa_unary (zext32 \<circ> low32) (operands I) \<rho>)
   | MOV_ri_32 \<Rightarrow> map_option (\<lambda>\<rho>'. (\<rho>', m)) (isa_mov_imm imm32 (\<lambda>i. zext32 (word_of_int i)) (operands I) \<rho>)
   | MOV_32_64 \<Rightarrow> map_option (\<lambda>\<rho>'. (\<rho>', m)) (isa_unary (zext32 \<circ> low32) (operands I) \<rho>)
   | MOVSX n \<Rightarrow> map_option (\<lambda>\<rho>'. (\<rho>', m)) (isa_unary (movsx_sem n) (operands I) \<rho>)
   | LD_imm64 \<Rightarrow> map_option (\<lambda>\<rho>'. (\<rho>', m)) (isa_mov_imm (\<lambda>i. True) word_of_int (operands I) \<rho>)
   | ENDIAN n \<Rightarrow> map_option (\<lambda>\<rho>'. (\<rho>', m)) (isa_unary (endian_sem n) (operands I) \<rho>)
   | LOAD n \<Rightarrow> isa_load S n (operands I) st
   | STORE n \<Rightarrow> isa_store S n (operands I) st
   | STORE_IMM n \<Rightarrow> isa_store_imm S n (operands I) st
   | ATOMIC n \<Rightarrow> isa_atomic S n (operands I) st
   | CMPXCHGD \<Rightarrow> isa_cmpxchg S B64 (operands I) st
   | CMPXCHGW32 \<Rightarrow> isa_cmpxchg S B32 (operands I) st
   | _ \<Rightarrow> None))"

text \<open>Whether a conditional jump is taken.\<close>

definition cond_sem :: "cond_name \<Rightarrow> 'w::len word \<Rightarrow> 'w word \<Rightarrow> bool" where
  "cond_sem c x y = (case c of
     JEQ \<Rightarrow> x = y | JNE \<Rightarrow> x \<noteq> y | JUGT \<Rightarrow> uint x > uint y | JUGE \<Rightarrow> uint x \<ge> uint y
   | JULT \<Rightarrow> uint x < uint y | JULE \<Rightarrow> uint x \<le> uint y | JSGT \<Rightarrow> sint x > sint y
   | JSGE \<Rightarrow> sint x \<ge> sint y | JSLT \<Rightarrow> sint x < sint y | JSLE \<Rightarrow> sint x \<le> sint y)"

definition isa_compare :: "(64 word \<Rightarrow> 64 word \<Rightarrow> bool) \<Rightarrow> (32 word \<Rightarrow> 32 word \<Rightarrow> bool) \<Rightarrow> reg_width \<Rightarrow>
    mcoperand list \<Rightarrow> regs \<Rightarrow> bool option" where
  "isa_compare f g w ops \<rho> = (case ops of
     RegOp d # src # _ \<Rightarrow> Option.bind (reg_no d) (\<lambda>i. case w of
       B64 \<Rightarrow> map_option (f (\<rho> i)) (src64 \<rho> src)
     | B32 \<Rightarrow> map_option (g (low32 (\<rho> i))) (src32 \<rho> src))
   | _ \<Rightarrow> None)"

definition isa_taken :: "mcinst \<Rightarrow> regs \<Rightarrow> bool option" where
  "isa_taken I \<rho> = (case getOpcode I of
     JMP \<Rightarrow> Some True
   | JMPL \<Rightarrow> Some True
   | JCOND c k w \<Rightarrow> isa_compare (cond_sem c) (cond_sem c) w (operands I) \<rho>
   | JSET k w \<Rightarrow> isa_compare (\<lambda>x y. x AND y \<noteq> 0) (\<lambda>x y. x AND y \<noteq> 0) w (operands I) \<rho>
   | _ \<Rightarrow> None)"

end
