(* ===== verification/Builder_WP.thy ===== *)
theory Builder_WP
  imports Emission Bpf_Isa
begin

text \<open>
  Symbolic-execution rules for the builder of \<open>Builder\<close>, at the width of a word type: what value
  each helper's code computes, for every semantics that satisfies \<open>langref\<close>. The total divisions
  and the masked shifts are the interesting ones: their code never reaches the operand values for
  which LLVM's instructions are undefined.
\<close>

section \<open>Constants\<close>

lemma wp_unsigned_const:
  assumes "0 \<le> n" and "n < 2 ^ LENGTH('w)"
    and "\<And>v. hw S s \<sigma> v (word_of_int n :: 'w::len word) \<Longrightarrow> Q v s \<sigma>"
  shows "wp S (getUnsignedIntConst n LENGTH('w)) Q s \<sigma>"
  using assms hw_const[of n n S s \<sigma>, where 'w='w]
  by (auto simp: getUnsignedIntConst_def take_bit_int_eq_self intro!: wp_ret)

lemma wp_signed_const:
  assumes "- (2 ^ (LENGTH('w) - 1)) \<le> n" and "n < 2 ^ (LENGTH('w) - 1)"
    and "\<And>v. hw S s \<sigma> v (word_of_int n :: 'w::len word) \<Longrightarrow> Q v s \<sigma>"
  shows "wp S (getSignedIntConst n LENGTH('w)) Q s \<sigma>"
  using assms hw_const[OF refl, of S s \<sigma> n, where 'w='w]
  by (auto simp: getSignedIntConst_def intro!: wp_ret)

lemmas wp_unsigned_const64 = wp_unsigned_const[where 'w=64, simplified]
lemmas wp_unsigned_const32 = wp_unsigned_const[where 'w=32, simplified]
lemmas wp_signed_const64 = wp_signed_const[where 'w=64, simplified]
lemmas wp_signed_const32 = wp_signed_const[where 'w=32, simplified]

section \<open>Straight-line instructions\<close>

context langref
begin

lemma exec_binop:
  assumes "hw S s \<sigma> a (x :: 'w::len word)" and "hw S s \<sigma> b y" and "bop_word bop x y = Some z"
  shows "exec_instr S k (BinopI bop a b) \<sigma> = Some (Some (VInt LENGTH('w) (uint z)), \<sigma>)"
  using assms by (simp add: exec_instr_def hw_def holds_def sem_bin_word)

lemma wp_binop:
  fixes x :: "'w::len word"
  assumes "wf s" and "hw S s \<sigma> a x" and "hw S s \<sigma> b y" and "bop_word bop x y = Some z"
    and "t = IntTy LENGTH('w)"
    and "\<And>v s' \<sigma>'. pure s \<sigma> s' \<sigma>' \<Longrightarrow> hw S s' \<sigma>' v z \<Longrightarrow> Q v s' \<sigma>'"
  shows "wp S (emit_named t (BinopI bop a b)) Q s \<sigma>"
  using assms exec_binop[OF assms(2-4)] by (auto simp: hw_def intro!: wp_emit_named)

lemma wp_createBinop:
  fixes x :: "'w::len word"
  assumes "wf s" and "hw S s \<sigma> a x" and "hw S s \<sigma> b y" and "bop_word bop x y = Some z"
    and "\<And>v s' \<sigma>'. pure s \<sigma> s' \<sigma>' \<Longrightarrow> hw S s' \<sigma>' v z \<Longrightarrow> Q v s' \<sigma>'"
  shows "wp S (createBinop a b bop) Q s \<sigma>"
  unfolding createBinop_def by (rule wp_binop[OF assms(1-4) hw_type[OF assms(2)] assms(5)])

lemma wp_createSub:
  fixes x :: "'w::len word"
  assumes "wf s" and "hw S s \<sigma> a x" and "hw S s \<sigma> b y"
    and "\<And>v s' \<sigma>'. pure s \<sigma> s' \<sigma>' \<Longrightarrow> hw S s' \<sigma>' v (x - y) \<Longrightarrow> Q v s' \<sigma>'"
  shows "wp S (createSub a b) Q s \<sigma>"
  unfolding createSub_def
  by (rule wp_binop[OF assms(1-3) _ hw_type[OF assms(2)] assms(4)]) (simp_all add: bop_word_def)

lemma wp_createAnd:
  fixes x :: "'w::len word"
  assumes "wf s" and "hw S s \<sigma> a x" and "hw S s \<sigma> b y"
    and "\<And>v s' \<sigma>'. pure s \<sigma> s' \<sigma>' \<Longrightarrow> hw S s' \<sigma>' v (x AND y) \<Longrightarrow> Q v s' \<sigma>'"
  shows "wp S (createAnd a b) Q s \<sigma>"
  unfolding createAnd_def
  by (rule wp_binop[OF assms(1-3) _ hw_type[OF assms(2)] assms(4)]) (simp_all add: bop_word_def)

lemma wp_createOr:
  fixes x :: "'w::len word"
  assumes "wf s" and "hw S s \<sigma> a x" and "hw S s \<sigma> b y"
    and "\<And>v s' \<sigma>'. pure s \<sigma> s' \<sigma>' \<Longrightarrow> hw S s' \<sigma>' v (x OR y) \<Longrightarrow> Q v s' \<sigma>'"
  shows "wp S (createOr a b) Q s \<sigma>"
  unfolding createOr_def
  by (rule wp_binop[OF assms(1-3) _ hw_type[OF assms(2)] assms(4)]) (simp_all add: bop_word_def)

lemma wp_createRawShl:
  fixes x y :: "'w::len word"
  assumes "wf s" and "hw S s \<sigma> a x" and "hw S s \<sigma> b y" and "uint y < int LENGTH('w)"
    and "\<And>v s' \<sigma>'. pure s \<sigma> s' \<sigma>' \<Longrightarrow> hw S s' \<sigma>' v (push_bit (unat y) x) \<Longrightarrow> Q v s' \<sigma>'"
  shows "wp S (createRawShl a b) Q s \<sigma>"
  unfolding createRawShl_def
  by (rule wp_binop[OF assms(1-3) _ hw_type[OF assms(2)] assms(5)])
     (use assms(4) in \<open>simp_all add: bop_word_def\<close>)

lemma wp_createICmp:
  fixes x :: "'w::len word"
  assumes "wf s" and "hw S s \<sigma> a x" and "hw S s \<sigma> b y"
    and "\<And>v s' \<sigma>'. pure s \<sigma> s' \<sigma>' \<Longrightarrow> hb S s' \<sigma>' v (pred_word p x y) \<Longrightarrow> Q v s' \<sigma>'"
  shows "wp S (createICmp p a b) Q s \<sigma>"
  unfolding createICmp_def
  by (rule wp_emit_named[OF assms(1), where x="VInt 1 (of_bool (pred_word p x y))"])
     (use assms(2-4) in \<open>auto simp: exec_instr_def hw_def hb_def holds_def sem_icmp_word\<close>)

lemma wp_createSelect:
  fixes x :: "'w::len word"
  assumes "wf s" and "hb S s \<sigma> c b" and "hw S s \<sigma> u x" and "hw S s \<sigma> v y"
    and "\<And>r s' \<sigma>'. pure s \<sigma> s' \<sigma>' \<Longrightarrow> hw S s' \<sigma>' r (if b then x else y) \<Longrightarrow> Q r s' \<sigma>'"
  shows "wp S (createSelect c u v) Q s \<sigma>"
  unfolding createSelect_def
  by (rule wp_emit_named[OF assms(1), where x="VInt LENGTH('w) (uint (if b then x else y))"])
     (use assms(2-5) in \<open>auto simp: exec_instr_def hw_def hb_def holds_def\<close>)

lemma wp_createZExt:
  fixes x :: "'w::len word"
  assumes "wf s" and "hw S s \<sigma> v x" and "LENGTH('w) < LENGTH('u)"
    and "\<And>r s' \<sigma>'. pure s \<sigma> s' \<sigma>' \<Longrightarrow> hw S s' \<sigma>' r (ucast x :: 'u::len word) \<Longrightarrow> Q r s' \<sigma>'"
  shows "wp S (createZExt v (IntTy LENGTH('u))) Q s \<sigma>"
  unfolding createZExt_def
  by (rule wp_emit_named[OF assms(1), where x="VInt LENGTH('u) (uint (ucast x :: 'u word))"])
     (use assms(2-4) in \<open>auto simp: exec_instr_def hw_def holds_def sem_zext_word[OF assms(3)]\<close>)

lemma wp_createSExt:
  fixes x :: "'w::len word"
  assumes "wf s" and "hw S s \<sigma> v x" and "LENGTH('w) < LENGTH('u)"
    and "\<And>r s' \<sigma>'. pure s \<sigma> s' \<sigma>' \<Longrightarrow> hw S s' \<sigma>' r (scast x :: 'u::len word) \<Longrightarrow> Q r s' \<sigma>'"
  shows "wp S (createSExt v (IntTy LENGTH('u))) Q s \<sigma>"
  unfolding createSExt_def
  by (rule wp_emit_named[OF assms(1), where x="VInt LENGTH('u) (uint (scast x :: 'u word))"])
     (use assms(2-4) in \<open>auto simp: exec_instr_def hw_def holds_def sem_sext_word[OF assms(3)]\<close>)

lemma wp_createTrunc:
  fixes x :: "'w::len word"
  assumes "wf s" and "hw S s \<sigma> v x" and "LENGTH('u) < LENGTH('w)"
    and "\<And>r s' \<sigma>'. pure s \<sigma> s' \<sigma>' \<Longrightarrow> hw S s' \<sigma>' r (ucast x :: 'u::len word) \<Longrightarrow> Q r s' \<sigma>'"
  shows "wp S (createTrunc v (IntTy LENGTH('u))) Q s \<sigma>"
  unfolding createTrunc_def if_not_P[OF _] using assms
  by (auto simp: hw_type[OF assms(2)] exec_instr_def hw_def holds_def sem_trunc_word[OF assms(3)]
      intro!: wp_emit_named[where x="VInt LENGTH('u) (uint (ucast x :: 'u word))"])

lemma wp_load_mem:
  assumes "wf s" and "hp S s \<sigma> p a" and "load_word S (mem \<sigma>) a = Some (x :: 'w::len word)"
    and "\<And>v s' \<sigma>'. pure s \<sigma> s' \<sigma>' \<Longrightarrow> hw S s' \<sigma>' v x \<Longrightarrow> Q v s' \<sigma>'"
  shows "wp S (createLoad (IntTy LENGTH('w)) p) Q s \<sigma>"
proof -
  from assms(3) obtain y where y: "sem_load S (mem \<sigma>) LENGTH('w) (uint a) = Some y"
      and x: "x = word_of_int y" by (auto simp: load_word_def)
  have "y = uint x" using load_range[OF y] x by (simp add: in_width_word)
  with y have "exec_instr S k (LoadI (IntTy LENGTH('w)) p) \<sigma> = Some (Some (VInt LENGTH('w) (uint x)), \<sigma>)"
    for k using assms(2) by (simp add: exec_instr_def hp_def holds_def exec_load_def)
  then show ?thesis
    unfolding createLoad_def using assms(1,4) by (auto simp: hw_def intro!: wp_emit_named)
qed

lemma wp_createGEP:
  assumes "wf s" and "hp S s \<sigma> p a" and "hw S s \<sigma> i (off :: 64 word)"
    and "\<And>v s' \<sigma>'. pure s \<sigma> s' \<sigma>' \<Longrightarrow> hp S s' \<sigma>' v (a + off) \<Longrightarrow> Q v s' \<sigma>'"
  shows "wp S (createGEP (IntTy 8) p i nm) Q s \<sigma>"
  unfolding createGEP_def
  by (rule wp_emit_value[OF assms(1), where x="VPtr (uint (a + off))"])
     (use assms(2-4) in \<open>auto simp: exec_instr_def hp_def hw_def holds_def sem_gep_word\<close>)

lemma wp_ptrtoint:
  assumes "wf s" and "hp S s \<sigma> p a"
    and "\<And>v s' \<sigma>'. pure s \<sigma> s' \<sigma>' \<Longrightarrow> hw S s' \<sigma>' v a \<Longrightarrow> Q v s' \<sigma>'"
  shows "wp S (newPtrToInt p (IntTy 64)) Q s \<sigma>"
  unfolding newPtrToInt_def
  by (rule wp_emit_value[OF assms(1), where x="VInt 64 (uint a)"])
     (use assms(2-3) in \<open>auto simp: exec_instr_def hp_def hw_def holds_def\<close>)

lemma wp_inttoptr:
  assumes "wf s" and "hw S s \<sigma> p (a :: 64 word)"
    and "\<And>v s' \<sigma>'. pure s \<sigma> s' \<sigma>' \<Longrightarrow> hp S s' \<sigma>' v a \<Longrightarrow> Q v s' \<sigma>'"
  shows "wp S (newIntToPtr p) Q s \<sigma>"
  unfolding newIntToPtr_def
  by (rule wp_emit_value[OF assms(1), where x="VPtr (uint a)"])
     (use assms(2-3) in \<open>auto simp: exec_instr_def hp_def hw_def holds_def\<close>)

lemma load_word_uint:
  assumes "load_word S m a = Some (x :: 'w::len word)"
  shows "sem_load S m LENGTH('w) (uint a) = Some (uint x)"
proof -
  from assms obtain y where y: "sem_load S m LENGTH('w) (uint a) = Some y" and x: "x = word_of_int y"
    by (auto simp: load_word_def)
  then show ?thesis using load_range[OF y] by (simp add: in_width_word)
qed

lemma wp_createBSwap:
  fixes x :: "'w::len word"
  assumes "wf s" and "hw S s \<sigma> v x" and "LENGTH('w) = 16 * k"
    and "\<And>r s' \<sigma>'. pure s \<sigma> s' \<sigma>' \<Longrightarrow> hw S s' \<sigma>' r (bswap_word x) \<Longrightarrow> Q r s' \<sigma>'"
  shows "wp S (createBSwap v) Q s \<sigma>"
  unfolding createBSwap_def
  by (rule wp_emit_named[OF assms(1), where x="VInt LENGTH('w) (uint (bswap_word x))"])
     (use assms(2,4) sem_bswap_word[OF assms(3), of x] in \<open>auto simp: exec_instr_def hw_def holds_def\<close>)

section \<open>Masked shifts\<close>

lemma wp_masked_shift:
  fixes x y :: "'w::len word"
  assumes w: "wf s" and a: "hw S s \<sigma> a x" and b: "hw S s \<sigma> b y"
    and z: "bop_word bop x (shift_mask AND y) = Some z"
    and Q: "\<And>v s' \<sigma>'. pure s \<sigma> s' \<sigma>' \<Longrightarrow> hw S s' \<sigma>' v z \<Longrightarrow> Q v s' \<sigma>'"
  shows "wp S (masked_shift bop a b) Q s \<sigma>"
proof -
  let ?m = "ConstInt LENGTH('w) (int (LENGTH('w) - 1))"
  have m: "hw S s \<sigma> ?m (shift_mask :: 'w word)"
    by (simp add: hw_def holds_def eval_def uint_shift_mask)
  have "int (LENGTH('w) - 1) < 2 ^ LENGTH('w)"
    using uint_shift_mask[where 'w='w] uint_lt2p[of "shift_mask :: 'w word"] by simp
  then have mask: "getMaskByType (type_of a) = ret ?m"
    by (simp add: hw_type[OF a] getUnsignedIntConst_def del: of_nat_diff)
  have "wp S (emit_named (IntTy LENGTH('w)) (BinopI And ?m b))
      (\<lambda>masked. wp S (emit_named (IntTy LENGTH('w)) (BinopI bop a masked)) Q) s \<sigma>"
  proof (rule wp_binop[OF w m b _ refl])
    show "bop_word And shift_mask y = Some (shift_mask AND y)"
      by (simp add: bop_word_def)
    fix v s' \<sigma>' assume 1: "pure s \<sigma> s' \<sigma>'"
      and 2: "hw S s' \<sigma>' v (shift_mask AND y)"
    show "wp S (emit_named (IntTy LENGTH('w)) (BinopI bop a v)) Q s' \<sigma>'"
      by (rule wp_binop[OF pure_wf[OF 1] hw_pure[OF a 1] 2 z refl]) (rule Q[OF pure_trans[OF 1]])
  qed
  then show ?thesis
    unfolding masked_shift_def mask
    by (auto simp: hw_type[OF a] hw_type[OF b] intro!: wp_andthen wp_bnd wp_check wp_ret)
qed

lemma wp_createMaskedShl:
  fixes x y :: "'w::len word"
  assumes "wf s" and "hw S s \<sigma> a x" and "hw S s \<sigma> b y"
    and "\<And>v s' \<sigma>'. pure s \<sigma> s' \<sigma>' \<Longrightarrow> hw S s' \<sigma>' v (push_bit (shift_amount y) x) \<Longrightarrow> Q v s' \<sigma>'"
  shows "wp S (createMaskedShl a b) Q s \<sigma>"
  unfolding createMaskedShl_def
  by (rule wp_masked_shift[OF assms(1-3) _ assms(4)])
     (simp_all add: bop_word_def shift_amount_def shift_amount_less)

lemma wp_createMaskedLShr:
  fixes x y :: "'w::len word"
  assumes "wf s" and "hw S s \<sigma> a x" and "hw S s \<sigma> b y"
    and "\<And>v s' \<sigma>'. pure s \<sigma> s' \<sigma>' \<Longrightarrow> hw S s' \<sigma>' v (drop_bit (shift_amount y) x) \<Longrightarrow> Q v s' \<sigma>'"
  shows "wp S (createMaskedLShr a b) Q s \<sigma>"
  unfolding createMaskedLShr_def
  by (rule wp_masked_shift[OF assms(1-3) _ assms(4)])
     (simp_all add: bop_word_def shift_amount_def shift_amount_less)

lemma wp_createMaskedAShr:
  fixes x y :: "'w::len word"
  assumes "wf s" and "hw S s \<sigma> a x" and "hw S s \<sigma> b y"
    and "\<And>v s' \<sigma>'. pure s \<sigma> s' \<sigma>' \<Longrightarrow> hw S s' \<sigma>' v (signed_drop_bit (shift_amount y) x) \<Longrightarrow> Q v s' \<sigma>'"
  shows "wp S (createMaskedAShr a b) Q s \<sigma>"
  unfolding createMaskedAShr_def
  by (rule wp_masked_shift[OF assms(1-3) _ assms(4)])
     (simp_all add: bop_word_def shift_amount_def shift_amount_less)

section \<open>Register storage\<close>

lemma wp_load_slot:
  fixes x :: "'w::len word"
  assumes "wf s" and "hslot s \<sigma> p k" and "slots \<sigma> k = Some (LENGTH('w), uint x)"
    and "\<And>v s' \<sigma>'. pure s \<sigma> s' \<sigma>' \<Longrightarrow> hw S s' \<sigma>' v x \<Longrightarrow> Q v s' \<sigma>'"
  shows "wp S (createLoad (IntTy LENGTH('w)) p) Q s \<sigma>"
  unfolding createLoad_def
  by (rule wp_emit_named[OF assms(1), where x="VInt LENGTH('w) (uint x)"])
     (use assms(2-4) in \<open>auto simp: exec_instr_def eval_hslot holds_def exec_load_def hw_def\<close>)

lemma wp_load_slot_ptr:
  assumes "wf s" and "hslot s \<sigma> p k" and "slots \<sigma> k = Some (64, uint x)"
    and "\<And>v s' \<sigma>'. pure s \<sigma> s' \<sigma>' \<Longrightarrow> hp S s' \<sigma>' v x \<Longrightarrow> Q v s' \<sigma>'"
  shows "wp S (createLoad PtrTy p) Q s \<sigma>"
  unfolding createLoad_def
  by (rule wp_emit_named[OF assms(1), where x="VPtr (uint x)"])
     (use assms(2-4) in \<open>auto simp: exec_instr_def eval_hslot holds_def exec_load_def hp_def\<close>)

lemma wp_store_slot:
  fixes x :: "'w::len word"
  assumes "wf s" and "hw S s \<sigma> v x" and "hslot s \<sigma> p k"
    and "\<And>s'. pure s (\<sigma>\<lparr>slots := (slots \<sigma>)(k \<mapsto> (LENGTH('w), uint x))\<rparr>) s'
           (\<sigma>\<lparr>slots := (slots \<sigma>)(k \<mapsto> (LENGTH('w), uint x))\<rparr>) \<Longrightarrow>
         Q () s' (\<sigma>\<lparr>slots := (slots \<sigma>)(k \<mapsto> (LENGTH('w), uint x))\<rparr>)"
  shows "wp S (createStore v p) Q s \<sigma>"
  unfolding createStore_def
  by (rule wp_emit_void[OF assms(1), where \<tau>="\<sigma>\<lparr>slots := (slots \<sigma>)(k \<mapsto> (LENGTH('w), uint x))\<rparr>"])
     (use assms(2-) in \<open>auto simp: exec_instr_def eval_hslot holds_def exec_store_def hw_def\<close>)

lemma wp_store_slot_ptr:
  assumes "wf s" and "hp S s \<sigma> v x" and "hslot s \<sigma> p k"
    and "\<And>s'. pure s (\<sigma>\<lparr>slots := (slots \<sigma>)(k \<mapsto> (64, uint x))\<rparr>) s'
           (\<sigma>\<lparr>slots := (slots \<sigma>)(k \<mapsto> (64, uint x))\<rparr>) \<Longrightarrow>
         Q () s' (\<sigma>\<lparr>slots := (slots \<sigma>)(k \<mapsto> (64, uint x))\<rparr>)"
  shows "wp S (createStore v p) Q s \<sigma>"
  unfolding createStore_def
  by (rule wp_emit_void[OF assms(1), where \<tau>="\<sigma>\<lparr>slots := (slots \<sigma>)(k \<mapsto> (64, uint x))\<rparr>"])
     (use assms(2-) in \<open>auto simp: exec_instr_def eval_hslot holds_def exec_store_def hp_def\<close>)

section \<open>Memory updates\<close>

lemma wp_store_mem:
  fixes x :: "'w::len word"
  assumes "wf s" and "hw S s \<sigma> v x" and "hp S s \<sigma> p a" and "store_word S (mem \<sigma>) a x = Some m'"
    and "\<And>s'. pure s (\<sigma>\<lparr>mem := m'\<rparr>) s' (\<sigma>\<lparr>mem := m'\<rparr>) \<Longrightarrow> Q () s' (\<sigma>\<lparr>mem := m'\<rparr>)"
  shows "wp S (createStore v p) Q s \<sigma>"
  unfolding createStore_def
  by (rule wp_emit_void[OF assms(1), where \<tau>="\<sigma>\<lparr>mem := m'\<rparr>"])
     (use assms(2-) in \<open>auto simp: exec_instr_def hp_def holds_def exec_store_def hw_def store_word_def\<close>)

lemma wp_atomic_rmw:
  fixes x old :: "'w::len word"
  assumes "wf s" and "hp S s \<sigma> p a" and "hw S s \<sigma> v x"
    and "uint a mod int al = 0" and "load_word S (mem \<sigma>) a = Some old"
    and "store_word S (mem \<sigma>) a (rmw_word rop old x) = Some m'"
    and "\<And>r s' \<sigma>'. pure s (\<sigma>\<lparr>mem := m'\<rparr>) s' \<sigma>' \<Longrightarrow> hw S s' \<sigma>' r old \<Longrightarrow> Q r s' \<sigma>'"
  shows "wp S (emit nm (IntTy LENGTH('w)) (AtomicRMWI rop p v al)) Q s \<sigma>"
proof -
  have l: "sem_load S (mem \<sigma>) LENGTH('w) (uint a) = Some (uint old)"
    by (rule load_word_uint[OF assms(5)])
  have "sem_rmw S rop (mem \<sigma>) LENGTH('w) al (uint a) (uint x) = Some (uint old, m')"
    using assms(6) by (intro rmw[OF assms(4) l]) (simp add: store_word_def uint_rmw_word)
  then show ?thesis
    by (intro wp_emit_value[OF assms(1), where x="VInt LENGTH('w) (uint old)"])
       (use assms(2,3,7) in \<open>auto simp: exec_instr_def hp_def hw_def holds_def\<close>)
qed

lemma wp_cmpxchg:
  fixes x e old :: "'w::len word"
  assumes "wf s" and "hp S s \<sigma> p a" and "hw S s \<sigma> ev e" and "hw S s \<sigma> v x"
    and "uint a mod int al = 0" and "load_word S (mem \<sigma>) a = Some old"
    and "if old = e then store_word S (mem \<sigma>) a x = Some m' else m' = mem \<sigma>"
    and "\<And>r s' \<sigma>'. pure s (\<sigma>\<lparr>mem := m'\<rparr>) s' \<sigma>' \<Longrightarrow> hw S s' \<sigma>' r old \<Longrightarrow> Q r s' \<sigma>'"
  shows "wp S (bnd (emit nm (StructTy [IntTy LENGTH('w), IntTy 1]) (CmpXchgI p ev v al))
      (\<lambda>cx. createExtractValue cx 0)) Q s \<sigma>"
proof (rule wp_bnd, rule wp_emit_value[OF assms(1)])
  have l: "sem_load S (mem \<sigma>) LENGTH('w) (uint a) = Some (uint old)"
    by (rule load_word_uint[OF assms(6)])
  have "sem_cmpxchg S (mem \<sigma>) LENGTH('w) al (uint a) (uint e) (uint x) = Some (uint old, m')"
    using assms(7) cmpxchg_hit[OF assms(5) l, of "uint x" m'] cmpxchg_miss[OF assms(5) l, of "uint e" "uint x"]
    by (auto simp: store_word_def word_uint_eq_iff split: if_splits)
  then show "exec_instr S (nid s) (CmpXchgI p ev v al) \<sigma> =
      Some (Some (VStruct [VInt LENGTH('w) (uint old), VInt 1 (of_bool (uint old = uint e))]), \<sigma>\<lparr>mem := m'\<rparr>)"
    using assms(2-4) by (auto simp: exec_instr_def hp_def hw_def holds_def)
  fix r s' \<sigma>' assume 1: "pure s (\<sigma>\<lparr>mem := m'\<rparr>) s' \<sigma>'"
    "holds S s' \<sigma>' r (VStruct [VInt LENGTH('w) (uint old), VInt 1 (of_bool (uint old = uint e))])"
    "type_of r = StructTy [IntTy LENGTH('w), IntTy 1]"
  show "wp S (createExtractValue r 0) Q s' \<sigma>'"
    unfolding createExtractValue_def 1(3) using 1(2)
    by (auto simp: exec_instr_def holds_def hw_def pure_wf[OF 1(1)]
        intro!: wp_emit_named[where x="VInt LENGTH('w) (uint old)"] assms(8) pure_trans[OF 1(1)])
qed

section \<open>Terminators\<close>

lemma wpj_createBranch:
  assumes "wf s" and "\<And>s'. pure s \<sigma> s' \<sigma> \<Longrightarrow> Q s' (Run t 0 \<sigma>)"
  shows "wpj S (createBranch t) Q s \<sigma>"
  unfolding createBranch_def by (rule wpj_emit[OF assms(1)]) (simp add: exec_at_def, rule assms(2))

lemma wpj_createCondBranch:
  assumes "wf s" and "hb S s \<sigma> v b"
    and "\<And>s'. pure s \<sigma> s' \<sigma> \<Longrightarrow> Q s' (Run (if b then t else f) 0 \<sigma>)"
  shows "wpj S (createCondBranch v t f) Q s \<sigma>"
  unfolding createCondBranch_def
  by (rule wpj_emit[OF assms(1), where c="Run (if b then t else f) 0 \<sigma>"])
     (use assms(2,3) in \<open>auto simp: exec_at_def hb_def holds_def\<close>)

lemma wpj_createReturn:
  assumes "wf s" and "holds S s \<sigma> v x"
    and "\<And>s'. pure s \<sigma> s' \<sigma> \<Longrightarrow> Q s' (Returned (Some x) \<sigma>)"
  shows "wpj S (createReturn (Some v)) Q s \<sigma>"
  unfolding createReturn_def
  by (rule wpj_emit[OF assms(1), where c="Returned (Some x) \<sigma>"])
     (use assms(2,3) in \<open>auto simp: exec_at_def holds_def\<close>)

lemma wpj_createReturn_void:
  assumes "wf s" and "\<And>s'. pure s \<sigma> s' \<sigma> \<Longrightarrow> Q s' (Returned None \<sigma>)"
  shows "wpj S (createReturn None) Q s \<sigma>"
  unfolding createReturn_def
  by (rule wpj_emit[OF assms(1)]) (simp add: exec_at_def, rule assms(2))

end

end
