(* ===== verification/Division_WP.thy ===== *)
theory Division_WP
  imports Builder_WP
begin

text \<open>
  The total divisions of \<open>mc2llvm.cpp\<close>: their code branches, so the rules here follow a thread of
  execution while blocks other than the one it runs in are filled. \<open>wpt S c m P s\<close>: the action
  succeeds from \<open>s\<close> and, over the code it leaves, the configuration \<open>c\<close> runs to one with \<open>P\<close>. A
  thread is live while it stands where emission stands, and waits at the start of an empty block
  while other blocks are emitted.
\<close>

section \<open>Following a thread\<close>

definition wpt :: "'m llvm_sem \<Rightarrow> 'm conf \<Rightarrow> 'a lifter \<Rightarrow> ('a \<Rightarrow> lstate \<Rightarrow> 'm conf \<Rightarrow> bool) \<Rightarrow> lstate \<Rightarrow> bool" where
  "wpt S c m P s \<longleftrightarrow> (\<exists>v s' c'. m s = Inr (v, s') \<and> grows s s' \<and> steps S (fn s') c c' \<and> P v s' c')"

lemma wpt_bnd:
  assumes "wpt S c m (\<lambda>v s' c'. wpt S c' (k v) P s') s"
  shows "wpt S c (bnd m k) P s"
proof -
  from assms obtain v s1 c1 where 1: "m s = Inr (v, s1)" "grows s s1" "steps S (fn s1) c c1"
      and "wpt S c1 (k v) P s1"
    unfolding wpt_def by blast
  then obtain u s2 c2 where 2: "k v s1 = Inr (u, s2)" "grows s1 s2" "steps S (fn s2) c1 c2" "P u s2 c2"
    unfolding wpt_def by blast
  have "steps S (fn s2) c c1"
    using 1(3) 2(2) by (auto simp: grows_def intro: steps_mono)
  with 1 2 show ?thesis
    unfolding wpt_def by (auto intro: grows_trans steps_trans)
qed

lemma wpt_andthen: "wpt S c m (\<lambda>_ s' c'. wpt S c' k P s') s \<Longrightarrow> wpt S c (andthen m k) P s"
  unfolding andthen_def by (rule wpt_bnd)

lemma wpt_live: "wp S m (\<lambda>v s' \<sigma>'. P v s' (cur s' \<sigma>')) s \<sigma> \<Longrightarrow> wpt S (cur s \<sigma>) m P s"
  unfolding wp_def wpt_def by blast

lemma wpt_jump: "wpj S m (\<lambda>s' c'. P () s' c') s \<sigma> \<Longrightarrow> wpt S (cur s \<sigma>) m P s"
  unfolding wpj_def wpt_def by (auto simp: unit_eq)

lemma wpt_dead: "m s = Inr (v, s') \<Longrightarrow> grows s s' \<Longrightarrow> P v s' c \<Longrightarrow> wpt S c m P s"
  unfolding wpt_def by blast

lemma wp_of_wpt:
  "wpt S (cur s \<sigma>) m (\<lambda>v s' c'. \<exists>\<sigma>'. c' = cur s' \<sigma>' \<and> Q v s' \<sigma>') s \<Longrightarrow> wp S m Q s \<sigma>"
  unfolding wp_def wpt_def by blast

section \<open>Actions that append to the current block only\<close>

definition straight :: "lstate \<Rightarrow> lstate \<Rightarrow> bool" where
  "straight s s' \<longleftrightarrow> LLVMBB s' = LLVMBB s \<and> length (fn s') = length (fn s)
     \<and> (\<forall>c < length (fn s). c \<noteq> LLVMBB s \<longrightarrow> fn s' ! c = fn s ! c) \<and> grows s s' \<and> same_ctx s s' \<and> wf s'"

definition straightm :: "'a lifter \<Rightarrow> bool" where
  "straightm m \<longleftrightarrow> (\<forall>s. wf s \<longrightarrow> (\<exists>v s'. m s = Inr (v, s') \<and> straight s s'))"

lemma straight_trans: "straight s s' \<Longrightarrow> straight s' s'' \<Longrightarrow> straight s s''"
  by (auto simp: straight_def intro: grows_trans same_ctx_trans)

lemma straightmD: "straightm m \<Longrightarrow> wf s \<Longrightarrow> \<exists>v s'. m s = Inr (v, s') \<and> straight s s'"
  by (simp add: straightm_def)

lemma straightm_bnd: "straightm m \<Longrightarrow> (\<And>v. straightm (k v)) \<Longrightarrow> straightm (bnd m k)"
  unfolding straightm_def by (metis bnd_Inr straight_def straight_trans)

lemma straightm_ret: "straightm (ret v)"
  by (simp add: straightm_def straight_def)

lemma straightm_emit: "straightm (emit nm t ins)"
  unfolding straightm_def
proof (intro allI impI)
  fix s assume w: "wf s"
  obtain v s' where e: "emit nm t ins s = Inr (v, s')" by (simp add: emit_def)
  have "length (fn s') = length (fn s)" "\<forall>c < length (fn s). c \<noteq> LLVMBB s \<longrightarrow> fn s' ! c = fn s ! c"
    using e by (auto simp: emit_def append_insn_def)
  then show "\<exists>v s'. emit nm t ins s = Inr (v, s') \<and> straight s s'"
    using e emit_facts[OF w e] by (auto simp: straight_def)
qed

lemma straightm_nextName: "straightm nextName"
  by (auto simp: straightm_def straight_def nextName_def grows_def same_ctx_def wf_def)

lemma straightm_emit_named: "straightm (emit_named t ins)"
  unfolding emit_named_def by (intro straightm_bnd straightm_nextName straightm_emit)

lemma straightm_emit_void: "straightm (emit_void ins)"
  unfolding emit_void_def by (intro straightm_bnd straightm_emit straightm_ret)

lemma straightm_andthen: "straightm m \<Longrightarrow> straightm k \<Longrightarrow> straightm (andthen m k)"
  unfolding andthen_def by (rule straightm_bnd)

lemmas straightm_intros = straightm_bnd straightm_andthen straightm_ret straightm_emit
  straightm_emit_named straightm_emit_void

lemma wp_straight:
  "wp S m Q s \<sigma> \<Longrightarrow> straightm m \<Longrightarrow> wf s \<Longrightarrow> wp S m (\<lambda>v s' \<sigma>'. Q v s' \<sigma>' \<and> straight s s') s \<sigma>"
  unfolding wp_def by (drule (1) straightmD) fastforce

lemma wpj_straight:
  "wpj S m Q s \<sigma> \<Longrightarrow> straightm m \<Longrightarrow> wf s \<Longrightarrow> wpj S m (\<lambda>s' c. Q s' c \<and> straight s s') s \<sigma>"
  unfolding wpj_def by (drule (1) straightmD) fastforce

section \<open>Switching blocks\<close>

definition empty_block :: "lstate \<Rightarrow> nat \<Rightarrow> bool" where
  "empty_block s b \<longleftrightarrow> b < length (fn s) \<and> snd (fn s ! b) = []"

lemma cur_empty_block: "empty_block s b \<Longrightarrow> cur (s\<lparr>LLVMBB := b\<rparr>) \<sigma> = Run b 0 \<sigma>"
  by (simp add: cur_def empty_block_def)

lemma empty_block_straight:
  "empty_block s b \<Longrightarrow> straight s s' \<Longrightarrow> b \<noteq> LLVMBB s \<Longrightarrow> empty_block s' b"
  by (auto simp: empty_block_def straight_def)

lemma set_bb_simps [simp]:
  "hw S (s\<lparr>LLVMBB := b\<rparr>) \<sigma> v x = hw S s \<sigma> v x" "hslot (s\<lparr>LLVMBB := b\<rparr>) \<sigma> v k = hslot s \<sigma> v k"
  "grows s (s\<lparr>LLVMBB := b\<rparr>)" "empty_block (s\<lparr>LLVMBB := b\<rparr>) c = empty_block s c"
  by (simp_all add: hw_def hslot_def holds_def grows_def empty_block_def)

lemma pure_set_bb: "pure s0 \<sigma>0 s \<sigma> \<Longrightarrow> b < length (fn s) \<Longrightarrow> pure s0 \<sigma>0 (s\<lparr>LLVMBB := b\<rparr>) \<sigma>"
  by (auto simp: pure_def wf_def same_ctx_def)

lemma pure_straight: "pure s0 \<sigma>0 s \<sigma> \<Longrightarrow> straight s s' \<Longrightarrow> pure s0 \<sigma>0 s' \<sigma>"
  by (auto simp: pure_def straight_def grows_def intro: same_ctx_trans)

lemma pure_fresh_slot:
  "pure s0 \<sigma>0 s \<sigma> \<Longrightarrow> nid s0 \<le> k \<Longrightarrow> pure s0 \<sigma>0 s (\<sigma>\<lparr>slots := (slots \<sigma>)(k := x)\<rparr>)"
  by (auto simp: pure_def keeps_def)

lemma hslot_straight: "hslot s \<sigma> p k \<Longrightarrow> straight s s' \<Longrightarrow> hslot s' \<sigma> p k"
  by (auto simp: hslot_def straight_def grows_def)


section \<open>The pieces of the diamonds\<close>

text \<open>The scratch alloca of a diamond, as seen from the state \<open>s0\<close> before it: storage with a number
  that did not exist in \<open>s0\<close>.\<close>

definition scratch :: "lstate \<Rightarrow> 'm machine \<Rightarrow> lstate \<Rightarrow> 'm machine \<Rightarrow> llvalue \<Rightarrow> nat \<Rightarrow> bool" where
  "scratch s0 \<sigma>0 s \<sigma> p k \<longleftrightarrow> pure s0 \<sigma>0 s \<sigma> \<and> hslot s \<sigma> p k \<and> nid s0 \<le> k \<and> k < nid s"

definition slot_is :: "'m machine \<Rightarrow> nat \<Rightarrow> 'w::len word \<Rightarrow> bool" where
  "slot_is \<sigma> k x \<longleftrightarrow> slots \<sigma> k = Some (LENGTH('w), uint x)"

lemma scratch_pure: "scratch s0 \<sigma>0 s \<sigma> p k \<Longrightarrow> pure s \<sigma> s' \<sigma>' \<Longrightarrow> scratch s0 \<sigma>0 s' \<sigma>' p k"
  unfolding scratch_def by (auto intro: pure_trans hslot_pure) (auto simp: pure_def)

lemma scratch_straight: "scratch s0 \<sigma>0 s \<sigma> p k \<Longrightarrow> straight s s' \<Longrightarrow> scratch s0 \<sigma>0 s' \<sigma> p k"
  unfolding scratch_def by (auto intro: pure_straight hslot_straight) (auto simp: straight_def grows_def)

lemma scratch_set_bb:
  "scratch s0 \<sigma>0 s \<sigma> p k \<Longrightarrow> b < length (fn s) \<Longrightarrow> scratch s0 \<sigma>0 (s\<lparr>LLVMBB := b\<rparr>) \<sigma> p k"
  by (simp add: scratch_def pure_set_bb)

lemma scratch_store:
  "scratch s0 \<sigma>0 s \<sigma> p k \<Longrightarrow> scratch s0 \<sigma>0 s (\<sigma>\<lparr>slots := (slots \<sigma>)(k := x)\<rparr>) p k"
  by (auto simp: scratch_def pure_fresh_slot hslot_def)

lemma scratch_wf: "scratch s0 \<sigma>0 s \<sigma> p k \<Longrightarrow> wf s"
  by (simp add: scratch_def pure_def)

lemma slot_is_pure: "slot_is \<sigma> k x \<Longrightarrow> scratch s0 \<sigma>0 s \<sigma> p k \<Longrightarrow> pure s \<sigma> s' \<sigma>' \<Longrightarrow> slot_is \<sigma>' k x"
  by (simp add: slot_is_def scratch_def pure_def)

lemma wp_alloca:
  assumes "wf s" and "\<And>p s' \<sigma>'. scratch s \<sigma> s' \<sigma>' p (nid s) \<Longrightarrow> Q p s' \<sigma>'"
  shows "wp S (createAlloca t n nm) Q s \<sigma>"
proof -
  obtain v s' where e: "emit nm PtrTy (AllocaI t n) s = Inr (v, s')" by (simp add: emit_def)
  note f = emit_facts[OF assms(1) e]
  let ?\<tau> = "\<sigma>\<lparr>slots := (slots \<sigma>)(nid s := None)\<rparr>"
  have ex: "exec_instr S (nid s) (AllocaI t n) \<sigma> = Some (Some (VSlot (nid s)), ?\<tau>)"
    by (simp add: exec_instr_def)
  have "pure s \<sigma> s' (define_local (nid s) (VSlot (nid s)) ?\<tau>)"
    using f by (auto simp: pure_def keeps_def define_local_def)
  then have "scratch s \<sigma> s' (define_local (nid s) (VSlot (nid s)) ?\<tau>) v (nid s)"
    using f by (auto simp: scratch_def hslot_def define_local_def)
  then show ?thesis
    unfolding wp_def createAlloca_def using e f(3) steps_emit_value[OF assms(1) e ex] assms(2) by blast
qed


lemma wp_newBlock:
  assumes w: "wf s"
    and Q: "\<And>s'. pure s \<sigma> s' \<sigma> \<Longrightarrow> empty_block s' (length (fn s)) \<Longrightarrow> length (fn s') = Suc (length (fn s)) \<Longrightarrow>
      LLVMBB s' = LLVMBB s \<Longrightarrow> (\<And>c. empty_block s c \<Longrightarrow> empty_block s' c) \<Longrightarrow> Q (length (fn s)) s' \<sigma>"
  shows "wp S (newBlock nm) Q s \<sigma>"
proof -
  let ?s = "s\<lparr>fn := fn s @ [(nm, [])]\<rparr>"
  have "Q (length (fn s)) ?s \<sigma>"
    by (rule Q) (use w in \<open>auto simp: pure_def keeps_def same_ctx_def wf_def empty_block_def nth_append\<close>)
  moreover have "grows s ?s" by (auto simp: grows_def code_le_def nth_append)
  moreover have "cur s \<sigma> = cur ?s \<sigma>" using w by (simp add: cur_def wf_def nth_append)
  ultimately show ?thesis
    unfolding wp_def newBlock_def by (metis steps_refl)
qed

lemma wpt_skip:
  assumes "straightm m" and "wf s" and "\<And>v s'. straight s s' \<Longrightarrow> P v s' c"
  shows "wpt S c m P s"
  using straightmD[OF assms(1,2)] assms(3) by (auto simp: straight_def intro: wpt_dead)

lemma wpt_set_bb: "P () (s\<lparr>LLVMBB := b\<rparr>) c \<Longrightarrow> wpt S c (set_bb b) P s"
  by (rule wpt_dead[of _ _ "()"]) (simp_all add: set_bb_def)

lemma straight_wf: "straight s s' \<Longrightarrow> wf s'"
  by (simp add: straight_def)

lemmas straightm_defs = createStore_def createBranch_def createCondBranch_def createICmp_def
  createAnd_def createAlloca_def

lemma straightm_helpers:
  "straightm (createStore v p)" "straightm (createBranch rb)" "straightm (createCondBranch c t f)"
  "straightm (createICmp pr a b)" "straightm (createAnd a b)" "straightm (createAlloca ty n nm)"
  unfolding straightm_defs by (intro straightm_intros)+

lemma wpt_tail_dead:
  assumes "wf s" and "\<And>s'. straight s s' \<Longrightarrow> wpt S c K P s'"
  shows "wpt S c (andthen (createStore v p) (andthen (createBranch rb) K)) P s"
proof (rule wpt_andthen, rule wpt_skip[OF straightm_helpers(1) assms(1)])
  fix v' s1 assume 1: "straight s s1"
  show "wpt S c (andthen (createBranch rb) K) P s1"
    by (rule wpt_andthen, rule wpt_skip[OF straightm_helpers(2) straight_wf[OF 1]])
       (rule assms(2)[OF straight_trans[OF 1]])
qed

lemma wpt_arm_dead:
  assumes "wf s" and "B < length (fn s)" and "straightm m" and "\<And>s'. straight (s\<lparr>LLVMBB := B\<rparr>) s' \<Longrightarrow> wpt S c K P s'"
  shows "wpt S c (andthen (set_bb B) (bnd m (\<lambda>v. andthen (createStore v p) (andthen (createBranch rb) K)))) P s"
proof (rule wpt_andthen, rule wpt_set_bb, rule wpt_bnd, rule wpt_skip[OF assms(3)])
  show "wf (s\<lparr>LLVMBB := B\<rparr>)" using assms(2) by (simp add: wf_def)
  fix v s' assume 1: "straight (s\<lparr>LLVMBB := B\<rparr>) s'"
  show "wpt S c (andthen (createStore v p) (andthen (createBranch rb) K)) P s'"
    by (rule wpt_tail_dead[OF straight_wf[OF 1]]) (rule assms(4)[OF straight_trans[OF 1]])
qed

definition overflow_check :: "nat \<Rightarrow> llvalue \<Rightarrow> llvalue \<Rightarrow> nat \<Rightarrow> nat \<Rightarrow> unit lifter" where
  "overflow_check w a b ob db = bnd (createICmp ICMP_EQ a (getSignedMinConst w)) (\<lambda>LHSIsIntMin.
    bnd (createICmp ICMP_EQ b (getAllOnesConst w)) (\<lambda>RHSIsAllOnes.
    bnd (createAnd LHSIsIntMin RHSIsAllOnes) (\<lambda>isOverflow. createCondBranch isOverflow ob db)))"

lemma straightm_overflow_check: "straightm (overflow_check w a b ob db)"
  unfolding overflow_check_def by (intro straightm_bnd straightm_helpers)

context langref
begin

lemma wpt_tail_live:
  fixes z :: "'w::len word"
  assumes sc: "scratch s0 \<sigma>0 s \<sigma> p k" and v: "hw S s \<sigma> v z"
    and K: "\<And>s' \<sigma>'. scratch s0 \<sigma>0 s' \<sigma>' p k \<Longrightarrow> slot_is \<sigma>' k z \<Longrightarrow> straight s s' \<Longrightarrow> wpt S (Run rb 0 \<sigma>') K P s'"
  shows "wpt S (cur s \<sigma>) (andthen (createStore v p) (andthen (createBranch rb) K)) P s"
proof (rule wpt_andthen, rule wpt_live)
  note w = scratch_wf[OF sc]
  have p: "hslot s \<sigma> p k" using sc by (simp add: scratch_def)
  let ?\<sigma> = "\<sigma>\<lparr>slots := (slots \<sigma>)(k \<mapsto> (LENGTH('w), uint z))\<rparr>"
  have "wp S (createStore v p) (\<lambda>_ s' \<sigma>'. pure s ?\<sigma> s' \<sigma>' \<and> \<sigma>' = ?\<sigma>) s \<sigma>"
    by (rule wp_store_slot[OF w v p]) blast
  from wp_straight[OF this straightm_helpers(1) w]
  show "wp S (createStore v p) (\<lambda>_ s' \<sigma>'. wpt S (cur s' \<sigma>') (andthen (createBranch rb) K) P s') s \<sigma>"
  proof (rule wp_weaken)
    fix u s1 \<sigma>1 assume 1: "(pure s ?\<sigma> s1 \<sigma>1 \<and> \<sigma>1 = ?\<sigma>) \<and> straight s s1"
    have sc1: "scratch s0 \<sigma>0 s1 ?\<sigma> p k"
      using scratch_straight[OF scratch_store[OF sc]] 1 by blast
    have is1: "slot_is ?\<sigma> k z" by (simp add: slot_is_def)
    have "wpj S (createBranch rb) (\<lambda>s' c. pure s1 ?\<sigma> s' ?\<sigma> \<and> c = Run rb 0 ?\<sigma>) s1 ?\<sigma>"
      by (rule wpj_createBranch[OF scratch_wf[OF sc1]]) blast
    from wpj_straight[OF this straightm_helpers(2) scratch_wf[OF sc1]]
    have "wpj S (createBranch rb) (\<lambda>s' c. wpt S c K P s') s1 ?\<sigma>"
      unfolding wpj_def using 1 K[OF scratch_straight[OF sc1] is1] straight_trans by blast
    then show "wpt S (cur s1 \<sigma>1) (andthen (createBranch rb) K) P s1"
      using 1 by (intro wpt_andthen wpt_jump) simp
  qed
qed

lemma wpt_arm_live:
  fixes z :: "'w::len word"
  assumes sc: "scratch s0 \<sigma>0 s \<sigma> p k" and eb: "empty_block s B" and st: "straightm m"
    and op: "\<And>s1 Q. pure s \<sigma> s1 \<sigma> \<Longrightarrow> (\<And>v s' \<sigma>'. pure s1 \<sigma> s' \<sigma>' \<Longrightarrow> hw S s' \<sigma>' v z \<Longrightarrow> Q v s' \<sigma>') \<Longrightarrow> wp S m Q s1 \<sigma>"
    and K: "\<And>s' \<sigma>'. scratch s0 \<sigma>0 s' \<sigma>' p k \<Longrightarrow> slot_is \<sigma>' k z \<Longrightarrow> straight (s\<lparr>LLVMBB := B\<rparr>) s' \<Longrightarrow>
      wpt S (Run rb 0 \<sigma>') K P s'"
  shows "wpt S (Run B 0 \<sigma>) (andthen (set_bb B) (bnd m (\<lambda>v. andthen (createStore v p) (andthen (createBranch rb) K)))) P s"
proof (rule wpt_andthen, rule wpt_set_bb, rule wpt_bnd)
  let ?s = "s\<lparr>LLVMBB := B\<rparr>"
  have b: "B < length (fn s)" using eb by (simp add: empty_block_def)
  have pu: "pure s \<sigma> ?s \<sigma>" by (rule pure_set_bb[OF pure_refl[OF scratch_wf[OF sc]] b])
  have "wp S m (\<lambda>v s' \<sigma>'. pure ?s \<sigma> s' \<sigma>' \<and> hw S s' \<sigma>' v z) ?s \<sigma>"
    by (rule op[OF pu]) blast
  from wp_straight[OF this st pure_wf[OF pu]]
  have "wp S m (\<lambda>v s' \<sigma>'. wpt S (cur s' \<sigma>') (andthen (createStore v p) (andthen (createBranch rb) K)) P s') ?s \<sigma>"
  proof (rule wp_weaken, elim conjE)
    fix v s1 \<sigma>1 assume 1: "pure ?s \<sigma> s1 \<sigma>1" "hw S s1 \<sigma>1 v z" "straight ?s s1"
    show "wpt S (cur s1 \<sigma>1) (andthen (createStore v p) (andthen (createBranch rb) K)) P s1"
      by (rule wpt_tail_live[OF scratch_pure[OF scratch_set_bb[OF sc b] 1(1)] 1(2)])
         (rule K[OF _ _ straight_trans[OF 1(3)]])
  qed
  from wpt_live[OF this] show "wpt S (Run B 0 \<sigma>) m
      (\<lambda>v s' c'. wpt S c' (andthen (createStore v p) (andthen (createBranch rb) K)) P s') ?s"
    by (simp only: cur_empty_block[OF eb])
qed

lemma wpt_head:
  fixes y :: "'w::len word" and d :: "'w word"
  assumes w: "wf s" and b: "hw S s \<sigma> b y" and dv: "hw S s \<sigma> dv d" and z: "hw S s \<sigma> zero (0 :: 'w word)"
    and K: "\<And>p k s' \<sigma>'. scratch s \<sigma> s' \<sigma>' p k \<Longrightarrow> slot_is \<sigma>' k d \<Longrightarrow> straight s s' \<Longrightarrow>
      wpt S (Run (if y = 0 then rb else D) 0 \<sigma>') (K p) P s'"
  shows "wpt S (cur s \<sigma>) (bnd (createAlloca t one nm) (\<lambda>p. andthen (createStore dv p)
    (bnd (createICmp ICMP_EQ b zero) (\<lambda>c. andthen (createCondBranch c rb D) (K p))))) P s"
proof (rule wpt_bnd, rule wpt_live)
  have "wp S (createAlloca t one nm) (\<lambda>p s' \<sigma>'. scratch s \<sigma> s' \<sigma>' p (nid s)) s \<sigma>"
    by (rule wp_alloca[OF w])
  from wp_straight[OF this straightm_helpers(6) w]
  show "wp S (createAlloca t one nm) (\<lambda>p s' \<sigma>'. wpt S (cur s' \<sigma>') (andthen (createStore dv p)
    (bnd (createICmp ICMP_EQ b zero) (\<lambda>c. andthen (createCondBranch c rb D) (K p)))) P s') s \<sigma>"
  proof (rule wp_weaken, elim conjE, intro wpt_andthen wpt_live)
    fix p s1 \<sigma>1 assume sc: "scratch s \<sigma> s1 \<sigma>1 p (nid s)" and st: "straight s s1"
    note w1 = scratch_wf[OF sc]
    from sc have pu: "pure s \<sigma> s1 \<sigma>1" and hs: "hslot s1 \<sigma>1 p (nid s)" by (simp_all add: scratch_def)
    let ?\<sigma> = "\<sigma>1\<lparr>slots := (slots \<sigma>1)(nid s \<mapsto> (LENGTH('w), uint d))\<rparr>"
    have "wp S (createStore dv p) (\<lambda>_ s' \<sigma>'. pure s1 ?\<sigma> s' \<sigma>' \<and> \<sigma>' = ?\<sigma>) s1 \<sigma>1"
      by (rule wp_store_slot[OF w1 hw_pure[OF dv pu] hs]) blast
    from wp_straight[OF this straightm_helpers(1) w1]
    show "wp S (createStore dv p) (\<lambda>_ s' \<sigma>'. wpt S (cur s' \<sigma>')
      (bnd (createICmp ICMP_EQ b zero) (\<lambda>c. andthen (createCondBranch c rb D) (K p))) P s') s1 \<sigma>1"
    proof (rule wp_weaken, elim conjE, intro wpt_bnd wpt_live)
      fix u s2 \<sigma>2 assume 2: "pure s1 ?\<sigma> s2 \<sigma>2" "\<sigma>2 = ?\<sigma>" "straight s1 s2"
      have sc2: "scratch s \<sigma> s2 \<sigma>2 p (nid s)" unfolding 2(2) by (rule scratch_pure[OF scratch_store[OF sc] 2(1)[unfolded 2(2)]])
      have is2: "slot_is \<sigma>2 (nid s) d" by (simp add: slot_is_def 2(2))
      have pu2: "pure s \<sigma> s2 \<sigma>2" using sc2 by (simp add: scratch_def)
      have "wp S (createICmp ICMP_EQ b zero) (\<lambda>v s' \<sigma>'. pure s2 \<sigma>2 s' \<sigma>' \<and> hb S s' \<sigma>' v (y = 0)) s2 \<sigma>2"
        by (rule wp_createICmp[OF scratch_wf[OF sc2] hw_pure[OF b pu2] hw_pure[OF z pu2]])
           (simp add: pred_word_def)
      from wp_straight[OF this straightm_helpers(4) scratch_wf[OF sc2]]
      show "wp S (createICmp ICMP_EQ b zero) (\<lambda>c s' \<sigma>'. wpt S (cur s' \<sigma>')
        (andthen (createCondBranch c rb D) (K p)) P s') s2 \<sigma>2"
      proof (rule wp_weaken, elim conjE, intro wpt_andthen wpt_jump)
        fix v s3 \<sigma>3 assume 3: "pure s2 \<sigma>2 s3 \<sigma>3" "hb S s3 \<sigma>3 v (y = 0)" "straight s2 s3"
        note sc3 = scratch_pure[OF sc2 3(1)] and is3 = slot_is_pure[OF is2 sc2 3(1)]
        have "wpj S (createCondBranch v rb D) (\<lambda>s' c. c = Run (if y = 0 then rb else D) 0 \<sigma>3) s3 \<sigma>3"
          by (rule wpj_createCondBranch[OF scratch_wf[OF sc3] 3(2)]) simp
        from wpj_straight[OF this straightm_helpers(3) scratch_wf[OF sc3]]
        show "wpj S (createCondBranch v rb D) (\<lambda>s' c'. wpt S c' (K p) P s') s3 \<sigma>3"
          unfolding wpj_def using K[OF scratch_straight[OF sc3] is3] st 2(3) 3(3) straight_trans by blast
      qed
    qed
  qed
qed

lemma wpt_join:
  fixes z :: "'w::len word"
  assumes sc: "scratch s0 \<sigma>0 s \<sigma> p k" and eb: "empty_block s rb" and sl: "slot_is \<sigma> k z"
    and Q: "\<And>v s' \<sigma>'. pure s0 \<sigma>0 s' \<sigma>' \<Longrightarrow> hw S s' \<sigma>' v z \<Longrightarrow> Q v s' \<sigma>'"
  shows "wpt S (Run rb 0 \<sigma>) (andthen (set_bb rb) (createLoad (IntTy LENGTH('w)) p))
    (\<lambda>v s' c'. \<exists>\<sigma>'. c' = cur s' \<sigma>' \<and> Q v s' \<sigma>') s"
proof (rule wpt_andthen, rule wpt_set_bb)
  have b: "rb < length (fn s)" using eb by (simp add: empty_block_def)
  note sc' = scratch_set_bb[OF sc b]
  have hs: "hslot (s\<lparr>LLVMBB := rb\<rparr>) \<sigma> p k" and pu: "pure s0 \<sigma>0 (s\<lparr>LLVMBB := rb\<rparr>) \<sigma>"
    using sc' by (simp_all add: scratch_def)
  have "wp S (createLoad (IntTy LENGTH('w)) p) (\<lambda>v s' \<sigma>'. \<exists>\<tau>. cur s' \<sigma>' = cur s' \<tau> \<and> Q v s' \<tau>)
      (s\<lparr>LLVMBB := rb\<rparr>) \<sigma>"
    by (rule wp_load_slot[OF scratch_wf[OF sc'] hs sl[unfolded slot_is_def]])
       (use Q pure_trans[OF pu] in blast)
  from wpt_live[OF this] show "wpt S (Run rb 0 \<sigma>) (createLoad (IntTy LENGTH('w)) p)
    (\<lambda>v s' c'. \<exists>\<sigma>'. c' = cur s' \<sigma>' \<and> Q v s' \<sigma>') (s\<lparr>LLVMBB := rb\<rparr>)"
    by (simp only: cur_empty_block[OF eb])
qed

lemma wp_width_const:
  assumes "hw S s \<sigma> a (x :: 'w::len word)"
  shows "wp S (bnd (bit_width a) k) Q s \<sigma> \<longleftrightarrow> wp S (k LENGTH('w)) Q s \<sigma>"
  using hw_type[OF assms] by (simp add: wp_def bnd_def bit_width_def)

lemma wp_zero_one:
  "wp S (bnd (getUnsignedIntConst 0 w) k) Q s \<sigma> \<longleftrightarrow> wp S (k (ConstInt w 0)) Q s \<sigma>"
  "wp S (bnd (getUnsignedIntConst 1 64) k) Q s \<sigma> \<longleftrightarrow> wp S (k (ConstInt 64 1)) Q s \<sigma>"
  by (simp_all add: wp_def bnd_def getUnsignedIntConst_def)

lemma wp_checked:
  "b \<Longrightarrow> wp S (andthen (check b e) k) Q s \<sigma> \<longleftrightarrow> wp S k Q s \<sigma>"
  by (simp add: wp_def andthen_def bnd_def)

lemma hw_zero: "hw S s \<sigma> (ConstInt LENGTH('w) 0) (0 :: 'w::len word)"
  using hw_const[of 0 0] by simp

lemma wp_checked_unsigned:
  fixes x y d q :: "'w::len word"
  assumes w: "wf s" and a: "hw S s \<sigma> a x" and b: "hw S s \<sigma> b y" and dv: "hw S s \<sigma> dv d"
    and q: "y \<noteq> 0 \<Longrightarrow> bop_word bop x y = Some q"
    and Q: "\<And>v s' \<sigma>'. pure s \<sigma> s' \<sigma>' \<Longrightarrow> hw S s' \<sigma>' v (if y = 0 then d else q) \<Longrightarrow> Q v s' \<sigma>'"
  shows "wp S (checked_unsigned bop a b dv) Q s \<sigma>"
  unfolding checked_unsigned_def wp_width_const[OF a] wp_width_const[OF b] wp_checked[OF refl]
proof (rule wp_bnd, rule wp_newBlock[OF w], rule wp_bnd, rule wp_newBlock, erule pure_wf, unfold wp_zero_one)
  fix s1 s2
  assume 1: "pure s \<sigma> s1 \<sigma>" "empty_block s1 (length (fn s))" "length (fn s1) = Suc (length (fn s))"
    and 2: "pure s1 \<sigma> s2 \<sigma>" "empty_block s2 (length (fn s1))" "LLVMBB s2 = LLVMBB s1" "LLVMBB s1 = LLVMBB s"
      "\<And>c. empty_block s1 c \<Longrightarrow> empty_block s2 c"
  let ?D = "length (fn s)" and ?R = "length (fn s1)"
  note pu = pure_trans[OF 1(1) 2(1)] and w2 = pure_wf[OF 2(1)]
  have ne: "?D \<noteq> LLVMBB s2" "?R \<noteq> LLVMBB s2" "?R \<noteq> ?D"
    using w 1(3) 2(3,4) by (simp_all add: wf_def)
  let ?arm = "emit_named (type_of a) (BinopI bop a b)"
  show "wp S (bnd (createAlloca (IntTy LENGTH('w)) (ConstInt 64 1) '''')
    (\<lambda>resPtr. andthen (createStore dv resPtr)
      (bnd (createICmp ICMP_EQ b (ConstInt LENGTH('w) 0))
        (\<lambda>RHSIsZero. andthen (createCondBranch RHSIsZero ?R ?D)
          (andthen (set_bb ?D) (bnd ?arm (\<lambda>divResult. andthen (createStore divResult resPtr)
            (andthen (createBranch ?R) (andthen (set_bb ?R) (createLoad (IntTy LENGTH('w)) resPtr)))))))))) Q s2 \<sigma>"
  proof (rule wp_of_wpt, rule wpt_head[OF w2 hw_pure[OF b pu] hw_pure[OF dv pu] hw_zero])
    fix p k s3 \<sigma>3
    assume 3: "scratch s2 \<sigma> s3 \<sigma>3 p k" "slot_is \<sigma>3 k d" "straight s2 s3"
    have ebs: "empty_block s3 ?D" "empty_block s3 ?R"
      using empty_block_straight[OF _ 3(3)] ne 1(2) 2(2,5) by blast+
    have lt: "?D < length (fn s3)" using ebs(1) by (simp add: empty_block_def)
    have pu3: "pure s \<sigma> s3 \<sigma>3" using 3(1) pure_trans[OF pu] by (auto simp: scratch_def)
    have join: "empty_block s4 ?R" if "straight (s3\<lparr>LLVMBB := ?D\<rparr>) s4" for s4
      using empty_block_straight[OF _ that] ebs(2) ne(3) by simp
    show "wpt S (Run (if y = 0 then ?R else ?D) 0 \<sigma>3) (andthen (set_bb ?D) (bnd ?arm (\<lambda>divResult. andthen (createStore divResult p)
      (andthen (createBranch ?R) (andthen (set_bb ?R) (createLoad (IntTy LENGTH('w)) p))))))
      (\<lambda>v s' c'. \<exists>\<sigma>'. c' = cur s' \<sigma>' \<and> Q v s' \<sigma>') s3"
    proof (cases "y = 0")
      case True
      have sc4: "scratch s2 \<sigma> s4 \<sigma>3 p k" if "straight (s3\<lparr>LLVMBB := ?D\<rparr>) s4" for s4
        by (rule scratch_straight[OF scratch_set_bb[OF 3(1) lt] that])
      show ?thesis
        unfolding if_P[OF True]
        by (rule wpt_arm_dead[OF scratch_wf[OF 3(1)] lt straightm_emit_named],
            rule wpt_join[OF sc4 join 3(2)])
           (use Q True pure_trans[OF pu] in auto)
    next
      case False
      show ?thesis
        unfolding if_not_P[OF False]
      proof (rule wpt_arm_live[OF 3(1) ebs(1) straightm_emit_named, where z=q])
        fix s4 Q' assume pu4: "pure s3 \<sigma>3 s4 \<sigma>3"
          and Q': "\<And>v s' \<sigma>'. pure s4 \<sigma>3 s' \<sigma>' \<Longrightarrow> hw S s' \<sigma>' v q \<Longrightarrow> Q' v s' \<sigma>'"
        note pu5 = pure_trans[OF pu3 pu4]
        show "wp S ?arm Q' s4 \<sigma>3"
          by (rule wp_binop[OF pure_wf[OF pu4] hw_pure[OF a pu5] hw_pure[OF b pu5] q[OF False] hw_type[OF a] Q'])
      next
        fix s4 \<sigma>4 assume 4: "scratch s2 \<sigma> s4 \<sigma>4 p k" "slot_is \<sigma>4 k q" "straight (s3\<lparr>LLVMBB := ?D\<rparr>) s4"
        show "wpt S (Run ?R 0 \<sigma>4) (andthen (set_bb ?R) (createLoad (IntTy LENGTH('w)) p))
            (\<lambda>v s' c'. \<exists>\<sigma>'. c' = cur s' \<sigma>' \<and> Q v s' \<sigma>') s4"
          by (rule wpt_join[OF 4(1) join[OF 4(3)] 4(2)]) (use Q False pure_trans[OF pu] in auto)
      qed
    qed
  qed
qed

lemma wp_createAnd_bool:
  assumes "wf s" and "hb S s \<sigma> u a" and "hb S s \<sigma> v b"
    and "\<And>r s' \<sigma>'. pure s \<sigma> s' \<sigma>' \<Longrightarrow> hb S s' \<sigma>' r (a \<and> b) \<Longrightarrow> Q r s' \<sigma>'"
  shows "wp S (createAnd u v) Q s \<sigma>"
proof -
  have "sem_bin S And 1 (of_bool a) (of_bool b) = Some (of_bool (a \<and> b))"
    by (subst bin_and) (simp_all add: in_width_def)
  then show ?thesis
    unfolding createAnd_def using assms
    by (auto simp: exec_instr_def hb_def holds_def intro!: wp_emit_named[where x="VInt 1 (of_bool (a \<and> b))"])
qed

lemma int_min_const: "hw S s \<sigma> (getSignedMinConst LENGTH('w)) (word_of_int (2 ^ (LENGTH('w) - 1)) :: 'w::len word)"
  unfolding getSignedMinConst_def by (rule hw_const) (simp add: take_bit_int_eq_self)

lemma all_ones_const: "hw S s \<sigma> (getAllOnesConst LENGTH('w)) (- 1 :: 'w::len word)"
  using uint_all_ones[of "- 1 :: 'w word"] by (simp add: hw_def holds_def eval_def getAllOnesConst_def)

lemma int_min_iff: "x = word_of_int (2 ^ (LENGTH('w) - 1)) \<longleftrightarrow> int_min (x :: 'w::len word)"
proof -
  have "in_width LENGTH('w) (2 ^ (LENGTH('w) - 1))" by (simp add: in_width_def)
  from in_width_word[OF this] show ?thesis
    by (simp only: int_min_def word_uint_eq_iff)
qed

lemma wpj_overflow_check:
  fixes x y :: "'w::len word"
  assumes w: "wf s" and a: "hw S s \<sigma> a x" and b: "hw S s \<sigma> b y"
  shows "wpj S (overflow_check LENGTH('w) a b ob db)
    (\<lambda>s' c. \<exists>\<sigma>'. pure s \<sigma> s' \<sigma>' \<and> c = Run (if int_min x \<and> y = - 1 then ob else db) 0 \<sigma>') s \<sigma>"
  unfolding overflow_check_def
proof (rule wpj_bnd, rule wp_createICmp[OF w a int_min_const], unfold pred_word_def pred.case int_min_iff)
  fix l s1 \<sigma>1 assume 1: "pure s \<sigma> s1 \<sigma>1" "hb S s1 \<sigma>1 l (int_min x)"
  show "wpj S (bnd (createICmp ICMP_EQ b (getAllOnesConst LENGTH('w)))
      (\<lambda>r. bnd (createAnd l r) (\<lambda>v. createCondBranch v ob db)))
    (\<lambda>s' c. \<exists>\<sigma>'. pure s \<sigma> s' \<sigma>' \<and> c = Run (if int_min x \<and> y = - 1 then ob else db) 0 \<sigma>') s1 \<sigma>1"
  proof (rule wpj_bnd, rule wp_createICmp[OF pure_wf[OF 1(1)] hw_pure[OF b 1(1)] all_ones_const],
      unfold pred_word_def pred.case)
    fix r s2 \<sigma>2 assume 2: "pure s1 \<sigma>1 s2 \<sigma>2" "hb S s2 \<sigma>2 r (y = - 1)"
    note pu = pure_trans[OF 1(1) 2(1)]
    show "wpj S (bnd (createAnd l r) (\<lambda>v. createCondBranch v ob db))
      (\<lambda>s' c. \<exists>\<sigma>'. pure s \<sigma> s' \<sigma>' \<and> c = Run (if int_min x \<and> y = - 1 then ob else db) 0 \<sigma>') s2 \<sigma>2"
      by (rule wpj_bnd, rule wp_createAnd_bool[OF pure_wf[OF pu] hb_pure[OF 1(2) 2(1)] 2(2)],
          rule wpj_createCondBranch, erule pure_wf, assumption) (blast intro: pure_trans pu)
  qed
qed

lemma wpt_check_live:
  fixes x y d :: "'w::len word"
  assumes sc: "scratch s0 \<sigma>0 s \<sigma> p k" and eb: "empty_block s cb" and sl: "slot_is \<sigma> k d"
    and a: "hw S s \<sigma> a x" and b: "hw S s \<sigma> b y"
    and K: "\<And>s' \<sigma>'. scratch s0 \<sigma>0 s' \<sigma>' p k \<Longrightarrow> slot_is \<sigma>' k d \<Longrightarrow> straight (s\<lparr>LLVMBB := cb\<rparr>) s' \<Longrightarrow>
      pure s \<sigma> s' \<sigma>' \<Longrightarrow> wpt S (Run (if int_min x \<and> y = - 1 then ob else db) 0 \<sigma>') K P s'"
  shows "wpt S (Run cb 0 \<sigma>) (andthen (set_bb cb) (andthen (overflow_check LENGTH('w) a b ob db) K)) P s"
proof (rule wpt_andthen, rule wpt_set_bb, rule wpt_andthen)
  let ?s = "s\<lparr>LLVMBB := cb\<rparr>"
  have c: "cb < length (fn s)" using eb by (simp add: empty_block_def)
  have pu: "pure s \<sigma> ?s \<sigma>" by (rule pure_set_bb[OF pure_refl[OF scratch_wf[OF sc]] c])
  note sc' = scratch_set_bb[OF sc c]
  from wpj_straight[OF wpj_overflow_check[OF pure_wf[OF pu] hw_pure[OF a pu] hw_pure[OF b pu]]
      straightm_overflow_check pure_wf[OF pu]]
  have "wpj S (overflow_check LENGTH('w) a b ob db) (\<lambda>s' c'. wpt S c' K P s') ?s \<sigma>"
    unfolding wpj_def using K scratch_pure[OF sc'] slot_is_pure[OF sl sc'] pure_trans[OF pu] by blast
  from wpt_jump[OF this] show "wpt S (Run cb 0 \<sigma>) (overflow_check LENGTH('w) a b ob db)
      (\<lambda>_ s' c'. wpt S c' K P s') ?s"
    by (simp only: cur_empty_block[OF eb])
qed

lemma wpt_check_dead:
  assumes "cb < length (fn s)" and "\<And>s'. straight (s\<lparr>LLVMBB := cb\<rparr>) s' \<Longrightarrow> wpt S c K P s'"
  shows "wpt S c (andthen (set_bb cb) (andthen (overflow_check w a b ob db) K)) P s"
  by (rule wpt_andthen, rule wpt_set_bb, rule wpt_andthen, rule wpt_skip[OF straightm_overflow_check])
     (use assms in \<open>simp_all add: wf_def\<close>)

lemmas wpt_store_arm_dead = wpt_arm_dead[where m="ret v" for v, unfolded bnd_ret]
lemmas wpt_store_arm_live = wpt_arm_live[where m="ret v" for v, unfolded bnd_ret]

lemma bnd_andthen: "bnd m (\<lambda>v. andthen (f v) k) = andthen (bnd m f) k"
  by (rule ext) (simp add: bnd_def andthen_def split: sum.splits)

lemma bnd_andthen2: "bnd m (\<lambda>v. bnd (f v) (\<lambda>u. andthen (g v u) k)) = andthen (bnd m (\<lambda>v. bnd (f v) (g v))) k"
  by (simp only: bnd_andthen)

lemma checked_signed_eq:
  "bnd (createICmp ICMP_EQ a (getSignedMinConst w)) (\<lambda>l. bnd (createICmp ICMP_EQ b (getAllOnesConst w)) (\<lambda>r.
     bnd (createAnd l r) (\<lambda>v. andthen (createCondBranch v ob db) k))) = andthen (overflow_check w a b ob db) k"
  unfolding overflow_check_def by (simp only: bnd_andthen)

lemma wpt_signed_diamond:
  fixes x y d e q :: "'w::len word"
  assumes sc: "scratch s0 \<sigma>0 s \<sigma> p k" and sl: "slot_is \<sigma> k d"
    and ebs: "empty_block s cb" "empty_block s ob" "empty_block s db" "empty_block s rb"
    and dist: "distinct [cb, ob, db, rb]"
    and a: "hw S s \<sigma> a x" and b: "hw S s \<sigma> b y" and ev: "hw S s \<sigma> ev e"
    and q: "y \<noteq> 0 \<Longrightarrow> \<not> (int_min x \<and> y = - 1) \<Longrightarrow> bop_word bop x y = Some q"
    and Q: "\<And>v s' \<sigma>'. pure s0 \<sigma>0 s' \<sigma>' \<Longrightarrow>
      hw S s' \<sigma>' v (if y = 0 then d else if int_min x \<and> y = - 1 then e else q) \<Longrightarrow> Q v s' \<sigma>'"
  shows "wpt S (Run (if y = 0 then rb else cb) 0 \<sigma>)
    (andthen (set_bb cb) (andthen (overflow_check LENGTH('w) a b ob db)
      (andthen (set_bb ob) (andthen (createStore ev p) (andthen (createBranch rb)
      (andthen (set_bb db) (bnd (emit_named (type_of a) (BinopI bop a b)) (\<lambda>divResult.
       andthen (createStore divResult p) (andthen (createBranch rb)
       (andthen (set_bb rb) (createLoad (IntTy LENGTH('w)) p))))))))))) 
    (\<lambda>v s' c'. \<exists>\<sigma>'. c' = cur s' \<sigma>' \<and> Q v s' \<sigma>') s"
    (is "wpt S _ (andthen (set_bb cb) (andthen ?chk (andthen (set_bb ob) (andthen ?st (andthen ?br ?dv))))) ?P s")
proof -
  have lt: "c < length (fn s')" if "straight (t\<lparr>LLVMBB := b'\<rparr>) s'" "c < length (fn t)" for t b' s' c
    using that by (simp add: straight_def)
  have lt0: "cb < length (fn s)" "ob < length (fn s)" "db < length (fn s)" "rb < length (fn s)"
    using ebs by (simp_all add: empty_block_def)
  have eb: "empty_block s' c" if "straight (t\<lparr>LLVMBB := b'\<rparr>) s'" "empty_block t c" "c \<noteq> b'" for t b' s' c
    using empty_block_straight[OF _ that(1)] that(2,3) by simp
  have skip: "scratch s0 \<sigma>0 s2 \<tau> p k" if "scratch s0 \<sigma>0 s1 \<tau> p k" "straight (s1\<lparr>LLVMBB := c\<rparr>) s2" "c < length (fn s1)"
    for s1 s2 c \<tau> by (rule scratch_straight[OF scratch_set_bb[OF that(1,3)] that(2)])
  show ?thesis
  proof (cases "y = 0")
    case True
    have j: "wpt S (Run rb 0 \<sigma>) (andthen (set_bb rb) (createLoad (IntTy LENGTH('w)) p)) ?P s'"
      if "scratch s0 \<sigma>0 s' \<sigma> p k" "empty_block s' rb" for s'
      by (rule wpt_join[OF that sl]) (use Q True in auto)
    show ?thesis unfolding if_P[OF True]
    proof (rule wpt_check_dead[OF lt0(1)])
      fix s1 assume 1: "straight (s\<lparr>LLVMBB := cb\<rparr>) s1"
      note sc1 = skip[OF sc 1 lt0(1)]
      show "wpt S (Run rb 0 \<sigma>) (andthen (set_bb ob) (andthen ?st (andthen ?br ?dv))) ?P s1"
      proof (rule wpt_store_arm_dead[OF scratch_wf[OF sc1] lt[OF 1 lt0(2)] straightm_ret])
        fix s2 assume 2: "straight (s1\<lparr>LLVMBB := ob\<rparr>) s2"
        note sc2 = skip[OF sc1 2 lt[OF 1 lt0(2)]]
        show "wpt S (Run rb 0 \<sigma>) ?dv ?P s2"
        proof (rule wpt_arm_dead[OF scratch_wf[OF sc2] lt[OF 2 lt[OF 1 lt0(3)]] straightm_emit_named])
          fix s3 assume 3: "straight (s2\<lparr>LLVMBB := db\<rparr>) s3"
          show "wpt S (Run rb 0 \<sigma>) (andthen (set_bb rb) (createLoad (IntTy LENGTH('w)) p)) ?P s3"
            by (rule j[OF skip[OF sc2 3 lt[OF 2 lt[OF 1 lt0(3)]]] eb[OF 3 eb[OF 2 eb[OF 1 ebs(4)]]]])
               (use dist in auto)
        qed
      qed
    qed
  next
    case False
    show ?thesis unfolding if_not_P[OF False]
    proof (rule wpt_check_live[OF sc ebs(1) sl a b])
      fix s1 \<sigma>1 assume sc1: "scratch s0 \<sigma>0 s1 \<sigma>1 p k" and sl1: "slot_is \<sigma>1 k d"
        and 1: "straight (s\<lparr>LLVMBB := cb\<rparr>) s1" and pu: "pure s \<sigma> s1 \<sigma>1"
      note l1 = lt[OF 1 lt0(2)] lt[OF 1 lt0(3)]
      have e1: "empty_block s1 ob" "empty_block s1 db" "empty_block s1 rb"
        by (rule eb[OF 1]; use ebs dist in auto)+
      show "wpt S (Run (if int_min x \<and> y = - 1 then ob else db) 0 \<sigma>1)
          (andthen (set_bb ob) (andthen ?st (andthen ?br ?dv))) ?P s1"
      proof (cases "int_min x \<and> y = - 1")
        case ov: True
        show ?thesis unfolding if_P[OF ov]
        proof (rule wpt_store_arm_live[OF sc1 e1(1) straightm_ret])
          fix s2 Q' assume "pure s1 \<sigma>1 s2 \<sigma>1"
            and "\<And>v s' \<sigma>'. pure s2 \<sigma>1 s' \<sigma>' \<Longrightarrow> hw S s' \<sigma>' v e \<Longrightarrow> Q' v s' \<sigma>'"
          then show "wp S (ret ev) Q' s2 \<sigma>1"
            using hw_pure[OF ev pu] by (blast intro: wp_ret pure_refl pure_wf hw_pure)
        next
          fix s2 \<sigma>2 assume sc2: "scratch s0 \<sigma>0 s2 \<sigma>2 p k" and sl2: "slot_is \<sigma>2 k e"
            and 2: "straight (s1\<lparr>LLVMBB := ob\<rparr>) s2"
          note l2 = lt[OF 2 l1(2)]
          have e2: "empty_block s2 rb" by (rule eb[OF 2 e1(3)]) (use dist in auto)
          show "wpt S (Run rb 0 \<sigma>2) ?dv ?P s2"
          proof (rule wpt_arm_dead[OF scratch_wf[OF sc2] l2 straightm_emit_named])
            fix s3 assume 3: "straight (s2\<lparr>LLVMBB := db\<rparr>) s3"
            have e3: "empty_block s3 rb" by (rule eb[OF 3 e2]) (use dist in auto)
            show "wpt S (Run rb 0 \<sigma>2) (andthen (set_bb rb) (createLoad (IntTy LENGTH('w)) p)) ?P s3"
              by (rule wpt_join[OF skip[OF sc2 3 l2] e3 sl2]) (use Q ov False in auto)
          qed
        qed
      next
        case nov: False
        show ?thesis unfolding if_not_P[OF nov]
        proof (rule wpt_store_arm_dead[OF scratch_wf[OF sc1] l1(1) straightm_ret])
          fix s2 assume 2: "straight (s1\<lparr>LLVMBB := ob\<rparr>) s2"
          note sc2 = skip[OF sc1 2 l1(1)]
          have pu2: "pure s \<sigma> s2 \<sigma>1"
            by (rule pure_straight[OF pure_set_bb[OF pu l1(1)] 2])
          have e2: "empty_block s2 rb" "empty_block s2 db"
            by (rule eb[OF 2]; use e1 dist in auto)+
          show "wpt S (Run db 0 \<sigma>1) ?dv ?P s2"
          proof (rule wpt_arm_live[OF sc2 e2(2) straightm_emit_named, where z=q])
            fix s3 Q' assume pu3: "pure s2 \<sigma>1 s3 \<sigma>1"
              and Q': "\<And>v s' \<sigma>'. pure s3 \<sigma>1 s' \<sigma>' \<Longrightarrow> hw S s' \<sigma>' v q \<Longrightarrow> Q' v s' \<sigma>'"
            note pu4 = pure_trans[OF pu2 pu3]
            show "wp S (emit_named (type_of a) (BinopI bop a b)) Q' s3 \<sigma>1"
              by (rule wp_binop[OF pure_wf[OF pu3] hw_pure[OF a pu4] hw_pure[OF b pu4] q[OF False nov] hw_type[OF a] Q'])
          next
            fix s3 \<sigma>3 assume sc3: "scratch s0 \<sigma>0 s3 \<sigma>3 p k" and sl3: "slot_is \<sigma>3 k q"
              and 3: "straight (s2\<lparr>LLVMBB := db\<rparr>) s3"
            have e3: "empty_block s3 rb" by (rule eb[OF 3 e2(1)]) (use dist in auto)
            show "wpt S (Run rb 0 \<sigma>3) (andthen (set_bb rb) (createLoad (IntTy LENGTH('w)) p)) ?P s3"
              by (rule wpt_join[OF sc3 e3 sl3]) (use Q nov False in auto)
          qed
        qed
      qed
    qed
  qed
qed

lemma wp_checked_signed:
  fixes x y d e q :: "'w::len word"
  assumes w: "wf s" and a: "hw S s \<sigma> a x" and b: "hw S s \<sigma> b y" and dv: "hw S s \<sigma> dv d"
    and ev: "hw S s \<sigma> ev e"
    and q: "y \<noteq> 0 \<Longrightarrow> \<not> (int_min x \<and> y = - 1) \<Longrightarrow> bop_word bop x y = Some q"
    and Q: "\<And>v s' \<sigma>'. pure s \<sigma> s' \<sigma>' \<Longrightarrow>
      hw S s' \<sigma>' v (if y = 0 then d else if int_min x \<and> y = - 1 then e else q) \<Longrightarrow> Q v s' \<sigma>'"
  shows "wp S (checked_signed bop a b dv ev) Q s \<sigma>"
  unfolding checked_signed_def wp_width_const[OF a] wp_width_const[OF b] wp_checked[OF refl] checked_signed_eq
proof (rule wp_bnd, rule wp_newBlock[OF w], rule wp_bnd, rule wp_newBlock, erule pure_wf,
    rule wp_bnd, rule wp_newBlock, erule pure_wf, rule wp_bnd, rule wp_newBlock, erule pure_wf, unfold wp_zero_one)
  fix s1 s2 s3 s4 :: lstate
  let ?C = "length (fn s)" and ?O = "length (fn s1)" and ?D = "length (fn s2)" and ?R = "length (fn s3)"
  assume pus: "pure s \<sigma> s1 \<sigma>" "pure s1 \<sigma> s2 \<sigma>" "pure s2 \<sigma> s3 \<sigma>" "pure s3 \<sigma> s4 \<sigma>"
    and ebs: "empty_block s1 ?C" "empty_block s2 ?O" "empty_block s3 ?D" "empty_block s4 ?R"
    and len: "length (fn s1) = Suc ?C" "length (fn s2) = Suc ?O" "length (fn s3) = Suc ?D"
    and bbs: "LLVMBB s1 = LLVMBB s" "LLVMBB s2 = LLVMBB s1" "LLVMBB s3 = LLVMBB s2" "LLVMBB s4 = LLVMBB s3"
    and mono: "\<And>c. empty_block s1 c \<Longrightarrow> empty_block s2 c" "\<And>c. empty_block s2 c \<Longrightarrow> empty_block s3 c"
      "\<And>c. empty_block s3 c \<Longrightarrow> empty_block s4 c"
  have pu: "pure s \<sigma> s4 \<sigma>" using pus by (blast intro: pure_trans)
  have ebs4: "empty_block s4 c" if "c \<in> {?C, ?O, ?D, ?R}" for c
    using that ebs mono by blast
  have ne: "c \<noteq> LLVMBB s4" if "c \<in> {?C, ?O, ?D, ?R}" for c
    using that w len bbs by (auto simp: wf_def)
  show "wp S (bnd (createAlloca (IntTy LENGTH('w)) (ConstInt 64 1) '''')
    (\<lambda>resPtr. andthen (createStore dv resPtr) (bnd (createICmp ICMP_EQ b (ConstInt LENGTH('w) 0))
      (\<lambda>RHSIsZero. andthen (createCondBranch RHSIsZero ?R ?C)
        (andthen (set_bb ?C) (andthen (overflow_check LENGTH('w) a b ?O ?D)
          (andthen (set_bb ?O) (andthen (createStore ev resPtr) (andthen (createBranch ?R)
            (andthen (set_bb ?D) (bnd (emit_named (type_of a) (BinopI bop a b)) (\<lambda>divResult.
              andthen (createStore divResult resPtr) (andthen (createBranch ?R)
                (andthen (set_bb ?R) (createLoad (IntTy LENGTH('w)) resPtr))))))))))))))) Q s4 \<sigma>"
  proof (rule wp_of_wpt, rule wpt_head[OF pure_wf[OF pu] hw_pure[OF b pu] hw_pure[OF dv pu] hw_zero])
    fix p k s5 \<sigma>5
    assume sc: "scratch s4 \<sigma> s5 \<sigma>5 p k" and sl: "slot_is \<sigma>5 k d" and st: "straight s4 s5"
    have eb5: "empty_block s5 c" if "c \<in> {?C, ?O, ?D, ?R}" for c
      by (rule empty_block_straight[OF ebs4[OF that] st ne[OF that]])
    have pu5: "pure s \<sigma> s5 \<sigma>5" using sc pure_trans[OF pu] by (auto simp: scratch_def)
    show "wpt S (Run (if y = 0 then ?R else ?C) 0 \<sigma>5)
      (andthen (set_bb ?C) (andthen (overflow_check LENGTH('w) a b ?O ?D)
        (andthen (set_bb ?O) (andthen (createStore ev p) (andthen (createBranch ?R)
        (andthen (set_bb ?D) (bnd (emit_named (type_of a) (BinopI bop a b)) (\<lambda>divResult.
         andthen (createStore divResult p) (andthen (createBranch ?R)
         (andthen (set_bb ?R) (createLoad (IntTy LENGTH('w)) p))))))))))) 
      (\<lambda>v s' c'. \<exists>\<sigma>'. c' = cur s' \<sigma>' \<and> Q v s' \<sigma>') s5"
      by (rule wpt_signed_diamond[OF sc sl eb5 eb5 eb5 eb5 _ hw_pure[OF a pu5] hw_pure[OF b pu5] hw_pure[OF ev pu5]])
         (use len q Q pure_trans[OF pu] in auto)
  qed
qed

lemmas wp_checked_divisions = wp_checked_unsigned wp_checked_signed

end

end
