(* ===== verification/Bpf_Regs.thy ===== *)
theory Bpf_Regs
  imports Builder
begin

text \<open>
  The register file, the operand readers and the calling convention of class \<open>bpf2llvm\<close>
  (\<open>src/src/lifter/bpf2llvm.cpp\<close>), with the helpers of \<open>mc2llvm\<close> they call. What the lifter reads of
  the source module is the record \<open>src_env\<close>: the adjusted source function's signature and
  attributes, the source instruction a debug location stands for, and what \<open>lookupGlobal\<close> returns
  for a name.
\<close>

section \<open>What the lifter reads of the source module\<close>

record fun_type =
  fun_ret :: ty
  fun_params :: "ty list"

datatype global = FunctionG fun_type | VariableG

record called_fun =
  callee_name :: string
  callee_sext :: bool
  callee_zext :: bool
  callee_fastcall :: bool

record call_inst =
  getCalledFunction :: "called_fun option"
  ret_sext :: bool
  ret_zext :: bool
  fn_fastcall :: bool

record src_env =
  srcRetTy :: ty
  has_ret_attr :: bool
  origRetWidth :: nat
  srcArgs :: "(ty \<times> bool \<times> bool) list"
  srcInst :: "nat \<Rightarrow> call_inst option"
  globals :: "string \<rightharpoonup> global"

section \<open>Registers\<close>

definition isWReg :: "reg \<Rightarrow> bool" where
  "isWReg r \<longleftrightarrow> (case r of W n \<Rightarrow> n \<le> 11 | _ \<Rightarrow> False)"

text \<open>The result is the number \<open>n\<close> of the backing register \<open>BPF::R0 + n\<close>.\<close>

definition mapRegToBackingReg :: "reg \<Rightarrow> nat lifter" where
  "mapRegToBackingReg r = (if isWReg r then (case r of W n \<Rightarrow> ret n | _ \<Rightarrow> ret 0)
     else (case r of R n \<Rightarrow> andthen (check (n \<le> 11) (Assertion ''unknown BPF register'')) (ret n)
       | _ \<Rightarrow> fail (Assertion ''unknown BPF register'')))"

text \<open>A missing entry of the map reads as a null pointer, which the next load or store rejects.\<close>

definition lookupReg :: "reg \<Rightarrow> llvalue lifter" where
  "lookupReg r = bnd (mapRegToBackingReg r) (\<lambda>n. bnd (gets RegFile) (\<lambda>rf.
     from_option (Assertion ''Ptr must have pointer type'') (rf n)))"

definition readReg64 :: "reg \<Rightarrow> llvalue lifter" where
  "readReg64 r = bnd (lookupReg r) (createLoad (IntTy 64))"

definition readReg32 :: "reg \<Rightarrow> llvalue lifter" where
  "readReg32 r = bnd (readReg64 r) (\<lambda>v. createTrunc v (IntTy 32))"

definition updateReg64 :: "llvalue \<Rightarrow> reg \<Rightarrow> unit lifter" where
  "updateReg64 v r = bnd (bit_width v) (\<lambda>w.
     andthen (check (w = 64) (Assertion ''getBitWidth(V) == 64''))
     (bnd (lookupReg r) (createStore v)))"

definition updateReg32 :: "llvalue \<Rightarrow> reg \<Rightarrow> unit lifter" where
  "updateReg32 v r = bnd (bit_width v) (\<lambda>w.
     andthen (check (w = 32) (Assertion ''getBitWidth(V) == 32''))
     (bnd (createZExt v (IntTy 64)) (\<lambda>z. updateReg64 z r)))"

section \<open>Operands\<close>

definition getOperand :: "nat \<Rightarrow> mcoperand lifter" where
  "getOperand i = bnd (gets (operands \<circ> CurInst)) (\<lambda>ops.
     if i < length ops then ret (ops ! i) else fail (Assertion ''operand index out of range''))"

definition getReg :: "mcoperand \<Rightarrow> reg lifter" where
  "getReg op = (case op of RegOp r \<Rightarrow> ret r | _ \<Rightarrow> fail (Assertion ''This is not a register operand!''))"

definition getImm :: "mcoperand \<Rightarrow> int lifter" where
  "getImm op = (case op of ImmOp i \<Rightarrow> ret i | _ \<Rightarrow> fail (Assertion ''This is not an immediate''))"

definition destReg :: "reg lifter" where
  "destReg = bnd (getOperand 0) getReg"

definition readRegOperand64 :: "nat \<Rightarrow> llvalue lifter" where
  "readRegOperand64 idx = bnd (getOperand idx) (\<lambda>op. bnd (getReg op) readReg64)"

definition readRegOperand32 :: "nat \<Rightarrow> llvalue lifter" where
  "readRegOperand32 idx = bnd (getOperand idx) (\<lambda>op. bnd (getReg op) readReg32)"

definition readPtrRegOperand :: "nat \<Rightarrow> llvalue lifter" where
  "readPtrRegOperand idx = bnd (getOperand idx) (\<lambda>op. bnd (getReg op) (\<lambda>r.
     bnd (lookupReg r) (createLoad PtrTy)))"

definition readImmOperand :: "nat \<Rightarrow> nat \<Rightarrow> llvalue lifter" where
  "readImmOperand idx bits = bnd (getOperand idx) (\<lambda>op. bnd (getImm op) (\<lambda>i.
     getSignedIntConst i bits))"

definition readALUSrcOperand :: "nat \<Rightarrow> nat \<Rightarrow> llvalue lifter" where
  "readALUSrcOperand idx bits = bnd (getOperand idx) (\<lambda>op. case op of
     ImmOp i \<Rightarrow> readImmOperand idx bits
   | RegOp r \<Rightarrow> if bits = 64 then readReg64 r else readReg32 r
   | ExprOp e \<Rightarrow> fail (Assertion ''op.isReg()''))"

definition getMemPointerOperand :: "nat \<Rightarrow> llvalue lifter" where
  "getMemPointerOperand idx = bnd (readPtrRegOperand idx) (\<lambda>base.
     bnd (readImmOperand (idx + 1) 64) (\<lambda>offset.
     bnd nextName (\<lambda>nm. createGEP (IntTy 8) base offset nm)))"

section \<open>Blocks by name\<close>

text \<open>The first block of the function with the given name.\<close>

fun find_block :: "string \<Rightarrow> code \<Rightarrow> nat \<Rightarrow> nat option" where
  "find_block nm [] i = None"
| "find_block nm (b # bs) i = (if fst b = nm then Some i else find_block nm bs (Suc i))"

definition getBB :: "mcoperand \<Rightarrow> nat option lifter" where
  "getBB op = (case op of
     ExprOp (SymbolRef nm) \<Rightarrow> gets (\<lambda>s. find_block nm (fn s) 0)
   | ExprOp e \<Rightarrow> fail (Assertion ''[getBB] expected symbol ref as jump operand'')
   | _ \<Rightarrow> fail (Assertion ''[getBB] expected expression operand''))"

definition getBBByName :: "string \<Rightarrow> nat lifter" where
  "getBBByName nm = bnd (gets (\<lambda>s. find_block nm (fn s) 0))
     (from_option (Assertion ''basic block not found in getBBByName()''))"

definition getBranchTargetsOperand :: "nat \<Rightarrow> (nat \<times> nat) lifter" where
  "getBranchTargetsOperand i = bnd (getOperand i) (\<lambda>op. case op of
     ExprOp (SymbolRef tgt) \<Rightarrow>
       bnd (getBBByName tgt) (\<lambda>dst_true. bnd (gets (snd \<circ> MCBB)) (\<lambda>succs.
       andthen (check (length succs = 1 \<or> length succs = 2) (Assertion ''one or two successors''))
       (bnd (getBBByName (case List.find (\<lambda>nm. nm \<noteq> tgt) succs of Some nm \<Rightarrow> nm | None \<Rightarrow> tgt))
         (\<lambda>dst_false. ret (dst_true, dst_false)))))
   | ExprOp e \<Rightarrow> fail (Assertion ''expected symbol ref as branch operand'')
   | _ \<Rightarrow> fail (Assertion ''expected expression''))"

section \<open>Unspecified machine state\<close>

definition unspecifiedMemBytes :: nat where
  "unspecifiedMemBytes = 65536"

definition unspecified_name :: string where
  "unspecified_name = ''__bpf_tv_unspecified''"

definition unspecifiedValue :: "nat \<Rightarrow> llvalue lifter" where
  "unspecifiedValue width =
     andthen (modify (\<lambda>s. s\<lparr>unspecifiedMem := True\<rparr>))
     (bnd (gets unspecifiedOff) (\<lambda>off.
      andthen (check (off + (width + 7) div 8 \<le> unspecifiedMemBytes)
         (Assertion ''out of unspecified-value scratch space''))
      (bnd (getUnsignedIntConst (int off) 64) (\<lambda>c. bnd nextName (\<lambda>nm.
       bnd (createGEP (IntTy 8) (GlobalV unspecified_name) c nm) (\<lambda>ptr.
       andthen (modify (\<lambda>s. s\<lparr>unspecifiedOff := unspecifiedOff s + (width + 7) div 8\<rparr>))
       (createLoad (IntTy width) ptr)))))))"

definition invalidateReg :: "nat \<Rightarrow> nat \<Rightarrow> unit lifter" where
  "invalidateReg r width = bnd (unspecifiedValue width) (\<lambda>v. bnd (gets RegFile) (\<lambda>rf.
     bnd (from_option (Assertion ''Ptr must have pointer type'') (rf r)) (createStore v)))"

definition createRegStorage :: "nat \<Rightarrow> nat \<Rightarrow> string \<Rightarrow> unit lifter" where
  "createRegStorage r width nm = bnd (getUnsignedIntConst 1 64) (\<lambda>one.
     bnd (createAlloca (IntTy width) one nm) (\<lambda>a. bnd (unspecifiedValue width) (\<lambda>v.
     andthen (createStore v a) (modify (\<lambda>s. s\<lparr>RegFile := (RegFile s)(r \<mapsto> a)\<rparr>)))))"

fun is_int :: "ty \<Rightarrow> bool" where
  "is_int (IntTy w) = True"
| "is_int t = False"

text \<open>Widening an argument or a call's result to a register: the extension the ABI promises, and
  unspecified bits above the value otherwise.\<close>

definition enforceSExtZExt :: "llvalue \<Rightarrow> bool \<Rightarrow> bool \<Rightarrow> llvalue lifter" where
  "enforceSExtZExt v isSExt isZExt =
     (if type_of v = PtrTy \<or> type_of v = VoidTy then ret v else
      andthen (check (is_int (type_of v)) (Assertion ''only integer/pointer values on BPF''))
      (bnd (bit_width v) (\<lambda>w.
       bnd (if isZExt \<and> w < 64 then createZExt v (IntTy 64) else ret v) (\<lambda>v. bnd (bit_width v) (\<lambda>w.
       bnd (if isSExt \<and> w < 64 then createSExt v (IntTy 64) else ret v) (\<lambda>v. bnd (bit_width v) (\<lambda>w.
       if w < 64 then
         bnd (unspecifiedValue (64 - w)) (\<lambda>junk. bnd (createZExt junk (IntTy 64)) (\<lambda>ext1.
         bnd (getUnsignedIntConst (int w) 64) (\<lambda>amt. bnd (createRawShl ext1 amt) (\<lambda>shifted.
         bnd (createZExt v (IntTy 64)) (\<lambda>ext2. createOr shifted ext2)))))
       else ret v)))))))"

section \<open>Calling convention\<close>

definition stackBytes :: int where
  "stackBytes = 1024"

definition create_registers :: "nat list \<Rightarrow> unit lifter" where
  "create_registers rs = for_each rs (\<lambda>r. createRegStorage r 64 (''R'' @ to_string r))"

definition store_argument :: "nat \<times> ty \<times> bool \<times> bool \<Rightarrow> unit lifter" where
  "store_argument a = (case a of (argNum, t, sext, zext) \<Rightarrow>
     if \<not> (is_int t \<or> t = PtrTy) then fail (ExitError ''only integer/pointer arguments supported'')
     else if 5 \<le> argNum then
       fail (ExitError ''more than 5 arguments not supported by the BPF calling convention'')
     else bnd (enforceSExtZExt (ArgV argNum t) sext zext) (\<lambda>v. bnd (lookupReg (R (1 + argNum))) (createStore v)))"

definition platformInit :: "src_env \<Rightarrow> unit lifter" where
  "platformInit E =
     andthen (create_registers [0..<12])
     (bnd (gets stackMem) (\<lambda>stk. bnd (getUnsignedIntConst stackBytes 64) (\<lambda>sz.
      bnd (createGEP (IntTy 8) stk sz '''') (\<lambda>frameTop.
      andthen (bnd (lookupReg (R 10)) (createStore frameTop))
      (for_each (zip [0..<length (srcArgs E)] (srcArgs E)) store_argument)))))"

fun marshall_params :: "nat \<Rightarrow> ty list \<Rightarrow> llvalue list lifter" where
  "marshall_params argNum [] = ret []"
| "marshall_params argNum (t # ts) =
     (if \<not> (is_int t \<or> t = PtrTy) then fail (ExitError ''only integer/pointer call arguments supported'')
      else if 5 \<le> argNum then fail (ExitError ''calls with more than 5 arguments not supported'')
      else bnd (readReg64 (R (1 + argNum))) (\<lambda>param.
        bnd (case t of
            IntTy w \<Rightarrow> andthen (check (w \<le> 64) (Assertion ''argument wider than a register''))
              (if w < 64 then createTrunc param (IntTy w) else ret param)
          | _ \<Rightarrow> newIntToPtr param) (\<lambda>param.
        bnd (marshall_params (Suc argNum) ts) (\<lambda>args. ret (param # args)))))"

definition is_aggregate :: "ty \<Rightarrow> bool" where
  "is_aggregate t \<longleftrightarrow> (case t of StructTy _ \<Rightarrow> True | ArrayTy _ _ \<Rightarrow> True | _ \<Rightarrow> False)"

definition marshallArgs :: "fun_type \<Rightarrow> llvalue list lifter" where
  "marshallArgs ft = (if is_aggregate (fun_ret ft) then fail (ExitError ''aggregate return values not supported'')
     else marshall_params 0 (fun_params ft))"

definition mem_intrinsics :: "string list" where
  "mem_intrinsics = [''llvm.memset.p0.i64'', ''llvm.memset.p0.i32'', ''llvm.memcpy.p0.p0.i64'',
     ''llvm.memmove.p0.p0.i64'']"

definition invalidate_caller_saved :: "unit lifter" where
  "invalidate_caller_saved = for_each [1, 2, 3, 4, 5] (\<lambda>r. invalidateReg r 64)"

definition doCall :: "string \<Rightarrow> fun_type \<Rightarrow> call_inst \<Rightarrow> unit lifter" where
  "doCall calleeName ft ci =
     bnd (marshallArgs ft) (\<lambda>args0.
     bnd (if calleeName \<in> set mem_intrinsics then
         (if 3 < length args0 then ret (args0[3 := getBoolConst False])
          else fail (Assertion ''vector index out of range''))
       else ret args0) (\<lambda>as.
     bnd (emit '''' (fun_ret ft) (CallI calleeName as (fun_ret ft))) (\<lambda>CI.
     bnd (enforceSExtZExt CI
           (ret_sext ci \<or> (case getCalledFunction ci of Some f \<Rightarrow> callee_sext f | None \<Rightarrow> False))
           (ret_zext ci \<or> (case getCalledFunction ci of Some f \<Rightarrow> callee_zext f | None \<Rightarrow> False))) (\<lambda>RV.
     andthen (if fn_fastcall ci \<or> (case getCalledFunction ci of Some f \<Rightarrow> callee_fastcall f | None \<Rightarrow> False)
         then ret () else invalidate_caller_saved)
     (if is_int (fun_ret ft) then updateReg64 RV (R 0)
      else if fun_ret ft = PtrTy then bnd (newPtrToInt RV (IntTy 64)) (\<lambda>v. updateReg64 v (R 0))
      else andthen (check (fun_ret ft = VoidTy) (Assertion ''retTy->isVoidTy()'')) (invalidateReg 0 64))))))"

definition helper_name :: "int \<Rightarrow> string" where
  "helper_name n = ''__bpf_helper_'' @ to_string (nat n)"

definition helper_type :: fun_type where
  "helper_type = \<lparr>fun_ret = IntTy 64, fun_params = replicate 5 (IntTy 64)\<rparr>"

definition getCurLLVMInst :: "src_env \<Rightarrow> call_inst option lifter" where
  "getCurLLVMInst E = gets (\<lambda>s. Option.bind (loc (CurInst s)) (srcInst E))"

definition doHelperCall :: "src_env \<Rightarrow> int \<Rightarrow> unit lifter" where
  "doHelperCall E n =
     (if n < 0 then fail (ExitError ''negative helper ID'') else
      bnd (gets bytesMode) (\<lambda>bytes. if bytes then
        bnd (readReg64 (R 1)) (\<lambda>a1. bnd (readReg64 (R 2)) (\<lambda>a2. bnd (readReg64 (R 3)) (\<lambda>a3.
        bnd (readReg64 (R 4)) (\<lambda>a4. bnd (readReg64 (R 5)) (\<lambda>a5.
        bnd (emit '''' (IntTy 64) (CallI (helper_name n) [a1, a2, a3, a4, a5] (IntTy 64))) (\<lambda>CI.
        andthen invalidate_caller_saved (updateReg64 CI (R 0))))))))
      else bnd (getCurLLVMInst E) (\<lambda>inst. case inst of
        None \<Rightarrow> fail (ExitError ''can't locate corresponding source-side call instruction'')
      | Some ci \<Rightarrow> (case getCalledFunction ci of
          None \<Rightarrow> fail (ExitError ''source-side callee of helper call'')
        | Some f \<Rightarrow> if callee_name f \<noteq> helper_name n
            then fail (ExitError ''source-side callee of helper call'')
            else (case globals E (helper_name n) of
              Some (FunctionG ft) \<Rightarrow> doCall (helper_name n) ft ci
            | _ \<Rightarrow> fail (Assertion ''callee''))))))"

definition doReturn :: "src_env \<Rightarrow> unit lifter" where
  "doReturn E = (if srcRetTy E = VoidTy then createReturn None else
     bnd (readReg64 (R 0)) (\<lambda>retVal.
     bnd (if srcRetTy E = PtrTy then newIntToPtr retVal
       else bnd (from_option (Assertion ''sized type'') (getBitWidth (srcRetTy E))) (\<lambda>retWidth.
         bnd (if retWidth < 64 then createTrunc retVal (IntTy retWidth) else ret retVal) (\<lambda>retVal.
         if has_ret_attr E \<and> origRetWidth E < 32 then
           andthen (check (origRetWidth E \<le> retWidth) (Assertion ''retWidth >= origRetWidth''))
           (andthen (check (retWidth = 64) (Assertion ''retWidth == 64''))
           (bnd (createTrunc retVal (IntTy 32)) (\<lambda>v. createZExt v (IntTy 64))))
         else ret retVal))) (\<lambda>retVal. createReturn (Some retVal))))"

section \<open>Direct calls by symbol\<close>

text \<open>\<open>demangle\<close>: a \<open>.Lfoo$local\<close> alias is \<open>foo\<close>, a \<open>.L.foo\<close> mangled local symbol is \<open>.foo\<close>.\<close>

definition demangle :: "string \<Rightarrow> string" where
  "demangle nm = (if prefix ''.L'' nm \<and> suffix ''$local'' nm
       then take (length nm - 2 - 6) (drop 2 nm)
     else if prefix ''.L.'' nm then drop 2 nm else nm)"

fun MCExprToName :: "mcexpr \<Rightarrow> string lifter" where
  "MCExprToName (SymbolRef nm) =
     andthen (check (nm \<noteq> '''') (Assertion ''name != \"\"'')) (ret (demangle nm))"
| "MCExprToName (SpecifierExpr sp (SymbolRef nm)) =
     andthen (check (nm \<noteq> '''') (Assertion ''name != \"\"'')) (ret (demangle nm))"
| "MCExprToName _ = fail (Assertion ''sr'')"

definition getExprVar :: "src_env \<Rightarrow> mcexpr \<Rightarrow> (string \<times> global) lifter" where
  "getExprVar E e = bnd (MCExprToName e) (\<lambda>nm. case globals E nm of
     None \<Rightarrow> fail (ExitError ''global not found'') | Some g \<Rightarrow> ret (nm, g))"

definition doDirectCall :: "src_env \<Rightarrow> unit lifter" where
  "doDirectCall E = bnd (getOperand 0) (\<lambda>op. case op of
     ExprOp e \<Rightarrow> bnd (getExprVar E e) (\<lambda>(calleeName, g).
       if calleeName = ''__stack_chk_fail'' then
         bnd (emit '''' VoidTy (CallI ''llvm.trap'' [] VoidTy)) (\<lambda>_. ret ())
       else (case g of
         VariableG \<Rightarrow> fail (Assertion ''callee'')
       | FunctionG ft \<Rightarrow> bnd (getCurLLVMInst E) (\<lambda>inst. case inst of
           None \<Rightarrow> fail (ExitError ''can't locate corresponding source-side call instruction'')
         | Some ci \<Rightarrow> doCall calleeName ft ci)))
   | _ \<Rightarrow> fail (Assertion ''op0.isExpr()''))"

end
