(* ===== verification/Bpf_Lift.thy ===== *)
theory Bpf_Lift
  imports Bpf_Regs
begin

text \<open>
  \<open>bpf2llvm::lift\<close>, the translation of one machine instruction, in the groups its \<open>switch\<close> has, and
  \<open>mc2llvm::liftMCFunction\<close>, which drives it over the blocks of a function.
\<close>

section \<open>The local helpers of \<open>lift\<close>\<close>

definition dest_update64 :: "llvalue \<Rightarrow> unit lifter" where
  "dest_update64 v = bnd destReg (updateReg64 v)"

definition dest_update32 :: "llvalue \<Rightarrow> unit lifter" where
  "dest_update32 v = bnd destReg (updateReg32 v)"

text \<open>64-bit ALU operands are (dst, src2, src-or-imm) with dst tied to src2; \<open>f\<close> builds the
  result.\<close>

definition alu64 :: "(llvalue \<Rightarrow> llvalue \<Rightarrow> llvalue lifter) \<Rightarrow> unit lifter" where
  "alu64 f = bnd (readRegOperand64 1) (\<lambda>a. bnd (readALUSrcOperand 2 64) (\<lambda>b.
     bnd (f a b) dest_update64))"

definition alu32 :: "(llvalue \<Rightarrow> llvalue \<Rightarrow> llvalue lifter) \<Rightarrow> unit lifter" where
  "alu32 f = bnd (readRegOperand32 1) (\<lambda>a. bnd (readALUSrcOperand 2 32) (\<lambda>b.
     bnd (f a b) dest_update32))"

definition condBr :: "pred \<Rightarrow> nat \<Rightarrow> unit lifter" where
  "condBr p bits = bnd (if bits = 64 then readRegOperand64 0 else readRegOperand32 0) (\<lambda>a.
     bnd (readALUSrcOperand 1 bits) (\<lambda>b. bnd (createICmp p a b) (\<lambda>c.
     bnd (getBranchTargetsOperand 2) (\<lambda>(t, f). createCondBranch c t f))))"

definition endian :: "nat \<Rightarrow> bool \<Rightarrow> unit lifter" where
  "endian bits swap = bnd (readRegOperand64 1) (\<lambda>v.
     bnd (if bits < 64 then createTrunc v (IntTy bits) else ret v) (\<lambda>v.
     bnd (if swap then createBSwap v else ret v) (\<lambda>v.
     bnd (if bits < 64 then createZExt v (IntTy 64) else ret v) dest_update64)))"

definition load_op :: "nat \<Rightarrow> bool \<Rightarrow> bool \<Rightarrow> unit lifter" where
  "load_op bits sext wDest = bnd (getMemPointerOperand 1) (\<lambda>ptr.
     bnd (createLoad (IntTy bits) ptr) (\<lambda>v.
     if wDest then bnd (if bits < 32 then createZExt v (IntTy 32) else ret v) dest_update32
     else bnd (if bits < 64 then (if sext then createSExt v (IntTy 64) else createZExt v (IntTy 64))
           else ret v) dest_update64))"

definition store_op :: "nat \<Rightarrow> bool \<Rightarrow> unit lifter" where
  "store_op bits wSrc = bnd (getMemPointerOperand 1) (\<lambda>ptr.
     bnd (if wSrc then readRegOperand32 0 else readRegOperand64 0) (\<lambda>v.
     bnd (bit_width v) (\<lambda>w.
     bnd (if bits < w then createTrunc v (IntTy bits) else ret v) (\<lambda>v. createStore v ptr))))"

definition storeImm :: "nat \<Rightarrow> unit lifter" where
  "storeImm bits = bnd (getMemPointerOperand 1) (\<lambda>ptr.
     bnd (getOperand 0) (\<lambda>op. bnd (getImm op) (\<lambda>i.
     bnd (getUnsignedIntConst (take_bit bits (take_bit 64 i)) bits) (\<lambda>c. createStore c ptr))))"

section \<open>The groups of the switch\<close>

definition lift_alu64 :: "alu_name \<Rightarrow> unit lifter" where
  "lift_alu64 n = (case n of
     ALU_ADD \<Rightarrow> alu64 (\<lambda>a b. createBinop a b Add)
   | ALU_SUB \<Rightarrow> alu64 (\<lambda>a b. createBinop a b Sub)
   | ALU_MUL \<Rightarrow> alu64 (\<lambda>a b. createBinop a b Mul)
   | ALU_AND \<Rightarrow> alu64 (\<lambda>a b. createBinop a b And)
   | ALU_OR \<Rightarrow> alu64 (\<lambda>a b. createBinop a b Or)
   | ALU_XOR \<Rightarrow> alu64 (\<lambda>a b. createBinop a b Xor)
   | ALU_SLL \<Rightarrow> alu64 createMaskedShl
   | ALU_SRL \<Rightarrow> alu64 createMaskedLShr
   | ALU_SRA \<Rightarrow> alu64 createMaskedAShr
   | ALU_DIV \<Rightarrow> alu64 (\<lambda>a b. bnd (getUnsignedIntConst 0 64) (createCheckedUDiv a b))
   | ALU_MOD \<Rightarrow> alu64 (\<lambda>a b. createCheckedURem a b a)
   | ALU_SDIV \<Rightarrow> alu64 (\<lambda>a b. bnd (getUnsignedIntConst 0 64) (\<lambda>z. createCheckedSDiv a b z a))
   | ALU_SMOD \<Rightarrow> alu64 (\<lambda>a b. bnd (getUnsignedIntConst 0 64) (createCheckedSRem a b a)))"

definition lift_alu32 :: "alu_name \<Rightarrow> unit lifter" where
  "lift_alu32 n = (case n of
     ALU_ADD \<Rightarrow> alu32 (\<lambda>a b. createBinop a b Add)
   | ALU_SUB \<Rightarrow> alu32 (\<lambda>a b. createBinop a b Sub)
   | ALU_MUL \<Rightarrow> alu32 (\<lambda>a b. createBinop a b Mul)
   | ALU_AND \<Rightarrow> alu32 (\<lambda>a b. createBinop a b And)
   | ALU_OR \<Rightarrow> alu32 (\<lambda>a b. createBinop a b Or)
   | ALU_XOR \<Rightarrow> alu32 (\<lambda>a b. createBinop a b Xor)
   | ALU_SLL \<Rightarrow> alu32 createMaskedShl
   | ALU_SRL \<Rightarrow> alu32 createMaskedLShr
   | ALU_SRA \<Rightarrow> alu32 createMaskedAShr
   | ALU_DIV \<Rightarrow> alu32 (\<lambda>a b. bnd (getUnsignedIntConst 0 32) (createCheckedUDiv a b))
   | ALU_MOD \<Rightarrow> alu32 (\<lambda>a b. createCheckedURem a b a)
   | ALU_SDIV \<Rightarrow> alu32 (\<lambda>a b. bnd (getUnsignedIntConst 0 32) (\<lambda>z. createCheckedSDiv a b z a))
   | ALU_SMOD \<Rightarrow> alu32 (\<lambda>a b. bnd (getUnsignedIntConst 0 32) (createCheckedSRem a b a)))"

definition lift_neg :: "reg_width \<Rightarrow> unit lifter" where
  "lift_neg w = (case w of
     B64 \<Rightarrow> bnd (readRegOperand64 1) (\<lambda>v. bnd (getUnsignedIntConst 0 64) (\<lambda>z.
       bnd (createSub z v) dest_update64))
   | B32 \<Rightarrow> bnd (readRegOperand32 1) (\<lambda>v. bnd (getUnsignedIntConst 0 32) (\<lambda>z.
       bnd (createSub z v) dest_update32)))"

definition lift_movsx :: "movsx_name \<Rightarrow> unit lifter" where
  "lift_movsx n = (case n of
     MOVSX_rr_8 \<Rightarrow> bnd (readRegOperand64 1) (\<lambda>v. bnd (createTrunc v (IntTy 8)) (\<lambda>v.
       bnd (createSExt v (IntTy 64)) dest_update64))
   | MOVSX_rr_16 \<Rightarrow> bnd (readRegOperand64 1) (\<lambda>v. bnd (createTrunc v (IntTy 16)) (\<lambda>v.
       bnd (createSExt v (IntTy 64)) dest_update64))
   | MOVSX_rr_32 \<Rightarrow> bnd (readRegOperand32 1) (\<lambda>v. bnd (createSExt v (IntTy 64)) dest_update64)
   | MOVSX_rr_32_8 \<Rightarrow> bnd (readRegOperand32 1) (\<lambda>v. bnd (createTrunc v (IntTy 8)) (\<lambda>v.
       bnd (createSExt v (IntTy 32)) dest_update32))
   | MOVSX_rr_32_16 \<Rightarrow> bnd (readRegOperand32 1) (\<lambda>v. bnd (createTrunc v (IntTy 16)) (\<lambda>v.
       bnd (createSExt v (IntTy 32)) dest_update32)))"

definition lift_ld_imm64 :: "src_env \<Rightarrow> unit lifter" where
  "lift_ld_imm64 E = bnd (getOperand 1) (\<lambda>op.
     bnd (case op of
         ImmOp i \<Rightarrow> getUnsignedIntConst (take_bit 64 i) 64
       | ExprOp e \<Rightarrow> bnd (getExprVar E e) (\<lambda>(nm, g). newPtrToInt (GlobalV nm) (IntTy 64))
       | RegOp r \<Rightarrow> fail (Assertion ''op.isExpr()'')) dest_update64)"

definition lift_endian :: "endian_name \<Rightarrow> unit lifter" where
  "lift_endian n = (case n of
     BE16 \<Rightarrow> endian 16 True | BSWAP16 \<Rightarrow> endian 16 True
   | BSWAP32 \<Rightarrow> endian 32 True | BSWAP64 \<Rightarrow> endian 64 True
   | BE32 \<Rightarrow> endian 32 True | BE64 \<Rightarrow> endian 64 True
   | LE16 \<Rightarrow> endian 16 False | LE32 \<Rightarrow> endian 32 False | LE64 \<Rightarrow> endian 64 False)"

definition lift_load :: "load_name \<Rightarrow> unit lifter" where
  "lift_load n = (case n of
     LDD \<Rightarrow> load_op 64 False False | LDW \<Rightarrow> load_op 32 False False
   | LDH \<Rightarrow> load_op 16 False False | LDB \<Rightarrow> load_op 8 False False
   | LDWSX \<Rightarrow> load_op 32 True False | LDHSX \<Rightarrow> load_op 16 True False | LDBSX \<Rightarrow> load_op 8 True False
   | LDW32 \<Rightarrow> load_op 32 False True | LDH32 \<Rightarrow> load_op 16 False True | LDB32 \<Rightarrow> load_op 8 False True)"

definition lift_store :: "store_name \<Rightarrow> unit lifter" where
  "lift_store n = (case n of
     STD \<Rightarrow> store_op 64 False | STW \<Rightarrow> store_op 32 False | STH \<Rightarrow> store_op 16 False
   | STB \<Rightarrow> store_op 8 False
   | STW32 \<Rightarrow> store_op 32 True | STH32 \<Rightarrow> store_op 16 True | STB32 \<Rightarrow> store_op 8 True)"

definition lift_store_imm :: "store_imm_name \<Rightarrow> unit lifter" where
  "lift_store_imm n = (case n of
     STD_imm \<Rightarrow> storeImm 64 | STW_imm \<Rightarrow> storeImm 32 | STH_imm \<Rightarrow> storeImm 16 | STB_imm \<Rightarrow> storeImm 8)"

definition lift_jmp :: "unit lifter" where
  "lift_jmp = bnd (getOperand 0) (\<lambda>op. case op of
     ExprOp e \<Rightarrow> bnd (getBB op) (\<lambda>bb. bnd (from_option (Assertion ''bb'') bb) createBranch)
   | _ \<Rightarrow> bnd (gets (snd \<circ> MCBB)) (\<lambda>succs.
       if length succs = 1 then bnd (getBBByName (succs ! 0)) createBranch
       else fail (Assertion ''MCBB->getSuccs().size() == 1'')))"

definition cond_pred :: "cond_name \<Rightarrow> pred" where
  "cond_pred c = (case c of
     JEQ \<Rightarrow> ICMP_EQ | JNE \<Rightarrow> ICMP_NE | JUGT \<Rightarrow> ICMP_UGT | JUGE \<Rightarrow> ICMP_UGE | JULT \<Rightarrow> ICMP_ULT
   | JULE \<Rightarrow> ICMP_ULE | JSGT \<Rightarrow> ICMP_SGT | JSGE \<Rightarrow> ICMP_SGE | JSLT \<Rightarrow> ICMP_SLT | JSLE \<Rightarrow> ICMP_SLE)"

definition bits_of_width :: "reg_width \<Rightarrow> nat" where
  "bits_of_width w = (case w of B64 \<Rightarrow> 64 | B32 \<Rightarrow> 32)"

definition lift_jcond :: "cond_name \<Rightarrow> reg_width \<Rightarrow> unit lifter" where
  "lift_jcond c w = condBr (cond_pred c) (bits_of_width w)"

definition lift_jset :: "reg_width \<Rightarrow> unit lifter" where
  "lift_jset w = (let bits = bits_of_width w in
     bnd (if bits = 64 then readRegOperand64 0 else readRegOperand32 0) (\<lambda>a.
     bnd (readALUSrcOperand 1 bits) (\<lambda>b. bnd (createAnd a b) (\<lambda>ab.
     bnd (getUnsignedIntConst 0 bits) (\<lambda>z. bnd (createICmp ICMP_NE ab z) (\<lambda>c.
     bnd (getBranchTargetsOperand 2) (\<lambda>(t, f). createCondBranch c t f)))))))"

section \<open>Atomics\<close>

definition atomic_binop :: "atomic_name \<Rightarrow> rmwop" where
  "atomic_binop n = (
     if n \<in> {XADDW, XADDW32, XADDD, XFADDW32, XFADDD} then RmwAdd
     else if n \<in> {XANDW32, XANDD, XFANDW32, XFANDD} then RmwAnd
     else if n \<in> {XORW32, XORD, XFORW32, XFORD} then RmwOr
     else if n \<in> {XXORW32, XXORD, XFXORW32, XFXORD} then RmwXor
     else RmwXchg)"

definition atomic_is64 :: "atomic_name \<Rightarrow> bool" where
  "atomic_is64 n \<longleftrightarrow> n \<in> {XADDD, XANDD, XORD, XXORD, XFADDD, XFANDD, XFORD, XFXORD, XCHGD}"

definition atomic_fetch :: "atomic_name \<Rightarrow> bool" where
  "atomic_fetch n \<longleftrightarrow> n \<in> {XFADDW32, XFADDD, XFANDW32, XFANDD, XFORW32, XFORD, XFXORW32, XFXORD,
     XCHGW32, XCHGD}"

definition lift_atomic :: "atomic_name \<Rightarrow> unit lifter" where
  "lift_atomic n =
     bnd (getMemPointerOperand 1) (\<lambda>ptr.
     bnd (if atomic_is64 n then readRegOperand64 3
       else if n = XADDW then bnd (readRegOperand64 3) (\<lambda>v. createTrunc v (IntTy 32))
       else readRegOperand32 3) (\<lambda>val.
     bnd (emit '''' (type_of val) (AtomicRMWI (atomic_binop n) ptr val (if atomic_is64 n then 8 else 4))) (\<lambda>rmw.
     if atomic_fetch n then
       (if atomic_is64 n then dest_update64 rmw else dest_update32 rmw)
     else ret ())))"

definition lift_cmpxchg :: "reg_width \<Rightarrow> unit lifter" where
  "lift_cmpxchg w = (case w of
     B64 \<Rightarrow> bnd (getMemPointerOperand 0) (\<lambda>ptr. bnd (readReg64 (R 0)) (\<lambda>expected.
       bnd (readRegOperand64 2) (\<lambda>newVal.
       bnd (bnd (emit '''' (StructTy [IntTy 64, IntTy 1]) (CmpXchgI ptr expected newVal 8))
         (\<lambda>cx. createExtractValue cx 0)) (\<lambda>v. updateReg64 v (R 0)))))
   | B32 \<Rightarrow> bnd (getMemPointerOperand 0) (\<lambda>ptr. bnd (readReg32 (R 0)) (\<lambda>expected.
       bnd (readRegOperand32 2) (\<lambda>newVal.
       bnd (bnd (emit '''' (StructTy [IntTy 32, IntTy 1]) (CmpXchgI ptr expected newVal 4))
         (\<lambda>cx. createExtractValue cx 0)) (\<lambda>v. updateReg32 v (R 0))))))"

section \<open>The switch\<close>

definition lift :: "src_env \<Rightarrow> mcinst \<Rightarrow> unit lifter" where
  "lift E I = (case getOpcode I of
     NOP \<Rightarrow> ret ()
   | ALU n k B64 \<Rightarrow> lift_alu64 n
   | ALU n k B32 \<Rightarrow> lift_alu32 n
   | NEG_64 \<Rightarrow> lift_neg B64
   | NEG_32 \<Rightarrow> lift_neg B32
   | MOV_rr \<Rightarrow> bnd (readRegOperand64 1) dest_update64
   | MOV_ri \<Rightarrow> bnd (readImmOperand 1 64) dest_update64
   | MOV_rr_32 \<Rightarrow> bnd (readRegOperand32 1) dest_update32
   | MOV_ri_32 \<Rightarrow> bnd (readImmOperand 1 32) dest_update32
   | MOV_32_64 \<Rightarrow> bnd (readRegOperand32 1) dest_update32
   | MOVSX n \<Rightarrow> lift_movsx n
   | LD_imm64 \<Rightarrow> lift_ld_imm64 E
   | ENDIAN n \<Rightarrow> lift_endian n
   | LOAD n \<Rightarrow> lift_load n
   | STORE n \<Rightarrow> lift_store n
   | STORE_IMM n \<Rightarrow> lift_store_imm n
   | JMP \<Rightarrow> lift_jmp
   | JMPL \<Rightarrow> lift_jmp
   | JCOND c k w \<Rightarrow> lift_jcond c w
   | JSET k w \<Rightarrow> lift_jset w
   | ATOMIC n \<Rightarrow> lift_atomic n
   | CMPXCHGD \<Rightarrow> lift_cmpxchg B64
   | CMPXCHGW32 \<Rightarrow> lift_cmpxchg B32
   | JAL \<Rightarrow> bnd (getOperand 0) (\<lambda>op. case op of
       ExprOp e \<Rightarrow> doDirectCall E
     | _ \<Rightarrow> bnd (getImm op) (doHelperCall E))
   | RET \<Rightarrow> doReturn E
   | OTHER nm \<Rightarrow> fail (ExitError (''Unsupported instruction: '' @ nm)))"

definition liftInst :: "src_env \<Rightarrow> mcinst \<Rightarrow> unit lifter" where
  "liftInst E I = andthen (modify (\<lambda>s. s\<lparr>PrevInst := Some (CurInst s), CurInst := I\<rparr>)) (lift E I)"

section \<open>A whole function\<close>

definition numStackSlots :: int where
  "numStackSlots = 32"

definition hasTerminator :: "nat \<Rightarrow> code \<Rightarrow> bool" where
  "hasTerminator b F \<longleftrightarrow> snd (F ! b) \<noteq> [] \<and> is_terminator (snd (snd (last (snd (F ! b)))))"

definition lift_instrs :: "src_env \<Rightarrow> mcinst list \<Rightarrow> unit lifter" where
  "lift_instrs E is = for_each is (\<lambda>I.
     andthen (modify (\<lambda>s. s\<lparr>llvmInstNum := 0\<rparr>))
     (andthen (liftInst E I) (modify (\<lambda>s. s\<lparr>armInstNum := Suc (armInstNum s)\<rparr>))))"

definition finish_block :: "src_env \<Rightarrow> unit lifter" where
  "finish_block E = bnd (gets (\<lambda>s. hasTerminator (LLVMBB s) (fn s))) (\<lambda>t.
     if t then ret () else bnd (gets (snd \<circ> MCBB)) (\<lambda>succs.
       if length succs = 0 then doReturn E
       else if length succs = 1 then bnd (getBBByName (succs ! 0)) createBranch
       else ret ()))"

definition lift_block :: "src_env \<Rightarrow> nat \<times> MCBasicBlock \<Rightarrow> unit lifter" where
  "lift_block E p = (case p of (b, mbb) \<Rightarrow>
     andthen (set_bb b)
     (andthen (modify (\<lambda>s. s\<lparr>MCBB := (getName mbb, getSuccs mbb)\<rparr>))
     (andthen (lift_instrs E (getInstrs mbb)) (finish_block E))))"

definition create_stack :: "unit lifter" where
  "create_stack = bnd (getUnsignedIntConst (stackBytes + 8 * numStackSlots) 64) (\<lambda>stackSize.
     bnd (getUnsignedIntConst 16 64) (\<lambda>align.
     bnd (emit ''stack'' PtrTy (CallI ''myalloc'' [stackSize, align] PtrTy)) (\<lambda>stk.
     modify (\<lambda>s. s\<lparr>stackMem := stk\<rparr>))))"

text \<open>\<open>valid_module\<close> is LLVM's \<open>verifyModule\<close>, which the code runs on the result.\<close>

definition liftMCFunction ::
    "(code \<Rightarrow> bool) \<Rightarrow> src_env \<Rightarrow> MCBasicBlock list \<Rightarrow> unit lifter" where
  "liftMCFunction valid_module E BBs =
     andthen (for_each BBs (\<lambda>mbb. bnd (newBlock (getName mbb)) (\<lambda>_. ret ())))
     (andthen (check (BBs \<noteq> []) (Assertion ''BBs[0]''))
     (andthen (set_bb 0)
     (andthen create_stack
     (andthen (platformInit E)
     (andthen (for_each (zip [0..<length BBs] BBs) (lift_block E))
     (bnd (gets fn) (\<lambda>F. check (valid_module F)
        (ExitError ''Lifted module is broken, this should not happen''))))))))"

end
