(* ===== verification/Reg_WP.thy ===== *)
theory Reg_WP
  imports Division_WP Bpf_Lift
begin

text \<open>
  The simulation between the abstract BPF machine and the state of the lifted code: each of the
  twelve registers lives in an alloca of its own, which holds its 64-bit value, and the memories
  agree. The lemmas lift the builder's rules to register reads and writes.
\<close>

section \<open>The simulation relation\<close>

definition reg_at :: "lstate \<Rightarrow> 'm machine \<Rightarrow> nat \<Rightarrow> nat \<Rightarrow> bool" where
  "reg_at s \<sigma> r k \<longleftrightarrow> RegFile s r = Some (Local k PtrTy) \<and> hslot s \<sigma> (Local k PtrTy) k \<and> k < nid s"

definition sim :: "lstate \<Rightarrow> 'm machine \<Rightarrow> regs \<Rightarrow> 'm \<Rightarrow> bool" where
  "sim s \<sigma> \<rho> m \<longleftrightarrow> wf s \<and> mem \<sigma> = m \<and>
     (\<forall>r \<le> 11. \<exists>k. reg_at s \<sigma> r k \<and> slots \<sigma> k = Some (64, uint (\<rho> r))) \<and>
     (\<forall>r \<le> 11. \<forall>r' \<le> 11. \<forall>k. reg_at s \<sigma> r k \<longrightarrow> reg_at s \<sigma> r' k \<longrightarrow> r = r')"

lemma reg_at_unique: "reg_at s \<sigma> r k \<Longrightarrow> reg_at s \<sigma> r k' \<Longrightarrow> k = k'"
  by (auto simp: reg_at_def hslot_def)

lemma reg_at_pure: "wf s \<Longrightarrow> reg_at s \<sigma> r k \<Longrightarrow> pure s \<sigma> s' \<sigma>' \<Longrightarrow> reg_at s' \<sigma>' r k"
  by (auto simp: reg_at_def pure_def same_ctx_def keeps_def hslot_def)

lemma reg_at_pure_back:
  assumes "sim s \<sigma> \<rho> m" and "r \<le> 11" and "reg_at s' \<sigma>' r k" and "pure s \<sigma> s' \<sigma>'"
  shows "reg_at s \<sigma> r k"
proof -
  from assms(1,2) obtain k' where k': "reg_at s \<sigma> r k'" and w: "wf s" by (auto simp: sim_def)
  with reg_at_pure[OF w k' assms(4)] assms(3) show ?thesis using reg_at_unique by metis
qed

lemma sim_wf: "sim s \<sigma> \<rho> m \<Longrightarrow> wf s"
  by (simp add: sim_def)

lemma sim_pure:
  assumes s: "sim s \<sigma> \<rho> m" and p: "pure s \<sigma> s' \<sigma>'"
  shows "sim s' \<sigma>' \<rho> m"
  unfolding sim_def
proof (intro conjI allI impI)
  show "wf s'" "mem \<sigma>' = m" using s p by (auto simp: sim_def pure_def)
  fix r :: nat assume r: "r \<le> 11"
  from s r obtain k where k: "reg_at s \<sigma> r k" "slots \<sigma> k = Some (64, uint (\<rho> r))"
    by (auto simp: sim_def)
  then have "slots \<sigma>' k = Some (64, uint (\<rho> r))" using p by (auto simp: pure_def reg_at_def)
  with reg_at_pure[OF sim_wf[OF s] k(1) p]
  show "\<exists>k. reg_at s' \<sigma>' r k \<and> slots \<sigma>' k = Some (64, uint (\<rho> r))" by blast
next
  fix r r' k assume "r \<le> 11" "r' \<le> 11" "reg_at s' \<sigma>' r k" "reg_at s' \<sigma>' r' k"
  then have "reg_at s \<sigma> r k" "reg_at s \<sigma> r' k" using reg_at_pure_back[OF s _ _ p] by blast+
  with s \<open>r \<le> 11\<close> \<open>r' \<le> 11\<close> show "r = r'" by (auto simp: sim_def)
qed

lemma sim_write:
  assumes s: "sim s \<sigma> \<rho> m" and r: "r \<le> 11" and k: "reg_at s \<sigma> r k"
  shows "sim s (\<sigma>\<lparr>slots := (slots \<sigma>)(k \<mapsto> (64, uint x))\<rparr>) (\<rho>(r := x)) m"
proof -
  let ?\<sigma> = "\<sigma>\<lparr>slots := (slots \<sigma>)(k \<mapsto> (64, uint x))\<rparr>"
  have at: "reg_at s ?\<sigma> r' k' \<longleftrightarrow> reg_at s \<sigma> r' k'" for r' k'
    by (simp add: reg_at_def hslot_def)
  have "\<exists>k'. reg_at s \<sigma> r' k' \<and> slots ?\<sigma> k' = Some (64, uint ((\<rho>(r := x)) r'))" if r': "r' \<le> 11" for r'
  proof (cases "r' = r")
    case True with k show ?thesis by auto
  next
    case False
    from s r' obtain k' where k': "reg_at s \<sigma> r' k'" "slots \<sigma> k' = Some (64, uint (\<rho> r'))"
      by (auto simp: sim_def)
    have "k' \<noteq> k" using False s r r' k k'(1) by (auto simp: sim_def)
    with k' False show ?thesis by auto
  qed
  with s show ?thesis by (auto simp: sim_def at)
qed

lemma sim_mem: "sim s \<sigma> \<rho> m \<Longrightarrow> sim s (\<sigma>\<lparr>mem := m'\<rparr>) \<rho> m'"
  by (auto simp: sim_def reg_at_def hslot_def)

text \<open>What a lifted instruction establishes: the registers and memory of the abstract machine after
  it, in the same context.\<close>

definition done_with :: "lstate \<Rightarrow> regs \<Rightarrow> 'm \<Rightarrow> unit \<Rightarrow> lstate \<Rightarrow> 'm machine \<Rightarrow> bool" where
  "done_with s \<rho> m u s' \<sigma>' \<longleftrightarrow> sim s' \<sigma>' \<rho> m \<and> same_ctx s s'"

section \<open>Operands\<close>

definition opnd :: "lstate \<Rightarrow> nat \<Rightarrow> mcoperand \<Rightarrow> bool" where
  "opnd s i op \<longleftrightarrow> i < length (operands (CurInst s)) \<and> operands (CurInst s) ! i = op"

lemma opnd_pure: "opnd s i op \<Longrightarrow> pure s \<sigma> s' \<sigma>' \<Longrightarrow> opnd s' i op"
  by (simp add: opnd_def pure_def same_ctx_def)

lemma opnd_same_ctx: "opnd s i op \<Longrightarrow> same_ctx s s' \<Longrightarrow> opnd s' i op"
  by (simp add: opnd_def same_ctx_def)

lemma opnd_ops: "operands (CurInst s) = ops \<Longrightarrow> i < length ops \<Longrightarrow> ops ! i = op \<Longrightarrow> opnd s i op"
  by (simp add: opnd_def)

lemma ops_pure: "operands (CurInst s) = ops \<Longrightarrow> pure s \<sigma> s' \<sigma>' \<Longrightarrow> operands (CurInst s') = ops"
  by (simp add: pure_def same_ctx_def)

lemma pure_same_ctx: "pure s \<sigma> s' \<sigma>' \<Longrightarrow> same_ctx s s'"
  by (simp add: pure_def)

lemma wp_getOperand: "opnd s i op \<Longrightarrow> wp S (bnd (getOperand i) k) Q s \<sigma> \<longleftrightarrow> wp S (k op) Q s \<sigma>"
  by (simp add: wp_def bnd_def getOperand_def opnd_def)

lemma wp_getReg: "wp S (bnd (getReg (RegOp r)) k) Q s \<sigma> \<longleftrightarrow> wp S (k r) Q s \<sigma>"
  by (simp add: wp_def bnd_def getReg_def)

lemma wp_getImm: "wp S (bnd (getImm (ImmOp i)) k) Q s \<sigma> \<longleftrightarrow> wp S (k i) Q s \<sigma>"
  by (simp add: wp_def bnd_def getImm_def)

lemma mapReg: "reg_no r = Some i \<Longrightarrow> mapRegToBackingReg r s = Inr (i, s) \<and> i \<le> 11"
  by (cases r) (auto simp: mapRegToBackingReg_def isWReg_def split: if_splits)

lemma lookupReg:
  assumes "reg_no r = Some i" and "RegFile s i = Some p"
  shows "lookupReg r s = Inr (p, s)"
  using mapReg[OF assms(1)] assms(2) by (simp add: lookupReg_def bnd_def)

lemma sim_reg:
  assumes "sim s \<sigma> \<rho> m" and "reg_no r = Some i"
  obtains p k where "RegFile s i = Some p" "hslot s \<sigma> p k" "slots \<sigma> k = Some (64, uint (\<rho> i))"
    "reg_at s \<sigma> i k" "i \<le> 11"
proof -
  have i: "i \<le> 11" using mapReg[OF assms(2)] by blast
  with assms(1) obtain k where k: "reg_at s \<sigma> i k" "slots \<sigma> k = Some (64, uint (\<rho> i))"
    by (auto simp: sim_def)
  then show thesis using that i unfolding reg_at_def by blast
qed

lemma wp_lookupReg: "lookupReg r s = Inr (p, s) \<Longrightarrow> wp S (bnd (lookupReg r) k) Q s \<sigma> \<longleftrightarrow> wp S (k p) Q s \<sigma>"
  by (simp add: wp_def bnd_def)

context langref
begin

lemma wp_readReg64:
  assumes s: "sim s \<sigma> \<rho> m" and r: "reg_no r = Some i"
    and Q: "\<And>v s' \<sigma>'. pure s \<sigma> s' \<sigma>' \<Longrightarrow> hw S s' \<sigma>' v (\<rho> i) \<Longrightarrow> Q v s' \<sigma>'"
  shows "wp S (readReg64 r) Q s \<sigma>"
proof -
  obtain p k where 1: "RegFile s i = Some p" "hslot s \<sigma> p k" "slots \<sigma> k = Some (64, uint (\<rho> i))"
    by (rule sim_reg[OF s r])
  show ?thesis
    unfolding readReg64_def wp_lookupReg[OF lookupReg[OF r 1(1)]]
    using wp_load_slot[OF sim_wf[OF s] 1(2), of "\<rho> i" Q] 1(3) Q by simp
qed

lemma wp_readReg32:
  assumes s: "sim s \<sigma> \<rho> m" and r: "reg_no r = Some i"
    and Q: "\<And>v s' \<sigma>'. pure s \<sigma> s' \<sigma>' \<Longrightarrow> hw S s' \<sigma>' v (low32 (\<rho> i)) \<Longrightarrow> Q v s' \<sigma>'"
  shows "wp S (readReg32 r) Q s \<sigma>"
  unfolding readReg32_def
proof (rule wp_bnd, rule wp_readReg64[OF s r])
  fix v s' \<sigma>' assume 1: "pure s \<sigma> s' \<sigma>'" "hw S s' \<sigma>' v (\<rho> i)"
  show "wp S (createTrunc v (IntTy 32)) Q s' \<sigma>'"
    using wp_createTrunc[where 'u=32, OF pure_wf[OF 1(1)] 1(2), of Q] Q pure_trans[OF 1(1)]
    by (simp add: low32_def)
qed

lemma wp_readPtr:
  assumes s: "sim s \<sigma> \<rho> m" and r: "reg_no r = Some i" and o: "opnd s idx (RegOp r)"
    and Q: "\<And>v s' \<sigma>'. pure s \<sigma> s' \<sigma>' \<Longrightarrow> hp S s' \<sigma>' v (\<rho> i) \<Longrightarrow> Q v s' \<sigma>'"
  shows "wp S (readPtrRegOperand idx) Q s \<sigma>"
proof -
  obtain p k where 1: "RegFile s i = Some p" "hslot s \<sigma> p k" "slots \<sigma> k = Some (64, uint (\<rho> i))"
    by (rule sim_reg[OF s r])
  show ?thesis
    unfolding readPtrRegOperand_def wp_getOperand[OF o] wp_getReg wp_lookupReg[OF lookupReg[OF r 1(1)]]
    by (rule wp_load_slot_ptr[OF sim_wf[OF s] 1(2,3) Q])
qed

lemma wp_updateReg64:
  assumes s: "sim s \<sigma> \<rho> m" and r: "reg_no r = Some i" and v: "hw S s \<sigma> v (x :: 64 word)"
  shows "wp S (updateReg64 v r) (done_with s (\<rho>(i := x)) m) s \<sigma>"
proof -
  obtain p k where 1: "RegFile s i = Some p" "hslot s \<sigma> p k" "reg_at s \<sigma> i k" "i \<le> 11"
    by (rule sim_reg[OF s r])
  note sw = sim_write[OF s 1(4) 1(3), of x]
  have "wp S (createStore v p) (done_with s (\<rho>(i := x)) m) s \<sigma>"
    by (rule wp_store_slot[OF sim_wf[OF s] v 1(2)])
       (use sim_pure[OF sw] in \<open>auto simp: done_with_def pure_same_ctx\<close>)
  then show ?thesis
    unfolding updateReg64_def wp_width_const[OF v, simplified] wp_checked[OF refl]
      wp_lookupReg[OF lookupReg[OF r 1(1)]] .
qed

lemma done_with_trans: "done_with s' \<rho> m u s'' \<sigma>'' \<Longrightarrow> pure s \<sigma> s' \<sigma>' \<Longrightarrow> done_with s \<rho> m u s'' \<sigma>''"
  by (auto simp: done_with_def intro: same_ctx_trans dest: pure_same_ctx)

lemma wp_done_trans: "wp S a (done_with s' \<rho> m) s' \<sigma>' \<Longrightarrow> pure s \<sigma> s' \<sigma>' \<Longrightarrow> wp S a (done_with s \<rho> m) s' \<sigma>'"
  by (auto elim!: wp_weaken intro: done_with_trans)

lemma wp_done_ctx: "wp S a (done_with s' \<rho> m) s' \<sigma>' \<Longrightarrow> same_ctx s s' \<Longrightarrow> wp S a (done_with s \<rho> m) s' \<sigma>'"
  by (auto elim!: wp_weaken simp: done_with_def intro: same_ctx_trans)

lemma wp_updateReg32:
  assumes s: "sim s \<sigma> \<rho> m" and r: "reg_no r = Some i" and v: "hw S s \<sigma> v (x :: 32 word)"
  shows "wp S (updateReg32 v r) (done_with s (\<rho>(i := zext32 x)) m) s \<sigma>"
proof -
  have "wp S (createZExt v (IntTy 64)) (\<lambda>z. wp S (updateReg64 z r) (done_with s (\<rho>(i := zext32 x)) m)) s \<sigma>"
  proof (rule wp_createZExt[where 'u=64, OF sim_wf[OF s] v, simplified], goal_cases)
    case (1 z s' \<sigma>')
    show ?case
      by (rule wp_done_trans[OF wp_updateReg64[OF sim_pure[OF s 1(1)] r] 1(1)])
         (simp add: zext32_def 1(2))
  qed
  then show ?thesis
    unfolding updateReg32_def wp_width_const[OF v, simplified] wp_checked[OF refl] by (rule wp_bnd)
qed

lemma wp_readRegOperand64:
  assumes "sim s \<sigma> \<rho> m" and "opnd s idx (RegOp r)" and "reg_no r = Some i"
    and "\<And>v s' \<sigma>'. pure s \<sigma> s' \<sigma>' \<Longrightarrow> hw S s' \<sigma>' v (\<rho> i) \<Longrightarrow> Q v s' \<sigma>'"
  shows "wp S (readRegOperand64 idx) Q s \<sigma>"
  unfolding readRegOperand64_def wp_getOperand[OF assms(2)] wp_getReg
  by (rule wp_readReg64[OF assms(1,3,4)])

lemma wp_readRegOperand32:
  assumes "sim s \<sigma> \<rho> m" and "opnd s idx (RegOp r)" and "reg_no r = Some i"
    and "\<And>v s' \<sigma>'. pure s \<sigma> s' \<sigma>' \<Longrightarrow> hw S s' \<sigma>' v (low32 (\<rho> i)) \<Longrightarrow> Q v s' \<sigma>'"
  shows "wp S (readRegOperand32 idx) Q s \<sigma>"
  unfolding readRegOperand32_def wp_getOperand[OF assms(2)] wp_getReg
  by (rule wp_readReg32[OF assms(1,3,4)])

lemma wp_readImm64:
  assumes "opnd s idx (ImmOp i)" and "imm64 i" and "sim s \<sigma> \<rho> m"
    and "\<And>v s' \<sigma>'. pure s \<sigma> s' \<sigma>' \<Longrightarrow> hw S s' \<sigma>' v (word_of_int i :: 64 word) \<Longrightarrow> Q v s' \<sigma>'"
  shows "wp S (readImmOperand idx 64) Q s \<sigma>"
  unfolding readImmOperand_def wp_getOperand[OF assms(1)] wp_getImm
  by (rule wp_signed_const64)
     (use assms(2) assms(4)[OF pure_refl[OF sim_wf[OF assms(3)]]] in \<open>auto simp: imm64_def\<close>)

lemma wp_readImm32:
  assumes "opnd s idx (ImmOp i)" and "imm32 i" and "sim s \<sigma> \<rho> m"
    and "\<And>v s' \<sigma>'. pure s \<sigma> s' \<sigma>' \<Longrightarrow> hw S s' \<sigma>' v (word_of_int i :: 32 word) \<Longrightarrow> Q v s' \<sigma>'"
  shows "wp S (readImmOperand idx 32) Q s \<sigma>"
  unfolding readImmOperand_def wp_getOperand[OF assms(1)] wp_getImm
  by (rule wp_signed_const32)
     (use assms(2) assms(4)[OF pure_refl[OF sim_wf[OF assms(3)]]] in \<open>auto simp: imm32_def\<close>)

lemma imm32_imm64: "imm32 i \<Longrightarrow> imm64 i"
  by (simp add: imm32_def imm64_def)

lemma wp_readALUSrc64:
  assumes "sim s \<sigma> \<rho> m" and "opnd s idx op" and "src64 \<rho> op = Some y"
    and "\<And>v s' \<sigma>'. pure s \<sigma> s' \<sigma>' \<Longrightarrow> hw S s' \<sigma>' v y \<Longrightarrow> Q v s' \<sigma>'"
  shows "wp S (readALUSrcOperand idx 64) Q s \<sigma>"
  unfolding readALUSrcOperand_def wp_getOperand[OF assms(2)]
  using assms(2,3) wp_readReg64[OF assms(1) _ assms(4)] wp_readImm64[OF _ _ assms(1,4)]
  by (cases op) (auto simp: src64_def imm32_imm64 split: if_splits)

lemma wp_readALUSrc32:
  assumes "sim s \<sigma> \<rho> m" and "opnd s idx op" and "src32 \<rho> op = Some y"
    and "\<And>v s' \<sigma>'. pure s \<sigma> s' \<sigma>' \<Longrightarrow> hw S s' \<sigma>' v y \<Longrightarrow> Q v s' \<sigma>'"
  shows "wp S (readALUSrcOperand idx 32) Q s \<sigma>"
  unfolding readALUSrcOperand_def wp_getOperand[OF assms(2)]
  using assms(2,3) wp_readReg32[OF assms(1) _ assms(4)] wp_readImm32[OF _ _ assms(1,4)]
  by (cases op) (auto simp: src32_def split: if_splits)

lemma wp_memPointer:
  assumes s: "sim s \<sigma> \<rho> m" and b: "opnd s idx (RegOp b)" and off: "opnd s (Suc idx) (ImmOp off)"
    and a: "mem_addr \<rho> b off = Some a"
    and Q: "\<And>v s' \<sigma>'. pure s \<sigma> s' \<sigma>' \<Longrightarrow> hp S s' \<sigma>' v a \<Longrightarrow> Q v s' \<sigma>'"
  shows "wp S (getMemPointerOperand idx) Q s \<sigma>"
proof -
  from a obtain i where i: "reg_no b = Some i" "imm64 off" "a = \<rho> i + word_of_int off"
    by (auto simp: mem_addr_def split: if_splits)
  show ?thesis
    unfolding getMemPointerOperand_def
  proof (rule wp_bnd, rule wp_readPtr[OF s i(1) b], rule wp_bnd, rule wp_readImm64[OF _ i(2)])
    fix p s1 \<sigma>1 assume 1: "pure s \<sigma> s1 \<sigma>1" "hp S s1 \<sigma>1 p (\<rho> i)"
    show "opnd s1 (idx + 1) (ImmOp off)" using opnd_pure[OF off 1(1)] by simp
    show "sim s1 \<sigma>1 \<rho> m" by (rule sim_pure[OF s 1(1)])
    fix v s2 \<sigma>2 assume 2: "pure s1 \<sigma>1 s2 \<sigma>2" "hw S s2 \<sigma>2 v (word_of_int off :: 64 word)"
    show "wp S (bnd nextName (createGEP (IntTy 8) p v)) Q s2 \<sigma>2"
    proof (rule wp_bnd, rule wp_nextName[OF pure_wf[OF 2(1)]])
      fix nm s3 assume 3: "\<And>\<tau> :: 'm machine. pure s2 \<tau> s3 \<tau>"
      note pu = pure_trans[OF 2(1) 3]
      show "wp S (createGEP (IntTy 8) p v nm) Q s3 \<sigma>2"
        by (rule wp_createGEP[OF pure_wf[OF 3] hp_pure[OF 1(2) pu] hw_pure[OF 2(2) 3]])
           (use Q i(3) pure_trans[OF pure_trans[OF 1(1) pu]] in blast)
    qed
  qed
qed

lemma wp_dest64:
  assumes "sim s \<sigma> \<rho> m" and "opnd s 0 (RegOp r)" and "reg_no r = Some i" and "hw S s \<sigma> v (x :: 64 word)"
    and "same_ctx s0 s"
  shows "wp S (dest_update64 v) (done_with s0 (\<rho>(i := x)) m) s \<sigma>"
  unfolding dest_update64_def destReg_def bnd_assoc wp_getOperand[OF assms(2)] wp_getReg
  by (rule wp_done_ctx[OF wp_updateReg64[OF assms(1,3,4)] assms(5)])

lemma wp_dest32:
  assumes "sim s \<sigma> \<rho> m" and "opnd s 0 (RegOp r)" and "reg_no r = Some i" and "hw S s \<sigma> v (x :: 32 word)"
    and "same_ctx s0 s"
  shows "wp S (dest_update32 v) (done_with s0 (\<rho>(i := zext32 x)) m) s \<sigma>"
  unfolding dest_update32_def destReg_def bnd_assoc wp_getOperand[OF assms(2)] wp_getReg
  by (rule wp_done_ctx[OF wp_updateReg32[OF assms(1,3,4)] assms(5)])

end

end
