(* ===== verification/Lift_Alu.thy ===== *)
theory Lift_Alu
  imports Reg_WP
begin

text \<open>
  The arithmetic, move, sign-extension and byte-order groups of the lifter's \<open>switch\<close> emit code that
  simulates the abstract machine's instruction. A helper that builds a result from operand values is
  specified by the word function it implements (\<open>implements1\<close>, \<open>implements2\<close>); the group lemmas are
  instances over these.
\<close>

section \<open>Builders of two-operand results\<close>

definition implements2 :: "'m llvm_sem \<Rightarrow> (llvalue \<Rightarrow> llvalue \<Rightarrow> llvalue lifter) \<Rightarrow>
    ('w::len word \<Rightarrow> 'w word \<Rightarrow> 'w word) \<Rightarrow> bool" where
  "implements2 S f g \<longleftrightarrow> (\<forall>s (\<sigma> :: 'm machine) a b x y Q. wf s \<longrightarrow> hw S s \<sigma> a x \<longrightarrow> hw S s \<sigma> b y \<longrightarrow>
     (\<forall>v s' \<sigma>'. pure s \<sigma> s' \<sigma>' \<longrightarrow> hw S s' \<sigma>' v (g x y) \<longrightarrow> Q v s' \<sigma>') \<longrightarrow> wp S (f a b) Q s \<sigma>)"

lemma implements2I:
  assumes "\<And>s (\<sigma> :: 'm machine) a b x y Q. wf s \<Longrightarrow> hw S s \<sigma> a x \<Longrightarrow> hw S s \<sigma> b y \<Longrightarrow>
     (\<And>v s' \<sigma>'. pure s \<sigma> s' \<sigma>' \<Longrightarrow> hw S s' \<sigma>' v (g x y) \<Longrightarrow> Q v s' \<sigma>') \<Longrightarrow> wp S (f a b) Q s \<sigma>"
  shows "implements2 S f g"
  unfolding implements2_def using assms by blast

lemma implements2D:
  assumes "implements2 S f g" and "wf s" and "hw S s \<sigma> a x" and "hw S s \<sigma> b y"
    and "\<And>v s' \<sigma>'. pure s \<sigma> s' \<sigma>' \<Longrightarrow> hw S s' \<sigma>' v (g x y) \<Longrightarrow> Q v s' \<sigma>'"
  shows "wp S (f a b) Q s \<sigma>"
  using assms unfolding implements2_def by blast

definition implements1 :: "'m llvm_sem \<Rightarrow> (llvalue \<Rightarrow> llvalue lifter) \<Rightarrow> ('w::len word \<Rightarrow> 'u::len word) \<Rightarrow> bool" where
  "implements1 S f g \<longleftrightarrow> (\<forall>s (\<sigma> :: 'm machine) a x Q. wf s \<longrightarrow> hw S s \<sigma> a x \<longrightarrow>
     (\<forall>v s' \<sigma>'. pure s \<sigma> s' \<sigma>' \<longrightarrow> hw S s' \<sigma>' v (g x) \<longrightarrow> Q v s' \<sigma>') \<longrightarrow> wp S (f a) Q s \<sigma>)"

lemma implements1I:
  assumes "\<And>s (\<sigma> :: 'm machine) a x Q. wf s \<Longrightarrow> hw S s \<sigma> a x \<Longrightarrow>
     (\<And>v s' \<sigma>'. pure s \<sigma> s' \<sigma>' \<Longrightarrow> hw S s' \<sigma>' v (g x) \<Longrightarrow> Q v s' \<sigma>') \<Longrightarrow> wp S (f a) Q s \<sigma>"
  shows "implements1 S f g"
  unfolding implements1_def using assms by blast

lemma implements1D:
  assumes "implements1 S f g" and "wf s" and "hw S s \<sigma> a x"
    and "\<And>v s' \<sigma>'. pure s \<sigma> s' \<sigma>' \<Longrightarrow> hw S s' \<sigma>' v (g x) \<Longrightarrow> Q v s' \<sigma>'"
  shows "wp S (f a) Q s \<sigma>"
  using assms unfolding implements1_def by blast

lemma implements1_ret: "implements1 S ret (\<lambda>x. x)"
  by (rule implements1I) (blast intro: wp_ret pure_refl)

lemma implements1_comp:
  assumes f: "implements1 S f g" and f': "implements1 S f' g'"
  shows "implements1 S (\<lambda>v. bnd (f v) f') (\<lambda>x. g' (g x))"
  by (rule implements1I, rule wp_bnd, rule implements1D[OF f], assumption, assumption)
     (rule implements1D[OF f'], auto intro: pure_wf pure_trans)

context langref
begin

lemma implements1_trunc:
  "LENGTH('u::len) < LENGTH('w::len) \<Longrightarrow>
    implements1 S (\<lambda>v. createTrunc v (IntTy LENGTH('u))) (ucast :: 'w word \<Rightarrow> 'u word)"
  by (rule implements1I, rule wp_createTrunc)

lemma implements1_zext:
  "LENGTH('w::len) < LENGTH('u::len) \<Longrightarrow>
    implements1 S (\<lambda>v. createZExt v (IntTy LENGTH('u))) (ucast :: 'w word \<Rightarrow> 'u word)"
  by (rule implements1I, rule wp_createZExt)

lemma implements1_sext:
  "LENGTH('w::len) < LENGTH('u::len) \<Longrightarrow>
    implements1 S (\<lambda>v. createSExt v (IntTy LENGTH('u))) (scast :: 'w word \<Rightarrow> 'u word)"
  by (rule implements1I, rule wp_createSExt)

lemma implements1_bswap:
  "LENGTH('w::len) = 16 * k \<Longrightarrow> implements1 S createBSwap (bswap_word :: 'w word \<Rightarrow> 'w word)"
  by (rule implements1I, rule wp_createBSwap)

lemmas trunc64_8 = implements1_trunc[where 'w=64 and 'u=8, simplified]
lemmas trunc64_16 = implements1_trunc[where 'w=64 and 'u=16, simplified]
lemmas trunc64_32 = implements1_trunc[where 'w=64 and 'u=32, simplified]
lemmas trunc32_8 = implements1_trunc[where 'w=32 and 'u=8, simplified]
lemmas trunc32_16 = implements1_trunc[where 'w=32 and 'u=16, simplified]
lemmas zext64 = implements1_zext[where 'w=8 and 'u=64, simplified]
  implements1_zext[where 'w=16 and 'u=64, simplified] implements1_zext[where 'w=32 and 'u=64, simplified]
lemmas zext32s = implements1_zext[where 'w=8 and 'u=32, simplified]
  implements1_zext[where 'w=16 and 'u=32, simplified]
lemmas sext64 = implements1_sext[where 'w=8 and 'u=64, simplified]
  implements1_sext[where 'w=16 and 'u=64, simplified] implements1_sext[where 'w=32 and 'u=64, simplified]
lemmas sext32s = implements1_sext[where 'w=8 and 'u=32, simplified]
  implements1_sext[where 'w=16 and 'u=32, simplified]
lemmas bswaps = implements1_bswap[where 'w=16 and k=1, simplified]
  implements1_bswap[where 'w=32 and k=2, simplified] implements1_bswap[where 'w=64 and k=4, simplified]

lemma implements_binop:
  "(\<And>x y :: 'w::len word. bop_word bop x y = Some (g x y)) \<Longrightarrow> implements2 S (\<lambda>a b. createBinop a b bop) g"
  by (rule implements2I, rule wp_createBinop)

lemma implements_shifts:
  "implements2 S createMaskedShl (\<lambda>x y :: 'w::len word. push_bit (shift_amount y) x)"
  "implements2 S createMaskedLShr (\<lambda>x y :: 'w::len word. drop_bit (shift_amount y) x)"
  "implements2 S createMaskedAShr (\<lambda>x y :: 'w::len word. signed_drop_bit (shift_amount y) x)"
  by (rule implements2I, rule wp_createMaskedShl wp_createMaskedLShr wp_createMaskedAShr, assumption+)+

lemma implements_udiv:
  "implements2 S (\<lambda>a b. bnd (getUnsignedIntConst 0 LENGTH('w)) (createCheckedUDiv a b))
     (\<lambda>x y :: 'w::len word. if y = 0 then 0 else x div y)"
  unfolding createCheckedUDiv_def
  by (rule implements2I, subst wp_zero_one(1), rule wp_checked_unsigned[OF _ _ _ hw_zero])
     (auto simp: bop_word_def)

lemma implements_umod:
  "implements2 S (\<lambda>a b. createCheckedURem a b a) (\<lambda>x y :: 'w::len word. if y = 0 then x else x mod y)"
  unfolding createCheckedURem_def
  by (rule implements2I, rule wp_checked_unsigned) (auto simp: bop_word_def)

lemma implements_sdiv:
  "implements2 S (\<lambda>a b. bnd (getUnsignedIntConst 0 LENGTH('w)) (\<lambda>z. createCheckedSDiv a b z a))
     (\<lambda>x y :: 'w::len word. if y = 0 then 0 else sdiv_word x y)"
  unfolding createCheckedSDiv_def
proof (rule implements2I, subst wp_zero_one(1))
  fix s and \<sigma> :: "'m machine" and a b and x y :: "'w word" and Q
  assume 1: "wf s" "hw S s \<sigma> a x" "hw S s \<sigma> b y"
    and Q: "\<And>v s' \<sigma>'. pure s \<sigma> s' \<sigma>' \<Longrightarrow> hw S s' \<sigma>' v (if y = 0 then 0 else sdiv_word x y) \<Longrightarrow> Q v s' \<sigma>'"
  have eq: "(if y = 0 then 0 else if int_min x \<and> y = - 1 then x else sdiv_word x y) = (if y = 0 then 0 else sdiv_word x y)"
    by (auto simp: sdiv_word_overflow)
  show "wp S (checked_signed SDiv a b (ConstInt LENGTH('w) 0) a) Q s \<sigma>"
    by (rule wp_checked_signed[OF 1 hw_zero 1(2), where q="sdiv_word x y"])
       (use Q in \<open>auto simp: bop_word_def eq\<close>)
qed

lemma implements_smod:
  "implements2 S (\<lambda>a b. bnd (getUnsignedIntConst 0 LENGTH('w)) (createCheckedSRem a b a))
     (\<lambda>x y :: 'w::len word. if y = 0 then x else smod_word x y)"
  unfolding createCheckedSRem_def
proof (rule implements2I, subst wp_zero_one(1))
  fix s and \<sigma> :: "'m machine" and a b and x y :: "'w word" and Q
  assume 1: "wf s" "hw S s \<sigma> a x" "hw S s \<sigma> b y"
    and Q: "\<And>v s' \<sigma>'. pure s \<sigma> s' \<sigma>' \<Longrightarrow> hw S s' \<sigma>' v (if y = 0 then x else smod_word x y) \<Longrightarrow> Q v s' \<sigma>'"
  have eq: "(if y = 0 then x else if int_min x \<and> y = - 1 then 0 else smod_word x y) = (if y = 0 then x else smod_word x y)"
    by (auto simp: smod_word_minus_1)
  show "wp S (checked_signed SRem a b a (ConstInt LENGTH('w) 0)) Q s \<sigma>"
    by (rule wp_checked_signed[OF 1 1(2) hw_zero, where q="smod_word x y"])
       (use Q in \<open>auto simp: bop_word_def eq\<close>)
qed

lemmas implements_div64 = implements_udiv[where 'w=64] implements_sdiv[where 'w=64]
  implements_smod[where 'w=64]
lemmas implements_div32 = implements_udiv[where 'w=32] implements_sdiv[where 'w=32]
  implements_smod[where 'w=32]

section \<open>Arithmetic\<close>

lemma wp_alu64:
  assumes f: "implements2 S f g" and s: "sim s \<sigma> \<rho> m"
    and ops: "operands (CurInst s) = [RegOp d, RegOp d', src]"
    and d: "reg_no d = Some i" and d': "reg_no d' = Some j" and y: "src64 \<rho> src = Some y"
  shows "wp S (alu64 f) (done_with s (\<rho>(i := g (\<rho> j) y)) m) s \<sigma>"
  unfolding alu64_def
proof (rule wp_bnd, rule wp_readRegOperand64[OF s _ d'], goal_cases)
  case (2 a s1 \<sigma>1)
  note s1 = sim_pure[OF s 2(1)]
  show ?case
  proof (rule wp_bnd, rule wp_readALUSrc64[OF s1 _ y], goal_cases)
    case (2 b s2 \<sigma>2)
    note s2 = sim_pure[OF s1 2(1)] and pu2 = pure_trans[OF \<open>pure s \<sigma> s1 \<sigma>1\<close> 2(1)]
    show ?case
    proof (rule wp_bnd, rule implements2D[OF f pure_wf[OF 2(1)] hw_pure[OF \<open>hw S s1 \<sigma>1 a (\<rho> j)\<close> 2(1)] 2(2)])
      fix v s3 \<sigma>3 assume 3: "pure s2 \<sigma>2 s3 \<sigma>3" "hw S s3 \<sigma>3 v (g (\<rho> j) y)"
      have "opnd s3 0 (RegOp d)"
        by (rule opnd_ops[OF ops_pure[OF ops pure_trans[OF pu2 3(1)]]]) simp_all
      then
      show "wp S (dest_update64 v) (done_with s (\<rho>(i := g (\<rho> j) y)) m) s3 \<sigma>3"
        by (rule wp_dest64[OF sim_pure[OF s2 3(1)] _ d 3(2) pure_same_ctx[OF pure_trans[OF pu2 3(1)]]])
    qed
  qed (rule opnd_ops[OF ops_pure[OF ops 2(1)]], simp_all)
qed (rule opnd_ops[OF ops], simp_all)

lemma wp_alu32:
  assumes f: "implements2 S f g" and s: "sim s \<sigma> \<rho> m"
    and ops: "operands (CurInst s) = [RegOp d, RegOp d', src]"
    and d: "reg_no d = Some i" and d': "reg_no d' = Some j" and y: "src32 \<rho> src = Some y"
  shows "wp S (alu32 f) (done_with s (\<rho>(i := zext32 (g (low32 (\<rho> j)) y))) m) s \<sigma>"
  unfolding alu32_def
proof (rule wp_bnd, rule wp_readRegOperand32[OF s _ d'], goal_cases)
  case (2 a s1 \<sigma>1)
  note s1 = sim_pure[OF s 2(1)]
  show ?case
  proof (rule wp_bnd, rule wp_readALUSrc32[OF s1 _ y], goal_cases)
    case (2 b s2 \<sigma>2)
    note s2 = sim_pure[OF s1 2(1)] and pu2 = pure_trans[OF \<open>pure s \<sigma> s1 \<sigma>1\<close> 2(1)]
    show ?case
    proof (rule wp_bnd, rule implements2D[OF f pure_wf[OF 2(1)] hw_pure[OF \<open>hw S s1 \<sigma>1 a (low32 (\<rho> j))\<close> 2(1)] 2(2)])
      fix v s3 \<sigma>3 assume 3: "pure s2 \<sigma>2 s3 \<sigma>3" "hw S s3 \<sigma>3 v (g (low32 (\<rho> j)) y)"
      have "opnd s3 0 (RegOp d)"
        by (rule opnd_ops[OF ops_pure[OF ops pure_trans[OF pu2 3(1)]]]) simp_all
      then
      show "wp S (dest_update32 v) (done_with s (\<rho>(i := zext32 (g (low32 (\<rho> j)) y))) m) s3 \<sigma>3"
        by (rule wp_dest32[OF sim_pure[OF s2 3(1)] _ d 3(2) pure_same_ctx[OF pure_trans[OF pu2 3(1)]]])
    qed
  qed (rule opnd_ops[OF ops_pure[OF ops 2(1)]], simp_all)
qed (rule opnd_ops[OF ops], simp_all)

lemma wp_lift_alu64:
  assumes "sim s \<sigma> \<rho> m" and "operands (CurInst s) = [RegOp d, RegOp d', src]"
    and "reg_no d = Some i" and "reg_no d' = Some j" and "src64 \<rho> src = Some y"
  shows "wp S (lift_alu64 n) (done_with s (\<rho>(i := alu_sem n (\<rho> j) y)) m) s \<sigma>"
proof -
  have *: "wp S (alu64 f) (done_with s (\<rho>(i := alu_sem k (\<rho> j) y)) m) s \<sigma>"
    if "implements2 S f (alu_sem k :: 64 word \<Rightarrow> 64 word \<Rightarrow> 64 word)" for f k
    by (rule wp_alu64[OF that assms])
  have sh: "(\<lambda>x y :: 64 word. g (shift_amount y) x) = (\<lambda>x y. g (unat y mod 64) x)" for g :: "nat \<Rightarrow> 64 word \<Rightarrow> 64 word"
    by (simp add: shift_amount_64)
  note shifts = implements_shifts[where 'w=64, unfolded sh]
  show ?thesis
    by (cases n; simp only: lift_alu64_def alu_name.case; rule *)
       (use shifts implements_div64 implements_umod[where 'w=64] in \<open>simp_all add: alu_sem_def[abs_def] implements_binop bop_word_def\<close>)
qed

lemma wp_lift_alu32:
  assumes "sim s \<sigma> \<rho> m" and "operands (CurInst s) = [RegOp d, RegOp d', src]"
    and "reg_no d = Some i" and "reg_no d' = Some j" and "src32 \<rho> src = Some y"
  shows "wp S (lift_alu32 n) (done_with s (\<rho>(i := zext32 (alu_sem n (low32 (\<rho> j)) y))) m) s \<sigma>"
proof -
  have *: "wp S (alu32 f) (done_with s (\<rho>(i := zext32 (alu_sem k (low32 (\<rho> j)) y))) m) s \<sigma>"
    if "implements2 S f (alu_sem k :: 32 word \<Rightarrow> 32 word \<Rightarrow> 32 word)" for f k
    by (rule wp_alu32[OF that assms])
  have sh: "(\<lambda>x y :: 32 word. g (shift_amount y) x) = (\<lambda>x y. g (unat y mod 32) x)" for g :: "nat \<Rightarrow> 32 word \<Rightarrow> 32 word"
    by (simp add: shift_amount_32)
  note shifts = implements_shifts[where 'w=32, unfolded sh]
  show ?thesis
    by (cases n; simp only: lift_alu32_def alu_name.case; rule *)
       (use shifts implements_div32 implements_umod[where 'w=32] in \<open>simp_all add: alu_sem_def[abs_def] implements_binop bop_word_def\<close>)
qed

section \<open>Unary operations\<close>

lemma wp_unary64:
  assumes f: "implements1 S f (g :: 64 word \<Rightarrow> 64 word)" and s: "sim s \<sigma> \<rho> m"
    and o0: "opnd s 0 (RegOp d)" and o1: "opnd s 1 (RegOp r)" and d: "reg_no d = Some i" and r: "reg_no r = Some j"
  shows "wp S (bnd (readRegOperand64 1) (\<lambda>v. bnd (f v) dest_update64)) (done_with s (\<rho>(i := g (\<rho> j))) m) s \<sigma>"
proof (rule wp_bnd, rule wp_readRegOperand64[OF s o1 r], rule wp_bnd)
  fix v s1 \<sigma>1 assume 1: "pure s \<sigma> s1 \<sigma>1" "hw S s1 \<sigma>1 v (\<rho> j)"
  show "wp S (f v) (\<lambda>v s' \<sigma>'. wp S (dest_update64 v) (done_with s (\<rho>(i := g (\<rho> j))) m) s' \<sigma>') s1 \<sigma>1"
  proof (rule implements1D[OF f pure_wf[OF 1(1)] 1(2)])
    fix u s2 \<sigma>2 assume 2: "pure s1 \<sigma>1 s2 \<sigma>2" and u: "hw S s2 \<sigma>2 u (g (\<rho> j))"
    note pu = pure_trans[OF 1(1) 2]
    show "wp S (dest_update64 u) (done_with s (\<rho>(i := g (\<rho> j))) m) s2 \<sigma>2"
      by (rule wp_dest64[OF sim_pure[OF s pu] opnd_pure[OF o0 pu] d u pure_same_ctx[OF pu]])
  qed
qed

lemma wp_unary32:
  assumes f: "implements1 S f (g :: 32 word \<Rightarrow> 32 word)" and s: "sim s \<sigma> \<rho> m"
    and o0: "opnd s 0 (RegOp d)" and o1: "opnd s 1 (RegOp r)" and d: "reg_no d = Some i" and r: "reg_no r = Some j"
  shows "wp S (bnd (readRegOperand32 1) (\<lambda>v. bnd (f v) dest_update32))
    (done_with s (\<rho>(i := zext32 (g (low32 (\<rho> j))))) m) s \<sigma>"
proof (rule wp_bnd, rule wp_readRegOperand32[OF s o1 r], rule wp_bnd)
  fix v s1 \<sigma>1 assume 1: "pure s \<sigma> s1 \<sigma>1" "hw S s1 \<sigma>1 v (low32 (\<rho> j))"
  show "wp S (f v) (\<lambda>v s' \<sigma>'. wp S (dest_update32 v) (done_with s (\<rho>(i := zext32 (g (low32 (\<rho> j))))) m) s' \<sigma>') s1 \<sigma>1"
  proof (rule implements1D[OF f pure_wf[OF 1(1)] 1(2)])
    fix u s2 \<sigma>2 assume 2: "pure s1 \<sigma>1 s2 \<sigma>2" and u: "hw S s2 \<sigma>2 u (g (low32 (\<rho> j)))"
    note pu = pure_trans[OF 1(1) 2]
    show "wp S (dest_update32 u) (done_with s (\<rho>(i := zext32 (g (low32 (\<rho> j))))) m) s2 \<sigma>2"
      by (rule wp_dest32[OF sim_pure[OF s pu] opnd_pure[OF o0 pu] d u pure_same_ctx[OF pu]])
  qed
qed

lemma wp_unary32_64:
  assumes f: "implements1 S f (g :: 32 word \<Rightarrow> 64 word)" and s: "sim s \<sigma> \<rho> m"
    and o0: "opnd s 0 (RegOp d)" and o1: "opnd s 1 (RegOp r)" and d: "reg_no d = Some i" and r: "reg_no r = Some j"
  shows "wp S (bnd (readRegOperand32 1) (\<lambda>v. bnd (f v) dest_update64))
    (done_with s (\<rho>(i := g (low32 (\<rho> j)))) m) s \<sigma>"
proof (rule wp_bnd, rule wp_readRegOperand32[OF s o1 r], rule wp_bnd)
  fix v s1 \<sigma>1 assume 1: "pure s \<sigma> s1 \<sigma>1" "hw S s1 \<sigma>1 v (low32 (\<rho> j))"
  show "wp S (f v) (\<lambda>v s' \<sigma>'. wp S (dest_update64 v) (done_with s (\<rho>(i := g (low32 (\<rho> j)))) m) s' \<sigma>') s1 \<sigma>1"
  proof (rule implements1D[OF f pure_wf[OF 1(1)] 1(2)])
    fix u s2 \<sigma>2 assume 2: "pure s1 \<sigma>1 s2 \<sigma>2" and u: "hw S s2 \<sigma>2 u (g (low32 (\<rho> j)))"
    note pu = pure_trans[OF 1(1) 2]
    show "wp S (dest_update64 u) (done_with s (\<rho>(i := g (low32 (\<rho> j)))) m) s2 \<sigma>2"
      by (rule wp_dest64[OF sim_pure[OF s pu] opnd_pure[OF o0 pu] d u pure_same_ctx[OF pu]])
  qed
qed

lemma wp_lift_movsx:
  assumes "sim s \<sigma> \<rho> m" and "opnd s 0 (RegOp d)" and "opnd s 1 (RegOp r)"
    and "reg_no d = Some i" and "reg_no r = Some j"
  shows "wp S (lift_movsx n) (done_with s (\<rho>(i := movsx_sem n (\<rho> j))) m) s \<sigma>"
proof -
  note u64 = wp_unary64[OF _ assms] and u32 = wp_unary32[OF _ assms] and u3264 = wp_unary32_64[OF _ assms]
  show ?thesis
  proof (cases n)
    case MOVSX_rr_8
    then show ?thesis
      using u64[OF implements1_comp[OF trunc64_8 sext64(1)]]
      by (simp only: lift_movsx_def movsx_sem_def movsx_name.case bnd_assoc)
  next
    case MOVSX_rr_16
    then show ?thesis
      using u64[OF implements1_comp[OF trunc64_16 sext64(2)]]
      by (simp only: lift_movsx_def movsx_sem_def movsx_name.case bnd_assoc)
  next
    case MOVSX_rr_32
    then show ?thesis
      using u3264[OF sext64(3)] by (simp only: lift_movsx_def movsx_sem_def movsx_name.case)
  next
    case MOVSX_rr_32_8
    then show ?thesis
      using u32[OF implements1_comp[OF trunc32_8 sext32s(1)]]
      by (simp only: lift_movsx_def movsx_sem_def movsx_name.case bnd_assoc)
  next
    case MOVSX_rr_32_16
    then show ?thesis
      using u32[OF implements1_comp[OF trunc32_16 sext32s(2)]]
      by (simp only: lift_movsx_def movsx_sem_def movsx_name.case bnd_assoc)
  qed
qed

lemma endian_eqs:
  "endian 16 True = bnd (readRegOperand64 1) (\<lambda>v. bnd (bnd (createTrunc v (IntTy 16)) (\<lambda>v. bnd (createBSwap v)
     (\<lambda>v. createZExt v (IntTy 64)))) dest_update64)"
  "endian 32 True = bnd (readRegOperand64 1) (\<lambda>v. bnd (bnd (createTrunc v (IntTy 32)) (\<lambda>v. bnd (createBSwap v)
     (\<lambda>v. createZExt v (IntTy 64)))) dest_update64)"
  "endian 64 True = bnd (readRegOperand64 1) (\<lambda>v. bnd (createBSwap v) dest_update64)"
  "endian 16 False = bnd (readRegOperand64 1) (\<lambda>v. bnd (bnd (createTrunc v (IntTy 16))
     (\<lambda>v. createZExt v (IntTy 64))) dest_update64)"
  "endian 32 False = bnd (readRegOperand64 1) (\<lambda>v. bnd (bnd (createTrunc v (IntTy 32))
     (\<lambda>v. createZExt v (IntTy 64))) dest_update64)"
  "endian 64 False = bnd (readRegOperand64 1) (\<lambda>v. bnd (ret v) dest_update64)"
  by (simp_all add: endian_def bnd_assoc bnd_ret)

lemma wp_lift_endian:
  assumes "sim s \<sigma> \<rho> m" and "opnd s 0 (RegOp d)" and "opnd s 1 (RegOp r)"
    and "reg_no d = Some i" and "reg_no r = Some j"
  shows "wp S (lift_endian n) (done_with s (\<rho>(i := endian_sem n (\<rho> j))) m) s \<sigma>"
proof -
  note u = wp_unary64[OF _ assms]
  note es = u[OF implements1_comp[OF trunc64_16 implements1_comp[OF bswaps(1) zext64(2)]]]
    u[OF implements1_comp[OF trunc64_32 implements1_comp[OF bswaps(2) zext64(3)]]] u[OF bswaps(3)]
    u[OF implements1_comp[OF trunc64_16 zext64(2)]] u[OF implements1_comp[OF trunc64_32 zext64(3)]]
    u[OF implements1_ret]
  show ?thesis
    using es by (cases n) (simp_all add: lift_endian_def endian_sem_def endian_eqs)
qed

lemma implements_neg:
  "implements1 S (\<lambda>v. bnd (getUnsignedIntConst 0 LENGTH('w)) (\<lambda>z. createSub z v)) (uminus :: 'w::len word \<Rightarrow> 'w word)"
proof (rule implements1I, subst wp_zero_one(1))
  fix s and \<sigma> :: "'m machine" and v and x :: "'w word" and Q
  assume 1: "wf s" "hw S s \<sigma> v x" and Q: "\<And>u s' \<sigma>'. pure s \<sigma> s' \<sigma>' \<Longrightarrow> hw S s' \<sigma>' u (- x) \<Longrightarrow> Q u s' \<sigma>'"
  show "wp S (createSub (ConstInt LENGTH('w) 0) v) Q s \<sigma>"
    by (rule wp_createSub[OF 1(1) hw_zero 1(2)]) (use Q in simp)
qed

lemmas implements_neg64 = implements_neg[where 'w=64, simplified]
lemmas implements_neg32 = implements_neg[where 'w=32, simplified]

lemma wp_lift_neg:
  assumes "sim s \<sigma> \<rho> m" and "opnd s 0 (RegOp d)" and "opnd s 1 (RegOp r)"
    and "reg_no d = Some i" and "reg_no r = Some j"
  shows "wp S (lift_neg B64) (done_with s (\<rho>(i := - \<rho> j)) m) s \<sigma>"
    and "wp S (lift_neg B32) (done_with s (\<rho>(i := zext32 (- low32 (\<rho> j)))) m) s \<sigma>"
  using wp_unary64[OF implements_neg64 assms] wp_unary32[OF implements_neg32 assms]
  by (simp_all only: lift_neg_def reg_width.case bnd_assoc)

lemma wp_movs:
  assumes "sim s \<sigma> \<rho> m" and "opnd s 0 (RegOp d)" and "opnd s 1 (RegOp r)"
    and "reg_no d = Some i" and "reg_no r = Some j"
  shows "wp S (bnd (readRegOperand64 1) dest_update64) (done_with s (\<rho>(i := \<rho> j)) m) s \<sigma>"
    and "wp S (bnd (readRegOperand32 1) dest_update32) (done_with s (\<rho>(i := zext32 (low32 (\<rho> j)))) m) s \<sigma>"
  using wp_unary64[OF implements1_ret assms] wp_unary32[OF implements1_ret assms] by (simp_all add: bnd_ret)

lemma wp_mov_imm:
  assumes s: "sim s \<sigma> \<rho> m" and o0: "opnd s 0 (RegOp d)" and o1: "opnd s 1 (ImmOp n)"
    and d: "reg_no d = Some i" and n: "imm32 n"
  shows "wp S (bnd (readImmOperand 1 64) dest_update64) (done_with s (\<rho>(i := word_of_int n)) m) s \<sigma>"
    and "wp S (bnd (readImmOperand 1 32) dest_update32) (done_with s (\<rho>(i := zext32 (word_of_int n))) m) s \<sigma>"
proof -
  show "wp S (bnd (readImmOperand 1 64) dest_update64) (done_with s (\<rho>(i := word_of_int n)) m) s \<sigma>"
    by (rule wp_bnd, rule wp_readImm64[OF o1 imm32_imm64[OF n] s], rule wp_dest64[OF _ _ d])
       (auto intro: sim_pure[OF s] opnd_pure[OF o0] pure_same_ctx)
  show "wp S (bnd (readImmOperand 1 32) dest_update32) (done_with s (\<rho>(i := zext32 (word_of_int n))) m) s \<sigma>"
    by (rule wp_bnd, rule wp_readImm32[OF o1 n s], rule wp_dest32[OF _ _ d])
       (auto intro: sim_pure[OF s] opnd_pure[OF o0] pure_same_ctx)
qed

lemma wp_ld_imm64:
  assumes s: "sim s \<sigma> \<rho> m" and o0: "opnd s 0 (RegOp d)" and o1: "opnd s 1 (ImmOp n)" and d: "reg_no d = Some i"
  shows "wp S (lift_ld_imm64 E) (done_with s (\<rho>(i := word_of_int n)) m) s \<sigma>"
proof -
  have "wp S (getUnsignedIntConst (take_bit 64 n) 64)
      (\<lambda>v. wp S (dest_update64 v) (done_with s (\<rho>(i := word_of_int n)) m)) s \<sigma>"
  proof (rule wp_unsigned_const64)
    fix v assume "hw S s \<sigma> v (word_of_int (take_bit 64 n) :: 64 word)"
    moreover have "(word_of_int (take_bit 64 n) :: 64 word) = word_of_int n"
      by (simp add: word_uint_eq_iff uint_word_of_int_eq)
    ultimately show "wp S (dest_update64 v) (done_with s (\<rho>(i := word_of_int n)) m) s \<sigma>"
      by (intro wp_dest64[OF s o0 d]) simp_all
  qed (use take_bit_int_less_exp[of 64 n] in simp_all)
  then show ?thesis
    unfolding lift_ld_imm64_def wp_getOperand[OF o1] mcoperand.case by (rule wp_bnd)
qed

end

end
