(* ===== verification/Lift_Mem.thy ===== *)
theory Lift_Mem
  imports Lift_Alu
begin

text \<open>
  Loads, stores and atomics: the emitted code accesses memory at the abstract machine's address, at
  its width, and extends what it loads the way the instruction says.
\<close>

context langref
begin

lemmas wp_load_mems = wp_load_mem[where 'w=8, simplified] wp_load_mem[where 'w=16, simplified]
  wp_load_mem[where 'w=32, simplified] wp_load_mem[where 'w=64, simplified]

section \<open>Loads\<close>

lemma wp_load64:
  fixes x :: "'w::len word"
  assumes s: "sim s \<sigma> \<rho> m" and o0: "opnd s 0 (RegOp d)" and o1: "opnd s 1 (RegOp b)"
    and o2: "opnd s 2 (ImmOp off)" and d: "reg_no d = Some i" and a: "mem_addr \<rho> b off = Some a"
    and x: "load_word S m a = Some x" and f: "implements1 S f (g :: 'w word \<Rightarrow> 64 word)"
  shows "wp S (bnd (getMemPointerOperand 1) (\<lambda>ptr. bnd (createLoad (IntTy LENGTH('w)) ptr)
    (\<lambda>v. bnd (f v) dest_update64))) (done_with s (\<rho>(i := g x)) m) s \<sigma>"
proof (rule wp_bnd, rule wp_memPointer[OF s o1 _ a], use o2 in \<open>simp add: numeral_2_eq_2\<close>, rule wp_bnd)
  fix p s1 \<sigma>1 assume 1: "pure s \<sigma> s1 \<sigma>1" "hp S s1 \<sigma>1 p a"
  have x1: "load_word S (mem \<sigma>1) a = Some x" using sim_pure[OF s 1(1)] x by (simp add: sim_def)
  show "wp S (createLoad (IntTy LENGTH('w)) p) (\<lambda>v. wp S (bnd (f v) dest_update64) (done_with s (\<rho>(i := g x)) m)) s1 \<sigma>1"
  proof (rule wp_load_mem[OF pure_wf[OF 1(1)] 1(2) x1], rule wp_bnd)
    fix v s2 \<sigma>2 assume 2: "pure s1 \<sigma>1 s2 \<sigma>2" "hw S s2 \<sigma>2 v x"
    show "wp S (f v) (\<lambda>v. wp S (dest_update64 v) (done_with s (\<rho>(i := g x)) m)) s2 \<sigma>2"
    proof (rule implements1D[OF f pure_wf[OF 2(1)] 2(2)])
      fix u s3 \<sigma>3 assume 3: "pure s2 \<sigma>2 s3 \<sigma>3" "hw S s3 \<sigma>3 u (g x)"
      note pu = pure_trans[OF pure_trans[OF 1(1) 2(1)] 3(1)]
      show "wp S (dest_update64 u) (done_with s (\<rho>(i := g x)) m) s3 \<sigma>3"
        by (rule wp_dest64[OF sim_pure[OF s pu] opnd_pure[OF o0 pu] d 3(2) pure_same_ctx[OF pu]])
    qed
  qed
qed

lemma wp_load32:
  fixes x :: "'w::len word"
  assumes s: "sim s \<sigma> \<rho> m" and o0: "opnd s 0 (RegOp d)" and o1: "opnd s 1 (RegOp b)"
    and o2: "opnd s 2 (ImmOp off)" and d: "reg_no d = Some i" and a: "mem_addr \<rho> b off = Some a"
    and x: "load_word S m a = Some x" and f: "implements1 S f (g :: 'w word \<Rightarrow> 32 word)"
  shows "wp S (bnd (getMemPointerOperand 1) (\<lambda>ptr. bnd (createLoad (IntTy LENGTH('w)) ptr)
    (\<lambda>v. bnd (f v) dest_update32))) (done_with s (\<rho>(i := zext32 (g x))) m) s \<sigma>"
proof (rule wp_bnd, rule wp_memPointer[OF s o1 _ a], use o2 in \<open>simp add: numeral_2_eq_2\<close>, rule wp_bnd)
  fix p s1 \<sigma>1 assume 1: "pure s \<sigma> s1 \<sigma>1" "hp S s1 \<sigma>1 p a"
  have x1: "load_word S (mem \<sigma>1) a = Some x" using sim_pure[OF s 1(1)] x by (simp add: sim_def)
  show "wp S (createLoad (IntTy LENGTH('w)) p) (\<lambda>v. wp S (bnd (f v) dest_update32) (done_with s (\<rho>(i := zext32 (g x))) m)) s1 \<sigma>1"
  proof (rule wp_load_mem[OF pure_wf[OF 1(1)] 1(2) x1], rule wp_bnd)
    fix v s2 \<sigma>2 assume 2: "pure s1 \<sigma>1 s2 \<sigma>2" "hw S s2 \<sigma>2 v x"
    show "wp S (f v) (\<lambda>v. wp S (dest_update32 v) (done_with s (\<rho>(i := zext32 (g x))) m)) s2 \<sigma>2"
    proof (rule implements1D[OF f pure_wf[OF 2(1)] 2(2)])
      fix u s3 \<sigma>3 assume 3: "pure s2 \<sigma>2 s3 \<sigma>3" "hw S s3 \<sigma>3 u (g x)"
      note pu = pure_trans[OF pure_trans[OF 1(1) 2(1)] 3(1)]
      show "wp S (dest_update32 u) (done_with s (\<rho>(i := zext32 (g x))) m) s3 \<sigma>3"
        by (rule wp_dest32[OF sim_pure[OF s pu] opnd_pure[OF o0 pu] d 3(2) pure_same_ctx[OF pu]])
    qed
  qed
qed

lemma load_op_eqs:
  "load_op 64 sx False = bnd (getMemPointerOperand 1) (\<lambda>ptr. bnd (createLoad (IntTy 64) ptr) (\<lambda>v. bnd (ret v) dest_update64))"
  "load_op 32 False False = bnd (getMemPointerOperand 1) (\<lambda>ptr. bnd (createLoad (IntTy 32) ptr) (\<lambda>v. bnd (createZExt v (IntTy 64)) dest_update64))"
  "load_op 16 False False = bnd (getMemPointerOperand 1) (\<lambda>ptr. bnd (createLoad (IntTy 16) ptr) (\<lambda>v. bnd (createZExt v (IntTy 64)) dest_update64))"
  "load_op 8 False False = bnd (getMemPointerOperand 1) (\<lambda>ptr. bnd (createLoad (IntTy 8) ptr) (\<lambda>v. bnd (createZExt v (IntTy 64)) dest_update64))"
  "load_op 32 True False = bnd (getMemPointerOperand 1) (\<lambda>ptr. bnd (createLoad (IntTy 32) ptr) (\<lambda>v. bnd (createSExt v (IntTy 64)) dest_update64))"
  "load_op 16 True False = bnd (getMemPointerOperand 1) (\<lambda>ptr. bnd (createLoad (IntTy 16) ptr) (\<lambda>v. bnd (createSExt v (IntTy 64)) dest_update64))"
  "load_op 8 True False = bnd (getMemPointerOperand 1) (\<lambda>ptr. bnd (createLoad (IntTy 8) ptr) (\<lambda>v. bnd (createSExt v (IntTy 64)) dest_update64))"
  "load_op 32 sx True = bnd (getMemPointerOperand 1) (\<lambda>ptr. bnd (createLoad (IntTy 32) ptr) (\<lambda>v. bnd (ret v) dest_update32))"
  "load_op 16 sx True = bnd (getMemPointerOperand 1) (\<lambda>ptr. bnd (createLoad (IntTy 16) ptr) (\<lambda>v. bnd (createZExt v (IntTy 32)) dest_update32))"
  "load_op 8 sx True = bnd (getMemPointerOperand 1) (\<lambda>ptr. bnd (createLoad (IntTy 8) ptr) (\<lambda>v. bnd (createZExt v (IntTy 32)) dest_update32))"
  by (simp_all add: load_op_def)

lemma ucast_up32: "ucast (ucast (x :: 8 word) :: 32 word) = (ucast x :: 64 word)"
  "ucast (ucast (y :: 16 word) :: 32 word) = (ucast y :: 64 word)"
  by (transfer; simp)+

lemma wp_lift_load:
  assumes s: "sim s \<sigma> \<rho> m" and o0: "opnd s 0 (RegOp d)" and o1: "opnd s 1 (RegOp b)"
    and o2: "opnd s 2 (ImmOp off)" and d: "reg_no d = Some i" and a: "mem_addr \<rho> b off = Some a"
    and x: "load_sem S m a n = Some x"
  shows "wp S (lift_load n) (done_with s (\<rho>(i := x)) m) s \<sigma>"
proof -
  note l64 = wp_load64[OF s o0 o1 o2 d a] and l32 = wp_load32[OF s o0 o1 o2 d a]
  note n64 = l64[where 'w=8, simplified] l64[where 'w=16, simplified] l64[where 'w=32, simplified]
    l64[where 'w=64, simplified]
  note n32 = l32[where 'w=8, simplified] l32[where 'w=16, simplified] l32[where 'w=32, simplified]
  show ?thesis
    using x n64(1)[OF _ zext64(1)] n64(2)[OF _ zext64(2)] n64(3)[OF _ zext64(3)] n64(4)[OF _ implements1_ret]
      n64(1)[OF _ sext64(1)] n64(2)[OF _ sext64(2)] n64(3)[OF _ sext64(3)]
      n32(1)[OF _ zext32s(1)] n32(2)[OF _ zext32s(2)] n32(3)[OF _ implements1_ret]
    by (cases n) (auto simp: lift_load_def load_sem_def load_op_eqs ucast_up32 zext32_def)
qed

section \<open>Stores\<close>

lemma wp_store_final:
  fixes x :: "'w::len word"
  assumes s: "sim s \<sigma> \<rho> m" and v: "hw S s \<sigma> v x" and p: "hp S s \<sigma> p a"
    and m': "store_word S m a x = Some m'" and c: "same_ctx s0 s"
  shows "wp S (createStore v p) (done_with s0 \<rho> m') s \<sigma>"
proof -
  have "store_word S (mem \<sigma>) a x = Some m'" using s m' by (simp add: sim_def)
  then show ?thesis
    by (rule wp_store_mem[OF sim_wf[OF s] v p])
       (use sim_pure[OF sim_mem[OF s]] c in \<open>auto simp: done_with_def intro: same_ctx_trans pure_same_ctx\<close>)
qed

lemma wp_store_op64:
  assumes s: "sim s \<sigma> \<rho> m" and o0: "opnd s 0 (RegOp r)" and o1: "opnd s 1 (RegOp b)"
    and o2: "opnd s 2 (ImmOp off)" and r: "reg_no r = Some i" and a: "mem_addr \<rho> b off = Some a"
    and f: "implements1 S (\<lambda>v. if bits < 64 then createTrunc v (IntTy bits) else ret v) (g :: 64 word \<Rightarrow> 'w::len word)"
    and m': "store_word S m a (g (\<rho> i)) = Some m'"
  shows "wp S (store_op bits False) (done_with s \<rho> m') s \<sigma>"
  unfolding store_op_def if_False
proof (rule wp_bnd, rule wp_memPointer[OF s o1 _ a], use o2 in \<open>simp add: numeral_2_eq_2\<close>, rule wp_bnd)
  fix p s1 \<sigma>1 assume 1: "pure s \<sigma> s1 \<sigma>1" "hp S s1 \<sigma>1 p a"
  show "wp S (readRegOperand64 0) (\<lambda>v. wp S (bnd (bit_width v) (\<lambda>w. bnd (if bits < w then createTrunc v (IntTy bits)
      else ret v) (\<lambda>v. createStore v p))) (done_with s \<rho> m')) s1 \<sigma>1"
  proof (rule wp_readRegOperand64[OF sim_pure[OF s 1(1)] opnd_pure[OF o0 1(1)] r])
    fix v s2 \<sigma>2 assume 2: "pure s1 \<sigma>1 s2 \<sigma>2" "hw S s2 \<sigma>2 v (\<rho> i)"
    show "wp S (bnd (bit_width v) (\<lambda>w. bnd (if bits < w then createTrunc v (IntTy bits) else ret v)
        (\<lambda>v. createStore v p))) (done_with s \<rho> m') s2 \<sigma>2"
      unfolding wp_width_const[OF 2(2), simplified]
    proof (rule wp_bnd, rule implements1D[OF f pure_wf[OF 2(1)] 2(2)])
      fix u s3 \<sigma>3 assume 3: "pure s2 \<sigma>2 s3 \<sigma>3" "hw S s3 \<sigma>3 u (g (\<rho> i))"
      note pu = pure_trans[OF 2(1) 3(1)]
      show "wp S (createStore u p) (done_with s \<rho> m') s3 \<sigma>3"
        by (rule wp_store_final[OF sim_pure[OF s pure_trans[OF 1(1) pu]] 3(2) hp_pure[OF 1(2) pu] m'
              pure_same_ctx[OF pure_trans[OF 1(1) pu]]])
    qed
  qed
qed

lemma wp_store_op32:
  assumes s: "sim s \<sigma> \<rho> m" and o0: "opnd s 0 (RegOp r)" and o1: "opnd s 1 (RegOp b)"
    and o2: "opnd s 2 (ImmOp off)" and r: "reg_no r = Some i" and a: "mem_addr \<rho> b off = Some a"
    and f: "implements1 S (\<lambda>v. if bits < 32 then createTrunc v (IntTy bits) else ret v) (g :: 32 word \<Rightarrow> 'w::len word)"
    and m': "store_word S m a (g (low32 (\<rho> i))) = Some m'"
  shows "wp S (store_op bits True) (done_with s \<rho> m') s \<sigma>"
  unfolding store_op_def if_True
proof (rule wp_bnd, rule wp_memPointer[OF s o1 _ a], use o2 in \<open>simp add: numeral_2_eq_2\<close>, rule wp_bnd)
  fix p s1 \<sigma>1 assume 1: "pure s \<sigma> s1 \<sigma>1" "hp S s1 \<sigma>1 p a"
  show "wp S (readRegOperand32 0) (\<lambda>v. wp S (bnd (bit_width v) (\<lambda>w. bnd (if bits < w then createTrunc v (IntTy bits)
      else ret v) (\<lambda>v. createStore v p))) (done_with s \<rho> m')) s1 \<sigma>1"
  proof (rule wp_readRegOperand32[OF sim_pure[OF s 1(1)] opnd_pure[OF o0 1(1)] r])
    fix v s2 \<sigma>2 assume 2: "pure s1 \<sigma>1 s2 \<sigma>2" "hw S s2 \<sigma>2 v (low32 (\<rho> i))"
    show "wp S (bnd (bit_width v) (\<lambda>w. bnd (if bits < w then createTrunc v (IntTy bits) else ret v)
        (\<lambda>v. createStore v p))) (done_with s \<rho> m') s2 \<sigma>2"
      unfolding wp_width_const[OF 2(2), simplified]
    proof (rule wp_bnd, rule implements1D[OF f pure_wf[OF 2(1)] 2(2)])
      fix u s3 \<sigma>3 assume 3: "pure s2 \<sigma>2 s3 \<sigma>3" "hw S s3 \<sigma>3 u (g (low32 (\<rho> i)))"
      note pu = pure_trans[OF 2(1) 3(1)]
      show "wp S (createStore u p) (done_with s \<rho> m') s3 \<sigma>3"
        by (rule wp_store_final[OF sim_pure[OF s pure_trans[OF 1(1) pu]] 3(2) hp_pure[OF 1(2) pu] m'
              pure_same_ctx[OF pure_trans[OF 1(1) pu]]])
    qed
  qed
qed

lemma ucast_low32: "(ucast (low32 x) :: 16 word) = ucast x" "(ucast (low32 x) :: 8 word) = ucast x"
  unfolding low32_def by (transfer; simp)+

lemma wp_lift_store:
  assumes s: "sim s \<sigma> \<rho> m" and o0: "opnd s 0 (RegOp r)" and o1: "opnd s 1 (RegOp b)"
    and o2: "opnd s 2 (ImmOp off)" and r: "reg_no r = Some i" and a: "mem_addr \<rho> b off = Some a"
    and m': "store_sem S m a n (\<rho> i) = Some m'"
  shows "wp S (lift_store n) (done_with s \<rho> m') s \<sigma>"
proof -
  note w64 = wp_store_op64[OF s o0 o1 o2 r a] and w32 = wp_store_op32[OF s o0 o1 o2 r a]
  show ?thesis
    using m' w64[of 8 "ucast :: 64 word \<Rightarrow> 8 word"] w64[of 16 "ucast :: 64 word \<Rightarrow> 16 word"]
      w64[of 32 "ucast :: 64 word \<Rightarrow> 32 word"] w64[of 64 "\<lambda>x. x"]
      w32[of 8 "ucast :: 32 word \<Rightarrow> 8 word"] w32[of 16 "ucast :: 32 word \<Rightarrow> 16 word"] w32[of 32 "\<lambda>x. x"]
    by (cases n) (simp_all add: lift_store_def store_sem_def trunc64_8 trunc64_16 trunc64_32 trunc32_8
        trunc32_16 implements1_ret ucast_low32[unfolded low32_def] low32_def)
qed

lemma wp_storeImm:
  assumes s: "sim s \<sigma> \<rho> m" and o0: "opnd s 0 (ImmOp n)" and o1: "opnd s 1 (RegOp b)"
    and o2: "opnd s 2 (ImmOp off)" and a: "mem_addr \<rho> b off = Some a" and bits: "LENGTH('w::len) \<le> 64"
    and m': "store_word S m a (word_of_int n :: 'w word) = Some m'"
  shows "wp S (storeImm LENGTH('w)) (done_with s \<rho> m') s \<sigma>"
  unfolding storeImm_def
proof (rule wp_bnd, rule wp_memPointer[OF s o1 _ a], use o2 in \<open>simp add: numeral_2_eq_2\<close>)
  fix p s1 \<sigma>1 assume 1: "pure s \<sigma> s1 \<sigma>1" "hp S s1 \<sigma>1 p a"
  have eq: "take_bit LENGTH('w) (take_bit 64 n) = take_bit LENGTH('w) n" using bits by simp
  show "wp S (bnd (getOperand 0) (\<lambda>op. bnd (getImm op) (\<lambda>i. bnd (getUnsignedIntConst
      (take_bit LENGTH('w) (take_bit 64 i)) LENGTH('w)) (\<lambda>c. createStore c p)))) (done_with s \<rho> m') s1 \<sigma>1"
    unfolding wp_getOperand[OF opnd_pure[OF o0 1(1)]] wp_getImm eq
  proof (rule wp_bnd, rule wp_unsigned_const[where 'w='w])
    fix v assume "hw S s1 \<sigma>1 v (word_of_int (take_bit LENGTH('w) n) :: 'w word)"
    then have v: "hw S s1 \<sigma>1 v (word_of_int n :: 'w word)"
      by (simp only: word_of_int_take_bit)
    show "wp S (createStore v p) (done_with s \<rho> m') s1 \<sigma>1"
      by (rule wp_store_final[OF sim_pure[OF s 1(1)] v 1(2) m' pure_same_ctx[OF 1(1)]])
  qed (use take_bit_int_less_exp in simp_all)
qed

lemma wp_lift_store_imm:
  assumes s: "sim s \<sigma> \<rho> m" and o0: "opnd s 0 (ImmOp k)" and o1: "opnd s 1 (RegOp b)"
    and o2: "opnd s 2 (ImmOp off)" and a: "mem_addr \<rho> b off = Some a"
    and m': "store_imm_sem S m a n k = Some m'"
  shows "wp S (lift_store_imm n) (done_with s \<rho> m') s \<sigma>"
proof -
  note w = wp_storeImm[OF s o0 o1 o2 a]
  show ?thesis
    using m' w[where 'w=8] w[where 'w=16] w[where 'w=32] w[where 'w=64]
    by (cases n) (simp_all add: lift_store_imm_def store_imm_sem_def)
qed

section \<open>Atomics\<close>

lemma wp_atomic_emit:
  fixes x old :: "'w::len word"
  assumes s: "sim s \<sigma> \<rho> m" and p: "hp S s \<sigma> p a" and v: "hw S s \<sigma> v x" and al: "uint a mod int al = 0"
    and old: "load_word S m a = Some old" and m': "store_word S m a (rmw_word rop old x) = Some m'"
    and Q: "\<And>r s' \<sigma>'. sim s' \<sigma>' \<rho> m' \<Longrightarrow> same_ctx s s' \<Longrightarrow> hw S s' \<sigma>' r old \<Longrightarrow> Q r s' \<sigma>'"
  shows "wp S (emit nm (type_of v) (AtomicRMWI rop p v al)) Q s \<sigma>"
proof -
  have m: "mem \<sigma> = m" using s by (simp add: sim_def)
  show ?thesis
    unfolding hw_type[OF v]
    by (rule wp_atomic_rmw[OF sim_wf[OF s] p v al, unfolded m, OF old m'])
       (use Q sim_pure[OF sim_mem[OF s]] pure_same_ctx in blast)
qed

lemma wp_cmpxchg_emit:
  fixes x e old :: "'w::len word"
  assumes s: "sim s \<sigma> \<rho> m" and p: "hp S s \<sigma> p a" and ev: "hw S s \<sigma> ev e" and v: "hw S s \<sigma> v x"
    and al: "uint a mod int al = 0" and old: "load_word S m a = Some old"
    and m': "if old = e then store_word S m a x = Some m' else m' = m"
    and Q: "\<And>r s' \<sigma>'. sim s' \<sigma>' \<rho> m' \<Longrightarrow> same_ctx s s' \<Longrightarrow> hw S s' \<sigma>' r old \<Longrightarrow> Q r s' \<sigma>'"
  shows "wp S (bnd (emit nm (StructTy [IntTy LENGTH('w), IntTy 1]) (CmpXchgI p ev v al))
      (\<lambda>cx. createExtractValue cx 0)) Q s \<sigma>"
proof -
  have m: "mem \<sigma> = m" using s by (simp add: sim_def)
  show ?thesis
    by (rule wp_cmpxchg[OF sim_wf[OF s] p ev v al, unfolded m, OF old m'])
       (use Q sim_pure[OF sim_mem[OF s]] pure_same_ctx in blast)
qed

lemma atomic_sem_eq: "atomic_sem n = (atomic_binop n, if atomic_is64 n then B64 else B32, atomic_fetch n)"
  by (cases n) (simp_all add: atomic_binop_def atomic_is64_def atomic_fetch_def)

lemma wp_atomic_operand32:
  assumes s: "sim s \<sigma> \<rho> m" and o3: "opnd s 3 (RegOp r)" and r: "reg_no r = Some i"
    and Q: "\<And>v s' \<sigma>'. pure s \<sigma> s' \<sigma>' \<Longrightarrow> hw S s' \<sigma>' v (low32 (\<rho> i)) \<Longrightarrow> Q v s' \<sigma>'"
  shows "wp S (if b then bnd (readRegOperand64 3) (\<lambda>v. createTrunc v (IntTy 32)) else readRegOperand32 3) Q s \<sigma>"
proof (cases b)
  case True
  have "wp S (bnd (readRegOperand64 3) (\<lambda>v. createTrunc v (IntTy 32))) Q s \<sigma>"
  proof (rule wp_bnd, rule wp_readRegOperand64[OF s o3 r])
    fix v s1 \<sigma>1 assume 1: "pure s \<sigma> s1 \<sigma>1" "hw S s1 \<sigma>1 v (\<rho> i)"
    show "wp S (createTrunc v (IntTy 32)) Q s1 \<sigma>1"
      by (rule implements1D[OF trunc64_32 pure_wf[OF 1(1)] 1(2)], rule Q[OF pure_trans[OF 1(1)]])
         (simp_all add: low32_def)
  qed
  with True show ?thesis by simp
next
  case False
  with wp_readRegOperand32[OF s o3 r Q] show ?thesis by simp
qed

lemma wp_lift_atomic64:
  assumes s: "sim s \<sigma> \<rho> m" and o0: "opnd s 0 (RegOp d)" and o1: "opnd s 1 (RegOp b)"
    and o2: "opnd s 2 (ImmOp off)" and o3: "opnd s 3 (RegOp d)" and d: "reg_no d = Some i"
    and a: "mem_addr \<rho> b off = Some a" and n: "atomic_is64 n"
    and x: "rmw_sem S m a (atomic_binop n) B64 (\<rho> i) = Some (old, m')"
  shows "wp S (lift_atomic n) (done_with s (if atomic_fetch n then \<rho>(i := old) else \<rho>) m') s \<sigma>"
  unfolding lift_atomic_def if_P[OF n]
proof (rule wp_bnd, rule wp_memPointer[OF s o1 _ a], use o2 in \<open>simp add: numeral_2_eq_2\<close>, rule wp_bnd)
  fix p s1 \<sigma>1 assume 1: "pure s \<sigma> s1 \<sigma>1" "hp S s1 \<sigma>1 p a"
  show "wp S (readRegOperand64 3) (\<lambda>v. wp S (bnd (emit '''' (type_of v) (AtomicRMWI (atomic_binop n) p v 8))
      (\<lambda>rmw. if atomic_fetch n then dest_update64 rmw else ret ()))
      (done_with s (if atomic_fetch n then \<rho>(i := old) else \<rho>) m')) s1 \<sigma>1"
  proof (rule wp_readRegOperand64[OF sim_pure[OF s 1(1)] opnd_pure[OF o3 1(1)] d], rule wp_bnd)
    fix v s2 \<sigma>2 assume 2: "pure s1 \<sigma>1 s2 \<sigma>2" "hw S s2 \<sigma>2 v (\<rho> i)"
    note pu = pure_trans[OF 1(1) 2(1)]
    from x have al: "uint a mod int 8 = 0" and old: "load_word S m a = Some old"
      and m': "store_word S m a (rmw_word (atomic_binop n) old (\<rho> i)) = Some m'"
      by (auto simp: rmw_sem_def bind_eq_Some_conv split: if_splits)
    show "wp S (emit '''' (type_of v) (AtomicRMWI (atomic_binop n) p v 8))
      (\<lambda>rmw. wp S (if atomic_fetch n then dest_update64 rmw else ret ())
      (done_with s (if atomic_fetch n then \<rho>(i := old) else \<rho>) m')) s2 \<sigma>2"
    proof (rule wp_atomic_emit[OF sim_pure[OF s pu] hp_pure[OF 1(2) 2(1)] 2(2) al old m'])
      fix r s3 \<sigma>3 assume 3: "sim s3 \<sigma>3 \<rho> m'" "same_ctx s2 s3" "hw S s3 \<sigma>3 r old"
      note c = same_ctx_trans[OF pure_same_ctx[OF pu] 3(2)]
      show "wp S (if atomic_fetch n then dest_update64 r else ret ())
        (done_with s (if atomic_fetch n then \<rho>(i := old) else \<rho>) m') s3 \<sigma>3"
        using wp_dest64[OF 3(1) opnd_same_ctx[OF o0 c] d 3(3) c] 3(1) c by (auto intro!: wp_ret simp: done_with_def)
    qed
  qed
qed

lemma wp_lift_atomic32:
  assumes s: "sim s \<sigma> \<rho> m" and o0: "opnd s 0 (RegOp d)" and o1: "opnd s 1 (RegOp b)"
    and o2: "opnd s 2 (ImmOp off)" and o3: "opnd s 3 (RegOp d)" and d: "reg_no d = Some i"
    and a: "mem_addr \<rho> b off = Some a" and n: "\<not> atomic_is64 n"
    and x: "rmw_sem S m a (atomic_binop n) B32 (\<rho> i) = Some (old, m')"
  shows "wp S (lift_atomic n) (done_with s (if atomic_fetch n then \<rho>(i := old) else \<rho>) m') s \<sigma>"
  unfolding lift_atomic_def if_not_P[OF n]
proof (rule wp_bnd, rule wp_memPointer[OF s o1 _ a], use o2 in \<open>simp add: numeral_2_eq_2\<close>, rule wp_bnd)
  fix p s1 \<sigma>1 assume 1: "pure s \<sigma> s1 \<sigma>1" "hp S s1 \<sigma>1 p a"
  show "wp S (if n = XADDW then bnd (readRegOperand64 3) (\<lambda>v. createTrunc v (IntTy 32)) else readRegOperand32 3)
      (\<lambda>v. wp S (bnd (emit '''' (type_of v) (AtomicRMWI (atomic_binop n) p v 4))
      (\<lambda>rmw. if atomic_fetch n then dest_update32 rmw else ret ()))
      (done_with s (if atomic_fetch n then \<rho>(i := old) else \<rho>) m')) s1 \<sigma>1"
  proof (rule wp_atomic_operand32[OF sim_pure[OF s 1(1)] opnd_pure[OF o3 1(1)] d], rule wp_bnd)
    fix v s2 \<sigma>2 assume 2: "pure s1 \<sigma>1 s2 \<sigma>2" "hw S s2 \<sigma>2 v (low32 (\<rho> i))"
    note pu = pure_trans[OF 1(1) 2(1)]
    from x obtain old32 where al: "uint a mod int 4 = 0" and old: "load_word S m a = Some old32"
      and m': "store_word S m a (rmw_word (atomic_binop n) old32 (low32 (\<rho> i))) = Some m'"
      and z: "old = zext32 old32"
      by (auto simp: rmw_sem_def bind_eq_Some_conv split: if_splits)
    show "wp S (emit '''' (type_of v) (AtomicRMWI (atomic_binop n) p v 4))
      (\<lambda>rmw. wp S (if atomic_fetch n then dest_update32 rmw else ret ())
      (done_with s (if atomic_fetch n then \<rho>(i := old) else \<rho>) m')) s2 \<sigma>2"
    proof (rule wp_atomic_emit[OF sim_pure[OF s pu] hp_pure[OF 1(2) 2(1)] 2(2) al old m'])
      fix r s3 \<sigma>3 assume 3: "sim s3 \<sigma>3 \<rho> m'" "same_ctx s2 s3" "hw S s3 \<sigma>3 r old32"
      note c = same_ctx_trans[OF pure_same_ctx[OF pu] 3(2)]
      show "wp S (if atomic_fetch n then dest_update32 r else ret ())
        (done_with s (if atomic_fetch n then \<rho>(i := old) else \<rho>) m') s3 \<sigma>3"
        using wp_dest32[OF 3(1) opnd_same_ctx[OF o0 c] d 3(3) c] 3(1) c z by (auto intro!: wp_ret simp: done_with_def)
    qed
  qed
qed

lemma wp_lift_cmpxchg64:
  assumes s: "sim s \<sigma> \<rho> m" and o0: "opnd s 0 (RegOp b)" and o1: "opnd s 1 (ImmOp off)"
    and o2: "opnd s 2 (RegOp r)" and r: "reg_no r = Some i" and a: "mem_addr \<rho> b off = Some a"
    and x: "cmpxchg_sem S m a B64 (\<rho> 0) (\<rho> i) = Some (old, m')"
  shows "wp S (lift_cmpxchg B64) (done_with s (\<rho>(0 := old)) m') s \<sigma>"
  unfolding lift_cmpxchg_def reg_width.case
proof (rule wp_bnd, rule wp_memPointer[OF s o0 _ a], use o1 in simp, rule wp_bnd)
  have r0: "reg_no (R 0) = Some 0" by simp
  from x have al: "uint a mod int 8 = 0" and old: "load_word S m a = Some old"
    and m': "if old = \<rho> 0 then store_word S m a (\<rho> i) = Some m' else m' = m"
    by (auto simp: cmpxchg_sem_def bind_eq_Some_conv split: if_splits)
  fix p s1 \<sigma>1 assume 1: "pure s \<sigma> s1 \<sigma>1" "hp S s1 \<sigma>1 p a"
  show "wp S (readReg64 (R 0)) (\<lambda>e. wp S (bnd (readRegOperand64 2) (\<lambda>newVal.
      bnd (bnd (emit '''' (StructTy [IntTy 64, IntTy 1]) (CmpXchgI p e newVal 8)) (\<lambda>cx. createExtractValue cx 0))
      (\<lambda>v. updateReg64 v (R 0)))) (done_with s (\<rho>(0 := old)) m')) s1 \<sigma>1"
  proof (rule wp_readReg64[OF sim_pure[OF s 1(1)] r0], rule wp_bnd)
    fix e s2 \<sigma>2 assume 2: "pure s1 \<sigma>1 s2 \<sigma>2" "hw S s2 \<sigma>2 e (\<rho> 0)"
    note pu2 = pure_trans[OF 1(1) 2(1)]
    show "wp S (readRegOperand64 2) (\<lambda>newVal. wp S (bnd (bnd (emit '''' (StructTy [IntTy 64, IntTy 1])
      (CmpXchgI p e newVal 8)) (\<lambda>cx. createExtractValue cx 0)) (\<lambda>v. updateReg64 v (R 0)))
      (done_with s (\<rho>(0 := old)) m')) s2 \<sigma>2"
    proof (rule wp_readRegOperand64[OF sim_pure[OF s pu2] opnd_pure[OF o2 pu2] r], rule wp_bnd)
      fix v s3 \<sigma>3 assume 3: "pure s2 \<sigma>2 s3 \<sigma>3" "hw S s3 \<sigma>3 v (\<rho> i)"
      note pu3 = pure_trans[OF pu2 3(1)]
      show "wp S (bnd (emit '''' (StructTy [IntTy 64, IntTy 1]) (CmpXchgI p e v 8)) (\<lambda>cx. createExtractValue cx 0))
        (\<lambda>v. wp S (updateReg64 v (R 0)) (done_with s (\<rho>(0 := old)) m')) s3 \<sigma>3"
      proof (rule wp_cmpxchg_emit[where 'w=64, unfolded len64, OF sim_pure[OF s pu3] hp_pure[OF 1(2) pure_trans[OF 2(1) 3(1)]]
            hw_pure[OF 2(2) 3(1)] 3(2) al old m'])
        fix u s4 \<sigma>4 assume 4: "sim s4 \<sigma>4 \<rho> m'" "same_ctx s3 s4" "hw S s4 \<sigma>4 u old"
        show "wp S (updateReg64 u (R 0)) (done_with s (\<rho>(0 := old)) m') s4 \<sigma>4"
          by (rule wp_done_ctx[OF wp_updateReg64[OF 4(1) r0 4(3)] same_ctx_trans[OF pure_same_ctx[OF pu3] 4(2)]])
      qed
    qed
  qed
qed

lemma wp_lift_cmpxchg32:
  assumes s: "sim s \<sigma> \<rho> m" and o0: "opnd s 0 (RegOp b)" and o1: "opnd s 1 (ImmOp off)"
    and o2: "opnd s 2 (RegOp r)" and r: "reg_no r = Some i" and a: "mem_addr \<rho> b off = Some a"
    and x: "cmpxchg_sem S m a B32 (\<rho> 0) (\<rho> i) = Some (old, m')"
  shows "wp S (lift_cmpxchg B32) (done_with s (\<rho>(0 := old)) m') s \<sigma>"
  unfolding lift_cmpxchg_def reg_width.case
proof (rule wp_bnd, rule wp_memPointer[OF s o0 _ a], use o1 in simp, rule wp_bnd)
  have r0: "reg_no (R 0) = Some 0" by simp
  from x obtain old32 where al: "uint a mod int 4 = 0" and old: "load_word S m a = Some old32"
    and m': "if old32 = low32 (\<rho> 0) then store_word S m a (low32 (\<rho> i)) = Some m' else m' = m"
    and z: "old = zext32 old32"
    by (auto simp: cmpxchg_sem_def bind_eq_Some_conv split: if_splits)
  fix p s1 \<sigma>1 assume 1: "pure s \<sigma> s1 \<sigma>1" "hp S s1 \<sigma>1 p a"
  show "wp S (readReg32 (R 0)) (\<lambda>e. wp S (bnd (readRegOperand32 2) (\<lambda>newVal.
      bnd (bnd (emit '''' (StructTy [IntTy 32, IntTy 1]) (CmpXchgI p e newVal 4)) (\<lambda>cx. createExtractValue cx 0))
      (\<lambda>v. updateReg32 v (R 0)))) (done_with s (\<rho>(0 := old)) m')) s1 \<sigma>1"
  proof (rule wp_readReg32[OF sim_pure[OF s 1(1)] r0], rule wp_bnd)
    fix e s2 \<sigma>2 assume 2: "pure s1 \<sigma>1 s2 \<sigma>2" "hw S s2 \<sigma>2 e (low32 (\<rho> 0))"
    note pu2 = pure_trans[OF 1(1) 2(1)]
    show "wp S (readRegOperand32 2) (\<lambda>newVal. wp S (bnd (bnd (emit '''' (StructTy [IntTy 32, IntTy 1])
      (CmpXchgI p e newVal 4)) (\<lambda>cx. createExtractValue cx 0)) (\<lambda>v. updateReg32 v (R 0)))
      (done_with s (\<rho>(0 := old)) m')) s2 \<sigma>2"
    proof (rule wp_readRegOperand32[OF sim_pure[OF s pu2] opnd_pure[OF o2 pu2] r], rule wp_bnd)
      fix v s3 \<sigma>3 assume 3: "pure s2 \<sigma>2 s3 \<sigma>3" "hw S s3 \<sigma>3 v (low32 (\<rho> i))"
      note pu3 = pure_trans[OF pu2 3(1)]
      show "wp S (bnd (emit '''' (StructTy [IntTy 32, IntTy 1]) (CmpXchgI p e v 4)) (\<lambda>cx. createExtractValue cx 0))
        (\<lambda>v. wp S (updateReg32 v (R 0)) (done_with s (\<rho>(0 := old)) m')) s3 \<sigma>3"
      proof (rule wp_cmpxchg_emit[where 'w=32, unfolded len32, OF sim_pure[OF s pu3] hp_pure[OF 1(2) pure_trans[OF 2(1) 3(1)]]
            hw_pure[OF 2(2) 3(1)] 3(2) al old m'])
        fix u s4 \<sigma>4 assume 4: "sim s4 \<sigma>4 \<rho> m'" "same_ctx s3 s4" "hw S s4 \<sigma>4 u old32"
        show "wp S (updateReg32 u (R 0)) (done_with s (\<rho>(0 := old)) m') s4 \<sigma>4"
          unfolding z
          by (rule wp_done_ctx[OF wp_updateReg32[OF 4(1) r0 4(3)] same_ctx_trans[OF pure_same_ctx[OF pu3] 4(2)]])
      qed
    qed
  qed
qed

end

end
