(* ===== verification/Lift_Flow.thy ===== *)
theory Lift_Flow
  imports Lift_Mem
begin

text \<open>
  Control transfer: blocks found by name, conditional jumps, unconditional jumps and returns leave
  for the position the abstract machine's branch goes to.
\<close>

section \<open>Finding blocks\<close>

lemma find_block_Some:
  "find_block nm F i = Some t \<Longrightarrow> i \<le> t \<and> t - i < length F \<and> fst (F ! (t - i)) = nm \<and> (\<forall>k < t - i. fst (F ! k) \<noteq> nm)"
proof (induction F arbitrary: i)
  case (Cons b F)
  show ?case
  proof (cases "fst b = nm")
    case False
    with Cons.prems have f: "find_block nm F (Suc i) = Some t" by simp
    note ih = Cons.IH[OF f]
    then have eq: "t - i = Suc (t - Suc i)" by linarith
    have "\<forall>k < Suc (t - Suc i). fst ((b # F) ! k) \<noteq> nm"
      using ih False by (auto simp: less_Suc_eq_0_disj)
    with ih show ?thesis unfolding eq by auto
  qed (use Cons.prems in auto)
qed simp

lemma find_block_I:
  "j < length F \<Longrightarrow> fst (F ! j) = nm \<Longrightarrow> (\<forall>k < j. fst (F ! k) \<noteq> nm) \<Longrightarrow> find_block nm F i = Some (i + j)"
proof (induction F arbitrary: i j)
  case (Cons b F)
  show ?case
  proof (cases j)
    case (Suc j')
    have "find_block nm F (Suc i) = Some (Suc i + j')"
      using Cons.prems Suc by (intro Cons.IH) auto
    moreover have "fst b \<noteq> nm" using Cons.prems(3) Suc by auto
    ultimately show ?thesis using Suc by simp
  qed (use Cons.prems in auto)
qed simp

text \<open>Emission never renames a block and appends new ones at the end, so names keep their meaning.\<close>

lemma find_block_same_ctx:
  assumes "find_block nm (fn s) 0 = Some t" and "same_ctx s s'"
  shows "find_block nm (fn s') 0 = Some t"
proof -
  have 1: "t < length (fn s)" "fst (fn s ! t) = nm" "\<forall>k < t. fst (fn s ! k) \<noteq> nm"
    using find_block_Some[OF assms(1)] by simp_all
  then have "find_block nm (fn s') 0 = Some (0 + t)"
    using assms(2) by (intro find_block_I) (auto simp: same_ctx_def)
  then show ?thesis by simp
qed

lemma wp_getBBByName:
  "find_block nm (fn s) 0 = Some t \<Longrightarrow> wp S (bnd (getBBByName nm) k) Q s \<sigma> \<longleftrightarrow> wp S (k t) Q s \<sigma>"
  by (simp add: wp_def bnd_def getBBByName_def from_option_def)

lemma wpj_getBBByName:
  "find_block nm (fn s) 0 = Some t \<Longrightarrow> wpj S (bnd (getBBByName nm) k) Q s \<sigma> \<longleftrightarrow> wpj S (k t) Q s \<sigma>"
  by (simp add: wpj_def bnd_def getBBByName_def from_option_def)

section \<open>Where a branch goes\<close>

text \<open>The fall-through block of a branch to \<open>t\<close> with the given successors.\<close>

definition fallthrough :: "string \<Rightarrow> string list \<Rightarrow> string" where
  "fallthrough t succs = (case List.find (\<lambda>nm. nm \<noteq> t) succs of Some nm \<Rightarrow> nm | None \<Rightarrow> t)"

definition branch_targets :: "lstate \<Rightarrow> mcoperand \<Rightarrow> nat \<Rightarrow> nat \<Rightarrow> bool" where
  "branch_targets s op bt bf \<longleftrightarrow> (\<exists>t. op = ExprOp (SymbolRef t) \<and> find_block t (fn s) 0 = Some bt \<and>
     find_block (fallthrough t (snd (MCBB s))) (fn s) 0 = Some bf \<and> length (snd (MCBB s)) \<in> {1, 2})"

lemma same_ctx_MCBB: "same_ctx s s' \<Longrightarrow> MCBB s' = MCBB s"
  by (simp add: same_ctx_def)

lemma branch_targets_same_ctx: "branch_targets s op bt bf \<Longrightarrow> same_ctx s s' \<Longrightarrow> branch_targets s' op bt bf"
  by (auto simp: branch_targets_def same_ctx_MCBB intro: find_block_same_ctx)

lemma wpj_getBranchTargets:
  assumes b: "branch_targets s op bt bf" and o: "opnd s i op"
  shows "wpj S (bnd (getBranchTargetsOperand i) k) Q s \<sigma> \<longleftrightarrow> wpj S (k (bt, bf)) Q s \<sigma>"
proof -
  from b obtain t where "op = ExprOp (SymbolRef t)" "find_block t (fn s) 0 = Some bt"
    "find_block (fallthrough t (snd (MCBB s))) (fn s) 0 = Some bf" "length (snd (MCBB s)) = 1 \<or> length (snd (MCBB s)) = 2"
    by (auto simp: branch_targets_def)
  with o have "getBranchTargetsOperand i s = Inr ((bt, bf), s)"
    by (auto simp: getBranchTargetsOperand_def getOperand_def opnd_def getBBByName_def fallthrough_def
        bnd_def andthen_def)
  then show ?thesis by (simp add: wpj_def bnd_def)
qed

text \<open>The lifted code leaves for block \<open>b\<close>, in a state related to the unchanged registers and memory.\<close>

definition jumps :: "lstate \<Rightarrow> regs \<Rightarrow> 'm \<Rightarrow> nat \<Rightarrow> lstate \<Rightarrow> 'm conf \<Rightarrow> bool" where
  "jumps s \<rho> m b s' c \<longleftrightarrow> (\<exists>\<sigma>'. c = Run b 0 \<sigma>' \<and> sim s' \<sigma>' \<rho> m) \<and> same_ctx s s'"

lemma pred_cond: "pred_word (cond_pred c) x y = cond_sem c x y"
  by (cases c) (simp_all add: pred_word_def cond_pred_def cond_sem_def word_less_def word_le_def)

context langref
begin

lemma wpj_branch_end:
  assumes s: "sim s \<sigma> \<rho> m" and b: "hb S s \<sigma> v b" and c: "same_ctx s0 s" and o: "opnd s0 2 op"
    and t: "branch_targets s0 op bt bf"
  shows "wpj S (bnd (getBranchTargetsOperand 2) (\<lambda>(t, f). createCondBranch v t f))
    (jumps s0 \<rho> m (if b then bt else bf)) s \<sigma>"
  unfolding wpj_getBranchTargets[OF branch_targets_same_ctx[OF t c] opnd_same_ctx[OF o c]] prod.case
  by (rule wpj_createCondBranch[OF sim_wf[OF s] b])
     (use sim_pure[OF s] same_ctx_trans[OF c] in \<open>auto simp: jumps_def dest: pure_same_ctx\<close>)

lemma wpj_compare64:
  assumes s: "sim s \<sigma> \<rho> m" and o0: "opnd s 0 (RegOp d)" and o1: "opnd s 1 src" and o2: "opnd s 2 op"
    and d: "reg_no d = Some i" and y: "src64 \<rho> src = Some y" and t: "branch_targets s op bt bf"
    and cmp: "\<And>s1 \<sigma>1 a b Q. wf s1 \<Longrightarrow> hw S s1 \<sigma>1 a (\<rho> i) \<Longrightarrow> hw S s1 \<sigma>1 b y \<Longrightarrow>
      (\<And>v s' \<sigma>'. pure s1 \<sigma>1 s' \<sigma>' \<Longrightarrow> hb S s' \<sigma>' v r \<Longrightarrow> Q v s' \<sigma>') \<Longrightarrow> wp S (f a b) Q s1 \<sigma>1"
  shows "wpj S (bnd (readRegOperand64 0) (\<lambda>a. bnd (readALUSrcOperand 1 64) (\<lambda>b. bnd (f a b) (\<lambda>c.
    bnd (getBranchTargetsOperand 2) (\<lambda>(t, f). createCondBranch c t f))))) (jumps s \<rho> m (if r then bt else bf)) s \<sigma>"
proof (rule wpj_bnd, rule wp_readRegOperand64[OF s o0 d], rule wpj_bnd)
  fix a s1 \<sigma>1 assume 1: "pure s \<sigma> s1 \<sigma>1" "hw S s1 \<sigma>1 a (\<rho> i)"
  show "wp S (readALUSrcOperand 1 64) (\<lambda>b s' \<sigma>'. wpj S (bnd (f a b) (\<lambda>c. bnd (getBranchTargetsOperand 2)
    (\<lambda>(t, f). createCondBranch c t f))) (jumps s \<rho> m (if r then bt else bf)) s' \<sigma>') s1 \<sigma>1"
  proof (rule wp_readALUSrc64[OF sim_pure[OF s 1(1)] opnd_pure[OF o1 1(1)] y], rule wpj_bnd)
    fix b s2 \<sigma>2 assume 2: "pure s1 \<sigma>1 s2 \<sigma>2" "hw S s2 \<sigma>2 b y"
    note pu = pure_trans[OF 1(1) 2(1)]
    show "wp S (f a b) (\<lambda>c s' \<sigma>'. wpj S (bnd (getBranchTargetsOperand 2)
      (\<lambda>(t, f). createCondBranch c t f)) (jumps s \<rho> m (if r then bt else bf)) s' \<sigma>') s2 \<sigma>2"
    proof (rule cmp[OF pure_wf[OF pu] hw_pure[OF 1(2) 2(1)] 2(2)])
      fix v s3 \<sigma>3 assume 3: "pure s2 \<sigma>2 s3 \<sigma>3" "hb S s3 \<sigma>3 v r"
      note pu3 = pure_trans[OF pu 3(1)]
      show "wpj S (bnd (getBranchTargetsOperand 2) (\<lambda>(t, f). createCondBranch v t f))
        (jumps s \<rho> m (if r then bt else bf)) s3 \<sigma>3"
        by (rule wpj_branch_end[OF sim_pure[OF s pu3] 3(2) pure_same_ctx[OF pu3] o2 t])
    qed
  qed
qed

lemma wpj_compare32:
  assumes s: "sim s \<sigma> \<rho> m" and o0: "opnd s 0 (RegOp d)" and o1: "opnd s 1 src" and o2: "opnd s 2 op"
    and d: "reg_no d = Some i" and y: "src32 \<rho> src = Some y" and t: "branch_targets s op bt bf"
    and cmp: "\<And>s1 \<sigma>1 a b Q. wf s1 \<Longrightarrow> hw S s1 \<sigma>1 a (low32 (\<rho> i)) \<Longrightarrow> hw S s1 \<sigma>1 b y \<Longrightarrow>
      (\<And>v s' \<sigma>'. pure s1 \<sigma>1 s' \<sigma>' \<Longrightarrow> hb S s' \<sigma>' v r \<Longrightarrow> Q v s' \<sigma>') \<Longrightarrow> wp S (f a b) Q s1 \<sigma>1"
  shows "wpj S (bnd (readRegOperand32 0) (\<lambda>a. bnd (readALUSrcOperand 1 32) (\<lambda>b. bnd (f a b) (\<lambda>c.
    bnd (getBranchTargetsOperand 2) (\<lambda>(t, f). createCondBranch c t f))))) (jumps s \<rho> m (if r then bt else bf)) s \<sigma>"
proof (rule wpj_bnd, rule wp_readRegOperand32[OF s o0 d], rule wpj_bnd)
  fix a s1 \<sigma>1 assume 1: "pure s \<sigma> s1 \<sigma>1" "hw S s1 \<sigma>1 a (low32 (\<rho> i))"
  show "wp S (readALUSrcOperand 1 32) (\<lambda>b s' \<sigma>'. wpj S (bnd (f a b) (\<lambda>c. bnd (getBranchTargetsOperand 2)
    (\<lambda>(t, f). createCondBranch c t f))) (jumps s \<rho> m (if r then bt else bf)) s' \<sigma>') s1 \<sigma>1"
  proof (rule wp_readALUSrc32[OF sim_pure[OF s 1(1)] opnd_pure[OF o1 1(1)] y], rule wpj_bnd)
    fix b s2 \<sigma>2 assume 2: "pure s1 \<sigma>1 s2 \<sigma>2" "hw S s2 \<sigma>2 b y"
    note pu = pure_trans[OF 1(1) 2(1)]
    show "wp S (f a b) (\<lambda>c s' \<sigma>'. wpj S (bnd (getBranchTargetsOperand 2)
      (\<lambda>(t, f). createCondBranch c t f)) (jumps s \<rho> m (if r then bt else bf)) s' \<sigma>') s2 \<sigma>2"
    proof (rule cmp[OF pure_wf[OF pu] hw_pure[OF 1(2) 2(1)] 2(2)])
      fix v s3 \<sigma>3 assume 3: "pure s2 \<sigma>2 s3 \<sigma>3" "hb S s3 \<sigma>3 v r"
      note pu3 = pure_trans[OF pu 3(1)]
      show "wpj S (bnd (getBranchTargetsOperand 2) (\<lambda>(t, f). createCondBranch v t f))
        (jumps s \<rho> m (if r then bt else bf)) s3 \<sigma>3"
        by (rule wpj_branch_end[OF sim_pure[OF s pu3] 3(2) pure_same_ctx[OF pu3] o2 t])
    qed
  qed
qed

lemma wp_jset_cmp:
  fixes x y :: "'w::len word"
  assumes "wf s" and "hw S s \<sigma> a x" and "hw S s \<sigma> b y"
    and "\<And>v s' \<sigma>'. pure s \<sigma> s' \<sigma>' \<Longrightarrow> hb S s' \<sigma>' v (x AND y \<noteq> 0) \<Longrightarrow> Q v s' \<sigma>'"
  shows "wp S (bnd (createAnd a b) (\<lambda>ab. bnd (getUnsignedIntConst 0 LENGTH('w)) (\<lambda>z. createICmp ICMP_NE ab z))) Q s \<sigma>"
proof (rule wp_bnd, rule wp_createAnd[OF assms(1-3)], subst wp_zero_one(1))
  fix v s1 \<sigma>1 assume 1: "pure s \<sigma> s1 \<sigma>1" "hw S s1 \<sigma>1 v (x AND y)"
  show "wp S (createICmp ICMP_NE v (ConstInt LENGTH('w) 0)) Q s1 \<sigma>1"
    by (rule wp_createICmp[OF pure_wf[OF 1(1)] 1(2) hw_zero])
       (use assms(4) pure_trans[OF 1(1)] in \<open>simp add: pred_word_def\<close>)
qed

lemma wpj_lift_jcond:
  assumes s: "sim s \<sigma> \<rho> m" and o0: "opnd s 0 (RegOp d)" and o1: "opnd s 1 src" and o2: "opnd s 2 op"
    and t: "branch_targets s op bt bf" and d: "reg_no d = Some i"
    and r: "(case w of B64 \<Rightarrow> map_option (cond_sem c (\<rho> i)) (src64 \<rho> src)
       | B32 \<Rightarrow> map_option (cond_sem c (low32 (\<rho> i))) (src32 \<rho> src)) = Some r"
  shows "wpj S (lift_jcond c w) (jumps s \<rho> m (if r then bt else bf)) s \<sigma>"
proof (cases w)
  case B64
  with r obtain y where y: "src64 \<rho> src = Some y" "r = cond_sem c (\<rho> i) y" by auto
  show ?thesis
    unfolding B64 lift_jcond_def condBr_def bits_of_width_def reg_width.case if_P[OF refl]
    by (rule wpj_compare64[OF s o0 o1 o2 d y(1) t]) (use y(2) in \<open>auto intro!: wp_createICmp simp: pred_cond\<close>)
next
  case B32
  with r obtain y where y: "src32 \<rho> src = Some y" "r = cond_sem c (low32 (\<rho> i)) y" by auto
  have "(32::nat) \<noteq> 64" by simp
  then show ?thesis
    unfolding B32 lift_jcond_def condBr_def bits_of_width_def reg_width.case if_not_P[OF \<open>(32::nat) \<noteq> 64\<close>]
    by - (rule wpj_compare32[OF s o0 o1 o2 d y(1) t], use y(2) in \<open>auto intro!: wp_createICmp simp: pred_cond\<close>)
qed

lemma wpj_lift_jset:
  assumes s: "sim s \<sigma> \<rho> m" and o0: "opnd s 0 (RegOp d)" and o1: "opnd s 1 src" and o2: "opnd s 2 op"
    and t: "branch_targets s op bt bf" and d: "reg_no d = Some i"
    and r: "(case w of B64 \<Rightarrow> map_option (\<lambda>y. \<rho> i AND y \<noteq> 0) (src64 \<rho> src)
       | B32 \<Rightarrow> map_option (\<lambda>y. low32 (\<rho> i) AND y \<noteq> 0) (src32 \<rho> src)) = Some r"
  shows "wpj S (lift_jset w) (jumps s \<rho> m (if r then bt else bf)) s \<sigma>"
proof (cases w)
  case B64
  with r obtain y where y: "src64 \<rho> src = Some y" "r = (\<rho> i AND y \<noteq> 0)" by auto
  show ?thesis
    unfolding B64 lift_jset_def bits_of_width_def reg_width.case Let_def if_P[OF refl]
    by (rule wpj_compare64[OF s o0 o1 o2 d y(1) t, where f="\<lambda>a b. bnd (createAnd a b)
          (\<lambda>ab. bnd (getUnsignedIntConst 0 64) (\<lambda>z. createICmp ICMP_NE ab z))", unfolded bnd_assoc],
        unfold y(2)) (rule wp_jset_cmp[where 'w=64, unfolded len64])
next
  case B32
  have ne: "((32::nat) = 64) = False" by simp
  from B32 r obtain y where y: "src32 \<rho> src = Some y" "r = (low32 (\<rho> i) AND y \<noteq> 0)" by auto
  show ?thesis
    unfolding B32 lift_jset_def bits_of_width_def reg_width.case Let_def ne if_False
    by (rule wpj_compare32[OF s o0 o1 o2 d y(1) t, where f="\<lambda>a b. bnd (createAnd a b)
          (\<lambda>ab. bnd (getUnsignedIntConst 0 32) (\<lambda>z. createICmp ICMP_NE ab z))", unfolded bnd_assoc],
        unfold y(2)) (rule wp_jset_cmp[where 'w=32, unfolded len32])
qed

end

section \<open>Unconditional jumps and returns\<close>

text \<open>The block an unconditional jump goes to: the named one, or, for the jump the streamer puts into
  its synthetic entry block, the block's only successor.\<close>

definition jmp_target :: "lstate \<Rightarrow> mcoperand \<Rightarrow> nat option" where
  "jmp_target s op = (case op of
     ExprOp (SymbolRef t) \<Rightarrow> find_block t (fn s) 0
   | ExprOp e \<Rightarrow> None
   | _ \<Rightarrow> (case snd (MCBB s) of [t] \<Rightarrow> find_block t (fn s) 0 | _ \<Rightarrow> None))"

text \<open>The value a return leaves with: the low bits of r0 at the width of the source function's return
  type; a return type the driver widened from below 32 bits has its upper half masked.\<close>

definition return_value :: "src_env \<Rightarrow> 64 word \<Rightarrow> val option" where
  "return_value E x = (case srcRetTy E of
     PtrTy \<Rightarrow> Some (VPtr (uint x))
   | IntTy w \<Rightarrow> Some (VInt w (if has_ret_attr E \<and> origRetWidth E < 32 then uint (zext32 (low32 x))
       else take_bit w (uint x)))
   | _ \<Rightarrow> None)"

definition returnable :: "src_env \<Rightarrow> bool" where
  "returnable E \<longleftrightarrow> srcRetTy E = VoidTy \<or> srcRetTy E = PtrTy \<or>
     (\<exists>w \<le> 64. srcRetTy E = IntTy w \<and> (has_ret_attr E \<and> origRetWidth E < 32 \<longrightarrow> w = 64))"

definition returns_with :: "val option \<Rightarrow> 'm \<Rightarrow> lstate \<Rightarrow> 'm conf \<Rightarrow> bool" where
  "returns_with v m s' c \<longleftrightarrow> (\<exists>\<sigma>'. c = Returned v \<sigma>' \<and> mem \<sigma>' = m)"

context langref
begin

lemma wpj_jump_end:
  assumes "sim s \<sigma> \<rho> m"
  shows "wpj S (createBranch b) (jumps s \<rho> m b) s \<sigma>"
  by (rule wpj_createBranch[OF sim_wf[OF assms]])
     (use sim_pure[OF assms] in \<open>auto simp: jumps_def dest: pure_same_ctx\<close>)

lemma wpj_getOperand: "opnd s i op \<Longrightarrow> wpj S (bnd (getOperand i) k) Q s \<sigma> \<longleftrightarrow> wpj S (k op) Q s \<sigma>"
  by (simp add: wpj_def bnd_def getOperand_def opnd_def)

lemma wpj_lift_jmp:
  assumes s: "sim s \<sigma> \<rho> m" and o: "opnd s 0 op" and t: "jmp_target s op = Some b"
  shows "wpj S lift_jmp (jumps s \<rho> m b) s \<sigma>"
  unfolding lift_jmp_def wpj_getOperand[OF o]
proof (cases "\<exists>e. op = ExprOp e")
  case True
  with t obtain n where n: "op = ExprOp (SymbolRef n)" "find_block n (fn s) 0 = Some b"
    by (auto simp: jmp_target_def split: mcexpr.splits)
  show "wpj S (case op of ExprOp e \<Rightarrow> bnd (getBB op) (\<lambda>bb. bnd (from_option (Assertion ''bb'') bb) createBranch)
    | _ \<Rightarrow> bnd (gets (snd \<circ> MCBB)) (\<lambda>succs. if length succs = 1 then bnd (getBBByName (succs ! 0)) createBranch
        else fail (Assertion ''MCBB->getSuccs().size() == 1''))) (jumps s \<rho> m b) s \<sigma>"
    using wpj_jump_end[OF s, of b] n by (simp add: wpj_def bnd_def getBB_def)
next
  case False
  with t obtain n where n: "snd (MCBB s) = [n]" "find_block n (fn s) 0 = Some b"
    by (cases op) (auto simp: jmp_target_def split: list.splits)
  show "wpj S (case op of ExprOp e \<Rightarrow> bnd (getBB op) (\<lambda>bb. bnd (from_option (Assertion ''bb'') bb) createBranch)
    | _ \<Rightarrow> bnd (gets (snd \<circ> MCBB)) (\<lambda>succs. if length succs = 1 then bnd (getBBByName (succs ! 0)) createBranch
        else fail (Assertion ''MCBB->getSuccs().size() == 1''))) (jumps s \<rho> m b) s \<sigma>"
    using wpj_jump_end[OF s, of b] n False
    by (cases op) (simp_all add: wpj_def bnd_def getBBByName_def)
qed

lemma wp_trunc_any:
  assumes "wf s" and v: "hw S s \<sigma> v (x :: 64 word)" and "w < 64"
    and Q: "\<And>r s' \<sigma>'. pure s \<sigma> s' \<sigma>' \<Longrightarrow> holds S s' \<sigma>' r (VInt w (take_bit w (uint x))) \<Longrightarrow> Q r s' \<sigma>'"
  shows "wp S (createTrunc v (IntTy w)) Q s \<sigma>"
  using assms cast_trunc[OF in_width_uint_num(1) \<open>w < 64\<close>, of x]
  by (auto simp: createTrunc_def exec_instr_def hw_def holds_def
      intro!: wp_emit_named[where x="VInt w (take_bit w (uint x))"])

lemma wpj_return_end:
  assumes s: "sim s \<sigma> \<rho> m" and v: "holds S s \<sigma> v x"
  shows "wpj S (createReturn (Some v)) (returns_with (Some x) m) s \<sigma>"
  by (rule wpj_createReturn[OF sim_wf[OF s] v]) (use s in \<open>auto simp: returns_with_def sim_def\<close>)

lemma wp_zext_trunc32: "implements1 S (\<lambda>v. bnd (createTrunc v (IntTy 32)) (\<lambda>v. createZExt v (IntTy 64)))
    (\<lambda>x :: 64 word. zext32 (low32 x))"
  unfolding zext32_def low32_def by (rule implements1_comp[OF trunc64_32 zext64(3)])

lemma wpj_doReturn:
  assumes s: "sim s \<sigma> \<rho> m" and E: "returnable E"
  shows "wpj S (doReturn E) (returns_with (return_value E (\<rho> 0)) m) s \<sigma>"
proof (cases "srcRetTy E = VoidTy")
  case True
  have "wpj S (createReturn None) (returns_with None m) s \<sigma>"
    by (rule wpj_createReturn_void[OF sim_wf[OF s]]) (use s in \<open>auto simp: returns_with_def sim_def\<close>)
  with True show ?thesis by (simp add: doReturn_def return_value_def)
next
  case nv: False
  have r0: "reg_no (R 0) = Some 0" by simp
  show ?thesis
    unfolding doReturn_def if_not_P[OF nv]
  proof (rule wpj_bnd, rule wp_readReg64[OF s r0], rule wpj_bnd)
    fix v s1 \<sigma>1 assume 1: "pure s \<sigma> s1 \<sigma>1" "hw S s1 \<sigma>1 v (\<rho> 0)"
    have fin: "wpj S (createReturn (Some u)) (returns_with (return_value E (\<rho> 0)) m) s2 \<sigma>2"
      if "pure s1 \<sigma>1 s2 \<sigma>2" "holds S s2 \<sigma>2 u x" "return_value E (\<rho> 0) = Some x" for u s2 \<sigma>2 x
      using wpj_return_end[OF sim_pure[OF s pure_trans[OF 1(1) that(1)]] that(2)] that(3) by simp
    have tb: "take_bit 64 (uint (\<rho> 0)) = uint (\<rho> 0)" using uint_ucast_down[of "\<rho> 0", where 'v=64] by simp
    show "wp S (if srcRetTy E = PtrTy then newIntToPtr v
       else bnd (from_option (Assertion ''sized type'') (getBitWidth (srcRetTy E))) (\<lambda>retWidth.
         bnd (if retWidth < 64 then createTrunc v (IntTy retWidth) else ret v) (\<lambda>retVal.
         if has_ret_attr E \<and> origRetWidth E < 32 then
           andthen (check (origRetWidth E \<le> retWidth) (Assertion ''retWidth >= origRetWidth''))
           (andthen (check (retWidth = 64) (Assertion ''retWidth == 64''))
           (bnd (createTrunc retVal (IntTy 32)) (\<lambda>v. createZExt v (IntTy 64))))
         else ret retVal)))
      (\<lambda>u s' \<sigma>'. wpj S (createReturn (Some u)) (returns_with (return_value E (\<rho> 0)) m) s' \<sigma>') s1 \<sigma>1"
    proof (cases "srcRetTy E = PtrTy")
      case True
      then show ?thesis
        using wp_inttoptr[OF pure_wf[OF 1(1)] 1(2)] fin by (auto simp: hp_def return_value_def)
    next
      case False
      with E nv obtain w where w: "w \<le> 64" "srcRetTy E = IntTy w"
        "has_ret_attr E \<and> origRetWidth E < 32 \<longrightarrow> w = 64"
        by (auto simp: returnable_def)
      show ?thesis
      proof (cases "has_ret_attr E \<and> origRetWidth E < 32")
        case True
        show ?thesis
          using implements1D[OF wp_zext_trunc32 pure_wf[OF 1(1)] 1(2)] fin True w
          by (auto simp: return_value_def hw_def bnd_ret wp_checked wp_bnd wp_from_option from_option_def)
      next
        case na: False
        show ?thesis
        proof (cases "w < 64")
          case True
          show ?thesis
            using wp_trunc_any[OF pure_wf[OF 1(1)] 1(2) True] fin True w na
            by (auto simp: return_value_def bnd_ret bnd_ret_right from_option_def)
        next
          case False
          with w na have "return_value E (\<rho> 0) = Some (VInt 64 (uint (\<rho> 0)))"
            by (auto simp: return_value_def tb)
          with fin[OF pure_refl[OF pure_wf[OF 1(1)]]] 1(2) w na False show ?thesis
            by (auto simp: hw_def bnd_ret bnd_ret_right from_option_def intro!: wp_ret)
        qed
      qed
    qed
  qed
qed

end

end
