(* ===== verification/Lift_Inst.thy ===== *)
theory Lift_Inst
  imports Lift_Flow
begin

text \<open>
  The groups put together: a lifted instruction simulates the abstract machine's, whatever its
  opcode; so does a straight-line sequence of instructions; and a terminator leaves for the block,
  or returns with the value, the abstract machine determines.
\<close>

section \<open>Operand shapes of well-formed instructions\<close>

lemma isa_alu_cases:
  assumes "isa_alu n w ops \<rho> = Some \<rho>'"
  obtains d src i where "ops = [RegOp d, RegOp d, src]" "reg_no d = Some i"
    "(case w of B64 \<Rightarrow> map_option (\<lambda>y. \<rho>(i := alu_sem n (\<rho> i) y)) (src64 \<rho> src)
       | B32 \<Rightarrow> map_option (\<lambda>y. \<rho>(i := zext32 (alu_sem n (low32 (\<rho> i)) y))) (src32 \<rho> src)) = Some \<rho>'"
  using assms unfolding isa_alu_def
  by (auto split: list.splits mcoperand.splits if_splits simp: bind_eq_Some_conv)

lemma isa_unary_cases:
  assumes "isa_unary f ops \<rho> = Some \<rho>'"
  obtains d r i j where "ops = [RegOp d, RegOp r]" "reg_no d = Some i" "reg_no r = Some j" "\<rho>' = \<rho>(i := f (\<rho> j))"
  using assms unfolding isa_unary_def
  by (auto split: list.splits mcoperand.splits simp: bind_eq_Some_conv)

lemma isa_mov_imm_cases:
  assumes "isa_mov_imm ok f ops \<rho> = Some \<rho>'"
  obtains d k i where "ops = [RegOp d, ImmOp k]" "reg_no d = Some i" "ok k" "\<rho>' = \<rho>(i := f k)"
  using assms unfolding isa_mov_imm_def
  by (auto split: list.splits mcoperand.splits if_splits)

lemma isa_load_cases:
  assumes "isa_load S n ops (\<rho>, m) = Some (\<rho>', m')"
  obtains d b off i a v where "ops = [RegOp d, RegOp b, ImmOp off]" "reg_no d = Some i"
    "mem_addr \<rho> b off = Some a" "load_sem S m a n = Some v" "\<rho>' = \<rho>(i := v)" "m' = m"
  using assms unfolding isa_load_def
  by (auto split: list.splits mcoperand.splits simp: bind_eq_Some_conv)

lemma isa_store_cases:
  assumes "isa_store S n ops (\<rho>, m) = Some (\<rho>', m')"
  obtains r b off i a where "ops = [RegOp r, RegOp b, ImmOp off]" "reg_no r = Some i"
    "mem_addr \<rho> b off = Some a" "store_sem S m a n (\<rho> i) = Some m'" "\<rho>' = \<rho>"
  using assms unfolding isa_store_def
  by (auto split: list.splits mcoperand.splits simp: bind_eq_Some_conv)

lemma isa_store_imm_cases:
  assumes "isa_store_imm S n ops (\<rho>, m) = Some (\<rho>', m')"
  obtains k b off a where "ops = [ImmOp k, RegOp b, ImmOp off]"
    "mem_addr \<rho> b off = Some a" "store_imm_sem S m a n k = Some m'" "\<rho>' = \<rho>"
  using assms unfolding isa_store_imm_def
  by (auto split: list.splits mcoperand.splits simp: bind_eq_Some_conv)

lemma isa_atomic_cases:
  assumes "isa_atomic S n ops (\<rho>, m) = Some (\<rho>', m')"
  obtains d b off i a rop w fetch old where "ops = [RegOp d, RegOp b, ImmOp off, RegOp d]" "reg_no d = Some i"
    "mem_addr \<rho> b off = Some a" "atomic_sem n = (rop, w, fetch)" "rmw_sem S m a rop w (\<rho> i) = Some (old, m')"
    "\<rho>' = (if fetch then \<rho>(i := old) else \<rho>)"
proof -
  obtain rop w fetch where n: "atomic_sem n = (rop, w, fetch)" by (cases "atomic_sem n")
  show thesis
    using assms that n unfolding isa_atomic_def
    by (auto split: list.splits mcoperand.splits if_split_asm simp: bind_eq_Some_conv)
qed

lemma isa_cmpxchg_cases:
  assumes "isa_cmpxchg S w ops (\<rho>, m) = Some (\<rho>', m')"
  obtains b off r i a old where "ops = [RegOp b, ImmOp off, RegOp r]" "reg_no r = Some i"
    "mem_addr \<rho> b off = Some a" "cmpxchg_sem S m a w (\<rho> 0) (\<rho> i) = Some (old, m')" "\<rho>' = \<rho>(0 := old)"
  using assms unfolding isa_cmpxchg_def
  by (auto split: list.splits mcoperand.splits simp: bind_eq_Some_conv)

context langref
begin

section \<open>One instruction\<close>

lemma wp_lift_ALU:
  assumes s: "sim s \<sigma> \<rho> m" and I: "isa_alu n w (operands (CurInst s)) \<rho> = Some \<rho>'"
  shows "wp S (case w of B64 \<Rightarrow> lift_alu64 n | B32 \<Rightarrow> lift_alu32 n) (done_with s \<rho>' m) s \<sigma>"
  using I
proof (cases rule: isa_alu_cases)
  case (1 d src i)
  then show ?thesis
    using wp_lift_alu64[OF s 1(1,2,2)] wp_lift_alu32[OF s 1(1,2,2)] by (cases w) auto
qed

lemma wp_lift_UNARY:
  assumes s: "sim s \<sigma> \<rho> m" and I: "isa_unary f (operands (CurInst s)) \<rho> = Some \<rho>'"
    and w: "\<And>d r i j. opnd s 0 (RegOp d) \<Longrightarrow> opnd s 1 (RegOp r) \<Longrightarrow> reg_no d = Some i \<Longrightarrow> reg_no r = Some j \<Longrightarrow>
      wp S a (done_with s (\<rho>(i := f (\<rho> j))) m) s \<sigma>"
  shows "wp S a (done_with s \<rho>' m) s \<sigma>"
  using I
proof (cases rule: isa_unary_cases)
  case (1 d r i j)
  then show ?thesis using w[of d r i j] opnd_ops[OF 1(1)] by simp
qed

lemma wp_lift_IMM:
  assumes s: "sim s \<sigma> \<rho> m" and I: "isa_mov_imm ok f (operands (CurInst s)) \<rho> = Some \<rho>'"
    and w: "\<And>d k i. opnd s 0 (RegOp d) \<Longrightarrow> opnd s 1 (ImmOp k) \<Longrightarrow> reg_no d = Some i \<Longrightarrow> ok k \<Longrightarrow>
      wp S a (done_with s (\<rho>(i := f k)) m) s \<sigma>"
  shows "wp S a (done_with s \<rho>' m) s \<sigma>"
  using I
proof (cases rule: isa_mov_imm_cases)
  case (1 d k i)
  then show ?thesis using w[of d k i] opnd_ops[OF 1(1)] by simp
qed

lemma wp_lift_LOAD:
  assumes s: "sim s \<sigma> \<rho> m" and I: "isa_load S n (operands (CurInst s)) (\<rho>, m) = Some (\<rho>', m')"
  shows "wp S (lift_load n) (done_with s \<rho>' m') s \<sigma>"
  using I
proof (cases rule: isa_load_cases)
  case (1 d b off i a v)
  then show ?thesis using wp_lift_load[OF s _ _ _ 1(2,3,4)] opnd_ops[OF 1(1)] by simp
qed

lemma wp_lift_STORE:
  assumes s: "sim s \<sigma> \<rho> m" and I: "isa_store S n (operands (CurInst s)) (\<rho>, m) = Some (\<rho>', m')"
  shows "wp S (lift_store n) (done_with s \<rho>' m') s \<sigma>"
  using I
proof (cases rule: isa_store_cases)
  case (1 r b off i a)
  then show ?thesis using wp_lift_store[OF s _ _ _ 1(2,3,4)] opnd_ops[OF 1(1)] by simp
qed

lemma wp_lift_STORE_IMM:
  assumes s: "sim s \<sigma> \<rho> m" and I: "isa_store_imm S n (operands (CurInst s)) (\<rho>, m) = Some (\<rho>', m')"
  shows "wp S (lift_store_imm n) (done_with s \<rho>' m') s \<sigma>"
  using I
proof (cases rule: isa_store_imm_cases)
  case (1 k b off a)
  then show ?thesis using wp_lift_store_imm[OF s _ _ _ 1(2,3)] opnd_ops[OF 1(1)] by simp
qed

lemma wp_lift_ATOMIC:
  assumes s: "sim s \<sigma> \<rho> m" and I: "isa_atomic S n (operands (CurInst s)) (\<rho>, m) = Some (\<rho>', m')"
  shows "wp S (lift_atomic n) (done_with s \<rho>' m') s \<sigma>"
  using I
proof (cases rule: isa_atomic_cases)
  case (1 d b off i a rop w fetch old)
  then have eq: "rop = atomic_binop n" "w = (if atomic_is64 n then B64 else B32)" "fetch = atomic_fetch n"
    by (simp_all add: atomic_sem_eq)
  note o = opnd_ops[OF 1(1)]
  show ?thesis
  proof (cases "atomic_is64 n")
    case True
    then show ?thesis
      using wp_lift_atomic64[OF s _ _ _ _ 1(2,3) True, of old m'] 1(5,6) eq o by simp
  next
    case False
    then show ?thesis
      using wp_lift_atomic32[OF s _ _ _ _ 1(2,3) False, of old m'] 1(5,6) eq o by simp
  qed
qed

lemma wp_lift_CMPXCHG:
  assumes s: "sim s \<sigma> \<rho> m" and I: "isa_cmpxchg S w (operands (CurInst s)) (\<rho>, m) = Some (\<rho>', m')"
  shows "wp S (lift_cmpxchg w) (done_with s \<rho>' m') s \<sigma>"
  using I
proof (cases rule: isa_cmpxchg_cases)
  case (1 b off r i a old)
  note o = opnd_ops[OF 1(1)]
  show ?thesis
    using wp_lift_cmpxchg64[OF s _ _ _ 1(2,3), of old m'] wp_lift_cmpxchg32[OF s _ _ _ 1(2,3), of old m'] 1(4,5) o
    by (cases w) simp_all
qed

lemma wp_lift:
  assumes s: "sim s \<sigma> \<rho> m" and I: "CurInst s = I" and x: "isa_exec S I (\<rho>, m) = Some (\<rho>', m')"
  shows "wp S (lift E I) (done_with s \<rho>' m') s \<sigma>"
proof (cases "getOpcode I")
  case NOP
  with s x show ?thesis by (auto simp: lift_def isa_exec_def done_with_def intro: wp_ret)
next
  case (ALU n k w)
  with x I have "isa_alu n w (operands (CurInst s)) \<rho> = Some \<rho>'" "m' = m" by (auto simp: isa_exec_def)
  with wp_lift_ALU[OF s, of n w \<rho>'] ALU show ?thesis by (cases w) (auto simp: lift_def)
next
  case NEG_64
  with x I have "isa_unary uminus (operands (CurInst s)) \<rho> = Some \<rho>'" "m' = m" by (auto simp: isa_exec_def)
  with wp_lift_UNARY[OF s] wp_lift_neg(1)[OF s] NEG_64 show ?thesis by (auto simp: lift_def)
next
  case NEG_32
  with x I have "isa_unary (\<lambda>x. zext32 (- low32 x)) (operands (CurInst s)) \<rho> = Some \<rho>'" "m' = m"
    by (auto simp: isa_exec_def)
  with wp_lift_UNARY[OF s] wp_lift_neg(2)[OF s] NEG_32 show ?thesis by (auto simp: lift_def)
next
  case MOV_rr
  with x I have "isa_unary id (operands (CurInst s)) \<rho> = Some \<rho>'" "m' = m" by (auto simp: isa_exec_def)
  with wp_lift_UNARY[OF s, of id] wp_movs(1)[OF s] MOV_rr show ?thesis by (auto simp: lift_def)
next
  case MOV_ri
  with x I have "isa_mov_imm imm32 word_of_int (operands (CurInst s)) \<rho> = Some \<rho>'" "m' = m"
    by (auto simp: isa_exec_def)
  with wp_lift_IMM[OF s] wp_mov_imm(1)[OF s] MOV_ri show ?thesis by (auto simp: lift_def)
next
  case MOV_rr_32
  with x I have "isa_unary (zext32 \<circ> low32) (operands (CurInst s)) \<rho> = Some \<rho>'" "m' = m"
    by (auto simp: isa_exec_def)
  with wp_lift_UNARY[OF s, of "zext32 \<circ> low32"] wp_movs(2)[OF s] MOV_rr_32 show ?thesis by (auto simp: lift_def)
next
  case MOV_ri_32
  with x I have "isa_mov_imm imm32 (\<lambda>i. zext32 (word_of_int i)) (operands (CurInst s)) \<rho> = Some \<rho>'" "m' = m"
    by (auto simp: isa_exec_def)
  with wp_lift_IMM[OF s] wp_mov_imm(2)[OF s] MOV_ri_32 show ?thesis by (auto simp: lift_def)
next
  case MOV_32_64
  with x I have "isa_unary (zext32 \<circ> low32) (operands (CurInst s)) \<rho> = Some \<rho>'" "m' = m"
    by (auto simp: isa_exec_def)
  with wp_lift_UNARY[OF s, of "zext32 \<circ> low32"] wp_movs(2)[OF s] MOV_32_64 show ?thesis by (auto simp: lift_def)
next
  case (MOVSX n)
  with x I have "isa_unary (movsx_sem n) (operands (CurInst s)) \<rho> = Some \<rho>'" "m' = m" by (auto simp: isa_exec_def)
  with wp_lift_UNARY[OF s, of "movsx_sem n"] wp_lift_movsx[OF s] MOVSX show ?thesis by (auto simp: lift_def)
next
  case LD_imm64
  with x I have "isa_mov_imm (\<lambda>i. True) word_of_int (operands (CurInst s)) \<rho> = Some \<rho>'" "m' = m"
    by (auto simp: isa_exec_def)
  with wp_lift_IMM[OF s] wp_ld_imm64[OF s] LD_imm64 show ?thesis by (auto simp: lift_def)
next
  case (ENDIAN n)
  with x I have "isa_unary (endian_sem n) (operands (CurInst s)) \<rho> = Some \<rho>'" "m' = m" by (auto simp: isa_exec_def)
  with wp_lift_UNARY[OF s, of "endian_sem n"] wp_lift_endian[OF s] ENDIAN show ?thesis by (auto simp: lift_def)
next
  case (LOAD n)
  with x I wp_lift_LOAD[OF s] show ?thesis by (simp add: lift_def isa_exec_def)
next
  case (STORE n)
  with x I wp_lift_STORE[OF s] show ?thesis by (simp add: lift_def isa_exec_def)
next
  case (STORE_IMM n)
  with x I wp_lift_STORE_IMM[OF s] show ?thesis by (simp add: lift_def isa_exec_def)
next
  case (ATOMIC n)
  with x I wp_lift_ATOMIC[OF s] show ?thesis by (simp add: lift_def isa_exec_def)
next
  case CMPXCHGD
  with x I wp_lift_CMPXCHG[OF s] show ?thesis by (simp add: lift_def isa_exec_def)
next
  case CMPXCHGW32
  with x I wp_lift_CMPXCHG[OF s] show ?thesis by (simp add: lift_def isa_exec_def)
qed (use x in \<open>simp_all add: isa_exec_def\<close>)

section \<open>Terminators\<close>

lemma isa_compare_cases:
  assumes "isa_compare f g w ops \<rho> = Some b"
  obtains d src rest i where "ops = RegOp d # src # rest" "reg_no d = Some i"
    "(case w of B64 \<Rightarrow> map_option (f (\<rho> i)) (src64 \<rho> src) | B32 \<Rightarrow> map_option (g (low32 (\<rho> i))) (src32 \<rho> src)) = Some b"
  using assms unfolding isa_compare_def
  by (auto split: list.splits mcoperand.splits simp: bind_eq_Some_conv)

end

text \<open>The block a branch instruction transfers to when it is taken (\<open>b\<close>) or not.\<close>

definition dest_block :: "lstate \<Rightarrow> mcinst \<Rightarrow> bool \<Rightarrow> nat option" where
  "dest_block s I b = (if getOpcode I \<in> {JMP, JMPL}
     then (case operands I of op # _ \<Rightarrow> jmp_target s op | [] \<Rightarrow> None)
     else (case operands I of
       [_, _, ExprOp (SymbolRef t)] \<Rightarrow> if length (snd (MCBB s)) \<notin> {1, 2} then None else
         (case (find_block t (fn s) 0, find_block (fallthrough t (snd (MCBB s))) (fn s) 0) of
            (Some bt, Some bf) \<Rightarrow> Some (if b then bt else bf) | _ \<Rightarrow> None)
     | _ \<Rightarrow> None))"

lemma dest_block_cond:
  assumes "dest_block s I b = Some t" and "getOpcode I \<notin> {JMP, JMPL}"
  obtains x y op bt bf where "operands I = [x, y, op]" "branch_targets s op bt bf" "t = (if b then bt else bf)"
  using assms unfolding dest_block_def branch_targets_def
  by (auto split: list.splits mcoperand.splits mcexpr.splits option.splits if_splits)

context langref
begin

lemma wpj_lift_cond:
  assumes s: "sim s \<sigma> \<rho> m" and I: "CurInst s = I" and x: "isa_taken I \<rho> = Some b"
    and t: "dest_block s I b = Some t" and c: "getOpcode I \<notin> {JMP, JMPL}"
  shows "wpj S (lift E I) (jumps s \<rho> m t) s \<sigma>"
  using t c
proof (cases rule: dest_block_cond)
  case (1 u v op bt bf)
  have "operands (CurInst s) = [u, v, op]" using 1(1) I by simp
  note o = opnd_ops[OF this]
  show ?thesis
  proof (cases "getOpcode I")
    case (JCOND cn k w)
    with x have "isa_compare (cond_sem cn) (cond_sem cn) w (operands I) \<rho> = Some b" by (simp add: isa_taken_def)
    then show ?thesis
    proof (cases rule: isa_compare_cases)
      case (1 d src rest i)
      with \<open>operands I = [u, v, op]\<close> have "u = RegOp d" "v = src" by simp_all
      with wpj_lift_jcond[OF s, of d src op bt bf i cn w b] 1 o JCOND \<open>branch_targets s op bt bf\<close>
        \<open>t = (if b then bt else bf)\<close>
      show ?thesis by (simp add: lift_def)
    qed
  next
    case (JSET k w)
    with x have "isa_compare (\<lambda>x y. x AND y \<noteq> 0) (\<lambda>x y. x AND y \<noteq> 0) w (operands I) \<rho> = Some b"
      by (simp add: isa_taken_def)
    then show ?thesis
    proof (cases rule: isa_compare_cases)
      case (1 d src rest i)
      with \<open>operands I = [u, v, op]\<close> have "u = RegOp d" "v = src" by simp_all
      with wpj_lift_jset[OF s, of d src op bt bf i w b] 1 o JSET \<open>branch_targets s op bt bf\<close>
        \<open>t = (if b then bt else bf)\<close>
      show ?thesis by (simp add: lift_def)
    qed
  qed (use x c in \<open>auto simp: isa_taken_def\<close>)
qed

lemma wpj_lift:
  assumes s: "sim s \<sigma> \<rho> m" and I: "CurInst s = I" and x: "isa_taken I \<rho> = Some b"
    and t: "dest_block s I b = Some t"
  shows "wpj S (lift E I) (jumps s \<rho> m t) s \<sigma>"
proof (cases "getOpcode I \<in> {JMP, JMPL}")
  case True
  with t obtain op rest where op: "operands I = op # rest" "jmp_target s op = Some t"
    by (auto simp: dest_block_def split: list.splits)
  then have "opnd s 0 op" using I by (simp add: opnd_def)
  with wpj_lift_jmp[OF s this op(2)] True show ?thesis by (auto simp: lift_def)
qed (rule wpj_lift_cond[OF assms])

lemma wpj_lift_ret:
  assumes "sim s \<sigma> \<rho> m" and "returnable E" and "getOpcode I = RET"
  shows "wpj S (lift E I) (returns_with (return_value E (\<rho> 0)) m) s \<sigma>"
  using wpj_doReturn[OF assms(1,2)] assms(3) by (simp add: lift_def)

end

section \<open>Sequences\<close>

text \<open>What lifting an instruction keeps of the lifter's state besides the current instruction.\<close>

definition same_fun :: "lstate \<Rightarrow> lstate \<Rightarrow> bool" where
  "same_fun s s' \<longleftrightarrow> RegFile s' = RegFile s \<and> MCBB s' = MCBB s \<and> bytesMode s' = bytesMode s
     \<and> stackMem s' = stackMem s
     \<and> (\<forall>b < length (fn s). fst (fn s' ! b) = fst (fn s ! b)) \<and> length (fn s) \<le> length (fn s')"

lemma same_fun_refl: "same_fun s s"
  by (simp add: same_fun_def)

lemma same_fun_trans: "same_fun s s' \<Longrightarrow> same_fun s' s'' \<Longrightarrow> same_fun s s''"
  by (auto simp: same_fun_def)

lemma same_ctx_fun: "same_ctx s s' \<Longrightarrow> same_fun s s'"
  by (simp add: same_ctx_def same_fun_def)

definition reaches :: "lstate \<Rightarrow> regs \<Rightarrow> 'm \<Rightarrow> unit \<Rightarrow> lstate \<Rightarrow> 'm machine \<Rightarrow> bool" where
  "reaches s \<rho> m u s' \<sigma>' \<longleftrightarrow> sim s' \<sigma>' \<rho> m \<and> same_fun s s'"

text \<open>Updates of the lifter's bookkeeping emit nothing and keep the registers where they are.\<close>

lemma sim_updates [simp]:
  "sim (s\<lparr>PrevInst := p\<rparr>) \<sigma> \<rho> m = sim s \<sigma> \<rho> m" "sim (s\<lparr>CurInst := I\<rparr>) \<sigma> \<rho> m = sim s \<sigma> \<rho> m"
  "sim (s\<lparr>llvmInstNum := n\<rparr>) \<sigma> \<rho> m = sim s \<sigma> \<rho> m" "sim (s\<lparr>armInstNum := n\<rparr>) \<sigma> \<rho> m = sim s \<sigma> \<rho> m"
  "sim (s\<lparr>MCBB := b\<rparr>) \<sigma> \<rho> m = sim s \<sigma> \<rho> m"
  by (simp_all add: sim_def wf_def reg_at_def hslot_def)

lemma same_fun_updates [simp]:
  "same_fun s (s'\<lparr>PrevInst := p\<rparr>) = same_fun s s'" "same_fun (s\<lparr>PrevInst := p\<rparr>) s' = same_fun s s'"
  "same_fun s (s'\<lparr>CurInst := I\<rparr>) = same_fun s s'" "same_fun (s\<lparr>CurInst := I\<rparr>) s' = same_fun s s'"
  "same_fun s (s'\<lparr>llvmInstNum := n\<rparr>) = same_fun s s'" "same_fun (s\<lparr>llvmInstNum := n\<rparr>) s' = same_fun s s'"
  "same_fun s (s'\<lparr>armInstNum := n\<rparr>) = same_fun s s'" "same_fun (s\<lparr>armInstNum := n\<rparr>) s' = same_fun s s'"
  by (simp_all add: same_fun_def)

lemma wp_modify:
  assumes "\<And>s. fn (f s) = fn s" and "\<And>s. LLVMBB (f s) = LLVMBB s" and "\<And>s. nid (f s) = nid s" and "Q () (f s) \<sigma>"
  shows "wp S (modify f) Q s \<sigma>"
  unfolding wp_def using assms by (auto simp: grows_def cur_def intro!: exI[of _ \<sigma>])

text \<open>Running a straight-line sequence on the abstract machine.\<close>

fun isa_run :: "'m llvm_sem \<Rightarrow> mcinst list \<Rightarrow> regs \<times> 'm \<Rightarrow> (regs \<times> 'm) option" where
  "isa_run S [] st = Some st"
| "isa_run S (I # Is) st = Option.bind (isa_exec S I st) (isa_run S Is)"

context langref
begin

lemma wp_liftInst:
  assumes s: "sim s \<sigma> \<rho> m" and x: "isa_exec S I (\<rho>, m) = Some (\<rho>', m')"
  shows "wp S (liftInst E I) (reaches s \<rho>' m') s \<sigma>"
  unfolding liftInst_def
proof (rule wp_andthen, rule wp_modify)
  let ?s = "s\<lparr>PrevInst := Some (CurInst s), CurInst := I\<rparr>"
  from s have "sim ?s \<sigma> \<rho> m" by simp
  from wp_lift[OF this _ x, of E] have "wp S (lift E I) (done_with ?s \<rho>' m') ?s \<sigma>" by simp
  then show "wp S (lift E I) (reaches s \<rho>' m') ?s \<sigma>"
    by (rule wp_weaken) (auto simp: done_with_def reaches_def dest!: same_ctx_fun)
qed simp_all

lemma wp_lift_instrs:
  "sim s \<sigma> \<rho> m \<Longrightarrow> isa_run S Is (\<rho>, m) = Some (\<rho>', m') \<Longrightarrow> wp S (lift_instrs E Is) (reaches s \<rho>' m') s \<sigma>"
proof (induction Is arbitrary: s \<sigma> \<rho> m)
  case Nil
  then have "reaches s \<rho>' m' () s \<sigma>" by (simp add: reaches_def same_fun_refl)
  then show ?case unfolding lift_instrs_def for_each.simps by (rule wp_ret)
next
  case (Cons I Is)
  from Cons.prems(2) obtain \<rho>1 m1 where 1: "isa_exec S I (\<rho>, m) = Some (\<rho>1, m1)" "isa_run S Is (\<rho>1, m1) = Some (\<rho>', m')"
    by (auto simp: bind_eq_Some_conv)
  let ?one = "andthen (modify (\<lambda>s. s\<lparr>llvmInstNum := 0\<rparr>))
    (andthen (liftInst E I) (modify (\<lambda>s. s\<lparr>armInstNum := Suc (armInstNum s)\<rparr>)))"
  have "wp S ?one (reaches s \<rho>1 m1) s \<sigma>"
  proof (rule wp_andthen, rule wp_modify, simp_all, rule wp_andthen)
    let ?s = "s\<lparr>llvmInstNum := 0\<rparr>"
    from Cons.prems(1) have s': "sim ?s \<sigma> \<rho> m" by simp
    show "wp S (liftInst E I) (\<lambda>_. wp S (modify (\<lambda>s. s\<lparr>armInstNum := Suc (armInstNum s)\<rparr>)) (reaches s \<rho>1 m1)) ?s \<sigma>"
      by (rule wp_weaken[OF wp_liftInst[OF s' 1(1)]], rule wp_modify) (simp_all add: reaches_def)
  qed
  then have "wp S ?one (\<lambda>_ s' \<sigma>'. wp S (lift_instrs E Is) (reaches s \<rho>' m') s' \<sigma>') s \<sigma>"
  proof (rule wp_weaken)
    fix v s1 \<sigma>1 assume r: "reaches s \<rho>1 m1 v s1 \<sigma>1"
    then have "wp S (lift_instrs E Is) (reaches s1 \<rho>' m') s1 \<sigma>1"
      by (intro Cons.IH[OF _ 1(2)]) (simp add: reaches_def)
    then show "wp S (lift_instrs E Is) (reaches s \<rho>' m') s1 \<sigma>1"
      by (rule wp_weaken) (use r same_fun_trans in \<open>auto simp: reaches_def\<close>)
  qed
  then show ?case
    unfolding lift_instrs_def for_each.simps by (rule wp_andthen)
qed

end

end
