(* ===== verification/Frame.thy ===== *)
theory Frame
  imports Bpf_Lift LLVM_Exec
begin

text \<open>
  The footprint of lifting an instruction, whatever the instruction: it appends code to the current
  block and to blocks it creates itself, and never moves the registers' storage or renames a block. This
  holds for every successful run of the lifter's actions, without any assumption on the emitted
  code's execution.
\<close>

section \<open>The relation\<close>

definition frame :: "lstate \<Rightarrow> lstate \<Rightarrow> bool" where
  "frame s0 s \<longleftrightarrow> code_le (fn s0) (fn s) \<and> nid s0 \<le> nid s \<and> RegFile s = RegFile s0 \<and> MCBB s = MCBB s0
     \<and> stackMem s = stackMem s0 \<and> bytesMode s = bytesMode s0
     \<and> (\<forall>b < length (fn s0). b \<noteq> LLVMBB s0 \<longrightarrow> fn s ! b = fn s0 ! b)
     \<and> (LLVMBB s = LLVMBB s0 \<or> length (fn s0) \<le> LLVMBB s)"

named_theorems frame_intro \<open>actions that stay within their footprint\<close>

definition fr :: "lstate \<Rightarrow> 'a lifter \<Rightarrow> bool" where
  "fr s0 m \<longleftrightarrow> (\<forall>s v s'. frame s0 s \<longrightarrow> m s = Inr (v, s') \<longrightarrow> frame s0 s')"

lemma frame_refl [simp]: "frame s s"
  by (simp add: frame_def)

lemma frame_trans:
  assumes a: "frame s0 s1" and b: "frame s1 s2"
  shows "frame s0 s2"
proof -
  have l: "length (fn s0) \<le> length (fn s1)" using a by (simp add: frame_def code_le_def)
  have "fn s2 ! c = fn s0 ! c" if "c < length (fn s0)" "c \<noteq> LLVMBB s0" for c
  proof -
    from that a l have "c \<noteq> LLVMBB s1" "c < length (fn s1)" "fn s1 ! c = fn s0 ! c" by (auto simp: frame_def)
    with b show ?thesis by (simp add: frame_def)
  qed
  with a b l show ?thesis by (auto simp: frame_def intro: code_le_trans)
qed

lemma frI: "(\<And>s v s'. frame s0 s \<Longrightarrow> m s = Inr (v, s') \<Longrightarrow> frame s0 s') \<Longrightarrow> fr s0 m"
  by (simp add: fr_def)

lemma frD: "fr s0 m \<Longrightarrow> frame s0 s \<Longrightarrow> m s = Inr (v, s') \<Longrightarrow> frame s0 s'"
  by (auto simp: fr_def)

section \<open>Rules\<close>

lemma fr_ret [frame_intro]: "fr s0 (ret v)"
  by (auto intro: frI)

lemma fr_fail [frame_intro]: "fr s0 (fail e)"
  by (auto intro: frI)

lemma fr_Inl [frame_intro]: "fr s0 (\<lambda>s. Inl e)"
  by (auto intro: frI)

lemma fr_gets [frame_intro]: "fr s0 (gets f)"
  by (auto intro: frI)

lemma fr_check [frame_intro]: "fr s0 (check b e)"
  by (auto intro!: frI split: if_splits)

lemma fr_from_option [frame_intro]: "fr s0 (from_option e x)"
  by (cases x) (auto intro!: frI)

lemma fr_bnd [frame_intro]: "fr s0 m \<Longrightarrow> (\<And>v. fr s0 (k v)) \<Longrightarrow> fr s0 (bnd m k)"
  by (rule frI) (metis bnd_eq_Inr frD)

lemma fr_andthen [frame_intro]: "fr s0 m \<Longrightarrow> fr s0 k \<Longrightarrow> fr s0 (andthen m k)"
  unfolding andthen_def by (rule fr_bnd)

lemma fr_if [frame_intro]: "fr s0 a \<Longrightarrow> fr s0 b \<Longrightarrow> fr s0 (if c then a else b)"
  by simp

lemma fr_for_each [frame_intro]: "(\<And>x. fr s0 (f x)) \<Longrightarrow> fr s0 (for_each xs f)"
  by (induction xs) (simp_all add: fr_ret fr_andthen)

lemma fr_modify:
  assumes "\<And>s. fn (f s) = fn s" "\<And>s. nid (f s) = nid s" "\<And>s. RegFile (f s) = RegFile s" "\<And>s. MCBB (f s) = MCBB s"
    "\<And>s. stackMem (f s) = stackMem s" "\<And>s. bytesMode (f s) = bytesMode s" "\<And>s. LLVMBB (f s) = LLVMBB s"
  shows "fr s0 (modify f)"
  using assms by (auto intro!: frI simp: frame_def)

lemma append_insn_le: "b < length F \<Longrightarrow> code_le F (append_insn x b F)"
  by (auto simp: code_le_def append_insn_def nth_list_update)

lemma append_insn_out: "\<not> b < length F \<Longrightarrow> append_insn x b F = F"
  by (simp add: append_insn_def list_update_beyond)

lemma append_insn_length [simp]: "length (append_insn x b F) = length F"
  by (simp add: append_insn_def)

lemma fr_emit [frame_intro]: "fr s0 (emit nm t ins)"
proof (rule frI)
  fix s v s' assume f: "frame s0 s" and e: "emit nm t ins s = Inr (v, s')"
  then have s': "s' = s\<lparr>fn := append_insn (nid s, nm, ins) (LLVMBB s) (fn s), nid := Suc (nid s)\<rparr>"
    by (simp add: emit_def)
  have le: "code_le (fn s) (fn s')"
    by (cases "LLVMBB s < length (fn s)") (simp_all add: s' append_insn_le append_insn_out)
  have "fn s' ! b = fn s ! b" if "b \<noteq> LLVMBB s" for b using that by (simp add: s' append_insn_def)
  with le f show "frame s0 s'" by (intro frame_trans[OF f]) (auto simp: frame_def s')
qed

lemma fr_nextName [frame_intro]: "fr s0 nextName"
  by (auto intro!: frI simp: nextName_def frame_def)

lemma newBlock_frame: "frame s0 s \<Longrightarrow> newBlock nm s = Inr (b, s') \<Longrightarrow> frame s0 s' \<and> length (fn s0) \<le> b"
  by (auto simp: newBlock_def frame_def code_le_def nth_append)

lemma fr_newBlock:
  assumes "\<And>b. length (fn s0) \<le> b \<Longrightarrow> fr s0 (k b)"
  shows "fr s0 (bnd (newBlock nm) k)"
proof (rule frI)
  fix s v s' assume f: "frame s0 s" and r: "bnd (newBlock nm) k s = Inr (v, s')"
  then obtain b s1 where "newBlock nm s = Inr (b, s1)" "k b s1 = Inr (v, s')" by (auto simp: bnd_eq_Inr)
  with newBlock_frame[OF f this(1)] assms show "frame s0 s'" by (blast intro: frD)
qed

lemma fr_set_bb [frame_intro]: "length (fn s0) \<le> b \<Longrightarrow> fr s0 (set_bb b)"
  by (auto intro!: frI simp: set_bb_def frame_def)

section \<open>The builder\<close>

lemmas builder_defs = bit_width_def getUnsignedIntConst_def getSignedIntConst_def createAlloca_def createGEP_def
  createCondBranch_def createBranch_def createLoad_def createStore_def createSelect_def createICmp_def createBinop_def
  createSub_def createRawShl_def createAnd_def createOr_def createBSwap_def createTrunc_def createSExt_def createZExt_def
  createReturn_def newPtrToInt_def newIntToPtr_def emit_void_def emit_named_def

lemma fr_getMaskByType [frame_intro]: "fr s0 (getMaskByType t)"
  by (cases t) (auto simp: builder_defs intro!: frame_intro split: ty.splits)

lemma fr_createExtractValue [frame_intro]: "fr s0 (createExtractValue v i)"
  by (auto simp: createExtractValue_def emit_named_def intro!: frame_intro split: ty.splits)

lemma fr_builder [frame_intro]:
  "fr s0 (bit_width v)" "fr s0 (getUnsignedIntConst x n)" "fr s0 (getSignedIntConst x n)" "fr s0 (createAlloca t v nm)"
  "fr s0 (createGEP t v w nm)" "fr s0 (createCondBranch v i j)" "fr s0 (createBranch i)" "fr s0 (createLoad t v)"
  "fr s0 (createStore v w)" "fr s0 (createSelect v w u)" "fr s0 (createICmp p v w)" "fr s0 (createBinop v w bop)"
  "fr s0 (createSub v w)" "fr s0 (createRawShl v w)" "fr s0 (createAnd v w)" "fr s0 (createOr v w)" "fr s0 (createBSwap v)"
  "fr s0 (createTrunc v t)" "fr s0 (createSExt v t)" "fr s0 (createZExt v t)" "fr s0 (createReturn x')"
  "fr s0 (newPtrToInt v t)" "fr s0 (newIntToPtr v)" "fr s0 (emit_void ins)" "fr s0 (emit_named t ins)"
  unfolding builder_defs by (intro frame_intro)+

lemma fr_masked_shift [frame_intro]: "fr s0 (createMaskedShl a b)" "fr s0 (createMaskedLShr a b)" "fr s0 (createMaskedAShr a b)"
  unfolding createMaskedShl_def createMaskedLShr_def createMaskedAShr_def masked_shift_def by (intro frame_intro)+

lemma fr_checked_unsigned [frame_intro]: "fr s0 (createCheckedUDiv a b d)" "fr s0 (createCheckedURem a b d)"
  unfolding createCheckedUDiv_def createCheckedURem_def checked_unsigned_def
  by (rule fr_newBlock | assumption | rule frame_intro)+

lemma fr_checked_signed [frame_intro]: "fr s0 (createCheckedSDiv a b d e)" "fr s0 (createCheckedSRem a b d e)"
  unfolding createCheckedSDiv_def createCheckedSRem_def checked_signed_def
  by (rule fr_newBlock | assumption | rule frame_intro)+

section \<open>Registers, operands, calls\<close>

lemma fr_operands [frame_intro]:
  "fr s0 (getOperand i)" "fr s0 (getReg op)" "fr s0 (getImm op)" "fr s0 destReg"
  by (auto simp: getOperand_def getReg_def getImm_def destReg_def intro!: frame_intro split: mcoperand.splits)

lemma fr_mapReg [frame_intro]: "fr s0 (mapRegToBackingReg r)"
  by (auto simp: mapRegToBackingReg_def intro!: frame_intro split: reg.splits)

lemma fr_registers [frame_intro]:
  "fr s0 (lookupReg r)" "fr s0 (readReg64 r)" "fr s0 (readReg32 r)" "fr s0 (updateReg64 v r)" "fr s0 (updateReg32 v r)"
  "fr s0 (readRegOperand64 i)" "fr s0 (readRegOperand32 i)" "fr s0 (readPtrRegOperand i)" "fr s0 (readImmOperand i n)"
  unfolding lookupReg_def readReg64_def readReg32_def updateReg64_def updateReg32_def readRegOperand64_def
    readRegOperand32_def readPtrRegOperand_def readImmOperand_def
  by (intro frame_intro)+

lemma fr_readALUSrcOperand [frame_intro]: "fr s0 (readALUSrcOperand i n)"
  unfolding readALUSrcOperand_def by (rule fr_bnd) (auto intro!: frame_intro split: mcoperand.splits)

lemma fr_getMemPointerOperand [frame_intro]: "fr s0 (getMemPointerOperand i)"
  unfolding getMemPointerOperand_def by (intro frame_intro)

lemma fr_blocks [frame_intro]: "fr s0 (getBB op)" "fr s0 (getBBByName nm)"
  by (auto simp: getBB_def getBBByName_def intro!: frame_intro split: mcoperand.splits mcexpr.splits)

lemma fr_getBranchTargets [frame_intro]: "fr s0 (getBranchTargetsOperand i)"
  unfolding getBranchTargetsOperand_def
  by (rule fr_bnd) (auto intro!: frame_intro split: mcoperand.splits mcexpr.splits)

lemma fr_unspecified [frame_intro]: "fr s0 (unspecifiedValue n)" "fr s0 (invalidateReg r n)"
  unfolding invalidateReg_def unspecifiedValue_def by (rule fr_modify | simp | intro frame_intro)+

lemma fr_enforce [frame_intro]: "fr s0 (enforceSExtZExt v a b)"
  unfolding enforceSExtZExt_def by (intro frame_intro)

lemma fr_marshall_params [frame_intro]: "fr s0 (marshall_params n ts)"
proof (induction ts arbitrary: n)
  case (Cons t ts)
  then show ?case by (cases t) (auto intro!: frame_intro)
qed (auto intro: frame_intro)

lemma fr_calls [frame_intro]: "fr s0 (marshallArgs ft)" "fr s0 invalidate_caller_saved" "fr s0 (doCall nm ft ci)"
  unfolding marshallArgs_def invalidate_caller_saved_def doCall_def by (intro frame_intro)+

lemma fr_helper [frame_intro]: "fr s0 (doHelperCall E n)" "fr s0 (doReturn E)"
  unfolding doHelperCall_def getCurLLVMInst_def doReturn_def
  by (auto intro!: frame_intro split: option.splits global.splits)

lemma fr_getExprVar [frame_intro]: "fr s0 (getExprVar E e)"
proof -
  have "fr s0 (MCExprToName e)" by (cases e rule: MCExprToName.cases) (auto intro!: frame_intro)
  then show ?thesis unfolding getExprVar_def by (auto intro!: frame_intro split: option.splits)
qed

lemma fr_doDirectCall [frame_intro]: "fr s0 (doDirectCall E)"
  unfolding doDirectCall_def getCurLLVMInst_def
  by (auto intro!: frame_intro split: mcoperand.splits option.splits global.splits)

section \<open>The switch\<close>

lemma fr_alu [frame_intro]:
  "(\<And>a b. fr s0 (f a b)) \<Longrightarrow> fr s0 (alu64 f)" "(\<And>a b. fr s0 (f a b)) \<Longrightarrow> fr s0 (alu32 f)"
  "fr s0 (dest_update64 v)" "fr s0 (dest_update32 v)"
  unfolding alu64_def alu32_def dest_update64_def dest_update32_def by (intro frame_intro; assumption?)+

lemma fr_arith [frame_intro]: "fr s0 (lift_alu64 n)" "fr s0 (lift_alu32 n)"
  unfolding lift_alu64_def lift_alu32_def by (cases n; simp; intro frame_intro)+

lemma fr_moves [frame_intro]: "fr s0 (lift_neg w)" "fr s0 (lift_movsx mv)"
  unfolding lift_neg_def lift_movsx_def by (cases w; simp; intro frame_intro) (cases mv; simp; intro frame_intro)

lemma fr_ld_imm64 [frame_intro]: "fr s0 (lift_ld_imm64 E)"
  unfolding lift_ld_imm64_def by (auto intro!: frame_intro split: mcoperand.splits)

lemma fr_endian [frame_intro]: "fr s0 (lift_endian en)"
proof -
  have "fr s0 (endian n b)" for n b unfolding endian_def by (intro frame_intro)
  then show ?thesis unfolding lift_endian_def by (cases en) simp_all
qed

lemma fr_memory [frame_intro]: "fr s0 (lift_load ld)" "fr s0 (lift_store st)" "fr s0 (lift_store_imm si)"
proof -
  have "fr s0 (load_op n b c)" "fr s0 (store_op n b)" "fr s0 (storeImm n)" for n b c
    unfolding load_op_def store_op_def storeImm_def by (intro frame_intro)+
  then show "fr s0 (lift_load ld)" "fr s0 (lift_store st)" "fr s0 (lift_store_imm si)"
    unfolding lift_load_def lift_store_def lift_store_imm_def
    by (simp_all split: load_name.split store_name.split store_imm_name.split)
qed

lemma fr_jumps [frame_intro]: "fr s0 lift_jmp" "fr s0 (lift_jcond c w)" "fr s0 (lift_jset w)"
  unfolding lift_jmp_def lift_jcond_def lift_jset_def condBr_def Let_def case_prod_beta
  by (auto intro!: frame_intro split: mcoperand.splits)

lemma fr_atomics [frame_intro]: "fr s0 (lift_atomic a)" "fr s0 (lift_cmpxchg w)"
  unfolding lift_atomic_def lift_cmpxchg_def by (intro frame_intro) (cases w; simp; intro frame_intro)

lemma fr_lift [frame_intro]: "fr s0 (lift E I)"
  unfolding lift_def by (auto intro!: frame_intro split: opcode.splits reg_width.splits mcoperand.splits)

lemma fr_liftInst [frame_intro]: "fr s0 (liftInst E I)"
  unfolding liftInst_def by (rule fr_modify | simp | intro frame_intro)+

lemma fr_lift_instrs [frame_intro]: "fr s0 (lift_instrs E Is)"
  unfolding lift_instrs_def by (rule fr_modify | simp | intro frame_intro)+

lemma fr_finish_block [frame_intro]: "fr s0 (finish_block E)"
  unfolding finish_block_def by (intro frame_intro)

end
