(* ===== verification/Streamer.thy ===== *)
theory Streamer
  imports MC
begin

text \<open>
  The assembly streamer (\<open>src/src/lifter/streamerwrapper.h\<close>, \<open>streamerwrapper.cpp\<close>): the callbacks LLVM's
  assembly parser invokes, which collect the function into basic blocks and the data into
  globals; the passes over the result (\<open>removeEmptyBlocks\<close>, \<open>checkEntryBlock\<close>,
  \<open>generateSuccessors\<close>). The parser itself is LLVM's: its run is the sequence of callbacks it makes.
\<close>

section \<open>Instruction analysis\<close>

text \<open>\<open>llvm::MCInstrAnalysis\<close> answers by the description of the opcode; it is a parameter here. The
  locale states the facts of the BPF description the code relies on.\<close>

record instr_analysis =
  isTerminator :: "opcode \<Rightarrow> bool"
  isBranch :: "opcode \<Rightarrow> bool"
  isConditionalBranch :: "opcode \<Rightarrow> bool"
  isUnconditionalBranch :: "opcode \<Rightarrow> bool"
  isReturn :: "opcode \<Rightarrow> bool"
  isCall :: "opcode \<Rightarrow> bool"

locale bpf_analysis =
  fixes A :: instr_analysis
  assumes jump: "isUnconditionalBranch A JMP" "isUnconditionalBranch A JMPL"
    and jcond: "isConditionalBranch A (JCOND c k w)"
    and jset: "isConditionalBranch A (JSET k w)"
    and exit_insn: "isReturn A RET"
    and nop: "\<not> isTerminator A NOP"
    and branch_kinds: "isConditionalBranch A op \<or> isUnconditionalBranch A op \<Longrightarrow> isBranch A op"
    and branch_exclusive: "isConditionalBranch A op \<Longrightarrow> \<not> isUnconditionalBranch A op"
    and branch_terminates: "isBranch A op \<Longrightarrow> isTerminator A op"
    and return_terminates: "isReturn A op \<Longrightarrow> isTerminator A op"
    and return_no_branch: "isReturn A op \<Longrightarrow> \<not> isBranch A op"
    and terminator_kinds: "isTerminator A op \<Longrightarrow> isBranch A op \<or> isReturn A op"
    and branch_ops: "isBranch A op \<Longrightarrow> op = JMP \<or> op = JMPL \<or> (\<exists>c k w. op = JCOND c k w)
      \<or> (\<exists>k w. op = JSET k w) \<or> (\<exists>nm. op = OTHER nm)"
    and call_insn: "isCall A JAL"
    and call_ops: "isCall A op \<Longrightarrow> op = JAL \<or> (\<exists>nm. op = OTHER nm)"

text \<open>The BPF description of the opcodes the lifter has cases for.\<close>

definition bpf_desc :: instr_analysis where
  "bpf_desc = (let cond = (\<lambda>op. (case op of JCOND c k w \<Rightarrow> True | JSET k w \<Rightarrow> True | _ \<Rightarrow> False));
       uncond = (\<lambda>op. op = JMP \<or> op = JMPL) in
     \<lparr>isTerminator = (\<lambda>op. cond op \<or> uncond op \<or> op = RET), isBranch = (\<lambda>op. cond op \<or> uncond op),
      isConditionalBranch = cond, isUnconditionalBranch = uncond, isReturn = (\<lambda>op. op = RET),
      isCall = (\<lambda>op. op = JAL)\<rparr>)"

interpretation desc: bpf_analysis bpf_desc
  by unfold_locales (auto simp: bpf_desc_def Let_def split: opcode.splits)

section \<open>State\<close>

datatype ASMLine = no_line | label_line | non_term_instr | terminator_line

type_synonym byte = "8 word"

datatype RODataItem = OffsetSym string int | DataByte byte

record MCGlobal =
  gname :: string
  galign :: nat
  gsection :: string
  gdata :: "RODataItem list"

record MCFunction =
  fname :: string
  label_cnt :: "32 word"
  BBs :: "MCBasicBlock list"
  MCglobals :: "MCGlobal list"

text \<open>The constructor installs the stack guard's global: eight characters \<open>'7'\<close>.\<close>

definition stack_chk_guard :: MCGlobal where
  "stack_chk_guard = \<lparr>gname = ''__stack_chk_guard'', galign = 8, gsection = ''.rodata'',
     gdata = replicate 8 (DataByte 0x37)\<rparr>"

definition new_MCFunction :: MCFunction where
  "new_MCFunction = \<lparr>fname = '''', label_cnt = 0, BBs = [], MCglobals = [stack_chk_guard]\<rparr>"

text \<open>\<open>curBB\<close> is a pointer into the block vector there, the index of the block here. \<open>lineMap\<close>
  maps a debug line to the source instruction; a line it has no entry for reads as null.\<close>

record streamer =
  curBB :: "nat option"
  prev_line :: ASMLine
  curAlign :: nat
  curSym :: string
  curSec :: string
  FunctionEnded :: bool
  curDebugLine :: nat
  curROData :: "RODataItem list"
  SentinelNOP :: opcode
  lineMap :: "nat \<Rightarrow> nat option"
  MF :: MCFunction
  cnt :: "32 word"

type_synonym 'a streaming = "(streamer, 'a) action"

definition new_streamer :: "opcode \<Rightarrow> (nat \<Rightarrow> nat option) \<Rightarrow> streamer" where
  "new_streamer nop lm = \<lparr>curBB = None, prev_line = no_line, curAlign = 1, curSym = '''',
     curSec = '''', FunctionEnded = False, curDebugLine = 0, curROData = [], SentinelNOP = nop,
     lineMap = lm, MF = new_MCFunction, cnt = 0\<rparr>"

section \<open>Operations of \<open>MCBasicBlock\<close> and \<open>MCFunction\<close>\<close>

definition new_block :: "string \<Rightarrow> MCBasicBlock" where
  "new_block nm = \<lparr>getName = nm, getInstrs = [], getSuccs = []\<rparr>"

definition block_empty :: "MCBasicBlock \<Rightarrow> bool" where
  "block_empty bb \<longleftrightarrow> length (getInstrs bb) = 0"

definition addInst :: "mcinst \<Rightarrow> MCBasicBlock \<Rightarrow> MCBasicBlock" where
  "addInst I bb = bb\<lparr>getInstrs := getInstrs bb @ [I]\<rparr>"

definition addInstBegin :: "mcinst \<Rightarrow> MCBasicBlock \<Rightarrow> MCBasicBlock" where
  "addInstBegin I bb = bb\<lparr>getInstrs := I # getInstrs bb\<rparr>"

definition setName :: "string \<Rightarrow> MCFunction \<Rightarrow> MCFunction" where
  "setName nm F = F\<lparr>fname := nm\<rparr>"

definition addBlock :: "string \<Rightarrow> MCFunction \<Rightarrow> nat \<times> MCFunction" where
  "addBlock nm F = (length (BBs F), F\<lparr>BBs := BBs F @ [new_block nm]\<rparr>)"

definition getLabel :: "MCFunction \<Rightarrow> string \<times> MCFunction" where
  "getLabel F = (fname F @ to_string (unat (label_cnt F + 1)), F\<lparr>label_cnt := label_cnt F + 1\<rparr>)"

fun index_of :: "string \<Rightarrow> MCBasicBlock list \<Rightarrow> nat option" where
  "index_of nm [] = None"
| "index_of nm (bb # bbs) = (if getName bb = nm then Some 0 else map_option Suc (index_of nm bbs))"

definition findBlockByName :: "string \<Rightarrow> MCFunction \<Rightarrow> nat option" where
  "findBlockByName nm F = index_of nm (BBs F)"

definition checkEntryBlock :: "opcode \<Rightarrow> MCFunction \<Rightarrow> MCFunction" where
  "checkEntryBlock jumpOpcode F =
     F\<lparr>BBs := addInstBegin (mk_inst jumpOpcode [ImmOp 1]) (new_block ''bpf-tv#entry'') # BBs F\<rparr>"

definition removeEmptyBlocks :: "MCFunction \<Rightarrow> MCFunction" where
  "removeEmptyBlocks F = F\<lparr>BBs := filter (\<lambda>bb. \<not> block_empty bb) (BBs F)\<rparr>"

section \<open>Callbacks\<close>

definition is_debug_section :: "string \<Rightarrow> bool" where
  "is_debug_section sec \<longleftrightarrow> prefix ''.debug'' sec"

definition addConstant :: "unit streaming" where
  "addConstant = modify (\<lambda>s. if curROData s = [] then s else
     s\<lparr>MF := (MF s)\<lparr>MCglobals := MCglobals (MF s) @
         [\<lparr>gname = curSym s, galign = curAlign s, gsection = curSec s, gdata = curROData s\<rparr>]\<rparr>,
       curROData := []\<rparr>)"

definition add_block :: "string \<Rightarrow> unit streaming" where
  "add_block nm = modify (\<lambda>s. case addBlock nm (MF s) of (b, F) \<Rightarrow> s\<lparr>MF := F, curBB := Some b\<rparr>)"

definition add_fresh_block :: "unit streaming" where
  "add_fresh_block s = (case getLabel (MF s) of (nm, F) \<Rightarrow> add_block nm (s\<lparr>MF := F\<rparr>))"

definition with_curBB :: "(MCBasicBlock \<Rightarrow> MCBasicBlock) \<Rightarrow> unit streaming" where
  "with_curBB f = bnd (gets curBB) (\<lambda>c. bnd (from_option (Assertion ''curBB'') c) (\<lambda>b.
     modify (\<lambda>s. s\<lparr>MF := (MF s)\<lparr>BBs := (BBs (MF s))[b := f (BBs (MF s) ! b)]\<rparr>\<rparr>)))"

definition emitInstruction :: "instr_analysis \<Rightarrow> mcinst \<Rightarrow> unit streaming" where
  "emitInstruction A Inst =
     bnd (gets prev_line) (\<lambda>pl.
     andthen (check (pl \<noteq> no_line) (Assertion ''prev_line != ASMLine::none''))
     (andthen (if pl = terminator_line then add_fresh_block else ret ())
     (bnd (gets (\<lambda>s. Inst\<lparr>loc := lineMap s (curDebugLine s)\<rparr>)) (\<lambda>i.
     andthen (with_curBB (addInst i))
     (modify (\<lambda>s. s\<lparr>prev_line := (if isTerminator A (getOpcode Inst) then terminator_line else non_term_instr),
        cnt := cnt s + 1\<rparr>))))))"

fun value_item :: "mcexpr \<Rightarrow> lift_error + RODataItem" where
  "value_item (SymbolRef nm) = Inr (OffsetSym nm 0)"
| "value_item (ConstantExpr n) = Inl (Assertion ''handle this'')"
| "value_item (UnaryExpr e) = Inl (Assertion ''handle this'')"
| "value_item (BinaryExpr (SymbolRef nm) (ConstantExpr n)) = Inr (OffsetSym nm n)"
| "value_item (BinaryExpr (SymbolRef nm) r) = Inl (Assertion ''RHS'')"
| "value_item (BinaryExpr l r) = Inl (Assertion ''LHS'')"
| "value_item TargetExpr = Inl (Assertion ''handle this'')"
| "value_item (SpecifierExpr n e) = Inl (Assertion ''unexpected MCExpr type'')"

definition push_data :: "RODataItem list \<Rightarrow> unit streaming" where
  "push_data xs = modify (\<lambda>s. s\<lparr>curROData := curROData s @ xs\<rparr>)"

definition emitValueImpl :: "mcexpr \<Rightarrow> unit streaming" where
  "emitValueImpl e = bnd (gets curSec) (\<lambda>sec. if is_debug_section sec then ret ()
     else (case value_item e of Inl err \<Rightarrow> fail err | Inr d \<Rightarrow> push_data [d]))"

definition emitLabel :: "string \<Rightarrow> string \<Rightarrow> unit streaming" where
  "emitLabel secName lab =
     (if is_debug_section secName then modify (\<lambda>s. s\<lparr>curSec := secName\<rparr>)
      else andthen addConstant
        (andthen (modify (\<lambda>s. s\<lparr>curSym := lab, curSec := secName\<rparr>))
        (andthen (if lab = ''.Lfunc_end0'' then modify (\<lambda>s. s\<lparr>FunctionEnded := True\<rparr>) else ret ())
        (bnd (gets FunctionEnded) (\<lambda>ended. if ended then ret ()
          else andthen (add_block lab)
            (bnd (gets SentinelNOP) (\<lambda>nop.
            andthen (with_curBB (addInstBegin (mk_inst nop [])))
            (modify (\<lambda>s. s\<lparr>prev_line := label_line\<rparr>)))))))))"

definition emitCommonSymbol :: "string \<Rightarrow> nat \<Rightarrow> nat \<Rightarrow> unit streaming" where
  "emitCommonSymbol nm sz al = modify (\<lambda>s. s\<lparr>MF := (MF s)\<lparr>MCglobals := MCglobals (MF s) @
     [\<lparr>gname = nm, galign = al, gsection = ''common'', gdata = replicate sz (DataByte 0x30)\<rparr>]\<rparr>\<rparr>)"

definition emitBytes :: "byte list \<Rightarrow> unit streaming" where
  "emitBytes bs = push_data (map DataByte bs)"

definition emitFill :: "mcexpr \<Rightarrow> nat \<Rightarrow> unit streaming" where
  "emitFill numBytes fillValue = (case numBytes of
     ConstantExpr n \<Rightarrow> andthen (check (fillValue < 256) (Assertion ''FillValue < 256''))
       (push_data (replicate (nat n) (DataByte (word_of_nat fillValue))))
   | _ \<Rightarrow> ret ())"

definition emitELFSize :: "unit streaming" where
  "emitELFSize = addConstant"

definition emitValueToAlignment :: "nat \<Rightarrow> unit streaming" where
  "emitValueToAlignment al = modify (\<lambda>s. s\<lparr>curAlign := al\<rparr>)"

definition emitDwarfLocDirective :: "nat \<Rightarrow> unit streaming" where
  "emitDwarfLocDirective line = modify (\<lambda>s. s\<lparr>curDebugLine := line\<rparr>)"

text \<open>One callback of the parser. \<open>emitSymbolAttribute\<close>, \<open>emitSymbolDesc\<close>, \<open>emitZerofill\<close> and
  \<open>emitAssignment\<close> only print.\<close>

datatype mc_event = EmitInstruction mcinst | EmitLabel string string | EmitValue mcexpr
  | EmitBytes "byte list" | EmitFill mcexpr nat | EmitCommonSymbol string nat nat | EmitELFSize
  | EmitValueToAlignment nat | EmitDwarfLoc nat | EmitPrintOnly

fun callback :: "instr_analysis \<Rightarrow> mc_event \<Rightarrow> unit streaming" where
  "callback A (EmitInstruction I) = emitInstruction A I"
| "callback A (EmitLabel sec lab) = emitLabel sec lab"
| "callback A (EmitValue e) = emitValueImpl e"
| "callback A (EmitBytes bs) = emitBytes bs"
| "callback A (EmitFill n v) = emitFill n v"
| "callback A (EmitCommonSymbol nm sz al) = emitCommonSymbol nm sz al"
| "callback A EmitELFSize = emitELFSize"
| "callback A (EmitValueToAlignment al) = emitValueToAlignment al"
| "callback A (EmitDwarfLoc line) = emitDwarfLocDirective line"
| "callback A EmitPrintOnly = ret ()"

definition parse_run :: "instr_analysis \<Rightarrow> mc_event list \<Rightarrow> unit streaming" where
  "parse_run A evs = for_each evs (callback A)"

section \<open>Successors\<close>

text \<open>The symbol of the first operand that is a plain symbol reference.\<close>

fun first_symbol :: "mcoperand list \<Rightarrow> string option" where
  "first_symbol [] = None"
| "first_symbol (ExprOp (SymbolRef nm) # ops) = Some nm"
| "first_symbol (_ # ops) = first_symbol ops"

definition findTargetLabel :: "mcinst \<Rightarrow> lift_error + string" where
  "findTargetLabel I = (case first_symbol (operands I) of
     None \<Rightarrow> Inl (Assertion ''could not find target label in arm branch instruction'')
   | Some nm \<Rightarrow> Inr nm)"

text \<open>\<open>SetVector::insert\<close>.\<close>

definition addSucc :: "nat \<Rightarrow> nat list \<Rightarrow> nat list" where
  "addSucc b ss = (if b \<in> set ss then ss else ss @ [b])"

definition next_block :: "MCBasicBlock list \<Rightarrow> nat \<Rightarrow> nat option" where
  "next_block bbs i = (if Suc i < length bbs then Some (Suc i) else None)"

definition add_next :: "nat option \<Rightarrow> nat list \<Rightarrow> nat list" where
  "add_next n ss = (case n of None \<Rightarrow> ss | Some b \<Rightarrow> addSucc b ss)"

text \<open>The body of the loop for block \<open>i\<close>: the successors it inserts, as block indices. The entry
  block's branch goes to the next block; when there is none the code records a null successor,
  which its first use dereferences.\<close>

definition block_succs ::
    "instr_analysis \<Rightarrow> MCBasicBlock list \<Rightarrow> nat \<Rightarrow> lift_error + nat list" where
  "block_succs A bbs i = (let is = getInstrs (bbs ! i); nxt = next_block bbs i; l = last is in
     if is = [] then Inr []
     else if i = 0 \<and> isUnconditionalBranch A (getOpcode l) \<and> operands l = [] then
       Inl (Assertion ''operand index out of range'')
     else if i = 0 \<and> isUnconditionalBranch A (getOpcode l) \<and> is_ImmOp (hd (operands l)) then
       (case nxt of None \<Rightarrow> Inl (Assertion ''next_bb_ptr'') | Some b \<Rightarrow> Inr [b])
     else if isConditionalBranch A (getOpcode l) then
       (case findTargetLabel l of Inl e \<Rightarrow> Inl e | Inr target \<Rightarrow>
         (case index_of target bbs of None \<Rightarrow> Inl (Assertion ''target_bb'')
          | Some b \<Rightarrow> Inr (add_next nxt [b])))
     else if isUnconditionalBranch A (getOpcode l) then
       (case findTargetLabel l of Inl e \<Rightarrow> Inl e | Inr target \<Rightarrow>
         (case index_of target bbs of None \<Rightarrow> Inr [] | Some b \<Rightarrow> Inr [b]))
     else if isReturn A (getOpcode l) then Inr []
     else Inr (add_next nxt []))"

definition set_succs :: "nat \<Rightarrow> nat list \<Rightarrow> MCBasicBlock list \<Rightarrow> MCBasicBlock list" where
  "set_succs i ss bbs = bbs[i := (bbs ! i)\<lparr>getSuccs := map (\<lambda>b. getName (bbs ! b)) ss\<rparr>]"

fun succs_loop ::
    "instr_analysis \<Rightarrow> nat list \<Rightarrow> MCBasicBlock list \<Rightarrow> lift_error + MCBasicBlock list" where
  "succs_loop A [] bbs = Inr bbs"
| "succs_loop A (i # is) bbs = (case block_succs A bbs i of Inl e \<Rightarrow> Inl e
     | Inr ss \<Rightarrow> succs_loop A is (set_succs i ss bbs))"

definition generateSuccessors :: "instr_analysis \<Rightarrow> MCFunction \<Rightarrow> lift_error + MCFunction" where
  "generateSuccessors A F = (case succs_loop A [0..<length (BBs F)] (BBs F) of
     Inl e \<Rightarrow> Inl e | Inr bbs \<Rightarrow> Inr (F\<lparr>BBs := bbs\<rparr>))"

text \<open>The passes \<open>run\<close> and \<open>runBytes\<close> make over the collected function.\<close>

definition finish_function :: "instr_analysis \<Rightarrow> opcode \<Rightarrow> MCFunction \<Rightarrow> lift_error + MCFunction" where
  "finish_function A jumpOpcode F =
     generateSuccessors A (checkEntryBlock jumpOpcode (removeEmptyBlocks F))"

end
