(* ===== verification/Streamer_Inv.thy ===== *)
theory Streamer_Inv
  imports Streamer
begin

text \<open>
  What the streamer maintains: the pointer to the current block, the shape of the collected blocks,
  and its refinement of a linear listing of the code (sentinels and instructions in the order of
  the callbacks, with the position of every label).
\<close>

section \<open>The shape of the blocks\<close>

definition ends_block :: "instr_analysis \<Rightarrow> mcinst \<Rightarrow> bool" where
  "ends_block A I = isTerminator A (getOpcode I)"

definition block_wf :: "instr_analysis \<Rightarrow> MCBasicBlock \<Rightarrow> bool" where
  "block_wf A bb \<longleftrightarrow> getInstrs bb \<noteq> [] \<and> (\<forall>I \<in> set (butlast (getInstrs bb)). \<not> ends_block A I)
     \<and> getSuccs bb = []"

text \<open>The invariant between two callbacks.\<close>

definition str_inv :: "instr_analysis \<Rightarrow> streamer \<Rightarrow> bool" where
  "str_inv A s \<longleftrightarrow> (\<forall>bb \<in> set (BBs (MF s)). block_wf A bb) \<and> SentinelNOP s = NOP
     \<and> (if prev_line s = no_line then BBs (MF s) = []
        else BBs (MF s) \<noteq> [] \<and> curBB s = Some (length (BBs (MF s)) - 1)
          \<and> (ends_block A (last (getInstrs (last (BBs (MF s))))) \<longleftrightarrow> prev_line s = terminator_line))"

lemma str_invI:
  assumes "BBs (MF t) = bbs @ [bb]" "SentinelNOP t = NOP" "curBB t = Some (length bbs)" "prev_line t = pl"
    and "\<forall>bb \<in> set bbs. block_wf A bb" "block_wf A bb" "pl \<noteq> no_line"
    and "ends_block A (last (getInstrs bb)) \<longleftrightarrow> pl = terminator_line"
  shows "str_inv A t"
  using assms by (auto simp: str_inv_def)

lemma str_inv_cong:
  assumes "BBs (MF t) = BBs (MF s)" "SentinelNOP t = SentinelNOP s" "curBB t = curBB s" "prev_line t = prev_line s"
  shows "str_inv A t = str_inv A s"
  using assms by (simp add: str_inv_def)

text \<open>What the two callbacks that touch the code do to a state that satisfies the invariant.\<close>

definition same_code :: "streamer \<Rightarrow> streamer \<Rightarrow> bool" where
  "same_code s t \<longleftrightarrow> BBs (MF t) = BBs (MF s) \<and> fname (MF t) = fname (MF s) \<and> label_cnt (MF t) = label_cnt (MF s)
     \<and> curBB t = curBB s \<and> prev_line t = prev_line s \<and> SentinelNOP t = SentinelNOP s \<and> lineMap t = lineMap s"

lemma same_code_inv: "same_code s t \<Longrightarrow> str_inv A t = str_inv A s"
  by (simp add: same_code_def str_inv_def)

lemma addConstant_run:
  "addConstant s = Inr ((), if curROData s = [] then s else
     s\<lparr>MF := (MF s)\<lparr>MCglobals := MCglobals (MF s) @
         [\<lparr>gname = curSym s, galign = curAlign s, gsection = curSec s, gdata = curROData s\<rparr>]\<rparr>,
       curROData := []\<rparr>)"
  by (simp add: addConstant_def)

definition labelled :: "string \<Rightarrow> string \<Rightarrow> streamer \<Rightarrow> streamer" where
  "labelled sec lab s = (let s1 = (if curROData s = [] then s else
     s\<lparr>MF := (MF s)\<lparr>MCglobals := MCglobals (MF s) @
         [\<lparr>gname = curSym s, galign = curAlign s, gsection = curSec s, gdata = curROData s\<rparr>]\<rparr>,
       curROData := []\<rparr>) in s1\<lparr>curSym := lab, curSec := sec,
       FunctionEnded := (FunctionEnded s \<or> lab = ''.Lfunc_end0'')\<rparr>)"

definition open_block :: "string \<Rightarrow> mcinst list \<Rightarrow> MCFunction \<Rightarrow> MCFunction" where
  "open_block nm is F = F\<lparr>BBs := BBs F @ [\<lparr>getName = nm, getInstrs = is, getSuccs = []\<rparr>]\<rparr>"

definition append_inst :: "mcinst \<Rightarrow> MCFunction \<Rightarrow> MCFunction" where
  "append_inst i F = F\<lparr>BBs := butlast (BBs F) @ [addInst i (last (BBs F))]\<rparr>"

lemma emitLabel_run:
  "emitLabel sec lab s = Inr ((),
     if is_debug_section sec then s\<lparr>curSec := sec\<rparr>
     else let s1 = labelled sec lab s in
       if FunctionEnded s1 then s1
       else s1\<lparr>MF := open_block lab [mk_inst (SentinelNOP s) []] (MF s1), curBB := Some (length (BBs (MF s))),
              prev_line := label_line\<rparr>)"
  by (simp add: emitLabel_def addConstant_run andthen_def bnd_def labelled_def Let_def add_block_def
      addBlock_def with_curBB_def open_block_def new_block_def addInstBegin_def)

lemma emitInstruction_run:
  assumes "str_inv A s" "prev_line s \<noteq> no_line"
  shows "emitInstruction A I s = (let i = I\<lparr>loc := lineMap s (curDebugLine s)\<rparr>;
      s1 = (if prev_line s = terminator_line
            then s\<lparr>MF := open_block (fname (MF s) @ to_string (unat (label_cnt (MF s) + 1))) [i]
                         ((MF s)\<lparr>label_cnt := label_cnt (MF s) + 1\<rparr>),
                   curBB := Some (length (BBs (MF s)))\<rparr>
            else s\<lparr>MF := append_inst i (MF s)\<rparr>)
      in Inr ((), s1\<lparr>prev_line := (if ends_block A I then terminator_line else non_term_instr), cnt := cnt s + 1\<rparr>))"
proof (cases "prev_line s = terminator_line")
  case True
  then show ?thesis
    by (simp add: emitInstruction_def andthen_def bnd_def add_fresh_block_def add_block_def addBlock_def
        getLabel_def with_curBB_def open_block_def new_block_def addInst_def Let_def ends_block_def)
next
  case False
  from assms obtain bbs bb where "BBs (MF s) = bbs @ [bb]" "curBB s = Some (length bbs)"
    by (cases "BBs (MF s)" rule: rev_cases) (auto simp: str_inv_def)
  with False assms(2) show ?thesis
    by (simp add: emitInstruction_def andthen_def bnd_def with_curBB_def append_inst_def Let_def ends_block_def)
qed

lemma emitInstruction_no_line: "prev_line s = no_line \<Longrightarrow> emitInstruction A I s = Inl (Assertion ''prev_line != ASMLine::none'')"
  by (simp add: emitInstruction_def andthen_def bnd_def)

lemma event_cases:
  obtains (EmitInstruction) I where "e = EmitInstruction I" | (EmitLabel) sec l where "e = EmitLabel sec l"
    | (other) "\<And>I. e \<noteq> EmitInstruction I" "\<And>sec l. e \<noteq> EmitLabel sec l"
  by (cases e) auto

lemma callback_other_code:
  assumes "callback A e s = Inr (u, t)" "\<And>I. e \<noteq> EmitInstruction I" "\<And>sec l. e \<noteq> EmitLabel sec l"
  shows "same_code s t \<and> FunctionEnded t = FunctionEnded s
    \<and> curDebugLine t = (case e of EmitDwarfLoc n \<Rightarrow> n | _ \<Rightarrow> curDebugLine s)"
  using assms
  by (cases "(A, e)" rule: callback.cases)
    (auto simp: same_code_def addConstant_run emitValueImpl_def push_data_def emitBytes_def emitFill_def andthen_def
      bnd_def emitCommonSymbol_def emitELFSize_def emitValueToAlignment_def emitDwarfLocDirective_def
      split: if_splits sum.splits mcexpr.splits)

context bpf_analysis
begin

lemma callback_inv:
  assumes "str_inv A s" "callback A e s = Inr (u, t)"
  shows "str_inv A t"
proof (cases e rule: event_cases)
  case (EmitInstruction I)
  with assms have "prev_line s \<noteq> no_line" by (auto simp: emitInstruction_no_line)
  from assms EmitInstruction have t: "emitInstruction A I s = Inr (u, t)" by simp
  from assms(1) \<open>prev_line s \<noteq> no_line\<close> obtain bbs bb where b: "BBs (MF s) = bbs @ [bb]"
      "\<forall>bb \<in> set bbs. block_wf A bb" "block_wf A bb" "SentinelNOP s = NOP" "curBB s = Some (length bbs)"
      "ends_block A (last (getInstrs bb)) \<longleftrightarrow> prev_line s = terminator_line"
    by (cases "BBs (MF s)" rule: rev_cases) (auto simp: str_inv_def)
  let ?i = "I\<lparr>loc := lineMap s (curDebugLine s)\<rparr>"
  show ?thesis
  proof (cases "prev_line s = terminator_line")
    case True
    let ?nb = "\<lparr>getName = fname (MF s) @ to_string (unat (label_cnt (MF s) + 1)), getInstrs = [?i], getSuccs = []\<rparr>"
    have "BBs (MF t) = (bbs @ [bb]) @ [?nb]" "SentinelNOP t = NOP" "curBB t = Some (length (bbs @ [bb]))"
        "prev_line t = (if ends_block A I then terminator_line else non_term_instr)"
      using t True b by (auto simp: emitInstruction_run[OF assms(1) \<open>prev_line s \<noteq> no_line\<close>] Let_def open_block_def)
    then show ?thesis
      by (rule str_invI) (use b in \<open>auto simp: block_wf_def ends_block_def\<close>)
  next
    case False
    with b have n: "\<forall>I \<in> set (getInstrs bb). \<not> ends_block A I"
      unfolding block_wf_def by (metis append_butlast_last_id UnE set_append empty_iff insert_iff list.set)
    have "BBs (MF t) = bbs @ [addInst ?i bb]" "SentinelNOP t = NOP" "curBB t = Some (length bbs)"
        "prev_line t = (if ends_block A I then terminator_line else non_term_instr)"
      using t False b by (auto simp: emitInstruction_run[OF assms(1) \<open>prev_line s \<noteq> no_line\<close>] Let_def append_inst_def)
    then show ?thesis
      by (rule str_invI) (use b n in \<open>auto simp: block_wf_def addInst_def ends_block_def\<close>)
  qed
next
  case (EmitLabel sec lab)
  have l: "BBs (MF (labelled sec lab s)) = BBs (MF s)" "SentinelNOP (labelled sec lab s) = SentinelNOP s"
      "prev_line (labelled sec lab s) = prev_line s" "curBB (labelled sec lab s) = curBB s"
    by (simp_all add: labelled_def Let_def)
  from assms EmitLabel have t: "t = (if is_debug_section sec then s\<lparr>curSec := sec\<rparr>
     else if FunctionEnded (labelled sec lab s) then labelled sec lab s
       else (labelled sec lab s)\<lparr>MF := open_block lab [mk_inst (SentinelNOP s) []] (MF (labelled sec lab s)),
              curBB := Some (length (BBs (MF s))), prev_line := label_line\<rparr>)"
    by (simp add: emitLabel_run Let_def split: if_splits)
  show ?thesis
  proof (cases "is_debug_section sec \<or> FunctionEnded (labelled sec lab s)")
    case True
    then show ?thesis
      by (intro str_inv_cong[THEN iffD2, OF _ _ _ _ assms(1)]) (auto simp: t l)
  next
    case False
    have s: "SentinelNOP s = NOP" "\<forall>bb \<in> set (BBs (MF s)). block_wf A bb"
      using assms(1) by (simp_all add: str_inv_def)
    with False have "BBs (MF t) = BBs (MF s) @ [\<lparr>getName = lab, getInstrs = [mk_inst NOP []], getSuccs = []\<rparr>]"
        "SentinelNOP t = NOP" "curBB t = Some (length (BBs (MF s)))" "prev_line t = label_line"
      by (simp_all add: t l open_block_def)
    then show ?thesis
      by (rule str_invI) (use s nop in \<open>auto simp: block_wf_def ends_block_def\<close>)
  qed
next
  case other
  then show ?thesis using callback_other_code[OF assms(2)] same_code_inv assms(1) by blast
qed

end

section \<open>The linear listing\<close>

text \<open>The abstract view of a run: the code in the order of the callbacks, with the sentinel each label
  brings, and the position in it of every label.\<close>

record listing =
  lcode :: "mcinst list"
  llabels :: "(string \<times> nat) list"
  lline :: nat
  lended :: bool

definition empty_listing :: listing where
  "empty_listing = \<lparr>lcode = [], llabels = [], lline = 0, lended = False\<rparr>"

fun list_event :: "(nat \<Rightarrow> nat option) \<Rightarrow> mc_event \<Rightarrow> listing \<Rightarrow> listing" where
  "list_event lm (EmitInstruction I) a = a\<lparr>lcode := lcode a @ [I\<lparr>loc := lm (lline a)\<rparr>]\<rparr>"
| "list_event lm (EmitLabel sec lab) a = (if is_debug_section sec then a
     else if lended a \<or> lab = ''.Lfunc_end0'' then a\<lparr>lended := True\<rparr>
     else a\<lparr>llabels := llabels a @ [(lab, length (lcode a))], lcode := lcode a @ [mk_inst NOP []]\<rparr>)"
| "list_event lm (EmitDwarfLoc n) a = a\<lparr>lline := n\<rparr>"
| "list_event lm _ a = a"

definition listing_of :: "(nat \<Rightarrow> nat option) \<Rightarrow> mc_event list \<Rightarrow> listing" where
  "listing_of lm evs = fold (list_event lm) evs empty_listing"

fun starts :: "nat \<Rightarrow> MCBasicBlock list \<Rightarrow> (string \<times> nat) list" where
  "starts p [] = []"
| "starts p (bb # bbs) = (getName bb, p) # starts (p + length (getInstrs bb)) bbs"

abbreviation code_of :: "MCBasicBlock list \<Rightarrow> mcinst list" where
  "code_of bbs \<equiv> concat (map getInstrs bbs)"

definition numeric :: "string \<Rightarrow> bool" where
  "numeric nm \<longleftrightarrow> set nm \<subseteq> set ''0123456789''"

lemma numeric_to_string [simp]: "numeric (to_string n)"
  using to_string_digits by (simp add: numeric_def)

lemma starts_append: "starts p (xs @ ys) = starts p xs @ starts (p + length (code_of xs)) ys"
  by (induction xs arbitrary: p) (simp_all add: add.assoc)

lemma map_fst_starts [simp]: "map fst (starts p bbs) = map getName bbs"
  by (induction bbs arbitrary: p) simp_all

text \<open>The relation: same code, every label at the start of the block that carries its name, and the
  remaining blocks named \<open>1\<close>, \<open>2\<close>, ... by \<open>getLabel\<close> (in the text path the function name is never set).\<close>

definition listed :: "instr_analysis \<Rightarrow> (nat \<Rightarrow> nat option) \<Rightarrow> listing \<Rightarrow> streamer \<Rightarrow> bool" where
  "listed A lm a s \<longleftrightarrow> str_inv A s \<and> code_of (BBs (MF s)) = lcode a \<and> lline a = curDebugLine s
     \<and> lended a = FunctionEnded s \<and> lineMap s = lm \<and> fname (MF s) = ''''
     \<and> (\<exists>k. k \<le> length (lcode a) \<and> label_cnt (MF s) = word_of_nat k
        \<and> (list_all (\<lambda>l. \<not> numeric (fst l)) (llabels a) \<and> length (lcode a) < 2 ^ 32 \<longrightarrow>
             filter (\<lambda>l. \<not> numeric (fst l)) (starts 0 (BBs (MF s))) = llabels a
           \<and> filter numeric (map getName (BBs (MF s))) = map to_string [1..<Suc k]))"

lemma listed_empty: "listed A lm empty_listing (new_streamer NOP lm)"
  by (auto simp: listed_def empty_listing_def new_streamer_def new_MCFunction_def str_inv_def)

lemma unat_Suc_of_nat:
  assumes "Suc k < 2 ^ 32"
  shows "unat (word_of_nat k + 1 :: 32 word) = Suc k"
proof -
  have "word_of_nat k + 1 = (word_of_nat (Suc k) :: 32 word)" by simp
  with assms show ?thesis by (simp only: unsigned_of_nat) (simp add: take_bit_nat_eq_self)
qed

definition names_ok :: "nat \<Rightarrow> listing \<Rightarrow> MCBasicBlock list \<Rightarrow> bool" where
  "names_ok k a bbs \<longleftrightarrow> (list_all (\<lambda>l. \<not> numeric (fst l)) (llabels a) \<and> length (lcode a) < 2 ^ 32 \<longrightarrow>
     filter (\<lambda>l. \<not> numeric (fst l)) (starts 0 bbs) = llabels a
     \<and> filter numeric (map getName bbs) = map to_string [1..<Suc k])"

lemma listed_iff: "listed A lm a s \<longleftrightarrow> str_inv A s \<and> code_of (BBs (MF s)) = lcode a \<and> lline a = curDebugLine s
     \<and> lended a = FunctionEnded s \<and> lineMap s = lm \<and> fname (MF s) = ''''
     \<and> (\<exists>k \<le> length (lcode a). label_cnt (MF s) = word_of_nat k \<and> names_ok k a (BBs (MF s)))"
  by (auto simp: listed_def names_ok_def)

lemma listedI:
  assumes "str_inv A s" "code_of (BBs (MF s)) = lcode a" "lline a = curDebugLine s" "lended a = FunctionEnded s"
    "lineMap s = lm" "fname (MF s) = ''''" "k \<le> length (lcode a)" "label_cnt (MF s) = word_of_nat k"
    "names_ok k a (BBs (MF s))"
  shows "listed A lm a s"
  using assms by (auto simp: listed_iff)

lemma listedE:
  assumes "listed A lm a s"
  obtains k where "str_inv A s" "code_of (BBs (MF s)) = lcode a" "lline a = curDebugLine s" "lended a = FunctionEnded s"
    "lineMap s = lm" "fname (MF s) = ''''" "k \<le> length (lcode a)" "label_cnt (MF s) = word_of_nat k"
    "names_ok k a (BBs (MF s))"
  using assms by (auto simp: listed_iff)

lemma labelled_sel [simp]:
  "BBs (MF (labelled sec lab s)) = BBs (MF s)" "fname (MF (labelled sec lab s)) = fname (MF s)"
  "label_cnt (MF (labelled sec lab s)) = label_cnt (MF s)" "lineMap (labelled sec lab s) = lineMap s"
  "curDebugLine (labelled sec lab s) = curDebugLine s" "SentinelNOP (labelled sec lab s) = SentinelNOP s"
  "FunctionEnded (labelled sec lab s) = (FunctionEnded s \<or> lab = ''.Lfunc_end0'')"
  "prev_line (labelled sec lab s) = prev_line s" "curBB (labelled sec lab s) = curBB s"
  by (simp_all add: labelled_def Let_def)

lemma names_ok_fresh:
  assumes "names_ok k a bbs" "k \<le> length (lcode a)"
  shows "names_ok (Suc k) (a\<lparr>lcode := lcode a @ [i]\<rparr>)
     (bbs @ [\<lparr>getName = to_string (unat (word_of_nat k + 1 :: 32 word)), getInstrs = is, getSuccs = ss\<rparr>])"
  using assms unat_Suc_of_nat[of k] by (auto simp: names_ok_def starts_append)

lemma names_ok_same:
  assumes "names_ok k a (bbs @ [bb])"
  shows "names_ok k (a\<lparr>lcode := lcode a @ [i]\<rparr>) (bbs @ [addInst i bb])"
  using assms by (auto simp: names_ok_def starts_append addInst_def)

lemma names_ok_label:
  assumes "names_ok k a bbs" "code_of bbs = lcode a"
  shows "names_ok k (a\<lparr>llabels := llabels a @ [(lab, length (lcode a))], lcode := lcode a @ [i]\<rparr>)
     (bbs @ [\<lparr>getName = lab, getInstrs = is, getSuccs = ss\<rparr>])"
  using assms by (auto simp: names_ok_def starts_append)

lemma names_ok_cong: "lcode a' = lcode a \<Longrightarrow> llabels a' = llabels a \<Longrightarrow> names_ok k a' bbs = names_ok k a bbs"
  by (simp add: names_ok_def)

context bpf_analysis
begin

lemma listed_instruction:
  assumes l: "listed A lm a s" and r: "emitInstruction A I s = Inr (u, t)"
  shows "listed A lm (a\<lparr>lcode := lcode a @ [I\<lparr>loc := lm (lline a)\<rparr>]\<rparr>) t"
  using l
proof (cases rule: listedE)
  case (1 k)
  let ?i = "I\<lparr>loc := lm (lline a)\<rparr>"
  from r have p: "prev_line s \<noteq> no_line" by (auto simp: emitInstruction_no_line)
  from callback_inv[OF 1(1), of "EmitInstruction I"] r have inv': "str_inv A t" by simp
  note run = r[unfolded emitInstruction_run[OF 1(1) p] Let_def]
  show ?thesis
  proof (cases "prev_line s = terminator_line")
    case True
    have t: "t = s\<lparr>MF := open_block (to_string (unat (label_cnt (MF s) + 1))) [?i] ((MF s)\<lparr>label_cnt := label_cnt (MF s) + 1\<rparr>),
       curBB := Some (length (BBs (MF s))), prev_line := (if ends_block A I then terminator_line else non_term_instr),
       cnt := cnt s + 1\<rparr>" using run True 1 by simp
    show ?thesis
    proof (rule listedI[OF inv'])
      show "names_ok (Suc k) (a\<lparr>lcode := lcode a @ [?i]\<rparr>) (BBs (MF t))"
        using names_ok_fresh[OF 1(9,7)] 1(8) by (simp add: t open_block_def)
    qed (use 1 in \<open>simp_all add: t open_block_def\<close>)
  next
    case False
    have t: "t = s\<lparr>MF := append_inst ?i (MF s),
        prev_line := (if ends_block A I then terminator_line else non_term_instr), cnt := cnt s + 1\<rparr>"
      using run False 1 by simp
    from 1(1) p obtain bbs bb where b: "BBs (MF s) = bbs @ [bb]"
      by (cases "BBs (MF s)" rule: rev_cases) (auto simp: str_inv_def)
    show ?thesis
    proof (rule listedI[OF inv'])
      show "names_ok k (a\<lparr>lcode := lcode a @ [?i]\<rparr>) (BBs (MF t))"
        using names_ok_same[OF 1(9)[unfolded b]] by (simp add: t append_inst_def b)
      show "code_of (BBs (MF t)) = lcode (a\<lparr>lcode := lcode a @ [?i]\<rparr>)"
        using 1(2) by (simp add: t append_inst_def b addInst_def)
      show "lline (a\<lparr>lcode := lcode a @ [?i]\<rparr>) = curDebugLine t" using 1(3) by (simp add: t)
      show "lended (a\<lparr>lcode := lcode a @ [?i]\<rparr>) = FunctionEnded t" using 1(4) by (simp add: t)
      show "lineMap t = lm" using 1(5) by (simp add: t)
      show "fname (MF t) = ''''" using 1(6) by (simp add: t append_inst_def)
      show "k \<le> length (lcode (a\<lparr>lcode := lcode a @ [?i]\<rparr>))" using 1(7) by simp
      show "label_cnt (MF t) = word_of_nat k" using 1(8) by (simp add: t append_inst_def)
    qed
  qed
qed

lemma listed_label:
  assumes l: "listed A lm a s" and r: "emitLabel sec lab s = Inr (u, t)"
  shows "listed A lm (list_event lm (EmitLabel sec lab) a) t"
  using l
proof (cases rule: listedE)
  case (1 k)
  from callback_inv[OF 1(1), of "EmitLabel sec lab"] r have inv': "str_inv A t" by simp
  from 1(1) have nop: "SentinelNOP s = NOP" by (simp add: str_inv_def)
  let ?s = "labelled sec lab s"
  from r have t: "t = (if is_debug_section sec then s\<lparr>curSec := sec\<rparr> else if FunctionEnded ?s then ?s
       else ?s\<lparr>MF := open_block lab [mk_inst NOP []] (MF ?s), curBB := Some (length (BBs (MF s))),
              prev_line := label_line\<rparr>)"
    by (simp add: emitLabel_run Let_def nop del: labelled_sel split: if_splits)
  consider "is_debug_section sec" | "\<not> is_debug_section sec" "FunctionEnded ?s" | "\<not> is_debug_section sec" "\<not> FunctionEnded ?s"
    by blast
  then show ?thesis
  proof cases
    case 3
    with t have b: "t = ?s\<lparr>MF := open_block lab [mk_inst NOP []] (MF ?s), curBB := Some (length (BBs (MF s))),
              prev_line := label_line\<rparr>" by simp
    show ?thesis
    proof (rule listedI[OF inv'])
      show "names_ok k (list_event lm (EmitLabel sec lab) a) (BBs (MF t))"
        using names_ok_label[OF 1(9,2)] 3 1(4) by (simp add: b open_block_def)
    qed (use 1 3 in \<open>simp_all add: b open_block_def\<close>)
  next
    case 1
    with t have b: "t = s\<lparr>curSec := sec\<rparr>" by simp
    show ?thesis using l inv' 1 by (simp add: b listed_iff)
  next
    case 2
    with t have b: "t = ?s" by simp
    have "names_ok k (a\<lparr>lended := True\<rparr>) bbs = names_ok k a bbs" for k bbs
      by (rule names_ok_cong) simp_all
    with l inv' 2 show ?thesis by (auto simp: b listed_iff)
  qed
qed

lemma listed_step:
  assumes "listed A lm a s" "callback A e s = Inr (u, t)"
  shows "listed A lm (list_event lm e a) t"
proof (cases e rule: event_cases)
  case other
  with callback_other_code[OF assms(2)] have "same_code s t" "FunctionEnded t = FunctionEnded s"
    "curDebugLine t = (case e of EmitDwarfLoc n \<Rightarrow> n | _ \<Rightarrow> curDebugLine s)" by blast+
  moreover from other have "lcode (list_event lm e a) = lcode a" "llabels (list_event lm e a) = llabels a"
    "lended (list_event lm e a) = lended a" "lline (list_event lm e a) = (case e of EmitDwarfLoc n \<Rightarrow> n | _ \<Rightarrow> lline a)"
    by (cases e; simp)+
  moreover have "names_ok k (list_event lm e a) bbs = names_ok k a bbs" for k bbs
    by (rule names_ok_cong) fact+
  ultimately show ?thesis using assms(1) same_code_inv[of s t A]
    by (auto simp: listed_iff same_code_def split: mc_event.splits)
next
  case (EmitLabel sec lab)
  with assms(2) have "emitLabel sec lab s = Inr (u, t)" by simp
  from listed_label[OF assms(1) this] EmitLabel show ?thesis by (simp only:)
next
  case (EmitInstruction I)
  with assms(2) have "emitInstruction A I s = Inr (u, t)" by simp
  from listed_instruction[OF assms(1) this] EmitInstruction show ?thesis by simp
qed

end

sublocale bpf_analysis \<subseteq> code: loop_simulation "listed A lm" "callback A" "list_event lm" for lm
  by unfold_locales (rule listed_step)

sublocale bpf_analysis \<subseteq> shape: loop_invariant "str_inv A" "callback A"
  by unfold_locales (rule callback_inv)

section \<open>What a run of the parser collects\<close>

text \<open>The labels of the listing can be told from the generated names, and the counter does not wrap.\<close>

definition good_labels :: "listing \<Rightarrow> bool" where
  "good_labels a \<longleftrightarrow> list_all (\<lambda>l. \<not> numeric (fst l)) (llabels a) \<and> distinct (map fst (llabels a))
     \<and> length (lcode a) < 2 ^ 32"

lemma distinct_by_filter:
  "distinct (filter P xs) \<Longrightarrow> distinct (filter (\<lambda>x. \<not> P x) xs) \<Longrightarrow> distinct xs"
  by (induction xs) (auto split: if_splits)

lemma names_ok_distinct:
  assumes "names_ok k a bbs" "good_labels a"
  shows "distinct (map getName bbs)"
proof (rule distinct_by_filter)
  show "distinct (filter numeric (map getName bbs))"
    using assms to_string_inj by (auto simp: names_ok_def good_labels_def distinct_map inj_on_def)
  have "filter (\<lambda>n. \<not> numeric n) (map fst (starts 0 bbs)) = map fst (llabels a)"
    using assms by (simp add: names_ok_def good_labels_def filter_map comp_def del: map_fst_starts)
  then show "distinct (filter (\<lambda>n. \<not> numeric n) (map getName bbs))"
    using assms(2) by (simp add: good_labels_def)
qed

lemma index_of_Some:
  "index_of nm bbs = Some b \<longleftrightarrow> b < length bbs \<and> getName (bbs ! b) = nm \<and> (\<forall>i < b. getName (bbs ! i) \<noteq> nm)"
proof (induction bbs arbitrary: b)
  case (Cons bb bbs)
  show ?case
  proof (cases b)
    case (Suc c)
    then show ?thesis using Cons[of c] by (auto simp: less_Suc_eq_0_disj)
  qed auto
qed simp

lemma index_of_distinct:
  "distinct (map getName bbs) \<Longrightarrow> b < length bbs \<Longrightarrow> index_of (getName (bbs ! b)) bbs = Some b"
  by (auto simp: index_of_Some distinct_conv_nth)

lemma index_of_None: "index_of nm bbs = None \<longleftrightarrow> nm \<notin> getName ` set bbs"
  by (induction bbs) auto

lemma nth_starts: "b < length bbs \<Longrightarrow>
   starts p bbs ! b = (getName (bbs ! b), p + length (code_of (take b bbs)))"
proof (induction bbs arbitrary: p b)
  case (Cons bb bbs)
  then show ?case by (cases b) (auto simp: add.assoc)
qed simp

lemma length_starts [simp]: "length (starts p bbs) = length bbs"
  by (induction bbs arbitrary: p) auto

text \<open>A label of the listing is the name of exactly one block, which starts where the label stands.\<close>

lemma names_ok_label_block:
  assumes ok: "names_ok k a bbs" "good_labels a" and l: "(lab, p) \<in> set (llabels a)"
  obtains b where "index_of lab bbs = Some b" "b < length bbs" "length (code_of (take b bbs)) = p"
proof -
  from assms have "(lab, p) \<in> set (starts 0 bbs)"
    unfolding names_ok_def good_labels_def by (metis (no_types, lifting) filter_is_subset subsetD)
  then obtain b where b: "b < length bbs" "starts 0 bbs ! b = (lab, p)"
    by (metis in_set_conv_nth length_starts)
  with nth_starts[of b bbs 0] have n: "getName (bbs ! b) = lab" "length (code_of (take b bbs)) = p" by auto
  with index_of_distinct[OF names_ok_distinct[OF ok] b(1)] b show ?thesis by (intro that) auto
qed

end
