(* ===== verification/Function_Sim.thy ===== *)
theory Function_Sim
  imports Lift_Inst Frame Streamer_Inv
begin

text \<open>
  From instructions to functions: \<open>liftMCFunction\<close> against the abstract machine on basic blocks. The
  abstract machine runs a block's instructions and moves on to the block its last instruction or its
  only successor names, or leaves the function; the lifted function does the same, block by block.
\<close>

section \<open>The abstract machine on blocks\<close>

datatype 'm outcome = Goto nat regs 'm | Exit regs 'm

definition is_branch :: "mcinst \<Rightarrow> bool" where
  "is_branch I = (case getOpcode I of JMP \<Rightarrow> True | JMPL \<Rightarrow> True | JCOND c k w \<Rightarrow> True | JSET k w \<Rightarrow> True | _ \<Rightarrow> False)"

text \<open>Where a branch goes: to the block it names, and a conditional one that is not taken to the other
  successor.\<close>

definition branch_dest :: "MCBasicBlock list \<Rightarrow> string list \<Rightarrow> mcinst \<Rightarrow> bool \<Rightarrow> nat option" where
  "branch_dest bbs succs I taken = (if getOpcode I \<in> {JMP, JMPL}
     then (case operands I of
         ExprOp (SymbolRef t) # _ \<Rightarrow> index_of t bbs
       | ExprOp e # _ \<Rightarrow> None
       | op # _ \<Rightarrow> (case succs of [t] \<Rightarrow> index_of t bbs | _ \<Rightarrow> None)
       | [] \<Rightarrow> None)
     else (case operands I of
       [_, _, ExprOp (SymbolRef t)] \<Rightarrow> if length succs \<notin> {1, 2} then None else
         (case (index_of t bbs, index_of (fallthrough t succs) bbs) of
            (Some bt, Some bf) \<Rightarrow> Some (if taken then bt else bf) | _ \<Rightarrow> None)
     | _ \<Rightarrow> None))"

definition exec_end :: "MCBasicBlock list \<Rightarrow> string list \<Rightarrow> regs \<times> 'm \<Rightarrow> 'm outcome option" where
  "exec_end bbs succs st = (case st of (\<rho>, m) \<Rightarrow> (case succs of
     [] \<Rightarrow> Some (Exit \<rho> m) | [nm] \<Rightarrow> map_option (\<lambda>j. Goto j \<rho> m) (index_of nm bbs) | _ \<Rightarrow> None))"

fun exec_instrs :: "'m llvm_sem \<Rightarrow> MCBasicBlock list \<Rightarrow> string list \<Rightarrow> mcinst list \<Rightarrow> regs \<times> 'm \<Rightarrow> 'm outcome option" where
  "exec_instrs S bbs succs [] st = exec_end bbs succs st"
| "exec_instrs S bbs succs (I # Is) st = (if Is = [] \<and> is_branch I then
       (case st of (\<rho>, m) \<Rightarrow> Option.bind (isa_taken I \<rho>) (\<lambda>t.
         map_option (\<lambda>j. Goto j \<rho> m) (branch_dest bbs succs I t)))
     else if Is = [] \<and> getOpcode I = RET then (case st of (\<rho>, m) \<Rightarrow> Some (Exit \<rho> m))
     else Option.bind (isa_exec S I st) (exec_instrs S bbs succs Is))"

definition exec_block :: "'m llvm_sem \<Rightarrow> MCBasicBlock list \<Rightarrow> nat \<Rightarrow> regs \<times> 'm \<Rightarrow> 'm outcome option" where
  "exec_block S bbs b = exec_instrs S bbs (getSuccs (bbs ! b)) (getInstrs (bbs ! b))"

fun run_blocks :: "nat \<Rightarrow> 'm llvm_sem \<Rightarrow> MCBasicBlock list \<Rightarrow> nat \<Rightarrow> regs \<times> 'm \<Rightarrow> (regs \<times> 'm) option" where
  "run_blocks 0 S bbs b st = None"
| "run_blocks (Suc n) S bbs b st = Option.bind (exec_block S bbs b st) (\<lambda>out. case out of
     Goto j \<rho> m \<Rightarrow> run_blocks n S bbs j (\<rho>, m) | Exit \<rho> m \<Rightarrow> Some (\<rho>, m))"

section \<open>One block in the run of the loop\<close>

definition at_entry :: "lstate \<Rightarrow> lstate \<Rightarrow> nat \<Rightarrow> MCBasicBlock \<Rightarrow> bool" where
  "at_entry s2 u b mbb \<longleftrightarrow> LLVMBB u = b \<and> MCBB u = (getName mbb, getSuccs mbb) \<and> RegFile u = RegFile s2 \<and> nid s2 \<le> nid u
     \<and> fn u ! b = fn s2 ! b \<and> code_le (fn s2) (fn u)"

abbreviation enter :: "nat \<Rightarrow> MCBasicBlock \<Rightarrow> lstate \<Rightarrow> lstate" where
  "enter b mbb s \<equiv> s\<lparr>LLVMBB := b, MCBB := (getName mbb, getSuccs mbb)\<rparr>"

abbreviation block_body :: "src_env \<Rightarrow> MCBasicBlock \<Rightarrow> unit lifter" where
  "block_body E mbb \<equiv> andthen (lift_instrs E (getInstrs mbb)) (finish_block E)"

lemma lift_block_enter: "lift_block E (b, mbb) s = block_body E mbb (enter b mbb s)"
  by (simp add: lift_block_def set_bb_def)

lemma body_frame: "block_body E mbb s = Inr (u, s') \<Longrightarrow> frame s s'"
proof -
  have "fr s (block_body E mbb)" by (intro frame_intro)
  then show "block_body E mbb s = Inr (u, s') \<Longrightarrow> frame s s'" by (rule frD[OF _ frame_refl])
qed

lemma block_frame:
  assumes "lift_block E (b, mbb) s = Inr (u, s')"
  shows "code_le (fn s) (fn s')" "RegFile s' = RegFile s" "nid s \<le> nid s'" "length (fn s) \<le> length (fn s')"
    "c < length (fn s) \<Longrightarrow> c \<noteq> b \<Longrightarrow> fn s' ! c = fn s ! c"
  using body_frame[OF assms[unfolded lift_block_enter]] by (auto simp: frame_def code_le_def)

lemma loop_le: "for_each ps (lift_block E) s = Inr ((), se) \<Longrightarrow> code_le (fn s) (fn se)"
proof (induction ps arbitrary: s)
  case (Cons p ps)
  obtain c bb where p: "p = (c, bb)" by (cases p)
  from Cons.prems obtain s1 where "lift_block E (c, bb) s = Inr ((), s1)" "for_each ps (lift_block E) s1 = Inr ((), se)"
    unfolding for_each_Cons_Inr p by blast
  then show ?case using Cons.IH block_frame(1) by (blast intro: code_le_trans)
qed simp

lemma loop_blocks:
  assumes "for_each ps (lift_block E) s = Inr ((), se)" and "distinct (map fst ps)" and "\<forall>p \<in> set ps. fst p < length (fn s)"
    and "(b, mbb) \<in> set ps"
  shows "\<exists>u w. at_entry s u b mbb \<and> block_body E mbb u = Inr ((), w) \<and> code_le (fn w) (fn se)"
  using assms
proof (induction ps arbitrary: s)
  case (Cons p ps)
  obtain c bb where p: "p = (c, bb)" by (cases p)
  from Cons.prems(1) obtain s1 where s1: "lift_block E (c, bb) s = Inr ((), s1)" and rest: "for_each ps (lift_block E) s1 = Inr ((), se)"
    unfolding for_each_Cons_Inr p by blast
  note f1 = block_frame[OF s1]
  show ?case
  proof (cases "(b, mbb) = p")
    case True
    then have "at_entry s (enter b mbb s) b mbb" by (simp add: at_entry_def p)
    moreover have "block_body E mbb (enter b mbb s) = Inr ((), s1)" using s1 True p lift_block_enter by auto
    ultimately show ?thesis using loop_le[OF rest] by blast
  next
    case False
    with Cons.prems(4) have b: "(b, mbb) \<in> set ps" by simp
    then have "b \<noteq> c" "b < length (fn s)" using Cons.prems(2,3) p by (force simp: image_iff)+
    with f1(5) have eq: "fn s1 ! b = fn s ! b" by simp
    have "\<forall>p \<in> set ps. fst p < length (fn s1)" using Cons.prems(3) f1(4) by auto
    with Cons.IH[OF rest _ this b] Cons.prems(2) obtain u w where "at_entry s1 u b mbb" "block_body E mbb u = Inr ((), w)" "code_le (fn w) (fn se)"
      by auto
    moreover from this(1) eq f1 have "at_entry s u b mbb" by (auto simp: at_entry_def intro: code_le_trans)
    ultimately show ?thesis by blast
  qed
qed simp

section \<open>The simulation at block boundaries\<close>

text \<open>The simulation depends on the lifter's state only through the registers' storage.\<close>

lemma sim_transfer:
  assumes "sim s \<sigma> \<rho> m" and "RegFile u = RegFile s" and "nid s \<le> nid u" and "wf u"
  shows "sim u \<sigma> \<rho> m"
proof -
  have at: "reg_at s \<sigma> r k \<Longrightarrow> reg_at u \<sigma> r k" for r k
    using assms(2,3) by (auto simp: reg_at_def hslot_def)
  have "reg_at s \<sigma> r k" if "r \<le> 11" "reg_at u \<sigma> r k" for r k
    using assms(1,2) that by (auto simp: sim_def reg_at_def hslot_def)
  with at assms(1,4) show ?thesis unfolding sim_def by metis
qed

lemma sim_back:
  assumes "sim v \<sigma>' \<rho>' m'" and "sim u \<sigma> \<rho> m" and "RegFile v = RegFile u"
  shows "sim u \<sigma>' \<rho>' m'"
proof -
  have at: "reg_at u \<sigma>' r k" if "r \<le> 11" "reg_at v \<sigma>' r k" for r k
    using assms that by (auto simp: sim_def reg_at_def hslot_def)
  have "reg_at v \<sigma>' r k" if "r \<le> 11" "reg_at u \<sigma>' r k" for r k
  proof -
    from assms(1) that(1) obtain k' where k': "reg_at v \<sigma>' r k'" by (auto simp: sim_def)
    with that(2) assms(3) show ?thesis by (auto simp: reg_at_def)
  qed
  with at assms(1,2) show ?thesis unfolding sim_def by metis
qed

text \<open>A position inside a block is only reached past an instruction that is not a terminator.\<close>

lemma steps_no_terminator:
  "steps S F c d \<Longrightarrow> d = Run b (Suc i) \<sigma>' \<Longrightarrow> c = d \<or> (\<exists>k nm ins. fetch F b i = Some (k, nm, ins) \<and> \<not> is_terminator ins)"
proof (induction rule: steps.induct)
  case (steps_step c c' c'')
  from steps_step.IH[OF steps_step.prems] show ?case
  proof
    assume "c' = c''"
    with steps_step.prems steps_step.hyps(1) obtain b0 i0 \<sigma> x where x: "c = Run b0 i0 \<sigma>" "fetch F b0 i0 = Some x"
        "exec_at S b0 i0 x \<sigma> = Some (Run b (Suc i) \<sigma>')"
      by (cases c) (auto split: option.splits)
    obtain k nm ins where xs: "x = (k, nm, ins)" by (cases x)
    from x(3) have "b0 = b \<and> i0 = i \<and> \<not> is_terminator ins"
      unfolding xs by (cases ins) (auto simp: exec_at_def exec_instr_def[of _ _ UnreachableI] split: option.splits val.splits if_splits)
    with x xs show ?thesis by auto
  qed blast
qed simp

lemma no_terminator:
  assumes t: "\<not> hasTerminator (LLVMBB u) (fn u)" and g: "code_le (fn u) (fn v)" and w: "wf u" "wf v"
    and st: "steps S (fn v) (cur u \<sigma>) (cur v \<sigma>')"
  shows "\<not> hasTerminator (LLVMBB v) (fn v)"
proof (cases "snd (fn v ! LLVMBB v)" rule: rev_cases)
  case (snoc xs x)
  then have l: "length (snd (fn v ! LLVMBB v)) = Suc (length xs)" by simp
  from steps_no_terminator[OF st[unfolded cur_def l] refl] show ?thesis
  proof
    assume "Run (LLVMBB u) (length (snd (fn u ! LLVMBB u))) \<sigma> = Run (LLVMBB v) (Suc (length xs)) \<sigma>'"
    then have eq: "LLVMBB v = LLVMBB u" "length (snd (fn u ! LLVMBB u)) = length (snd (fn v ! LLVMBB u))" using l by auto
    have "prefix (snd (fn u ! LLVMBB u)) (snd (fn v ! LLVMBB u))" using g w(1) by (simp add: code_le_def wf_def)
    with eq(2) have "snd (fn u ! LLVMBB u) = snd (fn v ! LLVMBB u)" by (auto simp: prefix_def)
    with t eq(1) show ?thesis by (simp add: hasTerminator_def)
  next
    assume "\<exists>k nm ins. fetch (fn v) (LLVMBB v) (length xs) = Some (k, nm, ins) \<and> \<not> is_terminator ins"
    with snoc w(2) show ?thesis by (auto simp: hasTerminator_def fetch_def wf_def nth_append)
  qed
qed (simp add: hasTerminator_def)

section \<open>A block\<close>

lemma exec_instrs_cases:
  assumes "exec_instrs S bbs succs Is st = Some out"
  obtains (branch) Is1 I \<rho> m t j where "Is = Is1 @ [I]" "isa_run S Is1 st = Some (\<rho>, m)" "isa_taken I \<rho> = Some t"
      "branch_dest bbs succs I t = Some j" "out = Goto j \<rho> m"
    | (return) Is1 I \<rho> m where "Is = Is1 @ [I]" "isa_run S Is1 st = Some (\<rho>, m)" "getOpcode I = RET" "out = Exit \<rho> m"
    | (falls) \<rho> m where "isa_run S Is st = Some (\<rho>, m)" "exec_end bbs succs (\<rho>, m) = Some out"
  using assms
proof (induction Is arbitrary: st thesis)
  case Nil
  show ?case by (rule Nil(3)[of "fst st" "snd st"]) (use Nil(4) in simp_all)
next
  case (Cons I Is)
  obtain \<rho> m where st: "st = (\<rho>, m)" by (cases st)
  consider (b) "Is = []" "is_branch I" | (r) "Is = []" "\<not> is_branch I" "getOpcode I = RET"
    | (x) "\<not> (Is = [] \<and> is_branch I)" "\<not> (Is = [] \<and> getOpcode I = RET)" by blast
  then show ?case
  proof cases
    case b
    with Cons.prems(4) st obtain t j where "isa_taken I \<rho> = Some t" "branch_dest bbs succs I t = Some j" "out = Goto j \<rho> m"
      by (auto simp: bind_eq_Some_conv)
    then show ?thesis using b st by (intro Cons.prems(1)[of "[]" I \<rho> m t j]) simp_all
  next
    case r
    with Cons.prems(4) st show ?thesis by (intro Cons.prems(2)[of "[]" I \<rho> m]) simp_all
  next
    case x
    then have eq: "exec_instrs S bbs succs (I # Is) st = Option.bind (isa_exec S I st) (exec_instrs S bbs succs Is)"
      by (simp only: exec_instrs.simps if_False)
    with Cons.prems(4) obtain st1 where s1: "isa_exec S I st = Some st1" "exec_instrs S bbs succs Is st1 = Some out"
      unfolding eq bind_eq_Some_conv by blast
    show ?thesis
    proof (rule Cons.IH[OF _ _ _ s1(2)], goal_cases)
      case (1 Is1 I1 \<rho>1 m1 t j)
      then show ?case using s1(1) by (intro Cons.prems(1)[of "I # Is1" I1 \<rho>1 m1 t j]) simp_all
    next
      case (2 Is1 I1 \<rho>1 m1)
      then show ?case using s1(1) by (intro Cons.prems(2)[of "I # Is1" I1 \<rho>1 m1]) simp_all
    next
      case (3 \<rho>1 m1)
      then show ?case using s1(1) by (intro Cons.prems(3)[of \<rho>1 m1]) simp_all
    qed
  qed
qed

definition names_at :: "MCBasicBlock list \<Rightarrow> lstate \<Rightarrow> bool" where
  "names_at bbs u \<longleftrightarrow> (\<forall>nm j. index_of nm bbs = Some j \<longrightarrow> find_block nm (fn u) 0 = Some j)"

lemma names_at_same: "names_at bbs u \<Longrightarrow> \<forall>b < length (fn u). fst (fn v ! b) = fst (fn u ! b) \<Longrightarrow> length (fn u) \<le> length (fn v) \<Longrightarrow> names_at bbs v"
  unfolding names_at_def
proof (intro allI impI)
  fix nm j assume n: "\<forall>nm j. index_of nm bbs = Some j \<longrightarrow> find_block nm (fn u) 0 = Some j"
    and f: "\<forall>b < length (fn u). fst (fn v ! b) = fst (fn u ! b)" "length (fn u) \<le> length (fn v)" and i: "index_of nm bbs = Some j"
  from n i have "find_block nm (fn u) 0 = Some j" by blast
  from find_block_Some[OF this] have j: "j < length (fn u)" "fst (fn u ! j) = nm" "\<forall>k < j. fst (fn u ! k) \<noteq> nm" by simp_all
  with f have "find_block nm (fn v) 0 = Some (0 + j)" by (intro find_block_I) auto
  then show "find_block nm (fn v) 0 = Some j" by simp
qed

lemma names_at_fun: "names_at bbs u \<Longrightarrow> same_fun u v \<Longrightarrow> names_at bbs v"
  by (rule names_at_same) (auto simp: same_fun_def)

lemma names_at_le: "names_at bbs u \<Longrightarrow> code_le (fn u) (fn v) \<Longrightarrow> names_at bbs v"
  by (rule names_at_same) (auto simp: code_le_def)

lemma branch_dest_block:
  assumes n: "names_at bbs u" and d: "branch_dest bbs (snd (MCBB u)) I t = Some j"
  shows "dest_block u I t = Some j"
proof (cases "getOpcode I \<in> {JMP, JMPL}")
  case True
  with d obtain op rest where op: "operands I = op # rest" by (auto simp: branch_dest_def split: list.splits)
  have "jmp_target u op = Some j"
    using d n True unfolding branch_dest_def op names_at_def jmp_target_def
    by (auto split: mcoperand.splits mcexpr.splits list.splits)
  with True op show ?thesis by (simp add: dest_block_def)
next
  case False
  with d obtain x y tgt bt bf where ops: "operands I = [x, y, ExprOp (SymbolRef tgt)]" and len: "length (snd (MCBB u)) \<in> {1, 2}"
    and b: "index_of tgt bbs = Some bt" "index_of (fallthrough tgt (snd (MCBB u))) bbs = Some bf" "j = (if t then bt else bf)"
    by (auto simp: branch_dest_def simp del: index_of.simps split: list.splits mcoperand.splits mcexpr.splits if_splits option.splits)
  from n b have "find_block tgt (fn u) 0 = Some bt" "find_block (fallthrough tgt (snd (MCBB u))) (fn u) 0 = Some bf"
    by (simp_all add: names_at_def)
  with False ops len b(3) show ?thesis by (auto simp: dest_block_def)
qed

text \<open>What executing the lifted block reaches, for each outcome of the abstract machine.\<close>

fun follows :: "'m llvm_sem \<Rightarrow> src_env \<Rightarrow> code \<Rightarrow> lstate \<Rightarrow> 'm conf \<Rightarrow> 'm outcome \<Rightarrow> bool" where
  "follows S E F u c (Goto j \<rho> m) = (\<exists>\<sigma>'. steps S F c (Run j 0 \<sigma>') \<and> sim u \<sigma>' \<rho> m)"
| "follows S E F u c (Exit \<rho> m) = (\<exists>\<sigma>'. steps S F c (Returned (return_value E (\<rho> 0)) \<sigma>') \<and> mem \<sigma>' = m)"

lemma follows_mono: "follows S E F u c out \<Longrightarrow> code_le F G \<Longrightarrow> follows S E G u c out"
  by (cases out) (auto intro: steps_mono)

lemma follows_steps: "steps S F c d \<Longrightarrow> follows S E F u d out \<Longrightarrow> follows S E F u c out"
  by (cases out) (auto intro: steps_trans)

lemma follows_back:
  assumes "follows S E F v c out" and "sim u \<sigma> \<rho> m" and "RegFile v = RegFile u"
  shows "follows S E F u c out"
proof (cases out)
  case (Goto j \<rho>' m')
  with assms(1) obtain \<sigma>' where "steps S F c (Run j 0 \<sigma>')" "sim v \<sigma>' \<rho>' m'" by auto
  with sim_back[OF this(2) assms(2,3)] Goto show ?thesis by auto
qed (use assms(1) in simp)

lemma lift_instrs_append: "lift_instrs E (Is @ Js) = andthen (lift_instrs E Is) (lift_instrs E Js)"
  by (simp add: lift_instrs_def for_each_append)

lemma lift_instrs_single:
  assumes "lift E I (s\<lparr>llvmInstNum := 0, PrevInst := Some (CurInst s), CurInst := I\<rparr>) = Inr ((), t)"
  shows "lift_instrs E [I] s = Inr ((), t\<lparr>armInstNum := Suc (armInstNum t)\<rparr>)"
  using assms by (simp add: lift_instrs_def liftInst_def)

lemma cur_updates [simp]:
  "cur (s\<lparr>llvmInstNum := n\<rparr>) \<sigma> = cur s \<sigma>" "cur (s\<lparr>PrevInst := p\<rparr>) \<sigma> = cur s \<sigma>" "cur (s\<lparr>CurInst := I\<rparr>) \<sigma> = cur s \<sigma>"
  by (simp_all add: cur_def)

lemma frame_RegFile: "frame s t \<Longrightarrow> RegFile t = RegFile s"
  by (simp add: frame_def)

context langref
begin

text \<open>The instructions before the last one, or all of them.\<close>

lemma lifted_prefix:
  assumes s: "sim u \<sigma> \<rho> m" and n: "names_at bbs u" and r: "isa_run S Is (\<rho>, m) = Some (\<rho>', m')"
  obtains v \<sigma>' where "lift_instrs E Is u = Inr ((), v)" "steps S (fn v) (cur u \<sigma>) (cur v \<sigma>')" "sim v \<sigma>' \<rho>' m'"
    "names_at bbs v" "code_le (fn u) (fn v)" "RegFile v = RegFile u" "MCBB v = MCBB u"
proof -
  from wp_lift_instrs[OF s r, of E] obtain v \<sigma>' where v: "lift_instrs E Is u = Inr ((), v)" "grows u v"
      "steps S (fn v) (cur u \<sigma>) (cur v \<sigma>')" "sim v \<sigma>' \<rho>' m'" "same_fun u v"
    by (auto simp: wp_def reaches_def)
  then show thesis using that names_at_fun[OF n v(5)] by (auto simp: grows_def same_fun_def)
qed

lemma last_branch:
  assumes s: "sim v \<sigma> \<rho> m" and n: "names_at bbs v" and t: "isa_taken I \<rho> = Some t"
    and j: "branch_dest bbs (snd (MCBB v)) I t = Some j" and w: "lift_instrs E [I] v = Inr ((), w)"
  shows "follows S E (fn w) v (cur v \<sigma>) (Goto j \<rho> m)"
proof -
  let ?v = "v\<lparr>llvmInstNum := 0, PrevInst := Some (CurInst v), CurInst := I\<rparr>"
  from n have "names_at bbs ?v" by (simp add: names_at_def)
  from branch_dest_block[OF this] j have d: "dest_block ?v I t = Some j" by simp
  have "sim ?v \<sigma> \<rho> m" using s by simp
  from wpj_lift[OF this _ t d, of E] obtain x \<sigma>' where x: "lift E I ?v = Inr ((), x)" "steps S (fn x) (cur v \<sigma>) (Run j 0 \<sigma>')"
      "sim x \<sigma>' \<rho> m" "same_ctx ?v x"
    by (auto simp: wpj_def jumps_def)
  from x(1) w have "fn w = fn x" by (auto simp: lift_instrs_single[OF x(1)])
  moreover have "sim v \<sigma>' \<rho> m" by (rule sim_back[OF x(3) s]) (use x(4) in \<open>simp add: same_ctx_def\<close>)
  ultimately show ?thesis using x(2) by auto
qed

lemma last_return:
  assumes s: "sim v \<sigma> \<rho> m" and E: "returnable E" and I: "getOpcode I = RET" and w: "lift_instrs E [I] v = Inr ((), w)"
  shows "follows S E (fn w) v (cur v \<sigma>) (Exit \<rho> m)"
proof -
  let ?v = "v\<lparr>llvmInstNum := 0, PrevInst := Some (CurInst v), CurInst := I\<rparr>"
  have "sim ?v \<sigma> \<rho> m" using s by simp
  from wpj_lift_ret[OF this E I] obtain x \<sigma>' where x: "lift E I ?v = Inr ((), x)"
      "steps S (fn x) (cur v \<sigma>) (Returned (return_value E (\<rho> 0)) \<sigma>')" "mem \<sigma>' = m"
    by (auto simp: wpj_def returns_with_def)
  with w show ?thesis by (auto simp: lift_instrs_single[OF x(1)])
qed

lemma block_end:
  assumes s: "sim v \<sigma> \<rho> m" and n: "names_at bbs v" and E: "returnable E" and t: "\<not> hasTerminator (LLVMBB v) (fn v)"
    and x: "exec_end bbs (snd (MCBB v)) (\<rho>, m) = Some out" and w: "finish_block E v = Inr ((), w)"
  shows "follows S E (fn w) v (cur v \<sigma>) out"
proof -
  consider "snd (MCBB v) = []" "out = Exit \<rho> m" | nm j where "snd (MCBB v) = [nm]" "index_of nm bbs = Some j" "out = Goto j \<rho> m"
    using x by (auto simp: exec_end_def simp del: index_of.simps split: list.splits)
  then show ?thesis
  proof cases
    case 1
    then have "doReturn E v = Inr ((), w)" using w t by (simp add: finish_block_def)
    moreover from wpj_doReturn[OF s E] obtain x \<sigma>' where "doReturn E v = Inr ((), x)"
        "steps S (fn x) (cur v \<sigma>) (Returned (return_value E (\<rho> 0)) \<sigma>')" "mem \<sigma>' = m"
      by (auto simp: wpj_def returns_with_def)
    ultimately show ?thesis using 1(2) by auto
  next
    case 2
    then have f: "find_block nm (fn v) 0 = Some j" using n by (simp add: names_at_def)
    with 2 w t have "createBranch j v = Inr ((), w)" by (simp add: finish_block_def getBBByName_def bnd_def from_option_def)
    moreover from wpj_jump_end[OF s, of j] obtain x \<sigma>' where x: "createBranch j v = Inr ((), x)"
        "steps S (fn x) (cur v \<sigma>) (Run j 0 \<sigma>')" "sim x \<sigma>' \<rho> m" "same_ctx v x"
      by (auto simp: wpj_def jumps_def)
    ultimately show ?thesis using 2(3) sim_back[OF x(3) s] x by (auto simp: same_ctx_def)
  qed
qed

lemma lifted_block:
  assumes s: "sim u \<sigma> \<rho> m" and n: "names_at bbs u" and E: "returnable E" and t: "\<not> hasTerminator (LLVMBB u) (fn u)"
    and x: "exec_instrs S bbs (snd (MCBB u)) Is (\<rho>, m) = Some out"
    and w: "andthen (lift_instrs E Is) (finish_block E) u = Inr ((), w)"
  shows "follows S E (fn w) u (cur u \<sigma>) out"
proof -
  from w obtain y where y: "lift_instrs E Is u = Inr ((), y)" "finish_block E y = Inr ((), w)" by (auto simp: andthen_eq_Inr)
  have le: "code_le (fn y) (fn w)" using frD[OF fr_finish_block frame_refl y(2)] by (simp add: frame_def)
  have out_back: "follows S E F u c out" if "follows S E F v c out" "RegFile v = RegFile u" for F v c
    by (rule follows_back[OF that(1) s that(2)])
  have split: "follows S E (fn w) u (cur u \<sigma>) out" if Is: "Is = Is1 @ [I]" and r: "isa_run S Is1 (\<rho>, m) = Some (\<rho>', m')"
      and last: "\<And>v \<sigma>'. sim v \<sigma>' \<rho>' m' \<Longrightarrow> names_at bbs v \<Longrightarrow> MCBB v = MCBB u \<Longrightarrow> lift_instrs E [I] v = Inr ((), y) \<Longrightarrow>
        follows S E (fn y) v (cur v \<sigma>') out" for Is1 I \<rho>' m'
  proof (rule lifted_prefix[OF s n r, of E])
    fix v \<sigma>' assume v: "lift_instrs E Is1 u = Inr ((), v)" "steps S (fn v) (cur u \<sigma>) (cur v \<sigma>')" "sim v \<sigma>' \<rho>' m'"
      "names_at bbs v" "code_le (fn u) (fn v)" "RegFile v = RegFile u" "MCBB v = MCBB u"
    from y(1) v(1) have l: "lift_instrs E [I] v = Inr ((), y)" by (simp add: Is lift_instrs_append)
    have "code_le (fn v) (fn y)" using frD[OF fr_lift_instrs frame_refl l] by (simp add: frame_def)
    with last[OF v(3,4,7) l] v(2) have "follows S E (fn y) v (cur u \<sigma>) out" by (blast intro: follows_steps steps_mono)
    from follows_mono[OF out_back[OF this v(6)] le] show ?thesis .
  qed
  from x show ?thesis
  proof (cases rule: exec_instrs_cases)
    case (branch Is1 I \<rho>' m' t' j)
    show ?thesis
      by (rule split[OF branch(1,2)], unfold branch(5), rule last_branch[OF _ _ branch(3)]) (use branch(4) in simp_all)
  next
    case (return Is1 I \<rho>' m')
    show ?thesis by (rule split[OF return(1,2)], unfold return(4), rule last_return[OF _ E return(3)])
  next
    case (falls \<rho>' m')
    show ?thesis
    proof (rule lifted_prefix[OF s n falls(1), of E])
      fix v \<sigma>' assume v: "lift_instrs E Is u = Inr ((), v)" "steps S (fn v) (cur u \<sigma>) (cur v \<sigma>')" "sim v \<sigma>' \<rho>' m'"
        "names_at bbs v" "code_le (fn u) (fn v)" "RegFile v = RegFile u" "MCBB v = MCBB u"
      with y have "v = y" by simp
      have nt: "\<not> hasTerminator (LLVMBB v) (fn v)" by (rule no_terminator[OF t v(5) sim_wf[OF s] sim_wf[OF v(3)] v(2)])
      have "follows S E (fn w) v (cur v \<sigma>') out"
        by (rule block_end[OF v(3,4) E nt]) (use falls(2) v(7) y(2) \<open>v = y\<close> in simp_all)
      then show ?thesis
        using out_back[OF follows_steps[OF steps_mono[OF v(2)]] v(6)] le \<open>v = y\<close> by blast
    qed
  qed
qed

end

section \<open>All blocks\<close>

text \<open>The state in which the loop over the blocks starts: a block per machine block, of the same name;
  only the first holds code, and none ends in a terminator.\<close>

definition entry_state :: "MCBasicBlock list \<Rightarrow> lstate \<Rightarrow> bool" where
  "entry_state bbs s \<longleftrightarrow> bbs \<noteq> [] \<and> LLVMBB s = 0 \<and> length bbs \<le> length (fn s) \<and>
     (\<forall>b < length bbs. fst (fn s ! b) = getName (bbs ! b) \<and> \<not> hasTerminator b (fn s) \<and> (b \<noteq> 0 \<longrightarrow> snd (fn s ! b) = []))"

text \<open>No branch goes back to the first block (LLVM IR does not allow it; the streamer's first block has a
  name no label can have).\<close>

definition entry_apart :: "MCBasicBlock list \<Rightarrow> bool" where
  "entry_apart bbs \<longleftrightarrow> (\<forall>bb \<in> set bbs. getName (bbs ! 0) \<notin> set (getSuccs bb) \<and>
     (\<forall>I \<in> set (getInstrs bb). ExprOp (SymbolRef (getName (bbs ! 0))) \<notin> set (operands I)))"

lemma entry_names:
  assumes "entry_state bbs s"
  shows "names_at bbs s"
  unfolding names_at_def
proof (intro allI impI)
  fix nm j assume "index_of nm bbs = Some j"
  then have "j < length bbs" "getName (bbs ! j) = nm" "\<forall>k < j. getName (bbs ! k) \<noteq> nm" by (simp_all add: index_of_Some)
  with assms have "find_block nm (fn s) 0 = Some (0 + j)" by (intro find_block_I) (auto simp: entry_state_def)
  then show "find_block nm (fn s) 0 = Some j" by simp
qed

lemma branch_dest_not_entry:
  assumes "entry_apart bbs" and "bb \<in> set bbs" and "I \<in> set (getInstrs bb)" and "branch_dest bbs (getSuccs bb) I t = Some j"
  shows "j \<noteq> 0 \<and> j < length bbs"
proof -
  from assms(4) obtain nm where nm: "index_of nm bbs = Some j" "ExprOp (SymbolRef nm) \<in> set (operands I) \<or> nm \<in> set (getSuccs bb)"
  proof (cases "getOpcode I \<in> {JMP, JMPL}")
    case True
    with assms(4) that show ?thesis
      by (auto simp: branch_dest_def simp del: index_of.simps split: list.splits mcoperand.splits mcexpr.splits)
  next
    case False
    with assms(4) obtain x y tgt bt bf where ops: "operands I = [x, y, ExprOp (SymbolRef tgt)]"
      and b: "index_of tgt bbs = Some bt" "index_of (fallthrough tgt (getSuccs bb)) bbs = Some bf" "j = (if t then bt else bf)"
      by (auto simp: branch_dest_def simp del: index_of.simps split: list.splits mcoperand.splits mcexpr.splits if_splits option.splits)
    have "fallthrough tgt (getSuccs bb) = tgt \<or> fallthrough tgt (getSuccs bb) \<in> set (getSuccs bb)"
      by (auto simp: fallthrough_def find_Some_iff split: option.splits)
    with ops b that show ?thesis by (auto split: if_splits)
  qed
  with assms(1-3) have "nm \<noteq> getName (bbs ! 0)" by (auto simp: entry_apart_def)
  with nm(1) show ?thesis by (cases j) (auto simp: index_of_Some)
qed

lemma exec_block_not_entry:
  assumes "entry_apart bbs" and "b < length bbs" and "exec_block S bbs b st = Some (Goto j \<rho> m)"
  shows "j \<noteq> 0 \<and> j < length bbs"
  using assms(3) unfolding exec_block_def
proof (cases rule: exec_instrs_cases)
  case (branch Is1 I \<rho>' m' t j')
  with branch_dest_not_entry[OF assms(1) nth_mem[OF assms(2)], of I t j] show ?thesis by simp
next
  case (falls \<rho>' m')
  then obtain nm where "getSuccs (bbs ! b) = [nm]" "index_of nm bbs = Some j"
    by (auto simp: exec_end_def simp del: index_of.simps split: list.splits)
  moreover from this(1) assms(1) nth_mem[OF assms(2)] have "nm \<noteq> getName (bbs ! 0)" by (force simp: entry_apart_def)
  ultimately show ?thesis by (cases j) (auto simp: index_of_Some)
qed simp

context langref
begin

lemma simulate_block:
  assumes ent: "entry_state bbs s" and loop: "for_each (zip [0..<length bbs] bbs) (lift_block E) s = Inr ((), se)" and E: "returnable E"
    and b: "b < length bbs" and x: "exec_block S bbs b (\<rho>, m) = Some out" and s: "sim s \<sigma> \<rho> m"
  shows "follows S E (fn se) s (Run b (length (snd (fn s ! b))) \<sigma>) out"
proof -
  have "(b, bbs ! b) \<in> set (zip [0..<length bbs] bbs)" using b by (force simp: set_zip)
  moreover have "distinct (map fst (zip [0..<length bbs] bbs))" by simp
  moreover have "\<forall>p \<in> set (zip [0..<length bbs] bbs). fst p < length (fn s)" using ent by (auto simp: entry_state_def set_zip)
  ultimately obtain u w where u: "at_entry s u b (bbs ! b)" "block_body E (bbs ! b) u = Inr ((), w)" "code_le (fn w) (fn se)"
    using loop_blocks[OF loop] by blast
  have fu: "LLVMBB u = b" "MCBB u = (getName (bbs ! b), getSuccs (bbs ! b))" "RegFile u = RegFile s" "nid s \<le> nid u"
      "fn u ! b = fn s ! b" "code_le (fn s) (fn u)"
    using u(1) by (simp_all add: at_entry_def)
  have wf: "wf u" using fu b ent by (auto simp: wf_def entry_state_def code_le_def)
  have "follows S E (fn w) u (cur u \<sigma>) out"
  proof (rule lifted_block[OF sim_transfer[OF s fu(3,4) wf] names_at_le[OF entry_names[OF ent] fu(6)] E])
    show "\<not> hasTerminator (LLVMBB u) (fn u)" using ent b fu(1,5) by (simp add: entry_state_def hasTerminator_def)
  qed (use x u(2) fu(2) in \<open>simp_all add: exec_block_def\<close>)
  then have "follows S E (fn se) u (Run b (length (snd (fn s ! b))) \<sigma>) out"
    using follows_mono[OF _ u(3)] fu(1,5) by (simp add: cur_def)
  then show ?thesis by (rule follows_back[OF _ s fu(3)])
qed

lemma simulate_blocks:
  assumes ent: "entry_state bbs s" and loop: "for_each (zip [0..<length bbs] bbs) (lift_block E) s = Inr ((), se)" and E: "returnable E"
    and apart: "entry_apart bbs"
  shows "b < length bbs \<Longrightarrow> sim s \<sigma> \<rho> m \<Longrightarrow> run_blocks n S bbs b (\<rho>, m) = Some (\<rho>', m') \<Longrightarrow>
    follows S E (fn se) s (Run b (length (snd (fn s ! b))) \<sigma>) (Exit \<rho>' m')"
proof (induction n arbitrary: b \<sigma> \<rho> m)
  case (Suc n)
  from Suc.prems(3) obtain out where out: "exec_block S bbs b (\<rho>, m) = Some out"
      "(case out of Goto j \<rho> m \<Rightarrow> run_blocks n S bbs j (\<rho>, m) | Exit \<rho> m \<Rightarrow> Some (\<rho>, m)) = Some (\<rho>', m')"
    by (auto simp: bind_eq_Some_conv)
  note f = simulate_block[OF ent loop E Suc.prems(1) out(1) Suc.prems(2)]
  show ?case
  proof (cases out)
    case (Goto j \<rho>1 m1)
    have j: "j \<noteq> 0" "j < length bbs"
      using exec_block_not_entry[OF apart Suc.prems(1) out(1)[unfolded Goto]] by simp_all
    with ent have z: "snd (fn s ! j) = []" by (simp add: entry_state_def)
    from f Goto obtain \<sigma>1 where "steps S (fn se) (Run b (length (snd (fn s ! b))) \<sigma>) (Run j 0 \<sigma>1)" "sim s \<sigma>1 \<rho>1 m1"
      unfolding Goto follows.simps by blast
    then have s1: "steps S (fn se) (Run b (length (snd (fn s ! b))) \<sigma>) (Run j (length (snd (fn s ! j))) \<sigma>1)" "sim s \<sigma>1 \<rho>1 m1"
      by (simp_all add: z)
    have "run_blocks n S bbs j (\<rho>1, m1) = Some (\<rho>', m')" using out(2) Goto by simp
    from follows_steps[OF s1(1) Suc.IH[OF j(2) s1(2) this]] show ?thesis .
  qed (use f out(2) in simp)
qed simp

end

end
