(* ===== verification/Entry_Sim.thy ===== *)
theory Entry_Sim
  imports Function_Sim
begin

text \<open>
  The entry of the lifted function: the code of \<open>platformInit\<close> gives every register storage, points r10
  past the stack block, and leaves the arguments in r1 to r5, extended as the calling convention
  promises. Together with \<open>Function_Sim\<close> this is the correctness of a whole lifted function.
\<close>

section \<open>Actions that stay in their block\<close>

text \<open>\<open>line n\<close>: code is appended to the current block only, and at most \<open>n\<close> bytes of the scratch space
  are used.\<close>

definition line :: "nat \<Rightarrow> lstate \<Rightarrow> lstate \<Rightarrow> bool" where
  "line n s s' \<longleftrightarrow> LLVMBB s' = LLVMBB s \<and> map fst (fn s') = map fst (fn s) \<and> (\<forall>c. c \<noteq> LLVMBB s \<longrightarrow> fn s' ! c = fn s ! c)
     \<and> unspecifiedOff s' \<le> unspecifiedOff s + n"

definition ln :: "nat \<Rightarrow> 'a lifter \<Rightarrow> bool" where
  "ln n m \<longleftrightarrow> (\<forall>s v s'. m s = Inr (v, s') \<longrightarrow> line n s s')"

named_theorems line_intro \<open>actions that stay in their block\<close>

lemma line_refl [simp]: "line n s s"
  by (simp add: line_def)

lemma line_trans: "line a s s' \<Longrightarrow> line b s' s'' \<Longrightarrow> line (a + b) s s''"
  by (auto simp: line_def)

lemma line_weaken: "line a s s' \<Longrightarrow> a \<le> b \<Longrightarrow> line b s s'"
  by (auto simp: line_def)

lemma lnD: "ln n m \<Longrightarrow> m s = Inr (v, s') \<Longrightarrow> line n s s'"
  by (simp add: ln_def)

lemma ln_weaken: "ln a m \<Longrightarrow> a \<le> b \<Longrightarrow> ln b m"
  unfolding ln_def by (blast intro: line_weaken)

lemma wp_line: "wp S m Q s \<sigma> \<Longrightarrow> ln n m \<Longrightarrow> wp S m (\<lambda>v s' \<sigma>'. Q v s' \<sigma>' \<and> line n s s') s \<sigma>"
  unfolding wp_def by (blast dest: lnD)

lemma ln_simple [line_intro]: "ln n (ret v)" "ln n (fail e)" "ln n (gets f)" "ln n (check b e)" "ln n (from_option e x)"
  by (auto simp: ln_def split: if_splits) (cases x; simp)

lemma ln_bnd_add: "ln a m \<Longrightarrow> (\<And>v. ln b (k v)) \<Longrightarrow> ln (a + b) (bnd m k)"
  unfolding ln_def bnd_eq_Inr by (blast intro: line_trans)

lemma ln_bnd [line_intro]: "ln 0 m \<Longrightarrow> (\<And>v. ln n (k v)) \<Longrightarrow> ln n (bnd m k)"
  using ln_bnd_add[of 0 m n k] by simp

lemma ln_andthen [line_intro]: "ln 0 m \<Longrightarrow> ln n k \<Longrightarrow> ln n (andthen m k)"
  unfolding andthen_def by (rule ln_bnd)

lemma ln_if [line_intro]: "ln n a \<Longrightarrow> ln n b \<Longrightarrow> ln n (if c then a else b)"
  by simp

lemma ln_modify: "(\<And>s. line n s (f s)) \<Longrightarrow> ln n (modify f)"
  by (auto simp: ln_def)

lemma ln_emit [line_intro]: "ln n (emit nm t ins)"
proof -
  have "map fst (append_insn x b F) = map fst F" for x b F
    by (cases "b < length F") (simp_all add: append_insn_def map_update list_update_same_conv list_update_beyond)
  moreover have "c \<noteq> b \<Longrightarrow> append_insn x b F ! c = F ! c" for x b c F by (simp add: append_insn_def)
  ultimately show ?thesis by (auto simp: ln_def emit_def line_def)
qed

lemma ln_nextName [line_intro]: "ln n nextName"
  by (auto simp: ln_def nextName_def line_def)

lemma ln_builder [line_intro]:
  "ln n (bit_width v)" "ln n (getUnsignedIntConst x k)" "ln n (createAlloca t v nm)"
  "ln n (createGEP t v w nm)" "ln n (createLoad t v)" "ln n (createStore v w)"
  "ln n (createRawShl v w)" "ln n (createOr v w)" "ln n (createTrunc v t)" "ln n (createSExt v t)" "ln n (createZExt v t)"
  unfolding builder_defs by (intro line_intro)+

lemma ln_lookupReg [line_intro]: "ln n (lookupReg r)"
  by (auto simp: lookupReg_def mapRegToBackingReg_def intro!: line_intro split: reg.splits)

lemma ln_unspecified: "ln ((width + 7) div 8) (unspecifiedValue width)"
proof -
  let ?n = "(width + 7) div 8"
  have m: "ln ?n (modify (\<lambda>s. s\<lparr>unspecifiedOff := unspecifiedOff s + ?n\<rparr>))"
    "ln 0 (modify (\<lambda>s. s\<lparr>unspecifiedMem := True\<rparr>))"
    by (auto simp: line_def intro!: ln_modify)
  have "ln ?n (andthen (modify (\<lambda>s. s\<lparr>unspecifiedOff := unspecifiedOff s + ?n\<rparr>)) (createLoad (IntTy width) ptr))" for ptr
    using ln_bnd_add[OF m(1), of 0 "\<lambda>_. createLoad (IntTy width) ptr"] by (simp add: andthen_def line_intro)
  note key = this
  show ?thesis unfolding unspecifiedValue_def by (rule key m(2) | rule line_intro)+
qed

lemma ln_unspecified8: "width \<le> 64 \<Longrightarrow> ln 8 (unspecifiedValue width)"
  by (rule ln_weaken[OF ln_unspecified]) simp

lemma ln_enforce [line_intro]: "ln 8 (enforceSExtZExt v a b)"
proof -
  have key: "ln 8 (if w < 64 then bnd (unspecifiedValue (64 - w)) k else ret v)" if "\<And>x. ln 0 (k x)" for w k and v :: llvalue
    using ln_bnd_add[OF ln_unspecified8, of "64 - w" 0 k] that by (auto intro: line_intro)
  show ?thesis unfolding enforceSExtZExt_def by (rule key | rule line_intro)+
qed

lemma ln_createRegStorage: "ln 8 (createRegStorage r 64 nm)"
proof -
  have m: "ln n (modify (\<lambda>s. s\<lparr>RegFile := (RegFile s)(r \<mapsto> a)\<rparr>))" for a n by (rule ln_modify) (simp add: line_def)
  have tail: "ln 0 (andthen (createStore v a) (modify (\<lambda>s. s\<lparr>RegFile := (RegFile s)(r \<mapsto> a)\<rparr>)))" for v a
    by (intro line_intro m)
  have "ln 8 (bnd (unspecifiedValue 64) (\<lambda>v. andthen (createStore v a) (modify (\<lambda>s. s\<lparr>RegFile := (RegFile s)(r \<mapsto> a)\<rparr>))))" for a
    using ln_bnd_add[OF ln_unspecified8[of 64, simplified] tail] by simp
  note key = this
  show ?thesis unfolding createRegStorage_def by (rule key | rule line_intro)+
qed

section \<open>Values of any width\<close>

definition hn :: "'m llvm_sem \<Rightarrow> lstate \<Rightarrow> 'm machine \<Rightarrow> llvalue \<Rightarrow> nat \<Rightarrow> int \<Rightarrow> bool" where
  "hn S s \<sigma> v w x \<longleftrightarrow> holds S s \<sigma> v (VInt w x) \<and> type_of v = IntTy w \<and> in_width w x"

lemma hn_pure: "hn S s \<sigma> v w x \<Longrightarrow> pure s \<sigma> s' \<sigma>' \<Longrightarrow> hn S s' \<sigma>' v w x"
  by (auto simp: hn_def intro: holds_pure)

lemma hn_width: "hn S s \<sigma> v w x \<Longrightarrow> wp S (bnd (bit_width v) k) Q s \<sigma> \<longleftrightarrow> wp S (k w) Q s \<sigma>"
  by (simp add: hn_def wp_def bnd_def bit_width_def)

lemma hn_hw: "hn S s \<sigma> v 64 x \<Longrightarrow> hw S s \<sigma> v (word_of_int x :: 64 word)"
  by (simp add: hn_def hw_def in_width_def uint_word_of_int_eq take_bit_int_eq_self)

lemma in_width_mono: "in_width w x \<Longrightarrow> w \<le> w' \<Longrightarrow> in_width w' x"
  unfolding in_width_def by (meson less_le_trans one_le_numeral power_increasing)

text \<open>What a register may hold for an argument of the given width: an extension attribute fixes the
  upper bits, otherwise only the low bits are known.\<close>

definition extends :: "nat \<Rightarrow> bool \<Rightarrow> bool \<Rightarrow> int \<Rightarrow> 64 word \<Rightarrow> bool" where
  "extends w sx zx x y \<longleftrightarrow> (if zx \<or> w = 64 then uint y = x else if sx then y = word_of_int (sgn_of w x)
     else take_bit w (uint y) = x)"

lemma extends_or: "w < 64 \<Longrightarrow> in_width w x \<Longrightarrow>
    extends w False False x ((push_bit w (word_of_int j :: 64 word)) OR word_of_int x)"
  unfolding extends_def in_width_def
  by (simp add: unsigned_or_eq unsigned_push_bit_eq take_bit_or uint_word_of_int_eq take_bit_take_bit
      take_bit_push_bit take_bit_int_eq_self)

definition readable_scratch :: "'m llvm_sem \<Rightarrow> 'm \<Rightarrow> bool" where
  "readable_scratch S m \<longleftrightarrow> (\<forall>w off. off + (w + 7) div 8 \<le> unspecifiedMemBytes \<longrightarrow>
     sem_load S m w (uint (word_of_int (sem_global S unspecified_name + int off) :: 64 word)) \<noteq> None)"

context langref
begin

lemma wp_zext_any:
  assumes w: "wf s" and v: "hn S s \<sigma> v w x" and lt: "w < 64"
    and Q: "\<And>r s' \<sigma>'. pure s \<sigma> s' \<sigma>' \<Longrightarrow> hn S s' \<sigma>' r 64 x \<Longrightarrow> Q r s' \<sigma>'"
  shows "wp S (createZExt v (IntTy 64)) Q s \<sigma>"
  unfolding createZExt_def
  by (rule wp_emit_named[OF w, where x="VInt 64 x"])
     (use v lt in_width_mono[of w x 64] in \<open>auto simp: hn_def holds_def exec_instr_def cast_zext intro!: Q\<close>)

lemma wp_sext_any:
  assumes w: "wf s" and v: "hn S s \<sigma> v w x" and lt: "w < 64"
    and Q: "\<And>r s' \<sigma>'. pure s \<sigma> s' \<sigma>' \<Longrightarrow> hn S s' \<sigma>' r 64 (take_bit 64 (sgn_of w x)) \<Longrightarrow> Q r s' \<sigma>'"
  shows "wp S (createSExt v (IntTy 64)) Q s \<sigma>"
  unfolding createSExt_def
  by (rule wp_emit_named[OF w, where x="VInt 64 (take_bit 64 (sgn_of w x))"])
     (use v lt take_bit_int_less_exp[of 64 "sgn_of w x"] in \<open>auto simp: hn_def holds_def exec_instr_def cast_sext in_width_def intro!: Q\<close>)

lemma wp_unspecified:
  assumes w: "wf s" and off: "unspecifiedOff s + (n + 7) div 8 \<le> unspecifiedMemBytes" and r: "readable_scratch S (mem \<sigma>)"
    and Q: "\<And>v s' \<sigma>' x. pure s \<sigma> s' \<sigma>' \<Longrightarrow> hn S s' \<sigma>' v n x \<Longrightarrow> Q v s' \<sigma>'"
  shows "wp S (unspecifiedValue n) Q s \<sigma>"
proof -
  let ?s = "s\<lparr>unspecifiedMem := True\<rparr>"
  let ?a = "word_of_int (sem_global S unspecified_name) + word_of_int (int (unspecifiedOff s)) :: 64 word"
  have pm: "pure s \<tau> ?s \<tau>" for \<tau> :: "'m machine" using w by (auto simp: pure_def keeps_def same_ctx_def wf_def)
  have g: "hp S s' \<tau> (GlobalV unspecified_name) (word_of_int (sem_global S unspecified_name))" for s' and \<tau> :: "'m machine"
    using global_range[of unspecified_name] by (simp add: hp_def holds_def eval_def in_width_def uint_word_of_int_eq take_bit_int_eq_self)
  from r off obtain x where x: "sem_load S (mem \<sigma>) n (uint ?a) = Some x"
    unfolding readable_scratch_def by force
  have "unspecifiedOff s \<le> 65536" using off by (simp add: unspecifiedMemBytes_def)
  then have c0: "0 \<le> int (unspecifiedOff s)" "int (unspecifiedOff s) < 2 ^ LENGTH(64)" by simp_all
  show ?thesis
    unfolding unspecifiedValue_def
  proof (rule wp_andthen, rule wp_modify, simp, simp, simp, rule wp_bnd, rule wp_gets, subst wp_checked, use off in simp, rule wp_bnd,
      rule wp_unsigned_const[where 'w=64, simplified], goal_cases)
    case (3 c)
    then have c: "hw S ?s \<sigma> c (word_of_int (int (unspecifiedOff s)) :: 64 word)" by simp
    show ?case
    proof (rule wp_bnd, rule wp_nextName[OF pure_wf[OF pm]], rule wp_bnd, goal_cases)
      case (1 nm s1)
      note n1 = 1(1)
      show ?case
      proof (rule wp_createGEP[OF pure_wf[OF n1] g hw_pure[OF c n1]], rule wp_andthen, rule wp_modify, simp, simp, simp, goal_cases)
        case (1 v s2 \<sigma>2)
        note 2 = this
          let ?s2 = "s2\<lparr>unspecifiedOff := unspecifiedOff s2 + (n + 7) div 8\<rparr>"
          have p2: "pure s2 \<tau> ?s2 \<tau>" for \<tau> :: "'m machine" using pure_wf[OF 2(1)] by (auto simp: pure_def keeps_def same_ctx_def wf_def)
          note pu = pure_trans[OF pm pure_trans[OF n1 pure_trans[OF 2(1) p2]]]
          have "mem \<sigma>2 = mem \<sigma>" using 2(1) by (simp add: pure_def)
          with x 2(2) have ex: "exec_instr S k (LoadI (IntTy n) v) \<sigma>2 = Some (Some (VInt n x), \<sigma>2)" for k
            by (simp add: exec_instr_def hp_def holds_def exec_load_def)
          show ?case
            unfolding createLoad_def
            by (rule wp_emit_named[OF pure_wf[OF p2] ex])
               (use Q pure_trans[OF pu] load_range[OF x] in \<open>auto simp: hn_def\<close>)
        qed
      qed
  qed (use c0 in simp_all)
qed


lemma wp_junk:
  assumes w: "wf s" and v: "hn S s \<sigma> v w x" and lt: "w < 64" "0 < w" and r: "readable_scratch S (mem \<sigma>)"
    and off: "unspecifiedOff s + 8 \<le> unspecifiedMemBytes"
    and Q: "\<And>r s' \<sigma>' y. pure s \<sigma> s' \<sigma>' \<Longrightarrow> hw S s' \<sigma>' r y \<Longrightarrow> extends w False False x y \<Longrightarrow> Q r s' \<sigma>'"
  shows "wp S (bnd (unspecifiedValue (64 - w)) (\<lambda>junk. bnd (createZExt junk (IntTy 64)) (\<lambda>ext1.
         bnd (getUnsignedIntConst (int w) 64) (\<lambda>amt. bnd (createRawShl ext1 amt) (\<lambda>shifted.
         bnd (createZExt v (IntTy 64)) (\<lambda>ext2. createOr shifted ext2)))))) Q s \<sigma>"
proof (rule wp_bnd, rule wp_unspecified[OF w _ r], use off lt in simp, rule wp_bnd, goal_cases)
  case (1 u s1 \<sigma>1 j)
  show ?case
  proof (rule wp_zext_any[OF pure_wf[OF 1(1)] 1(2)], use lt in simp, rule wp_bnd, rule wp_unsigned_const[where 'w=64, simplified], goal_cases)
    case (3 e s2 \<sigma>2 c)
    note pu = pure_trans[OF 1(1) 3(1)]
    have lw: "unat (word_of_int (int w) :: 64 word) = w" using lt by (simp add: unsigned_of_nat take_bit_nat_eq_self)
    then have ul: "uint (word_of_int (int w) :: 64 word) < int LENGTH(64)"
      using lt unfolding uint_nat by simp
    show ?case
    proof (rule wp_bnd, rule wp_createRawShl[where 'w=64, OF pure_wf[OF pu] hn_hw[OF 3(2)] 3(3) ul], rule wp_bnd, goal_cases)
      case (1 sh s3 \<sigma>3)
      note pu3 = pure_trans[OF pu 1(1)]
      note sh = 1(2)
      show ?case
      proof (rule wp_zext_any[OF pure_wf[OF pu3] hn_pure[OF v pu3] lt(1)], goal_cases)
        case (1 e2 s4 \<sigma>4)
        show ?case
          by (rule wp_createOr[where 'w=64, OF pure_wf[OF 1(1)] hw_pure[OF sh 1(1)] hn_hw[OF 1(2)]])
             (use Q pure_trans[OF pure_trans[OF pu3 1(1)]] extends_or[OF lt(1)] v lw in \<open>auto simp: hn_def\<close>)
      qed
    qed
  qed (use lt in simp_all)
qed

lemma wp_enforce:
  assumes w: "wf s" and v: "hn S s \<sigma> v w x" and lt: "w \<le> 64" "0 < w" and r: "readable_scratch S (mem \<sigma>)"
    and off: "unspecifiedOff s + 8 \<le> unspecifiedMemBytes"
    and Q: "\<And>r s' \<sigma>' y. pure s \<sigma> s' \<sigma>' \<Longrightarrow> hw S s' \<sigma>' r y \<Longrightarrow> extends w sx zx x y \<Longrightarrow> Q r s' \<sigma>'"
  shows "wp S (enforceSExtZExt v sx zx) Q s \<sigma>"
proof -
  let ?junk = "\<lambda>w v. if w < 64 then bnd (unspecifiedValue (64 - w)) (\<lambda>junk. bnd (createZExt junk (IntTy 64)) (\<lambda>ext1.
         bnd (getUnsignedIntConst (int w) 64) (\<lambda>amt. bnd (createRawShl ext1 amt) (\<lambda>shifted.
         bnd (createZExt v (IntTy 64)) (\<lambda>ext2. createOr shifted ext2))))) else ret v"
  have full: "wp S (bnd (if sx \<and> (64::nat) < 64 then createSExt u (IntTy 64) else ret u) (\<lambda>v. bnd (bit_width v) (\<lambda>w. ?junk w v))) Q s1 \<sigma>1"
    "wp S (bnd (bit_width u) (\<lambda>w. ?junk w u)) Q s1 \<sigma>1"
    if "pure s \<sigma> s1 \<sigma>1" "hn S s1 \<sigma>1 u 64 y" "extends w sx zx x (word_of_int y)" for u y s1 \<sigma>1
    using that Q[OF that(1) hn_hw[OF that(2)] that(3)] by (simp_all add: bnd_ret hn_width wp_ret)
  have ty: "type_of v = IntTy w" using v by (simp add: hn_def)
  have head: "wp S (enforceSExtZExt v sx zx) Q s \<sigma> \<longleftrightarrow>
     wp S (bnd (if zx \<and> w < 64 then createZExt v (IntTy 64) else ret v) (\<lambda>v. bnd (bit_width v) (\<lambda>w.
       bnd (if sx \<and> w < 64 then createSExt v (IntTy 64) else ret v) (\<lambda>v. bnd (bit_width v) (\<lambda>w. ?junk w v))))) Q s \<sigma>"
    unfolding enforceSExtZExt_def ty by (simp add: wp_checked hn_width[OF v])
  have "in_width 64 x" using v lt(1) in_width_mono by (auto simp: hn_def)
  then have ux: "uint (word_of_int x :: 64 word) = x" by (simp add: in_width_def uint_word_of_int_eq take_bit_int_eq_self)
  consider "w = 64" | "w < 64" "zx" | "w < 64" "\<not> zx" "sx" | "w < 64" "\<not> zx" "\<not> sx" using lt(1) by linarith
  then show ?thesis
  proof cases
    case 1
    with full(1)[OF pure_refl[OF w], of v x] v ux show ?thesis unfolding head by (simp add: bnd_ret hn_width extends_def)
  next
    case 2
    have "wp S (createZExt v (IntTy 64)) (\<lambda>v. wp S (bnd (bit_width v) (\<lambda>w.
       bnd (if sx \<and> w < 64 then createSExt v (IntTy 64) else ret v) (\<lambda>v. bnd (bit_width v) (\<lambda>w. ?junk w v)))) Q) s \<sigma>"
      by (rule wp_zext_any[OF w v 2(1)], subst hn_width, assumption, rule full(1), assumption+)
         (use 2 ux in \<open>simp add: extends_def\<close>)
    with 2 show ?thesis unfolding head by (simp add: wp_bnd)
  next
    case 3
    have "wp S (createSExt v (IntTy 64)) (\<lambda>v. wp S (bnd (bit_width v) (\<lambda>w. ?junk w v)) Q) s \<sigma>"
      by (rule wp_sext_any[OF w v 3(1)], rule full(2), assumption+)
         (use 3 in \<open>simp add: extends_def word_of_int_eq_iff\<close>)
    with 3 show ?thesis unfolding head by (simp add: bnd_ret hn_width[OF v] wp_bnd)
  next
    case 4
    with wp_junk[OF w v 4(1) lt(2) r off Q] show ?thesis
      unfolding head by (simp add: bnd_ret hn_width[OF v])
  qed
qed

end

section \<open>Register storage\<close>

text \<open>The registers below \<open>n\<close> have storage, each its own.\<close>

definition stored :: "nat \<Rightarrow> lstate \<Rightarrow> 'm machine \<Rightarrow> regs \<Rightarrow> bool" where
  "stored n s \<sigma> \<rho> \<longleftrightarrow> wf s \<and> inj_on (RegFile s) {..<n} \<and> (\<forall>r < n. \<exists>k < nid s. RegFile s r = Some (Local k PtrTy) \<and>
     env \<sigma> k = Some (VSlot k) \<and> slots \<sigma> k = Some (64, uint (\<rho> r)))"

lemma stored_pure:
  assumes "stored n s \<sigma> \<rho>" and p: "pure s \<sigma> s' \<sigma>'"
  shows "stored n s' \<sigma>' \<rho>"
  unfolding stored_def
proof (intro conjI allI impI)
  show "wf s'" "inj_on (RegFile s') {..<n}" using assms by (auto simp: stored_def pure_def same_ctx_def)
  fix r assume "r < n"
  with assms(1) obtain k where "k < nid s" "RegFile s r = Some (Local k PtrTy)" "env \<sigma> k = Some (VSlot k)"
      "slots \<sigma> k = Some (64, uint (\<rho> r))"
    by (auto simp: stored_def)
  with p show "\<exists>k < nid s'. RegFile s' r = Some (Local k PtrTy) \<and> env \<sigma>' k = Some (VSlot k) \<and> slots \<sigma>' k = Some (64, uint (\<rho> r))"
    by (auto simp: pure_def same_ctx_def keeps_def)
qed

lemma stored_sim: "stored 12 s \<sigma> \<rho> \<Longrightarrow> sim s \<sigma> \<rho> (mem \<sigma>)"
  unfolding sim_def
proof (intro conjI allI impI)
  assume st: "stored 12 s \<sigma> \<rho>"
  then show "wf s" by (simp add: stored_def)
  show "\<exists>k. reg_at s \<sigma> r k \<and> slots \<sigma> k = Some (64, uint (\<rho> r))" if "r \<le> 11" for r
  proof -
    from that have "r < 12" by simp
    with st show ?thesis unfolding stored_def reg_at_def hslot_def by blast
  qed
  fix r r' k assume "r \<le> 11" "r' \<le> 11" "reg_at s \<sigma> r k" "reg_at s \<sigma> r' k"
  with st show "r = r'" by (auto simp: stored_def reg_at_def inj_on_def)
qed simp

lemma stored_new:
  assumes s: "stored n s0 \<sigma>0 \<rho>" and a: "scratch s0 \<sigma>0 s \<sigma> p k" "p = Local k PtrTy" and x: "slots \<sigma> k = Some (64, uint x)"
  shows "stored (Suc n) (s\<lparr>RegFile := (RegFile s)(n \<mapsto> p)\<rparr>) \<sigma> (\<rho>(n := x))"
proof -
  from a have p: "pure s0 \<sigma>0 s \<sigma>" and k: "p = Local k PtrTy" "nid s0 \<le> k" "k < nid s" "env \<sigma> k = Some (VSlot k)"
    by (auto simp: scratch_def hslot_def)
  from stored_pure[OF s p] have st: "stored n s \<sigma> \<rho>" .
  have RF: "RegFile s = RegFile s0" using p by (simp add: pure_def same_ctx_def)
  have old: "RegFile s r \<noteq> Some p" if "r < n" for r
    using s that k(1,2) unfolding RF by (force simp: stored_def)
  have "inj_on ((RegFile s)(n \<mapsto> p)) {..<Suc n}"
    using st old unfolding stored_def inj_on_def by (auto simp: less_Suc_eq)
  moreover have "\<exists>j < nid s. ((RegFile s)(n \<mapsto> p)) r = Some (Local j PtrTy) \<and> env \<sigma> j = Some (VSlot j) \<and>
      slots \<sigma> j = Some (64, uint ((\<rho>(n := x)) r))" if "r < Suc n" for r
    using that st k x by (cases "r = n") (auto simp: stored_def)
  ultimately show ?thesis using st by (auto simp: stored_def wf_def)
qed

lemma wp_alloca_value:
  "wp S (createAlloca t n nm) Q s \<sigma> \<Longrightarrow> wp S (createAlloca t n nm) (\<lambda>p s' \<sigma>'. Q p s' \<sigma>' \<and> p = Local (nid s) PtrTy) s \<sigma>"
  unfolding wp_def by (auto simp: createAlloca_def emit_def)

context langref
begin

lemma wp_createRegStorage:
  assumes s: "stored n s \<sigma> \<rho>" and r: "readable_scratch S (mem \<sigma>)" and off: "unspecifiedOff s + 8 \<le> unspecifiedMemBytes"
  shows "wp S (createRegStorage n 64 nm) (\<lambda>_ s' \<sigma>'. (\<exists>x. stored (Suc n) s' \<sigma>' (\<rho>(n := x))) \<and> mem \<sigma>' = mem \<sigma> \<and> args \<sigma>' = args \<sigma>
    \<and> stackMem s' = stackMem s \<and> (\<forall>v x. hp S s \<sigma> v x \<longrightarrow> hp S s' \<sigma>' v x)) s \<sigma>"
  unfolding createRegStorage_def wp_zero_one
proof (rule wp_bnd, rule wp_weaken[OF wp_line[OF wp_alloca_value[where Q="\<lambda>p s' \<sigma>'. scratch s \<sigma> s' \<sigma>' p (nid s)"], where n=0]])
  show "wp S (createAlloca (IntTy 64) (ConstInt 64 1) nm) (\<lambda>p s' \<sigma>'. scratch s \<sigma> s' \<sigma>' p (nid s)) s \<sigma>"
    by (rule wp_alloca) (use s in \<open>auto simp: stored_def\<close>)
  show "ln 0 (createAlloca (IntTy 64) (ConstInt 64 1) nm)" by (rule line_intro)
  fix p s1 \<sigma>1 assume "(scratch s \<sigma> s1 \<sigma>1 p (nid s) \<and> p = Local (nid s) PtrTy) \<and> line 0 s s1"
  then have sc: "scratch s \<sigma> s1 \<sigma>1 p (nid s)" and pv: "p = Local (nid s) PtrTy" and "unspecifiedOff s1 \<le> unspecifiedOff s"
    by (auto simp: line_def)
  with off have o1: "unspecifiedOff s1 + (64 + 7) div 8 \<le> unspecifiedMemBytes" by simp
  from sc r have r1: "readable_scratch S (mem \<sigma>1)" by (simp add: scratch_def pure_def)
  show "wp S (bnd (unspecifiedValue 64) (\<lambda>v. andthen (createStore v p) (modify (\<lambda>s. s\<lparr>RegFile := (RegFile s)(n \<mapsto> p)\<rparr>))))
    (\<lambda>_ s' \<sigma>'. (\<exists>x. stored (Suc n) s' \<sigma>' (\<rho>(n := x))) \<and> mem \<sigma>' = mem \<sigma> \<and> args \<sigma>' = args \<sigma> \<and> stackMem s' = stackMem s
      \<and> (\<forall>v x. hp S s \<sigma> v x \<longrightarrow> hp S s' \<sigma>' v x)) s1 \<sigma>1"
  proof (rule wp_bnd, rule wp_unspecified[OF scratch_wf[OF sc] o1 r1], rule wp_andthen, goal_cases)
    case (1 v s2 \<sigma>2 x)
    note sc2 = scratch_pure[OF sc 1(1)]
    then have hs: "hslot s2 \<sigma>2 p (nid s)" by (simp add: scratch_def)
    let ?x = "word_of_int x :: 64 word"
    let ?\<tau> = "\<sigma>2\<lparr>slots := (slots \<sigma>2)(nid s \<mapsto> (64, uint ?x))\<rparr>"
    show ?case
    proof (rule wp_store_slot[where 'w=64, OF pure_wf[OF 1(1)] hn_hw[OF 1(2)] hs], rule wp_modify, goal_cases)
      case (4 s3)
      then have p3: "pure s2 ?\<tau> s3 ?\<tau>" by simp
      have sc3: "scratch s \<sigma> s3 ?\<tau> p (nid s)" by (rule scratch_pure[OF scratch_store[OF sc2] p3])
      then have pu: "pure s \<sigma> s3 ?\<tau>" by (simp add: scratch_def)
      have "stored (Suc n) (s3\<lparr>RegFile := (RegFile s3)(n \<mapsto> p)\<rparr>) ?\<tau> (\<rho>(n := ?x))"
        by (rule stored_new[OF s sc3 pv]) simp
      moreover have "hp S (s3\<lparr>RegFile := (RegFile s3)(n \<mapsto> p)\<rparr>) ?\<tau> v x" if "hp S s \<sigma> v x" for v x
        using hp_pure[OF that pu] by (simp add: hp_def holds_def)
      ultimately show ?case using pu by (auto simp: pure_def keeps_def same_ctx_def)
    qed simp_all
  qed
qed


text \<open>What the later steps of the entry code keep.\<close>

definition entered :: "nat \<Rightarrow> lstate \<Rightarrow> 'm machine \<Rightarrow> lstate \<Rightarrow> 'm machine \<Rightarrow> bool" where
  "entered n s \<sigma> s' \<sigma>' \<longleftrightarrow> mem \<sigma>' = mem \<sigma> \<and> args \<sigma>' = args \<sigma> \<and> stackMem s' = stackMem s \<and> line n s s'
     \<and> (\<forall>v x. hp S s \<sigma> v x \<longrightarrow> hp S s' \<sigma>' v x)"

lemma entered_trans: "entered a s \<sigma> s' \<sigma>' \<Longrightarrow> entered b s' \<sigma>' s'' \<sigma>'' \<Longrightarrow> entered (a + b) s \<sigma> s'' \<sigma>''"
  by (auto simp: entered_def intro: line_trans)

lemma wp_create_registers:
  assumes "stored n s \<sigma> \<rho>" and "readable_scratch S (mem \<sigma>)" and "unspecifiedOff s + 8 * k \<le> unspecifiedMemBytes"
  shows "wp S (create_registers [n..<n + k]) (\<lambda>_ s' \<sigma>'. (\<exists>\<rho>'. stored (n + k) s' \<sigma>' \<rho>') \<and> entered (8 * k) s \<sigma> s' \<sigma>') s \<sigma>"
  using assms unfolding create_registers_def
proof (induction k arbitrary: n s \<sigma> \<rho>)
  case 0
  have e: "[n..<n + 0] = []" by simp
  show ?case unfolding e for_each.simps by (rule wp_ret) (use 0 in \<open>auto simp: entered_def\<close>)
next
  case (Suc k)
  have up: "[n..<n + Suc k] = n # [Suc n..<Suc n + k]" by (simp add: upt_conv_Cons del: upt_Suc)
  have "wp S (createRegStorage n 64 (''R'' @ to_string n)) (\<lambda>_ s1 \<sigma>1. (\<exists>x. stored (Suc n) s1 \<sigma>1 (\<rho>(n := x))) \<and> entered 8 s \<sigma> s1 \<sigma>1) s \<sigma>"
    by (rule wp_weaken[OF wp_line[OF wp_createRegStorage[OF Suc.prems(1,2)] ln_createRegStorage]])
       (use Suc.prems(3) in \<open>auto simp: entered_def\<close>)
  then show ?case
    unfolding up for_each.simps
  proof (rule wp_andthen[OF wp_weaken])
    fix v s1 \<sigma>1 assume a: "(\<exists>x. stored (Suc n) s1 \<sigma>1 (\<rho>(n := x))) \<and> entered 8 s \<sigma> s1 \<sigma>1"
    then obtain x where x: "stored (Suc n) s1 \<sigma>1 (\<rho>(n := x))" by blast
    have r: "readable_scratch S (mem \<sigma>1)" "unspecifiedOff s1 + 8 * k \<le> unspecifiedMemBytes"
      using a Suc.prems(2,3) by (auto simp: entered_def line_def)
    show "wp S (for_each [Suc n..<Suc n + k] (\<lambda>r. createRegStorage r 64 (''R'' @ to_string r)))
       (\<lambda>_ s' \<sigma>'. (\<exists>\<rho>'. stored (n + Suc k) s' \<sigma>' \<rho>') \<and> entered (8 * Suc k) s \<sigma> s' \<sigma>') s1 \<sigma>1"
      by (rule wp_weaken[OF Suc.IH[OF x r]]) (use a entered_trans[of 8 s \<sigma> s1 \<sigma>1 "8 * k"] in auto)
  qed
qed

end

section \<open>Arguments\<close>

text \<open>What the register of an argument holds, for the argument's type and attributes.\<close>

fun arg_reg :: "ty \<times> bool \<times> bool \<Rightarrow> val \<Rightarrow> 64 word \<Rightarrow> bool" where
  "arg_reg (PtrTy, sx, zx) (VPtr a) y = (uint y = a)"
| "arg_reg (IntTy w, sx, zx) (VInt w' x) y = (w' = w \<and> extends w sx zx x y)"
| "arg_reg _ _ _ = False"

fun arg_typed :: "ty \<times> bool \<times> bool \<Rightarrow> val \<Rightarrow> bool" where
  "arg_typed (PtrTy, sx, zx) (VPtr a) = in_width 64 a"
| "arg_typed (IntTy w, sx, zx) (VInt w' x) = (w' = w \<and> 0 < w \<and> w \<le> 64 \<and> in_width w x)"
| "arg_typed _ _ = False"

lemma ln_store_argument: "ln 8 (store_argument a)"
proof -
  obtain i t sx zx where a: "a = (i, t, sx, zx)" by (cases a)
  have "ln 8 (bnd (enforceSExtZExt (ArgV i t) sx zx) (\<lambda>v. bnd (lookupReg (R (1 + i))) (createStore v)))"
    using ln_bnd_add[OF ln_enforce, of 0 "\<lambda>v. bnd (lookupReg (R (1 + i))) (createStore v)" "ArgV i t" sx zx] by (simp add: line_intro)
  note key = this
  show ?thesis unfolding a store_argument_def prod.case by (rule key | rule line_intro)+
qed

context langref
begin

lemma wp_store_ptr:
  assumes s: "sim s \<sigma> \<rho> m" and r: "reg_no (R i) = Some i" and v: "hp S s \<sigma> v x"
  shows "wp S (bnd (lookupReg (R i)) (createStore v)) (\<lambda>_ s' \<sigma>'. sim s' \<sigma>' (\<rho>(i := x)) m \<and> args \<sigma>' = args \<sigma>) s \<sigma>"
proof -
  obtain p k where 1: "RegFile s i = Some p" "hslot s \<sigma> p k" "reg_at s \<sigma> i k" "i \<le> 11"
    by (rule sim_reg[OF s r])
  note sw = sim_write[OF s 1(4) 1(3), of x]
  show ?thesis
    unfolding wp_lookupReg[OF lookupReg[OF r 1(1)]]
    by (rule wp_store_slot_ptr[OF sim_wf[OF s] v 1(2)])
       (use sim_pure[OF sw] in \<open>auto simp: pure_def keeps_def\<close>)
qed

lemma wp_store_int:
  assumes s: "sim s \<sigma> \<rho> m" and r: "reg_no (R i) = Some i" and v: "hw S s \<sigma> v (x :: 64 word)"
  shows "wp S (bnd (lookupReg (R i)) (createStore v)) (\<lambda>_ s' \<sigma>'. sim s' \<sigma>' (\<rho>(i := x)) m \<and> args \<sigma>' = args \<sigma>) s \<sigma>"
proof -
  obtain p k where 1: "RegFile s i = Some p" "hslot s \<sigma> p k" "reg_at s \<sigma> i k" "i \<le> 11"
    by (rule sim_reg[OF s r])
  note sw = sim_write[OF s 1(4) 1(3), of x]
  show ?thesis
    unfolding wp_lookupReg[OF lookupReg[OF r 1(1)]]
    by (rule wp_store_slot[OF sim_wf[OF s] v 1(2)])
       (use sim_pure[OF sw] in \<open>auto simp: pure_def keeps_def\<close>)
qed

lemma wp_store_argument:
  assumes s: "sim s \<sigma> \<rho> m" and r: "readable_scratch S m" and off: "unspecifiedOff s + 8 \<le> unspecifiedMemBytes"
    and i: "i < 5" and a: "args \<sigma> i = Some x" "arg_typed a x"
  shows "wp S (store_argument (i, a)) (\<lambda>_ s' \<sigma>'. (\<exists>y. sim s' \<sigma>' (\<rho>(1 + i := y)) m \<and> arg_reg a x y) \<and> args \<sigma>' = args \<sigma>
    \<and> line 8 s s') s \<sigma>"
proof -
  obtain t sx zx where at: "a = (t, sx, zx)" by (cases a)
  have reg: "reg_no (R (1 + i)) = Some (1 + i)" using i by simp
  from a(2) consider w y where "t = IntTy w" "x = VInt w y" "0 < w" "w \<le> 64" "in_width w y" | y where "t = PtrTy" "x = VPtr y" "in_width 64 y"
    by (cases "(a, x)" rule: arg_typed.cases) (auto simp: at)
  then have "wp S (store_argument (i, a)) (\<lambda>_ s' \<sigma>'. (\<exists>y. sim s' \<sigma>' (\<rho>(1 + i := y)) m \<and> arg_reg a x y) \<and> args \<sigma>' = args \<sigma>) s \<sigma>"
  proof cases
    case (1 w y)
    have v: "hn S s \<sigma> (ArgV i t) w y" using a(1) 1 by (simp add: hn_def holds_def eval_def)
    have m: "readable_scratch S (mem \<sigma>)" using r s by (simp add: sim_def)
    have "wp S (enforceSExtZExt (ArgV i t) sx zx) (\<lambda>v. wp S (bnd (lookupReg (R (1 + i))) (createStore v))
        (\<lambda>_ s' \<sigma>'. (\<exists>y. sim s' \<sigma>' (\<rho>(1 + i := y)) m \<and> arg_reg a x y) \<and> args \<sigma>' = args \<sigma>)) s \<sigma>"
    proof (rule wp_enforce[OF sim_wf[OF s] v 1(4,3) m off], goal_cases)
      case (1 v s1 \<sigma>1 z)
      then have "args \<sigma>1 = args \<sigma>" by (simp add: pure_def keeps_def)
      with \<open>extends w sx zx y z\<close> \<open>t = IntTy w\<close> \<open>x = VInt w y\<close> show ?case
        by (intro wp_weaken[OF wp_store_int[OF sim_pure[OF s 1(1)] reg 1(2)]]) (auto simp: at)
    qed
    then show ?thesis using 1(1) i unfolding store_argument_def at prod.case by (simp add: wp_bnd)
  next
    case (2 y)
    have v: "hp S s \<sigma> (ArgV i t) (word_of_int y)" using a(1) 2
      by (simp add: hp_def holds_def eval_def in_width_def uint_word_of_int_eq take_bit_int_eq_self)
    have "wp S (bnd (lookupReg (R (1 + i))) (createStore (ArgV i t)))
        (\<lambda>_ s' \<sigma>'. (\<exists>y. sim s' \<sigma>' (\<rho>(1 + i := y)) m \<and> arg_reg a x y) \<and> args \<sigma>' = args \<sigma>) s \<sigma>"
      by (rule wp_weaken[OF wp_store_ptr[OF s reg v]])
         (use 2 in \<open>auto simp: at in_width_def uint_word_of_int_eq take_bit_int_eq_self intro!: exI[of _ "word_of_int y"]\<close>)
    then show ?thesis using 2(1) i unfolding store_argument_def at prod.case by (simp add: enforceSExtZExt_def bnd_ret)
  qed
  then show ?thesis by (rule wp_weaken[OF wp_line[OF _ ln_store_argument]]) auto
qed


lemma wp_store_arguments:
  assumes "sim s \<sigma> \<rho> m" and "readable_scratch S m" and "unspecifiedOff s + 8 * length as \<le> unspecifiedMemBytes"
    and "k + length as \<le> 5" and "\<forall>i < length as. \<exists>x. args \<sigma> (k + i) = Some x \<and> arg_typed (as ! i) x"
  shows "wp S (for_each (zip [k..<k + length as] as) store_argument) (\<lambda>_ s' \<sigma>'. (\<exists>\<rho>'. sim s' \<sigma>' \<rho>' m \<and>
    (\<forall>r. r \<notin> {k<..k + length as} \<longrightarrow> \<rho>' r = \<rho> r) \<and>
    (\<forall>i < length as. \<exists>x. args \<sigma> (k + i) = Some x \<and> arg_reg (as ! i) x (\<rho>' (1 + k + i)))) \<and> line (8 * length as) s s') s \<sigma>"
  using assms
proof (induction as arbitrary: k s \<sigma> \<rho>)
  case Nil
  have e: "zip [k..<k + length []] ([] :: (ty \<times> bool \<times> bool) list) = []" by simp
  show ?case unfolding e for_each.simps by (rule wp_ret) (use Nil in auto)
next
  case (Cons a as)
  have up: "[k..<k + length (a # as)] = k # [Suc k..<Suc k + length as]" by (simp add: upt_conv_Cons del: upt_Suc)
  from Cons.prems(5) obtain x where x: "args \<sigma> k = Some x" "arg_typed a x" by force
  have "wp S (store_argument (k, a)) (\<lambda>_ s' \<sigma>'. (\<exists>y. sim s' \<sigma>' (\<rho>(1 + k := y)) m \<and> arg_reg a x y) \<and> args \<sigma>' = args \<sigma> \<and> line 8 s s') s \<sigma>"
    by (rule wp_store_argument[OF Cons.prems(1,2) _ _ x]) (use Cons.prems(3,4) in simp_all)
  then show ?case
    unfolding up zip_Cons_Cons for_each.simps
  proof (rule wp_andthen[OF wp_weaken])
    fix v s1 \<sigma>1 assume "(\<exists>y. sim s1 \<sigma>1 (\<rho>(1 + k := y)) m \<and> arg_reg a x y) \<and> args \<sigma>1 = args \<sigma> \<and> line 8 s s1"
    then obtain y where y: "sim s1 \<sigma>1 (\<rho>(1 + k := y)) m" "arg_reg a x y" "args \<sigma>1 = args \<sigma>" and l: "line 8 s s1" by blast
    have p: "unspecifiedOff s1 + 8 * length as \<le> unspecifiedMemBytes" "Suc k + length as \<le> 5"
      using l Cons.prems(3,4) by (simp_all add: line_def)
    have as: "\<forall>i < length as. \<exists>x. args \<sigma>1 (Suc k + i) = Some x \<and> arg_typed (as ! i) x"
    proof (intro allI impI)
      fix i assume "i < length as"
      with Cons.prems(5) have "\<exists>x. args \<sigma> (k + Suc i) = Some x \<and> arg_typed ((a # as) ! Suc i) x" by (intro Cons.prems(5)[rule_format]) simp
      then show "\<exists>x. args \<sigma>1 (Suc k + i) = Some x \<and> arg_typed (as ! i) x" by (simp add: y(3))
    qed
    show "wp S (for_each (zip [Suc k..<Suc k + length as] as) store_argument) (\<lambda>_ s' \<sigma>'. (\<exists>\<rho>'. sim s' \<sigma>' \<rho>' m \<and>
      (\<forall>r. r \<notin> {k<..k + length (a # as)} \<longrightarrow> \<rho>' r = \<rho> r) \<and>
      (\<forall>i < length (a # as). \<exists>x. args \<sigma> (k + i) = Some x \<and> arg_reg ((a # as) ! i) x (\<rho>' (1 + k + i)))) \<and>
      line (8 * length (a # as)) s s') s1 \<sigma>1"
    proof (rule wp_weaken[OF Cons.IH[OF y(1) Cons.prems(2) p as]], goal_cases)
      case (1 v s2 \<sigma>2)
      then obtain \<rho>2 where h: "sim s2 \<sigma>2 \<rho>2 m" "\<forall>r. r \<notin> {Suc k<..Suc k + length as} \<longrightarrow> \<rho>2 r = (\<rho>(1 + k := y)) r"
        "\<forall>i < length as. \<exists>x. args \<sigma>1 (Suc k + i) = Some x \<and> arg_reg (as ! i) x (\<rho>2 (1 + Suc k + i))" "line (8 * length as) s1 s2"
        by blast
      have "\<rho>2 (1 + k) = y" using h(2)[rule_format, of "1 + k"] by simp
      then have "\<exists>z. args \<sigma> (k + i) = Some z \<and> arg_reg ((a # as) ! i) z (\<rho>2 (1 + k + i))" if "i < length (a # as)" for i
        using h(3) x(1) y(2,3) that by (cases i) auto
      moreover have "\<rho>2 r = \<rho> r" if "r \<notin> {k<..k + length (a # as)}" for r
        using h(2)[rule_format, of r] that by auto
      moreover have "line (8 * length (a # as)) s s2" using line_trans[OF l h(4)] by simp
      ultimately show ?case using h(1) by blast
    qed
  qed
qed

end

section \<open>The entry block\<close>

lemma wp_no_terminator:
  assumes "wp S m Q s \<sigma>" and "wf s" and "\<not> hasTerminator (LLVMBB s) (fn s)" and "\<And>v s' \<sigma>'. Q v s' \<sigma>' \<Longrightarrow> wf s'"
  shows "wp S m (\<lambda>v s' \<sigma>'. Q v s' \<sigma>' \<and> \<not> hasTerminator (LLVMBB s') (fn s')) s \<sigma>"
proof -
  from assms(1) obtain v s' \<sigma>' where r: "m s = Inr (v, s')" "grows s s'" "steps S (fn s') (cur s \<sigma>) (cur s' \<sigma>')" "Q v s' \<sigma>'"
    by (auto simp: wp_def)
  then have "\<not> hasTerminator (LLVMBB s') (fn s')"
    using no_terminator[OF assms(3) _ assms(2) assms(4)[OF r(4)]] by (simp add: grows_def)
  with r show ?thesis unfolding wp_def by blast
qed

lemma fresh_entry:
  assumes "map fst (fn s) = map getName bbs" and "bbs \<noteq> []" and "LLVMBB s = 0" and "\<forall>c. c \<noteq> 0 \<longrightarrow> c < length bbs \<longrightarrow> snd (fn s ! c) = []"
    and "\<not> hasTerminator 0 (fn s)"
  shows "entry_state bbs s"
proof -
  have l: "length (fn s) = length bbs" using assms(1) by (metis length_map)
  have "fst (fn s ! b) = getName (bbs ! b)" if "b < length bbs" for b
    using arg_cong[OF assms(1), of "\<lambda>xs. xs ! b"] that l by simp
  moreover have "\<not> hasTerminator b (fn s)" if "b < length bbs" for b
    using assms(4,5) that by (cases "b = 0") (simp_all add: hasTerminator_def)
  ultimately show ?thesis using assms l by (simp add: entry_state_def)
qed

definition entry_regs :: "src_env \<Rightarrow> (nat \<Rightarrow> val option) \<Rightarrow> 64 word \<Rightarrow> regs \<Rightarrow> bool" where
  "entry_regs E as stk \<rho> \<longleftrightarrow> \<rho> 10 = stk + 1024 \<and>
     (\<forall>i < length (srcArgs E). \<exists>x. as i = Some x \<and> arg_reg (srcArgs E ! i) x (\<rho> (1 + i)))"

definition args_typed :: "src_env \<Rightarrow> (nat \<Rightarrow> val option) \<Rightarrow> bool" where
  "args_typed E as \<longleftrightarrow> length (srcArgs E) \<le> 5 \<and> (\<forall>i < length (srcArgs E). \<exists>x. as i = Some x \<and> arg_typed (srcArgs E ! i) x)"

context langref
begin

lemma wp_platformInit:
  assumes w: "wf s" and stk: "hp S s \<sigma> (stackMem s) a" and r: "readable_scratch S (mem \<sigma>)" and off: "unspecifiedOff s = 0"
    and as: "args_typed E (args \<sigma>)"
  shows "wp S (platformInit E) (\<lambda>_ s' \<sigma>'. (\<exists>\<rho>. sim s' \<sigma>' \<rho> (mem \<sigma>) \<and> entry_regs E (args \<sigma>) a \<rho>) \<and> (\<exists>n. line n s s')) s \<sigma>"
  unfolding platformInit_def
proof (rule wp_andthen, rule wp_weaken)
  have "stored 0 s \<sigma> (\<lambda>_. 0)" using w by (simp add: stored_def)
  from wp_create_registers[OF this r, of 12] off
  show "wp S (create_registers [0..<12]) (\<lambda>_ s' \<sigma>'. (\<exists>\<rho>. stored 12 s' \<sigma>' \<rho>) \<and> entered 96 s \<sigma> s' \<sigma>') s \<sigma>"
    by (simp add: unspecifiedMemBytes_def del: upt_Suc)
  fix v s1 \<sigma>1 assume "(\<exists>\<rho>. stored 12 s1 \<sigma>1 \<rho>) \<and> entered 96 s \<sigma> s1 \<sigma>1"
  then obtain \<rho> where "stored 12 s1 \<sigma>1 \<rho>" and e: "mem \<sigma>1 = mem \<sigma>" "args \<sigma>1 = args \<sigma>" "stackMem s1 = stackMem s" "line 96 s s1"
    "hp S s1 \<sigma>1 (stackMem s) a" using stk by (auto simp: entered_def)
  with stored_sim[OF this(1)] have s1: "sim s1 \<sigma>1 \<rho> (mem \<sigma>)" by simp
  have st: "stackBytes = 1024" by (simp add: stackBytes_def)
  show "wp S (bnd (gets stackMem) (\<lambda>stk. bnd (getUnsignedIntConst stackBytes 64) (\<lambda>sz.
      bnd (createGEP (IntTy 8) stk sz '''') (\<lambda>frameTop. andthen (bnd (lookupReg (R 10)) (createStore frameTop))
      (for_each (zip [0..<length (srcArgs E)] (srcArgs E)) store_argument)))))
    (\<lambda>_ s' \<sigma>'. (\<exists>\<rho>. sim s' \<sigma>' \<rho> (mem \<sigma>) \<and> entry_regs E (args \<sigma>) a \<rho>) \<and> (\<exists>n. line n s s')) s1 \<sigma>1"
    unfolding st
  proof (rule wp_bnd, rule wp_gets, rule wp_bnd, rule wp_unsigned_const[where 'w=64, simplified], goal_cases)
    case (3 c)
    have ln0: "ln 0 (createGEP (IntTy 8) (stackMem s1) c '''')" by (intro line_intro)
    have ln1: "ln 0 (bnd (lookupReg (R 10)) (createStore f))" for f by (intro line_intro)
    let ?gep = "\<lambda>f s2 \<sigma>2. pure s1 \<sigma>1 s2 \<sigma>2 \<and> hp S s2 \<sigma>2 f (a + 1024)"
    have gep: "wp S (createGEP (IntTy 8) (stackMem s1) c '''') ?gep s1 \<sigma>1"
      by (rule wp_createGEP[OF sim_wf[OF s1] e(5)[folded e(3)] 3]) simp
    show ?case
    proof (rule wp_bnd, rule wp_weaken[OF wp_line[OF gep ln0]], rule wp_andthen, goal_cases)
      case (1 f s2 \<sigma>2)
      then have p2: "pure s1 \<sigma>1 s2 \<sigma>2" and f: "hp S s2 \<sigma>2 f (a + 1024)" and l2: "line 0 s1 s2" by blast+
      have r10: "reg_no (R 10) = Some 10" by simp
      have a2: "args \<sigma>2 = args \<sigma>" using p2 e(2) by (simp add: pure_def keeps_def)
      show ?case
      proof (rule wp_weaken[OF wp_line[OF wp_store_ptr[OF sim_pure[OF s1 p2] r10 f] ln1]], goal_cases)
        case (1 u s3 \<sigma>3)
        then have s3: "sim s3 \<sigma>3 (\<rho>(10 := a + 1024)) (mem \<sigma>)" and a3: "args \<sigma>3 = args \<sigma>" and l3: "line 0 s2 s3" using a2 by simp_all
        from line_trans[OF line_trans[OF e(4) l2] l3] have l: "line 96 s s3" by simp
        let ?n = "length (srcArgs E)"
        have n: "?n \<le> 5" using as by (simp add: args_typed_def)
        show ?case
        proof (rule wp_weaken[OF wp_store_arguments[OF s3 r, of "srcArgs E" 0, unfolded add_0_left]], goal_cases)
          case 1 show ?case using l n off by (simp add: line_def unspecifiedMemBytes_def)
        next
          case 3 show ?case using as a3 by (simp add: args_typed_def)
        next
          case (4 v s4 \<sigma>4)
          then obtain \<rho>4 where h: "sim s4 \<sigma>4 \<rho>4 (mem \<sigma>)" "\<forall>r. r \<notin> {0<..?n} \<longrightarrow> \<rho>4 r = (\<rho>(10 := a + 1024)) r"
            "\<forall>i < ?n. \<exists>x. args \<sigma>3 i = Some x \<and> arg_reg (srcArgs E ! i) x (\<rho>4 (1 + i))" "line (8 * ?n) s3 s4"
            by auto
          have "\<rho>4 10 = a + 1024" using h(2)[rule_format, of 10] n by simp
          with h(1,3) a3 line_trans[OF l h(4)] show ?case by (auto simp: entry_regs_def)
        qed (use n in simp)
      qed
    qed
  qed simp_all
qed


lemma wp_create_stack:
  assumes w: "wf s" and c: "sem_call S ''myalloc'' [(64, 1280), (64, 16)] (mem \<sigma>) = Some (p, m)" and p: "in_width 64 p"
    and Q: "\<And>s' \<sigma>'. pure s (\<sigma>\<lparr>mem := m\<rparr>) (s'\<lparr>stackMem := stackMem s\<rparr>) \<sigma>' \<Longrightarrow> hp S s' \<sigma>' (stackMem s') (word_of_int p) \<Longrightarrow> line 0 s s' \<Longrightarrow> Q () s' \<sigma>'"
  shows "wp S create_stack Q s \<sigma>"
proof -
  let ?call = "CallI ''myalloc'' [ConstInt 64 1280, ConstInt 64 16] PtrTy"
  have k: "create_stack = bnd (emit ''stack'' PtrTy ?call) (\<lambda>stk. modify (\<lambda>s. s\<lparr>stackMem := stk\<rparr>))"
    by (rule ext) (simp add: create_stack_def stackBytes_def numStackSlots_def getUnsignedIntConst_def bnd_ret)
  have ex: "exec_instr S k ?call \<sigma> = Some (Some (VPtr p), \<sigma>\<lparr>mem := m\<rparr>)" for k
    by (simp add: exec_instr_def eval_def c)
  let ?q = "\<lambda>v s' \<sigma>'. pure s (\<sigma>\<lparr>mem := m\<rparr>) s' \<sigma>' \<and> holds S s' \<sigma>' v (VPtr p) \<and> type_of v = PtrTy"
  have e: "wp S (emit ''stack'' PtrTy ?call) ?q s \<sigma>"
    by (rule wp_emit_value[OF w ex]) simp
  show ?thesis
    unfolding k
  proof (rule wp_bnd, rule wp_weaken[OF wp_line[OF e ln_emit[of 0]]], rule wp_modify, goal_cases)
    case (4 v s1 \<sigma>1)
    then have pu: "pure s (\<sigma>\<lparr>mem := m\<rparr>) s1 \<sigma>1" and h: "holds S s1 \<sigma>1 v (VPtr p)" "type_of v = PtrTy" and l: "line 0 s s1" by blast+
    have "s1\<lparr>stackMem := v, stackMem := stackMem s\<rparr> = s1" using pu by (cases s1) (simp add: pure_def same_ctx_def)
    moreover have "hp S (s1\<lparr>stackMem := v\<rparr>) \<sigma>1 v (word_of_int p)"
      using h p by (simp add: hp_def holds_def in_width_def uint_word_of_int_eq take_bit_int_eq_self)
    moreover have "line 0 s (s1\<lparr>stackMem := v\<rparr>)" using l by (simp add: line_def)
    ultimately show ?case using pu by (intro Q) simp_all
  qed simp_all
qed

text \<open>From the fresh blocks to the first machine instruction.\<close>

lemma wp_entry:
  assumes w: "wf s" and c: "sem_call S ''myalloc'' [(64, 1280), (64, 16)] (mem \<sigma>) = Some (p, m)" and p: "in_width 64 p"
    and r: "readable_scratch S m" and off: "unspecifiedOff s = 0" and as: "args_typed E (args \<sigma>)"
  shows "wp S (andthen create_stack (platformInit E)) (\<lambda>_ s' \<sigma>'. (\<exists>\<rho>. sim s' \<sigma>' \<rho> m \<and> entry_regs E (args \<sigma>) (word_of_int p) \<rho>)
    \<and> (\<exists>n. line n s s')) s \<sigma>"
proof (rule wp_andthen, rule wp_create_stack[OF w c p])
  fix s1 \<sigma>1 assume pu: "pure s (\<sigma>\<lparr>mem := m\<rparr>) (s1\<lparr>stackMem := stackMem s\<rparr>) \<sigma>1" and stk: "hp S s1 \<sigma>1 (stackMem s1) (word_of_int p)"
    and l: "line 0 s s1"
  from pu have f: "wf s1" "mem \<sigma>1 = m" "args \<sigma>1 = args \<sigma>" by (simp_all add: pure_def keeps_def wf_def)
  have "wp S (platformInit E) (\<lambda>_ s' \<sigma>'. (\<exists>\<rho>. sim s' \<sigma>' \<rho> (mem \<sigma>1) \<and> entry_regs E (args \<sigma>1) (word_of_int p) \<rho>) \<and> (\<exists>n. line n s1 s')) s1 \<sigma>1"
    by (rule wp_platformInit[OF f(1) stk]) (use r f l off as in \<open>simp_all add: line_def\<close>)
  then show "wp S (platformInit E) (\<lambda>_ s' \<sigma>'. (\<exists>\<rho>. sim s' \<sigma>' \<rho> m \<and> entry_regs E (args \<sigma>) (word_of_int p) \<rho>) \<and> (\<exists>n. line n s s')) s1 \<sigma>1"
    unfolding f(2,3) by (rule wp_weaken) (use line_trans[OF l] in blast)
qed

end

lemma create_blocks:
  "for_each bbs (\<lambda>mbb. bnd (newBlock (getName mbb)) (\<lambda>_. ret ())) s = Inr ((), s\<lparr>fn := fn s @ map (\<lambda>bb. (getName bb, [])) bbs\<rparr>)"
  by (induction bbs arbitrary: s) (simp_all add: andthen_def bnd_def newBlock_def)

context langref
begin

theorem lifted_function:
  assumes E: "returnable E" and apart: "entry_apart bbs" and f: "fn s0 = []" "unspecifiedOff s0 = 0"
    and run: "liftMCFunction valid E bbs s0 = Inr ((), se)"
    and c: "sem_call S ''myalloc'' [(64, 1280), (64, 16)] (mem \<sigma>) = Some (p, m)" and p: "in_width 64 p"
    and r: "readable_scratch S m" and as: "args_typed E (args \<sigma>)"
  shows "\<exists>\<rho>. entry_regs E (args \<sigma>) (word_of_int p) \<rho> \<and> (\<forall>n \<rho>' m'. run_blocks n S bbs 0 (\<rho>, m) = Some (\<rho>', m') \<longrightarrow>
    (\<exists>\<sigma>'. steps S (fn se) (Run 0 0 \<sigma>) (Returned (return_value E (\<rho>' 0)) \<sigma>') \<and> mem \<sigma>' = m'))"
proof -
  let ?s = "s0\<lparr>fn := map (\<lambda>bb. (getName bb, [])) bbs, LLVMBB := 0\<rparr>"
  from run f(1) have ne: "bbs \<noteq> []" by (auto simp: liftMCFunction_def create_blocks andthen_eq_Inr)
  from run f(1) obtain s1 s2 where st: "create_stack ?s = Inr ((), s1)" "platformInit E s1 = Inr ((), s2)"
    and loop: "for_each (zip [0..<length bbs] bbs) (lift_block E) s2 = Inr ((), se)"
    by (auto simp: liftMCFunction_def create_blocks andthen_eq_Inr bnd_eq_Inr set_bb_def split: if_splits)
  have w: "wf ?s" and t: "\<not> hasTerminator (LLVMBB ?s) (fn ?s)" using ne by (simp_all add: wf_def hasTerminator_def)
  have "wp S (andthen create_stack (platformInit E)) (\<lambda>_ s' \<sigma>'. ((\<exists>\<rho>. sim s' \<sigma>' \<rho> m \<and> entry_regs E (args \<sigma>) (word_of_int p) \<rho>)
    \<and> (\<exists>n. line n ?s s')) \<and> \<not> hasTerminator (LLVMBB s') (fn s')) ?s \<sigma>"
    by (rule wp_no_terminator[OF wp_entry[OF w c p r _ as] w t]) (use f in \<open>auto dest: sim_wf\<close>)
  with st obtain \<sigma>2 \<rho> n where 2: "steps S (fn s2) (cur ?s \<sigma>) (cur s2 \<sigma>2)" "sim s2 \<sigma>2 \<rho> m" "entry_regs E (args \<sigma>) (word_of_int p) \<rho>"
      "line n ?s s2" "\<not> hasTerminator (LLVMBB s2) (fn s2)"
    by (auto simp: wp_def)
  have c0: "cur ?s \<sigma> = Run 0 0 \<sigma>" using ne by (simp add: cur_def)
  have ent: "entry_state bbs s2"
    by (rule fresh_entry) (use 2(4,5) ne in \<open>auto simp: line_def o_def\<close>)
  have "\<exists>\<sigma>'. steps S (fn se) (Run 0 0 \<sigma>) (Returned (return_value E (\<rho>' 0)) \<sigma>') \<and> mem \<sigma>' = m'"
    if "run_blocks n S bbs 0 (\<rho>, m) = Some (\<rho>', m')" for n \<rho>' m'
  proof -
    have "follows S E (fn se) s2 (Run 0 (length (snd (fn s2 ! 0))) \<sigma>2) (Exit \<rho>' m')"
      by (rule simulate_blocks[OF ent loop E apart _ 2(2) that]) (use ne in simp)
    moreover have "Run 0 (length (snd (fn s2 ! 0))) \<sigma>2 = cur s2 \<sigma>2" using ent by (simp add: cur_def entry_state_def)
    moreover have "steps S (fn se) (cur ?s \<sigma>) (cur s2 \<sigma>2)" by (rule steps_mono[OF 2(1) loop_le[OF loop]])
    ultimately show ?thesis using c0 by (auto intro: steps_trans)
  qed
  with 2(3) show ?thesis by blast
qed

end

end
