(* ===== verification/Ref_Sem.thy ===== *)
theory Ref_Sem
  imports Word_Ops
begin

text \<open>
  A reference semantics for the parameter \<open>llvm_sem\<close>: the integer operations as the Language
  Reference defines them, undefined cases as \<open>None\<close>, and a flat little-endian byte memory with
  64-bit addresses. The interpretation shows that the laws of \<open>langref\<close> can hold together; the
  witnesses of the properties run on this semantics.
\<close>

section \<open>Byte memory\<close>

type_synonym bytemem = "int \<Rightarrow> int"

definition addr :: "int \<Rightarrow> nat \<Rightarrow> int" where
  "addr p i = take_bit 64 (p + int i)"

definition bytes_for :: "nat \<Rightarrow> nat" where
  "bytes_for w = (w + 7) div 8"

definition ref_load :: "bytemem \<Rightarrow> nat \<Rightarrow> int \<Rightarrow> int" where
  "ref_load m w p = take_bit w (\<Sum>i\<leftarrow>[0..<bytes_for w]. take_bit 8 (m (addr p i)) * 2 ^ (8 * i))"

definition ref_store :: "bytemem \<Rightarrow> nat \<Rightarrow> int \<Rightarrow> int \<Rightarrow> bytemem" where
  "ref_store m w p x = fold (\<lambda>i m. m(addr p i := byte_at i x)) [0..<bytes_for w] m"

section \<open>Integer operations\<close>

definition ref_bin :: "binop \<Rightarrow> nat \<Rightarrow> int \<Rightarrow> int \<Rightarrow> int option" where
  "ref_bin bop w a b = (case bop of
     Add \<Rightarrow> Some (take_bit w (a + b)) | Sub \<Rightarrow> Some (take_bit w (a - b)) | Mul \<Rightarrow> Some (take_bit w (a * b))
   | And \<Rightarrow> Some (a AND b) | Or \<Rightarrow> Some (a OR b) | Xor \<Rightarrow> Some (a XOR b)
   | Shl \<Rightarrow> if b < int w then Some (take_bit w (push_bit (nat b) a)) else None
   | LShr \<Rightarrow> if b < int w then Some (drop_bit (nat b) a) else None
   | AShr \<Rightarrow> if b < int w then Some (take_bit w (drop_bit (nat b) (sgn_of w a))) else None
   | UDiv \<Rightarrow> if b = 0 then None else Some (a div b)
   | URem \<Rightarrow> if b = 0 then None else Some (a mod b)
   | SDiv \<Rightarrow> if b = 0 \<or> (a = 2 ^ (w - 1) \<and> b = 2 ^ w - 1) then None
       else Some (take_bit w (sgn_of w a sdiv sgn_of w b))
   | SRem \<Rightarrow> if b = 0 \<or> (a = 2 ^ (w - 1) \<and> b = 2 ^ w - 1) then None
       else Some (take_bit w (sgn_of w a smod sgn_of w b)))"

definition ref_icmp :: "pred \<Rightarrow> nat \<Rightarrow> int \<Rightarrow> int \<Rightarrow> bool" where
  "ref_icmp p w a b = (case p of
     ICMP_EQ \<Rightarrow> a = b | ICMP_NE \<Rightarrow> a \<noteq> b
   | ICMP_UGT \<Rightarrow> b < a | ICMP_UGE \<Rightarrow> b \<le> a | ICMP_ULT \<Rightarrow> a < b | ICMP_ULE \<Rightarrow> a \<le> b
   | ICMP_SGT \<Rightarrow> sgn_of w b < sgn_of w a | ICMP_SGE \<Rightarrow> sgn_of w b \<le> sgn_of w a
   | ICMP_SLT \<Rightarrow> sgn_of w a < sgn_of w b | ICMP_SLE \<Rightarrow> sgn_of w a \<le> sgn_of w b)"

definition ref_cast :: "castop \<Rightarrow> nat \<Rightarrow> nat \<Rightarrow> int \<Rightarrow> int" where
  "ref_cast c w w' a = (case c of Trunc \<Rightarrow> take_bit w' a | SExt \<Rightarrow> take_bit w' (sgn_of w a) | _ \<Rightarrow> a)"

text \<open>Atomic accesses need an aligned address. A call returns 0 and leaves memory alone.\<close>

definition ref_sem :: "bytemem llvm_sem" where
  "ref_sem = \<lparr>sem_bin = ref_bin, sem_icmp = ref_icmp, sem_cast = ref_cast,
     sem_bswap = (\<lambda>w x. rev_bytes (w div 8) x),
     sem_gep = (\<lambda>p off. take_bit 64 (p + off)),
     sem_load = (\<lambda>m w p. Some (ref_load m w p)),
     sem_store = (\<lambda>m w p x. Some (ref_store m w p x)),
     sem_rmw = (\<lambda>rop m w al p x. if p mod int al \<noteq> 0 then None else
       Some (ref_load m w p, ref_store m w p (rmw_result rop w (ref_load m w p) x))),
     sem_cmpxchg = (\<lambda>m w al p e x. if p mod int al \<noteq> 0 then None else
       Some (ref_load m w p, if ref_load m w p = e then ref_store m w p x else m)),
     sem_global = (\<lambda>g. take_bit 64 (2 ^ 40 + 2 ^ 20 * int (length g))),
     sem_call = (\<lambda>f xs m. if f = ''myalloc'' then Some (2 ^ 32, m) else Some (0, m))\<rparr>"

lemma ref_load_range: "in_width w (ref_load m w p)"
  by (simp add: ref_load_def in_width_def)

lemma take_bit_range: "in_width w (take_bit w x)"
  by (simp add: in_width_def)

interpretation ref: langref ref_sem
  by unfold_locales
     (auto simp: ref_sem_def ref_bin_def ref_icmp_def ref_cast_def ref_load_range take_bit_range)

lemmas langref_ref_sem = ref.langref_axioms

end
