(* ===== verification/Lift_Total.thy ===== *)
theory Lift_Total
  imports Entry_Sim Ref_Sem
begin

text \<open>
  Acceptance: the lifter does not reject a function each of whose blocks the abstract machine can run from
  some state, whatever the order of the blocks and whether or not they are reachable.
\<close>

section \<open>Actions that end their block\<close>

definition ends :: "'a lifter \<Rightarrow> bool" where
  "ends m \<longleftrightarrow> (\<forall>s v s'. wf s \<longrightarrow> m s = Inr (v, s') \<longrightarrow> hasTerminator (LLVMBB s') (fn s'))"

named_theorems ends_intro \<open>actions that end their block\<close>

lemma endsD: "ends m \<Longrightarrow> wf s \<Longrightarrow> m s = Inr (v, s') \<Longrightarrow> hasTerminator (LLVMBB s') (fn s')"
  by (simp add: ends_def)

lemma line_wf: "line n s s' \<Longrightarrow> wf s \<Longrightarrow> wf s'"
  unfolding line_def wf_def by (metis length_map)

lemma ends_bnd [ends_intro]: "ln 0 m \<Longrightarrow> (\<And>v. ends (k v)) \<Longrightarrow> ends (bnd m k)"
  unfolding ends_def bnd_eq_Inr by (blast dest: lnD line_wf)

lemma ends_andthen [ends_intro]: "ln 0 m \<Longrightarrow> ends k \<Longrightarrow> ends (andthen m k)"
  unfolding andthen_def by (rule ends_bnd)

lemma ends_fail [ends_intro]: "ends (fail e)"
  by (simp add: ends_def)

lemma ends_if [ends_intro]: "ends a \<Longrightarrow> ends b \<Longrightarrow> ends (if c then a else b)"
  by simp

lemma ends_emit: "is_terminator ins \<Longrightarrow> ends (emit_void ins)"
  by (auto simp: ends_def emit_void_def emit_def bnd_def wf_def hasTerminator_def append_insn_simps)

lemma ends_builder [ends_intro]: "ends (createBranch b)" "ends (createCondBranch c t f)" "ends (createReturn v)"
  unfolding createBranch_def createCondBranch_def createReturn_def by (rule ends_emit, simp)+

lemma ln_operands [line_intro]: "ln n (getOperand i)" "ln n (getReg op)" "ln n (getImm op)"
  by (auto simp: getOperand_def getReg_def getImm_def intro!: line_intro split: mcoperand.splits)

lemma ln_more [line_intro]: "ln n (createICmp p a b)" "ln n (createAnd a b)" "ln n (newIntToPtr v)" "ln n (getSignedIntConst x k)"
  "ln n (readReg64 r)" "ln n (readReg32 r)"
  unfolding builder_defs readReg64_def readReg32_def by (intro line_intro)+

lemma ln_reads [line_intro]: "ln n (readRegOperand64 i)" "ln n (readRegOperand32 i)" "ln n (readImmOperand i k)"
  unfolding readRegOperand64_def readRegOperand32_def readImmOperand_def by (intro line_intro)+

lemma ln_readALUSrc [line_intro]: "ln n (readALUSrcOperand i k)"
  unfolding readALUSrcOperand_def by (rule ln_bnd) (auto intro!: line_intro split: mcoperand.splits)

lemma ln_blocks [line_intro]: "ln n (getBB op)" "ln n (getBBByName nm)"
  by (auto simp: getBB_def getBBByName_def intro!: line_intro split: mcoperand.splits mcexpr.splits)

lemma ln_getBranchTargets [line_intro]: "ln n (getBranchTargetsOperand i)"
  unfolding getBranchTargetsOperand_def
  by (rule ln_bnd) (auto intro!: line_intro split: mcoperand.splits mcexpr.splits)

lemma ends_jumps [ends_intro]: "ends lift_jmp" "ends (lift_jcond c w)" "ends (lift_jset w)"
  unfolding lift_jmp_def lift_jcond_def lift_jset_def condBr_def Let_def case_prod_beta
  by (auto intro!: ends_intro line_intro split: mcoperand.splits)

lemma ends_doReturn [ends_intro]: "ends (doReturn E)"
  unfolding doReturn_def by (intro ends_intro line_intro)

lemma ends_lift: "isa_taken I \<rho> = Some t \<or> getOpcode I = RET \<Longrightarrow> ends (lift E I)"
  by (auto simp: isa_taken_def lift_def intro!: ends_intro split: opcode.splits)

section \<open>A machine state for any registers and memory\<close>

lemma sim_cong: "sim s \<sigma> \<rho> m \<Longrightarrow> (\<forall>r \<le> 11. \<rho>' r = \<rho> r) \<Longrightarrow> sim s \<sigma> \<rho>' m"
  unfolding sim_def by metis

lemma sim_any_upto:
  assumes "sim s \<sigma> \<rho> m"
  shows "n \<le> 12 \<Longrightarrow> \<exists>\<sigma>'. sim s \<sigma>' (\<lambda>r. if r < n then \<rho>' r else \<rho> r) m"
proof (induction n)
  case 0
  with assms show ?case by auto
next
  case (Suc n)
  then obtain \<sigma>' where s: "sim s \<sigma>' (\<lambda>r. if r < n then \<rho>' r else \<rho> r) m" by auto
  have n: "n \<le> 11" using Suc.prems by simp
  with s obtain k where "reg_at s \<sigma>' n k" by (auto simp: sim_def)
  from sim_write[OF s n this, of "\<rho>' n"]
  have "sim s (\<sigma>'\<lparr>slots := (slots \<sigma>')(k \<mapsto> (64, uint (\<rho>' n)))\<rparr>) (\<lambda>r. if r < Suc n then \<rho>' r else \<rho> r) m"
    by (rule sim_cong) (auto simp: less_Suc_eq)
  then show ?case by blast
qed

lemma sim_any:
  fixes \<sigma> :: "'a machine" and m' :: "'b"
  assumes "sim s \<sigma> \<rho> m"
  shows "\<exists>\<sigma>' :: 'b machine. sim s \<sigma>' \<rho>' m'"
proof -
  from sim_any_upto[OF assms, of 12 \<rho>'] obtain \<sigma>1 where "sim s \<sigma>1 (\<lambda>r. if r < 12 then \<rho>' r else \<rho> r) m" by auto
  then have s: "sim s \<sigma>1 \<rho>' m" by (rule sim_cong) simp
  let ?\<sigma> = "\<lparr>env = env \<sigma>1, slots = slots \<sigma>1, mem = m', args = Map.empty\<rparr>"
  have "reg_at s ?\<sigma> r k \<longleftrightarrow> reg_at s \<sigma>1 r k" for r k by (simp add: reg_at_def hslot_def)
  with s have "sim s ?\<sigma> \<rho>' m'" by (simp add: sim_def)
  then show ?thesis by blast
qed

section \<open>Blocks\<close>

context langref
begin

lemma last_accepts:
  fixes \<sigma> :: "'m machine"
  assumes s: "sim v \<sigma> \<rho> m" and n: "names_at bbs v" and E: "returnable E"
    and I: "(\<exists>t j. isa_taken I \<rho> = Some t \<and> branch_dest bbs (snd (MCBB v)) I t = Some j) \<or> getOpcode I = RET"
  shows "\<exists>y. lift_instrs E [I] v = Inr ((), y) \<and> hasTerminator (LLVMBB y) (fn y)"
proof -
  let ?v = "v\<lparr>llvmInstNum := 0, PrevInst := Some (CurInst v), CurInst := I\<rparr>"
  have sv: "sim ?v \<sigma> \<rho> m" using s by simp
  have "names_at bbs ?v" using n by (simp add: names_at_def)
  then have "\<exists>x. lift E I ?v = Inr ((), x)"
    using I wpj_lift[OF sv, of I _ _ E] wpj_lift_ret[OF sv E, of I] branch_dest_block[of bbs ?v I]
    by (fastforce simp: wpj_def)
  then obtain x where x: "lift E I ?v = Inr ((), x)" by blast
  have "ends (lift E I)" using ends_lift[of I \<rho>] I by blast
  from endsD[OF this sim_wf[OF sv] x] show ?thesis by (auto simp: lift_instrs_single[OF x])
qed

lemma finish_accepts:
  fixes \<sigma> :: "'m machine"
  assumes s: "sim v \<sigma> \<rho> m" and n: "names_at bbs v" and E: "returnable E"
    and x: "exec_end bbs (snd (MCBB v)) (\<rho>, m) = Some out"
  shows "\<exists>w. finish_block E v = Inr ((), w)"
proof (cases "hasTerminator (LLVMBB v) (fn v)")
  case False
  consider "snd (MCBB v) = []" | nm j where "snd (MCBB v) = [nm]" "index_of nm bbs = Some j"
    using x by (auto simp: exec_end_def simp del: index_of.simps split: list.splits)
  then show ?thesis
  proof cases
    case 1
    then show ?thesis using wpj_doReturn[OF s E] False by (auto simp: finish_block_def wpj_def)
  next
    case 2
    then have f: "find_block nm (fn v) 0 = Some j" using n by (simp add: names_at_def)
    with 2 False show ?thesis using wpj_jump_end[OF s, of j]
      by (auto simp: finish_block_def wpj_def getBBByName_def bnd_def from_option_def)
  qed
qed (simp add: finish_block_def)

lemma block_accepts:
  assumes s: "sim u \<sigma> \<rho> m" and n: "names_at bbs u" and E: "returnable E"
    and x: "exec_instrs S bbs (snd (MCBB u)) Is (\<rho>, m) = Some out"
  shows "\<exists>w. andthen (lift_instrs E Is) (finish_block E) u = Inr ((), w)"
proof -
  have split: ?thesis if Is: "Is = Is1 @ [I]" and r: "isa_run S Is1 (\<rho>, m) = Some (\<rho>', m')"
      and I: "(\<exists>t j. isa_taken I \<rho>' = Some t \<and> branch_dest bbs (snd (MCBB u)) I t = Some j) \<or> getOpcode I = RET" for Is1 I \<rho>' m'
  proof (rule lifted_prefix[OF s n r, of E])
    fix v \<sigma>' assume v: "lift_instrs E Is1 u = Inr ((), v)" "sim v \<sigma>' \<rho>' m'" "names_at bbs v" "MCBB v = MCBB u"
    from last_accepts[OF v(2,3) E, of I] I v(4) obtain y where "lift_instrs E [I] v = Inr ((), y)" "hasTerminator (LLVMBB y) (fn y)"
      by auto
    with v(1) show ?thesis by (simp add: Is lift_instrs_append finish_block_def)
  qed
  from x show ?thesis
  proof (cases rule: exec_instrs_cases)
    case (branch Is1 I \<rho>' m' t' j)
    then show ?thesis by (intro split[OF branch(1,2)]) blast
  next
    case (return Is1 I \<rho>' m')
    then show ?thesis by (intro split[OF return(1,2)]) blast
  next
    case (falls \<rho>' m')
    show ?thesis
    proof (rule lifted_prefix[OF s n falls(1), of E])
      fix v \<sigma>' assume v: "lift_instrs E Is u = Inr ((), v)" "sim v \<sigma>' \<rho>' m'" "names_at bbs v" "MCBB v = MCBB u"
      from finish_accepts[OF v(2,3) E] falls(2) v(1,4) show ?thesis by simp
    qed
  qed
qed

lemma loop_accepts:
  assumes ent: "entry_state bbs s2" and s2: "sim s2 \<sigma>2 \<rho>2 m2" and E: "returnable E"
    and x: "\<forall>b < length bbs. \<exists>st out. exec_block S bbs b st = Some out"
    and "\<forall>p \<in> set ps. fst p < length bbs \<and> snd p = bbs ! fst p" and "RegFile s = RegFile s2" and "nid s2 \<le> nid s"
    and "code_le (fn s2) (fn s)"
  shows "\<exists>se. for_each ps (lift_block E) s = Inr ((), se)"
  using assms(5-)
proof (induction ps arbitrary: s)
  case (Cons p ps)
  obtain b where p: "p = (b, bbs ! b)" and b: "b < length bbs" using Cons.prems(1) by (cases p) auto
  let ?u = "enter b (bbs ! b) s"
  from x b obtain \<rho> m out where o: "exec_block S bbs b (\<rho>, m) = Some out" by (metis surj_pair)
  from sim_any[OF s2, of \<rho> m] obtain \<sigma> where "sim s2 \<sigma> \<rho> m" by blast
  then have su: "sim ?u \<sigma> \<rho> m"
    by (rule sim_transfer) (use Cons.prems b ent in \<open>auto simp: wf_def entry_state_def code_le_def\<close>)
  have "names_at bbs ?u" using names_at_le[OF entry_names[OF ent] Cons.prems(4)] by (simp add: names_at_def)
  from block_accepts[OF su this E, of "getInstrs (bbs ! b)"] o
  obtain w where w: "lift_block E (b, bbs ! b) s = Inr ((), w)" by (auto simp: lift_block_enter exec_block_def)
  note f = block_frame[OF w]
  have "\<exists>se. for_each ps (lift_block E) w = Inr ((), se)"
    by (rule Cons.IH) (use Cons.prems f code_le_trans[OF Cons.prems(4) f(1)] in auto)
  with w p show ?case by (auto simp: for_each_Cons_Inr)
qed simp

end

section \<open>Functions\<close>

definition args_supported :: "src_env \<Rightarrow> bool" where
  "args_supported E \<longleftrightarrow> length (srcArgs E) \<le> 5 \<and>
     (\<forall>a \<in> set (srcArgs E). fst a = PtrTy \<or> (\<exists>w. fst a = IntTy w \<and> 0 < w \<and> w \<le> 64))"

lemma supported_typed:
  assumes "args_supported E"
  shows "\<exists>as. args_typed E as"
proof -
  let ?z = "\<lambda>a :: ty \<times> bool \<times> bool. case fst a of IntTy w \<Rightarrow> VInt w 0 | _ \<Rightarrow> VPtr 0"
  have z: "arg_typed a (?z a)" if "a \<in> set (srcArgs E)" for a
    using assms that by (cases a) (auto simp: args_supported_def in_width_def)
  have "args_typed E (\<lambda>i. if i < length (srcArgs E) then Some (?z (srcArgs E ! i)) else None)"
    using assms z[OF nth_mem] by (simp add: args_typed_def args_supported_def)
  then show ?thesis by blast
qed

lemma ref_readable: "readable_scratch ref_sem m"
  by (simp add: readable_scratch_def ref_sem_def)

lemma entry_accepts:
  assumes ne: "bbs \<noteq> []" and f: "unspecifiedOff s = 0" "fn s = map (\<lambda>bb. (getName bb, [])) bbs" "LLVMBB s = 0" and a: "args_supported E"
  shows "\<exists>s2 (\<sigma> :: bytemem machine) \<rho>. andthen create_stack (platformInit E) s = Inr ((), s2) \<and> entry_state bbs s2 \<and> sim s2 \<sigma> \<rho> (mem \<sigma>)"
proof -
  from supported_typed[OF a] obtain as where as: "args_typed E as" by blast
  let ?\<sigma> = "\<lparr>env = Map.empty, slots = Map.empty, mem = (\<lambda>_. 0), args = as\<rparr> :: bytemem machine"
  have w: "wf s" and t: "\<not> hasTerminator (LLVMBB s) (fn s)" using ne f by (simp_all add: wf_def hasTerminator_def)
  have c: "sem_call ref_sem ''myalloc'' [(64, 1280), (64, 16)] (mem ?\<sigma>) = Some (2 ^ 32, \<lambda>_. 0)" by (simp add: ref_sem_def)
  have p: "in_width 64 (2 ^ 32)" by (simp add: in_width_def)
  have "wp ref_sem (andthen create_stack (platformInit E)) (\<lambda>_ s' \<sigma>'. ((\<exists>\<rho>. sim s' \<sigma>' \<rho> (\<lambda>_. 0) \<and> entry_regs E as (word_of_int (2 ^ 32)) \<rho>)
    \<and> (\<exists>n. line n s s')) \<and> \<not> hasTerminator (LLVMBB s') (fn s')) s ?\<sigma>"
    by (rule wp_no_terminator[OF langref.wp_entry[OF langref_ref_sem w c p ref_readable f(1), unfolded machine.select_convs, OF as] w t]) (auto dest: sim_wf)
  then obtain v s2 \<sigma>2 \<rho> n where 2: "andthen create_stack (platformInit E) s = Inr (v, s2)" "sim s2 \<sigma>2 \<rho> ((\<lambda>_. 0) :: bytemem)"
      "line n s s2" "\<not> hasTerminator (LLVMBB s2) (fn s2)"
    unfolding wp_def by blast
  moreover have "entry_state bbs s2"
    by (rule fresh_entry) (use 2(3,4) ne f in \<open>auto simp: line_def o_def\<close>)
  moreover have "mem \<sigma>2 = (\<lambda>_. 0)" using 2(2) by (simp add: sim_def)
  moreover have "v = ()" by simp
  ultimately show ?thesis by metis
qed

context langref
begin

theorem lift_accepts:
  assumes E: "returnable E" and a: "args_supported E" and ne: "bbs \<noteq> []" and f: "fn s0 = []" "unspecifiedOff s0 = 0"
    and x: "\<forall>b < length bbs. \<exists>st out. exec_block S bbs b st = Some out"
  shows "\<exists>se. liftMCFunction valid E bbs s0 = (if valid (fn se) then Inr ((), se)
    else Inl (ExitError ''Lifted module is broken, this should not happen''))"
proof -
  let ?s = "s0\<lparr>fn := map (\<lambda>bb. (getName bb, [])) bbs, LLVMBB := 0\<rparr>"
  obtain s2 and \<sigma> :: "bytemem machine" and \<rho> where st: "andthen create_stack (platformInit E) ?s = Inr ((), s2)"
    and ent: "entry_state bbs s2" and s2: "sim s2 \<sigma> \<rho> (mem \<sigma>)"
    using entry_accepts[OF ne _ _ _ a, of ?s] f by auto
  from st obtain s1 where s1: "create_stack ?s = Inr ((), s1)" "platformInit E s1 = Inr ((), s2)" by (auto simp: andthen_eq_Inr)
  have "\<exists>se. for_each (zip [0..<length bbs] bbs) (lift_block E) s2 = Inr ((), se)"
    by (rule loop_accepts[OF ent s2 E x]) (auto simp: set_zip)
  then obtain se where se: "for_each (zip [0..<length bbs] bbs) (lift_block E) s2 = Inr ((), se)" by blast
  have "liftMCFunction valid E bbs s0 = (if valid (fn se) then Inr ((), se)
    else Inl (ExitError ''Lifted module is broken, this should not happen''))"
    unfolding liftMCFunction_def using ne f s1 se by (simp add: create_blocks set_bb_def bnd_def)
  then show ?thesis by blast
qed

end

end
