(* ===== verification/Lift_Props.thy ===== *)
theory Lift_Props
  imports Lift_Inst Ref_Sem
begin

text \<open>
  The properties of the instruction lifter, stated over its model and the abstract machine for every
  LLVM semantics that satisfies \<open>langref\<close>, each with a concrete run on the reference semantics.
\<close>

section \<open>A concrete state\<close>

text \<open>Storage for the twelve registers in allocas 0 to 11, and one empty block to emit into.\<close>

definition demo_state :: "mcinst \<Rightarrow> lstate" where
  "demo_state I = \<lparr>fn = [(''entry'', []), (''L1'', []), (''L2'', [])], LLVMBB = 0, nid = 12,
     RegFile = (\<lambda>r. if r \<le> 11 then Some (Local r PtrTy) else None), stackMem = ConstInt 64 0,
     armInstNum = 0, llvmInstNum = 0, unspecifiedMem = False, unspecifiedOff = 0,
     MCBB = (''entry'', [''L1'', ''L2'']), CurInst = I, PrevInst = None, bytesMode = False, decls = []\<rparr>"

definition demo_machine :: "regs \<Rightarrow> bytemem \<Rightarrow> bytemem machine" where
  "demo_machine \<rho> m = \<lparr>env = (\<lambda>i. if i < 12 then Some (VSlot i) else None),
     slots = (\<lambda>i. if i < 12 then Some (64, uint (\<rho> i)) else None), mem = m, args = (\<lambda>i. None)\<rparr>"

definition demo_regs :: regs where
  "demo_regs = (\<lambda>r. word_of_int (int r + 2 ^ 40))"

definition demo_env :: src_env where
  "demo_env = \<lparr>srcRetTy = IntTy 32, has_ret_attr = False, origRetWidth = 32, srcArgs = [],
     srcInst = (\<lambda>i. None), globals = (\<lambda>g. None)\<rparr>"

lemma demo_sim: "sim (demo_state I) (demo_machine \<rho> m) \<rho> m"
  by (auto simp: sim_def wf_def reg_at_def hslot_def demo_state_def demo_machine_def)

lemma demo_inst: "CurInst (demo_state I) = I"
  by (simp add: demo_state_def)

section \<open>Instructions\<close>

text \<open>C1. Lifting any instruction that does not transfer control succeeds, and executing the emitted
  code from a state related to registers \<open>\<rho>\<close> and memory \<open>m\<close> reaches the position where emission
  continues in a state related to exactly the registers and memory the BPF instruction set assigns:
  64- and 32-bit arithmetic with their wrap-around, masked shifts and total divisions, moves, sign
  extensions, byte swaps, loads, stores, atomics and compare-exchange.\<close>

theorem lift_simulates_isa:
  assumes "langref S" and "sim s \<sigma> \<rho> m" and "CurInst s = I" and "isa_exec S I (\<rho>, m) = Some (\<rho>', m')"
  shows "\<exists>s' \<sigma>'. lift E I s = Inr ((), s') \<and> steps S (fn s') (cur s \<sigma>) (cur s' \<sigma>') \<and> sim s' \<sigma>' \<rho>' m'"
  using langref.wp_lift[OF assms, of E] by (auto simp: wp_def done_with_def)

definition demo_add32 :: mcinst where
  "demo_add32 = mk_inst (ALU ALU_ADD RI B32) [RegOp (W 1), RegOp (W 1), ImmOp (- 3)]"

lemma demo_add32_exec:
  "isa_exec S demo_add32 (demo_regs, m) = Some (demo_regs(1 := 0xFFFFFFFE), m)"
  by (simp add: demo_add32_def isa_exec_def isa_alu_def src32_def imm32_def alu_sem_def demo_regs_def
      low32_def zext32_def)

theorem lift_simulates_isa_witness:
  "\<exists>s' \<sigma>'. lift demo_env demo_add32 (demo_state demo_add32) = Inr ((), s') \<and>
     steps ref_sem (fn s') (cur (demo_state demo_add32) (demo_machine demo_regs (\<lambda>_. 0))) (cur s' \<sigma>') \<and>
     sim s' \<sigma>' (demo_regs(1 := 0xFFFFFFFE)) (\<lambda>_. 0)"
  by (rule lift_simulates_isa[OF langref_ref_sem demo_sim demo_inst demo_add32_exec])

text \<open>C2. A straight-line sequence of machine instructions, lifted one after the other as
  \<open>liftMCFunction\<close> does inside a block, simulates running the sequence on the abstract machine.\<close>

theorem lift_instrs_simulates:
  assumes "langref S" and "sim s \<sigma> \<rho> m" and "isa_run S Is (\<rho>, m) = Some (\<rho>', m')"
  shows "\<exists>s' \<sigma>'. lift_instrs E Is s = Inr ((), s') \<and> steps S (fn s') (cur s \<sigma>) (cur s' \<sigma>') \<and> sim s' \<sigma>' \<rho>' m'
     \<and> same_fun s s'"
  using langref.wp_lift_instrs[OF assms, of E] by (auto simp: wp_def reaches_def)

definition demo_div :: mcinst where
  "demo_div = mk_inst (ALU ALU_SDIV RI B64) [RegOp (R 2), RegOp (R 2), ImmOp 0]"

theorem lift_instrs_simulates_witness:
  "\<exists>s' \<sigma>'. lift_instrs demo_env [demo_add32, demo_div] (demo_state demo_div) = Inr ((), s') \<and>
     steps ref_sem (fn s') (cur (demo_state demo_div) (demo_machine demo_regs (\<lambda>_. 0))) (cur s' \<sigma>') \<and>
     sim s' \<sigma>' (demo_regs(1 := 0xFFFFFFFE, 2 := 0)) (\<lambda>_. 0) \<and> same_fun (demo_state demo_div) s'"
proof (rule lift_instrs_simulates[OF langref_ref_sem demo_sim])
  show "isa_run ref_sem [demo_add32, demo_div] (demo_regs, \<lambda>_. 0) = Some (demo_regs(1 := 0xFFFFFFFE, 2 := 0), \<lambda>_. 0)"
    by (simp add: demo_add32_exec, simp add: demo_div_def isa_exec_def isa_alu_def src64_def imm32_def alu_sem_def)
qed

section \<open>Control transfer\<close>

text \<open>C3. A lifted branch - conditional on a comparison or a bit test at either width, or
  unconditional - leaves for the block of the taken or the fall-through successor according to the
  abstract machine's condition, with registers and memory unchanged.\<close>

theorem lift_branch_simulates:
  assumes "langref S" and "sim s \<sigma> \<rho> m" and "CurInst s = I" and "isa_taken I \<rho> = Some b"
    and "dest_block s I b = Some t"
  shows "\<exists>s' \<sigma>'. lift E I s = Inr ((), s') \<and> steps S (fn s') (cur s \<sigma>) (Run t 0 \<sigma>') \<and> sim s' \<sigma>' \<rho> m"
  using langref.wpj_lift[OF assms, of E] by (auto simp: wpj_def jumps_def)

definition demo_jump :: mcinst where
  "demo_jump = mk_inst (JCOND JSLT RI B32) [RegOp (W 1), ImmOp (- 3), ExprOp (SymbolRef ''L2'')]"

theorem lift_branch_simulates_witness:
  "\<exists>s' \<sigma>'. lift demo_env demo_jump (demo_state demo_jump) = Inr ((), s') \<and>
     steps ref_sem (fn s') (cur (demo_state demo_jump) (demo_machine demo_regs (\<lambda>_. 0))) (Run 1 0 \<sigma>') \<and>
     sim s' \<sigma>' demo_regs (\<lambda>_. 0)"
proof (rule lift_branch_simulates[OF langref_ref_sem demo_sim demo_inst])
  show "isa_taken demo_jump demo_regs = Some False"
    by (simp add: demo_jump_def isa_taken_def isa_compare_def src32_def imm32_def cond_sem_def demo_regs_def low32_def)
  show "dest_block (demo_state demo_jump) demo_jump False = Some 1"
    by (simp add: demo_jump_def dest_block_def demo_state_def fallthrough_def)
qed

text \<open>C4. A lifted return leaves the function with the value of r0 at the return type's width: the
  pointer for a pointer type, the low bits for an integer type, the zero-extended low half for a
  return type the driver widened from below 32 bits, and nothing for \<open>void\<close>.\<close>

theorem lift_return_value:
  assumes "langref S" and "sim s \<sigma> \<rho> m" and "returnable E" and "getOpcode I = RET"
  shows "\<exists>s' \<sigma>'. lift E I s = Inr ((), s') \<and>
     steps S (fn s') (cur s \<sigma>) (Returned (return_value E (\<rho> 0)) \<sigma>') \<and> mem \<sigma>' = m"
  using langref.wpj_lift_ret[OF assms] by (auto simp: wpj_def returns_with_def)

theorem lift_return_value_witness:
  "\<exists>s' \<sigma>'. lift demo_env (mk_inst RET []) (demo_state (mk_inst RET [])) = Inr ((), s') \<and>
     steps ref_sem (fn s') (cur (demo_state (mk_inst RET [])) (demo_machine (demo_regs(0 := 2 ^ 32 + 7)) (\<lambda>_. 0)))
       (Returned (Some (VInt 32 7)) \<sigma>') \<and> mem \<sigma>' = (\<lambda>_. 0)"
proof -
  have "return_value demo_env ((demo_regs(0 := 2 ^ 32 + 7)) 0) = Some (VInt 32 7)"
    by (simp add: return_value_def demo_env_def take_bit_eq_mod)
  moreover have "returnable demo_env" by (simp add: returnable_def demo_env_def)
  ultimately show ?thesis
    using lift_return_value[OF langref_ref_sem demo_sim, of demo_env "mk_inst RET []" "mk_inst RET []"
        "demo_regs(0 := 2 ^ 32 + 7)" "\<lambda>_. 0"] by simp
qed

section \<open>Total arithmetic\<close>

text \<open>C5. The unsigned division and remainder are total at every width: a zero divisor yields the given
  value, anything else the quotient or remainder, and the emitted code never executes LLVM's division
  on a zero divisor (the semantics gives it no value there). Memory and all storage that existed before
  are untouched.\<close>

theorem checked_unsigned_total:
  fixes x y d :: "'w::len word"
  assumes "langref S" and "wf s" and "hw S s \<sigma> a x" and "hw S s \<sigma> b y" and "hw S s \<sigma> dv d"
  shows "(\<exists>v s' \<sigma>'. createCheckedUDiv a b dv s = Inr (v, s') \<and> steps S (fn s') (cur s \<sigma>) (cur s' \<sigma>') \<and>
      hw S s' \<sigma>' v (if y = 0 then d else x div y) \<and> pure s \<sigma> s' \<sigma>')
    \<and> (\<exists>v s' \<sigma>'. createCheckedURem a b dv s = Inr (v, s') \<and> steps S (fn s') (cur s \<sigma>) (cur s' \<sigma>') \<and>
      hw S s' \<sigma>' v (if y = 0 then d else x mod y) \<and> pure s \<sigma> s' \<sigma>')"
  using langref.wp_checked_unsigned[OF assms, of UDiv "x div y" "\<lambda>v s' \<sigma>'. hw S s' \<sigma>' v (if y = 0 then d else x div y) \<and> pure s \<sigma> s' \<sigma>'"]
    langref.wp_checked_unsigned[OF assms, of URem "x mod y" "\<lambda>v s' \<sigma>'. hw S s' \<sigma>' v (if y = 0 then d else x mod y) \<and> pure s \<sigma> s' \<sigma>'"]
  by (auto simp: wp_def createCheckedUDiv_def createCheckedURem_def bop_word_def)

lemma demo_wf: "wf (demo_state I)"
  by (simp add: demo_state_def wf_def)

lemma demo_const: "hw ref_sem (demo_state I) \<sigma> (ConstInt 8 0xFF) (0xFF :: 8 word)"
  "hw ref_sem (demo_state I) \<sigma> (ConstInt 8 0x80) (0x80 :: 8 word)" "hw ref_sem (demo_state I) \<sigma> (ConstInt 8 0) (0 :: 8 word)"
  by (simp_all add: hw_def holds_def eval_def)

theorem checked_unsigned_total_witness:
  "\<exists>v s' \<sigma>'. createCheckedURem (ConstInt 8 0xFF) (ConstInt 8 0) (ConstInt 8 0x80) (demo_state demo_div) = Inr (v, s') \<and>
     steps ref_sem (fn s') (cur (demo_state demo_div) (demo_machine demo_regs (\<lambda>_. 0))) (cur s' \<sigma>') \<and>
     hw ref_sem s' \<sigma>' v (0x80 :: 8 word)"
  using checked_unsigned_total[OF langref_ref_sem demo_wf demo_const(1,3,2),
      of demo_div "demo_machine demo_regs (\<lambda>_. 0)"] by auto

text \<open>C6. The signed division and remainder are total at every width: a zero divisor yields one given
  value, the minimum divided by -1 the other, anything else the quotient or remainder rounded towards
  zero; LLVM's division is executed in neither of the two undefined cases.\<close>

theorem checked_signed_total:
  fixes x y d e :: "'w::len word"
  assumes "langref S" and "wf s" and "hw S s \<sigma> a x" and "hw S s \<sigma> b y" and "hw S s \<sigma> dv d" and "hw S s \<sigma> ev e"
  shows "(\<exists>v s' \<sigma>'. createCheckedSDiv a b dv ev s = Inr (v, s') \<and> steps S (fn s') (cur s \<sigma>) (cur s' \<sigma>') \<and>
      hw S s' \<sigma>' v (if y = 0 then d else if int_min x \<and> y = - 1 then e else sdiv_word x y) \<and> pure s \<sigma> s' \<sigma>')
    \<and> (\<exists>v s' \<sigma>'. createCheckedSRem a b dv ev s = Inr (v, s') \<and> steps S (fn s') (cur s \<sigma>) (cur s' \<sigma>') \<and>
      hw S s' \<sigma>' v (if y = 0 then d else if int_min x \<and> y = - 1 then e else smod_word x y) \<and> pure s \<sigma> s' \<sigma>')"
  using langref.wp_checked_signed[OF assms, of SDiv "sdiv_word x y" "\<lambda>v s' \<sigma>'. hw S s' \<sigma>' v
        (if y = 0 then d else if int_min x \<and> y = - 1 then e else sdiv_word x y) \<and> pure s \<sigma> s' \<sigma>'"]
    langref.wp_checked_signed[OF assms, of SRem "smod_word x y" "\<lambda>v s' \<sigma>'. hw S s' \<sigma>' v
        (if y = 0 then d else if int_min x \<and> y = - 1 then e else smod_word x y) \<and> pure s \<sigma> s' \<sigma>'"]
  by (auto simp: wp_def createCheckedSDiv_def createCheckedSRem_def bop_word_def)

theorem checked_signed_total_witness:
  "\<exists>v s' \<sigma>'. createCheckedSDiv (ConstInt 8 0x80) (ConstInt 8 0xFF) (ConstInt 8 0) (ConstInt 8 0x80) (demo_state demo_div) = Inr (v, s') \<and>
     steps ref_sem (fn s') (cur (demo_state demo_div) (demo_machine demo_regs (\<lambda>_. 0))) (cur s' \<sigma>') \<and>
     hw ref_sem s' \<sigma>' v (0x80 :: 8 word)"
  using checked_signed_total[OF langref_ref_sem demo_wf demo_const(2,1,3,2),
      of demo_div "demo_machine demo_regs (\<lambda>_. 0)"] by (auto simp: int_min_def)

end
