(* ===== verification/Function_Props.thy ===== *)
theory Function_Props
  imports Lift_Total Lift_Props
begin

text \<open>
  The property of whole lifted functions, with a concrete function on the reference semantics.
\<close>

section \<open>A concrete function\<close>

text \<open>\<open>f(x) = x = 0 ? 0 : x + 1\<close>, with the entry block the streamer adds.\<close>

definition demo_blocks :: "MCBasicBlock list" where
  "demo_blocks = [
     \<lparr>getName = ''bpf-tv#entry'', getInstrs = [mk_inst JMP [ImmOp 1]], getSuccs = [''f'']\<rparr>,
     \<lparr>getName = ''f'', getInstrs = [mk_inst MOV_rr [RegOp (R 0), RegOp (R 1)],
        mk_inst (JCOND JEQ RI B64) [RegOp (R 0), ImmOp 0, ExprOp (SymbolRef ''L'')]], getSuccs = [''g'', ''L'']\<rparr>,
     \<lparr>getName = ''g'', getInstrs = [mk_inst (ALU ALU_ADD RI B64) [RegOp (R 0), RegOp (R 0), ImmOp 1]], getSuccs = [''L'']\<rparr>,
     \<lparr>getName = ''L'', getInstrs = [mk_inst RET []], getSuccs = []\<rparr>]"

definition demo_fun_env :: src_env where
  "demo_fun_env = demo_env\<lparr>srcArgs := [(IntTy 32, False, True)]\<rparr>"

definition empty_lstate :: lstate where
  "empty_lstate = \<lparr>fn = [], LLVMBB = 0, nid = 0, RegFile = Map.empty, stackMem = ConstInt 64 0,
     armInstNum = 0, llvmInstNum = 0, unspecifiedMem = False, unspecifiedOff = 0,
     MCBB = ('''', []), CurInst = mk_inst NOP [], PrevInst = None, bytesMode = False, decls = []\<rparr>"

definition demo_call :: "bytemem machine" where
  "demo_call = \<lparr>env = Map.empty, slots = Map.empty, mem = (\<lambda>_. 0), args = (\<lambda>i. if i = 0 then Some (VInt 32 41) else None)\<rparr>"

lemma demo_apart: "entry_apart demo_blocks"
  by (simp add: entry_apart_def demo_blocks_def)

lemma demo_returnable: "returnable demo_fun_env"
  by (simp add: returnable_def demo_fun_env_def demo_env_def)

lemma demo_args: "args_supported demo_fun_env" "args_typed demo_fun_env (args demo_call)"
  by (simp_all add: args_supported_def args_typed_def demo_fun_env_def demo_env_def demo_call_def in_width_def)

lemmas demo_exec = exec_block_def exec_end_def is_branch_def branch_dest_def fallthrough_def isa_exec_def isa_unary_def isa_alu_def
  isa_taken_def isa_compare_def cond_sem_def src64_def imm32_def alu_sem_def

lemma demo_block_runs:
  "exec_block S demo_blocks 0 (\<rho>, m) = Some (Goto 1 \<rho> m)"
  "exec_block S demo_blocks 1 (\<rho>, m) = Some (Goto (if \<rho> 1 = 0 then 3 else 2) (\<rho>(0 := \<rho> 1)) m)"
  "exec_block S demo_blocks 2 (\<rho>, m) = Some (Goto 3 (\<rho>(0 := \<rho> 0 + 1)) m)"
  "exec_block S demo_blocks 3 (\<rho>, m) = Some (Exit \<rho> m)"
  by (simp_all add: demo_blocks_def demo_exec)

lemma demo_all_run: "\<forall>b < length demo_blocks. \<exists>st out. exec_block ref_sem demo_blocks b st = Some out"
proof (intro allI impI)
  fix b assume "b < length demo_blocks"
  then have "b = 0 \<or> b = 1 \<or> b = 2 \<or> b = 3" by (auto simp: demo_blocks_def)
  then show "\<exists>st out. exec_block ref_sem demo_blocks b st = Some out"
    using demo_block_runs[of ref_sem "\<lambda>_. 0" "\<lambda>_. 0"] by blast
qed

lemma demo_run: "run_blocks 4 S demo_blocks 0 (\<rho>, m) = Some (if \<rho> 1 = 0 then \<rho>(0 := 0) else \<rho>(0 := \<rho> 1 + 1), m)"
proof -
  have "(4 :: nat) = Suc (Suc (Suc (Suc 0)))" by simp
  then show ?thesis by (cases "\<rho> 1 = 0") (simp_all only: run_blocks.simps demo_block_runs bind.simps outcome.case if_True if_False fun_upd_same, simp_all add: demo_block_runs(4))
qed

section \<open>Properties\<close>

text \<open>C14. A whole lifted function. Let the lifter translate a list of basic blocks. Whatever values of the
  argument types the function is called with, there are registers \<open>\<rho>\<close> - r10 at the top of a fresh stack
  block, the arguments in r1 to r5, extended as their attributes promise - such that whenever the BPF
  abstract machine, started on these registers at the first block, leaves the function with registers
  \<open>\<rho>'\<close> and memory \<open>m'\<close> after any number of blocks, the lifted LLVM function returns the value of r0 at
  the return type's width with the same memory. The hypotheses on \<open>S\<close> state what LLVM documents of its
  instructions, that the stack allocation succeeds and that the scratch global is readable.\<close>

theorem lifted_function_correct:
  assumes "langref S" and "returnable E" and "entry_apart bbs" and "fn s0 = []" and "unspecifiedOff s0 = 0"
    and "liftMCFunction valid E bbs s0 = Inr ((), se)"
    and "sem_call S ''myalloc'' [(64, 1280), (64, 16)] (mem \<sigma>) = Some (p, m)" and "in_width 64 p"
    and "readable_scratch S m" and "args_typed E (args \<sigma>)"
  shows "\<exists>\<rho>. entry_regs E (args \<sigma>) (word_of_int p) \<rho> \<and> (\<forall>n \<rho>' m'. run_blocks n S bbs 0 (\<rho>, m) = Some (\<rho>', m') \<longrightarrow>
    (\<exists>\<sigma>'. steps S (fn se) (Run 0 0 \<sigma>) (Returned (return_value E (\<rho>' 0)) \<sigma>') \<and> mem \<sigma>' = m'))"
  by (rule langref.lifted_function[OF assms])

theorem lifted_function_correct_witness:
  "\<exists>se \<sigma>'. liftMCFunction (\<lambda>_. True) demo_fun_env demo_blocks empty_lstate = Inr ((), se) \<and>
     steps ref_sem (fn se) (Run 0 0 demo_call) (Returned (Some (VInt 32 42)) \<sigma>') \<and> mem \<sigma>' = (\<lambda>_. 0)"
proof -
  have init: "fn empty_lstate = []" "unspecifiedOff empty_lstate = 0" by (simp_all add: empty_lstate_def)
  have ne: "demo_blocks \<noteq> []" by (simp add: demo_blocks_def)
  from langref.lift_accepts[OF langref_ref_sem demo_returnable demo_args(1) ne init demo_all_run, of "\<lambda>_. True"]
  obtain se where se: "liftMCFunction (\<lambda>_. True) demo_fun_env demo_blocks empty_lstate = Inr ((), se)" by auto
  have call: "sem_call ref_sem ''myalloc'' [(64, 1280), (64, 16)] (mem demo_call) = Some (2 ^ 32, \<lambda>_. 0)" "in_width 64 (2 ^ 32)"
    by (simp_all add: ref_sem_def demo_call_def in_width_def)
  from lifted_function_correct[OF langref_ref_sem demo_returnable demo_apart init se call ref_readable demo_args(2)]
  obtain \<rho> where \<rho>: "entry_regs demo_fun_env (args demo_call) (word_of_int (2 ^ 32)) \<rho>"
    and run: "\<And>n \<rho>' m'. run_blocks n ref_sem demo_blocks 0 (\<rho>, \<lambda>_. 0) = Some (\<rho>', m') \<Longrightarrow>
      \<exists>\<sigma>'. steps ref_sem (fn se) (Run 0 0 demo_call) (Returned (return_value demo_fun_env (\<rho>' 0)) \<sigma>') \<and> mem \<sigma>' = m'"
    by blast
  have "uint (\<rho> 1) = 41" using \<rho> by (simp add: entry_regs_def demo_fun_env_def demo_env_def demo_call_def extends_def)
  then have r1: "\<rho> 1 = 41" by (metis word_of_int_uint word_of_int_numeral)
  have "return_value demo_fun_env 42 = Some (VInt 32 42)"
    by (simp add: return_value_def demo_fun_env_def demo_env_def take_bit_eq_mod)
  with run[OF demo_run] r1 se show ?thesis by auto
qed



end
