(* ===== verification/Slots.thy ===== *)
theory Slots
  imports Prelude
begin

text \<open>
  The frame slots of the backend run (\<open>generateAsm\<close> in \<open>src/src/lifter/run_backend.cpp\<close>): which objects of
  the finalized frame layout become slots, and the removal of overlapping ones. The frame layout itself is
  computed by LLVM; its objects are the input.
\<close>

section \<open>Frame objects and slots\<close>

text \<open>What \<open>MachineFrameInfo\<close> says of one object: whether it is dead, whether it stems from an alloca, that
  alloca's debug line, size, r10-relative offset and alignment.\<close>

record frame_object =
  fo_dead :: bool
  fo_alloca :: bool
  fo_line :: "nat option"
  fo_size :: int
  fo_offset :: int
  fo_align :: nat

record StackSlot =
  offset :: int
  size :: int
  align :: nat
  srcLine :: nat

definition StackFrameTopOffset :: int where
  "StackFrameTopOffset = 1024"

definition object_slot :: "frame_object \<Rightarrow> StackSlot option" where
  "object_slot fo = (if fo_dead fo then None
     else if \<not> fo_alloca fo then None
     else (case fo_line fo of
         None \<Rightarrow> None
       | Some line \<Rightarrow> if fo_size fo \<le> 0 \<or> 0 \<le> fo_offset fo \<or> StackFrameTopOffset + fo_offset fo < 0 then None
           else Some \<lparr>offset = fo_offset fo, size = fo_size fo, align = fo_align fo, srcLine = line\<rparr>))"

text \<open>A function of the module: a declaration, or a definition with the objects of its frame if LLVM kept
  its machine function.\<close>

datatype backend_function = Declaration | Definition "frame_object list option"

fun function_slots :: "backend_function \<Rightarrow> StackSlot list" where
  "function_slots Declaration = []"
| "function_slots (Definition None) = []"
| "function_slots (Definition (Some fos)) = List.map_filter object_slot fos"

text \<open>The loop over the sorted slots: \<open>erase(begin() + i, begin() + i + 2)\<close> drops the two slots at \<open>i\<close> and
  looks at the same index again. The order \<open>std::sort\<close> gives slots of the same offset is not specified; the
  model takes the order in which they were collected.\<close>

fun drop_overlaps :: "StackSlot list \<Rightarrow> StackSlot list" where
  "drop_overlaps (a # b # rest) = (if offset b < offset a + size a then drop_overlaps rest
     else a # drop_overlaps (b # rest))"
| "drop_overlaps slots = slots"

definition frame_slots :: "backend_function list \<Rightarrow> StackSlot list" where
  "frame_slots M = drop_overlaps (sort_key offset (concat (map function_slots M)))"

section \<open>Disjointness\<close>

definition slot_bytes :: "StackSlot \<Rightarrow> int set" where
  "slot_bytes s = {offset s..<offset s + size s}"

definition well_placed :: "StackSlot \<Rightarrow> bool" where
  "well_placed s \<longleftrightarrow> 0 < size s \<and> - StackFrameTopOffset \<le> offset s \<and> offset s < 0"

definition overlapping :: "StackSlot \<Rightarrow> StackSlot \<Rightarrow> bool" where
  "overlapping s t \<longleftrightarrow> slot_bytes s \<inter> slot_bytes t \<noteq> {}"

lemma overlapping_ordered:
  "0 < size s \<Longrightarrow> 0 < size t \<Longrightarrow> offset s \<le> offset t \<Longrightarrow> overlapping s t \<longleftrightarrow> offset t < offset s + size s"
  by (auto simp: overlapping_def slot_bytes_def)

lemma overlapping_sym: "overlapping s t = overlapping t s"
  by (auto simp: overlapping_def)

lemma overlapping_refl: "0 < size s \<Longrightarrow> overlapping s s"
  by (simp add: overlapping_def slot_bytes_def)

lemma object_slot_placed: "object_slot fo = Some s \<Longrightarrow> well_placed s"
  by (auto simp: object_slot_def well_placed_def split: if_splits option.splits)

lemma function_slots_placed: "s \<in> set (function_slots F) \<Longrightarrow> well_placed s"
  by (cases F rule: function_slots.cases) (auto simp: List.map_filter_def dest: object_slot_placed)

lemma set_drop_overlaps: "set (drop_overlaps xs) \<subseteq> set xs"
  by (induction xs rule: drop_overlaps.induct) auto

lemma drop_overlaps_sorted: "sorted (map offset xs) \<Longrightarrow> sorted (map offset (drop_overlaps xs))"
  by (induction xs rule: drop_overlaps.induct) (use set_drop_overlaps in fastforce)+

text \<open>The loop leaves the slots in order, each ending before the next begins.\<close>

definition separated :: "StackSlot list \<Rightarrow> bool" where
  "separated xs \<longleftrightarrow> (\<forall>i j. i < j \<longrightarrow> j < length xs \<longrightarrow> offset (xs ! i) + size (xs ! i) \<le> offset (xs ! j))"

lemma separated_Cons:
  "separated (a # xs) \<longleftrightarrow> (\<forall>b \<in> set xs. offset a + size a \<le> offset b) \<and> separated xs"
proof
  assume s: "separated (a # xs)"
  have "offset a + size a \<le> offset b" if "b \<in> set xs" for b
  proof -
    from that obtain j where j: "j < length xs" "xs ! j = b" by (auto simp: in_set_conv_nth)
    with s[unfolded separated_def, rule_format, of 0 "Suc j"] show ?thesis by simp
  qed
  moreover have "offset (xs ! i) + size (xs ! i) \<le> offset (xs ! j)" if "i < j" "j < length xs" for i j
    using s[unfolded separated_def, rule_format, of "Suc i" "Suc j"] that by simp
  ultimately show "(\<forall>b \<in> set xs. offset a + size a \<le> offset b) \<and> separated xs" by (simp add: separated_def)
next
  assume "(\<forall>b \<in> set xs. offset a + size a \<le> offset b) \<and> separated xs"
  then show "separated (a # xs)"
    by (auto simp: separated_def nth_Cons split: nat.splits)
qed

lemma drop_overlaps_separated:
  "sorted (map offset xs) \<Longrightarrow> separated (drop_overlaps xs)"
proof (induction xs rule: drop_overlaps.induct)
  case (1 a b rest)
  show ?case
  proof (cases "offset b < offset a + size a")
    case True
    with 1 show ?thesis by simp
  next
    case False
    have "offset a + size a \<le> offset c" if "c \<in> set (drop_overlaps (b # rest))" for c
      using that set_drop_overlaps[of "b # rest"] 1(3) False by fastforce
    with False 1 show ?thesis by (simp add: separated_Cons)
  qed
qed (simp_all add: separated_def)

text \<open>A slot that overlaps no other stays.\<close>

lemma drop_overlaps_keeps:
  assumes "sorted (map offset xs)" and "\<forall>t \<in> set xs. 0 < size t" and "s \<in> set xs" and "count_list xs s = 1"
    and "\<forall>t \<in> set xs. t \<noteq> s \<longrightarrow> \<not> overlapping s t"
  shows "s \<in> set (drop_overlaps xs)"
  using assms
proof (induction xs rule: drop_overlaps.induct)
  case (1 a b rest)
  show ?case
  proof (cases "offset b < offset a + size a")
    case True
    have ab: "overlapping a b" using 1(3,4) True overlapping_ordered[of a b] by simp
    have "s \<noteq> a \<and> s \<noteq> b"
    proof (rule ccontr)
      assume "\<not> (s \<noteq> a \<and> s \<noteq> b)"
      then consider "s = a" "s = b" | "s = a" "s \<noteq> b" | "s = b" "s \<noteq> a" by blast
      then show False
      proof cases
        case 1
        with \<open>count_list (a # b # rest) s = 1\<close> show False by simp
      next
        case 2
        with ab 1(7) show False by auto
      next
        case 3
        with ab 1(7) overlapping_sym show False by auto
      qed
    qed
    moreover from this 1(6) have "count_list rest s = 1" by (auto split: if_splits)
    ultimately show ?thesis using 1 True by simp
  next
    case False
    have "s \<noteq> a \<Longrightarrow> s \<in> set (drop_overlaps (b # rest))"
      by (rule 1(2)[OF False]) (use 1(3-7) in auto)
    with False show ?thesis by auto
  qed
qed simp_all

end
