(* ===== verification/Slots_Props.thy ===== *)
theory Slots_Props
  imports Slots "HOL-Library.Multiset"
begin

text \<open>
  Properties of the frame slots the backend run hands to the driver.
\<close>

definition demo_object :: "int \<Rightarrow> int \<Rightarrow> nat \<Rightarrow> frame_object" where
  "demo_object off sz line = \<lparr>fo_dead = False, fo_alloca = True, fo_line = Some line, fo_size = sz, fo_offset = off, fo_align = 8\<rparr>"

definition demo_frame :: "backend_function list" where
  "demo_frame = [Declaration, Definition (Some [demo_object (-8) 8 1, demo_object (-64) 16 2,
     demo_object (-56) 4 3, demo_object (-2000) 8 4, (demo_object (-16) 8 5)\<lparr>fo_line := None\<rparr>])]"



text \<open>C17. No slot is dropped without need: an object's slot that occurs once in the module's frames and
  shares no byte with another slot is in the result.\<close>

theorem disjoint_slot_kept:
  assumes "s \<in> set (concat (map function_slots M))" and "count_list (concat (map function_slots M)) s = 1"
    and "\<forall>t \<in> set (concat (map function_slots M)). t \<noteq> s \<longrightarrow> \<not> overlapping s t"
  shows "s \<in> set (frame_slots M)"
proof -
  let ?xs = "concat (map function_slots M)"
  have "mset (sort_key offset ?xs) = mset ?xs" by simp
  then have "count_list (sort_key offset ?xs) s = 1" using assms(2) by (metis count_mset)
  moreover have "\<forall>t \<in> set ?xs. 0 < size t" using function_slots_placed by (auto simp: well_placed_def)
  ultimately show ?thesis
    unfolding frame_slots_def using assms(1,3) by (intro drop_overlaps_keeps) simp_all
qed

theorem disjoint_slot_kept_witness:
  "\<lparr>offset = - 8, size = 8, align = 8, srcLine = 1\<rparr> \<in> set (frame_slots demo_frame)"
proof -
  have fs: "concat (map function_slots demo_frame) = [\<lparr>offset = - 8, size = 8, align = 8, srcLine = 1\<rparr>,
     \<lparr>offset = - 64, size = 16, align = 8, srcLine = 2\<rparr>, \<lparr>offset = - 56, size = 4, align = 8, srcLine = 3\<rparr>]"
    by (simp add: demo_frame_def demo_object_def object_slot_def StackFrameTopOffset_def List.map_filter_def)
  show ?thesis
    by (rule disjoint_slot_kept) (simp_all add: fs overlapping_def slot_bytes_def)
qed

text \<open>The comment above the filter says that slots which overlap another are dropped. Only adjacent pairs
  are: of three slots whose first overlaps both others, the third stays.\<close>

lemma overlap_of_dropped_slot_kept:
  "overlapping \<lparr>offset = - 64, size = 32, align = 8, srcLine = 1\<rparr> \<lparr>offset = - 40, size = 8, align = 8, srcLine = 3\<rparr>
    \<and> drop_overlaps [\<lparr>offset = - 64, size = 32, align = 8, srcLine = 1\<rparr>, \<lparr>offset = - 60, size = 4, align = 8, srcLine = 2\<rparr>,
      \<lparr>offset = - 40, size = 8, align = 8, srcLine = 3\<rparr>] = [\<lparr>offset = - 40, size = 8, align = 8, srcLine = 3\<rparr>]"
  by (simp add: overlapping_def slot_bytes_def)

end
