(* ===== verification/Streamer_Flow.thy ===== *)
theory Streamer_Flow
  imports Streamer_Inv
begin

text \<open>
  Successors: the pass over the blocks computes, block by block, what the last instruction says, and
  the blocks with these successors realise the control flow of the linear listing.
\<close>

section \<open>The pass computes each block on its own\<close>

definition same_blocks :: "MCBasicBlock list \<Rightarrow> MCBasicBlock list \<Rightarrow> bool" where
  "same_blocks bbs bbs' \<longleftrightarrow> map getName bbs' = map getName bbs \<and> map getInstrs bbs' = map getInstrs bbs"

lemma same_blocks_refl [simp]: "same_blocks bbs bbs"
  by (simp add: same_blocks_def)

lemma same_blocks_trans: "same_blocks a b \<Longrightarrow> same_blocks b c \<Longrightarrow> same_blocks a c"
  by (simp add: same_blocks_def)

lemma same_blocks_length: "same_blocks a b \<Longrightarrow> length b = length a"
  by (metis length_map same_blocks_def)

lemma same_blocks_nth:
  assumes "same_blocks a b" "i < length a"
  shows "getName (b ! i) = getName (a ! i)" "getInstrs (b ! i) = getInstrs (a ! i)"
  using assms same_blocks_length[OF assms(1)] unfolding same_blocks_def by (metis nth_map)+

lemma index_of_names: "map getName a = map getName b \<Longrightarrow> index_of nm b = index_of nm a"
proof (induction a arbitrary: b)
  case (Cons x xs)
  then obtain y ys where b: "b = y # ys" "getName y = getName x" "map getName xs = map getName ys" by auto
  with Cons.IH[OF b(3)] show ?case by simp
qed simp

lemma index_of_same_blocks: "same_blocks a b \<Longrightarrow> index_of nm b = index_of nm a"
  by (rule index_of_names) (simp add: same_blocks_def)

lemma block_succs_same_blocks:
  assumes "same_blocks a b" "i < length a"
  shows "block_succs A b i = block_succs A a i"
  unfolding block_succs_def next_block_def same_blocks_nth[OF assms] same_blocks_length[OF assms(1)]
    index_of_same_blocks[OF assms(1)] by (rule refl)

lemma set_succs_same_blocks:
  assumes "i < length bbs"
  shows "same_blocks bbs (set_succs i ss bbs)"
proof -
  have "map getName bbs ! i = getName (bbs ! i)" "map getInstrs bbs ! i = getInstrs (bbs ! i)"
    using assms by simp_all
  then show ?thesis by (simp add: same_blocks_def set_succs_def map_update list_update_id flip: \<open>map getName bbs ! i = _\<close> \<open>map getInstrs bbs ! i = _\<close>)
qed

lemma succs_loop_result:
  assumes "succs_loop A is bbs = Inr bbs'" "distinct is" "\<forall>i \<in> set is. i < length bbs"
  shows "same_blocks bbs bbs' \<and>
     (\<forall>i \<in> set is. \<exists>ss. block_succs A bbs i = Inr ss \<and> getSuccs (bbs' ! i) = map (\<lambda>b. getName (bbs ! b)) ss) \<and>
     (\<forall>i. i \<notin> set is \<longrightarrow> getSuccs (bbs' ! i) = getSuccs (bbs ! i))"
  using assms
proof (induction "is" arbitrary: bbs)
  case (Cons i "is")
  from Cons.prems obtain ss where ss: "block_succs A bbs i = Inr ss" "succs_loop A is (set_succs i ss bbs) = Inr bbs'"
    by (auto split: sum.splits)
  let ?b = "set_succs i ss bbs"
  from Cons.prems have i: "i < length bbs" "i \<notin> set is" and s: "same_blocks bbs ?b"
    by (simp_all add: set_succs_same_blocks)
  from Cons.IH[OF ss(2)] Cons.prems same_blocks_length[OF s] have
    IH: "same_blocks ?b bbs'"
     "\<forall>j \<in> set is. \<exists>ss. block_succs A ?b j = Inr ss \<and> getSuccs (bbs' ! j) = map (\<lambda>b. getName (?b ! b)) ss"
     "\<forall>j. j \<notin> set is \<longrightarrow> getSuccs (bbs' ! j) = getSuccs (?b ! j)" by simp_all
  have n: "getName (?b ! b) = getName (bbs ! b)" for b
    using i(1) by (cases "b = i") (simp_all add: set_succs_def)
  have o: "getSuccs (?b ! j) = getSuccs (bbs ! j)" if "j \<noteq> i" for j
    using that by (simp add: set_succs_def)
  have "getSuccs (bbs' ! i) = map (\<lambda>b. getName (bbs ! b)) ss"
    using IH(3) i by (simp add: set_succs_def)
  with ss IH o Cons.prems(3) block_succs_same_blocks[OF s] same_blocks_trans[OF s] show ?case
    by (auto simp: n)
qed simp

lemma generateSuccessors_result:
  assumes "generateSuccessors A F = Inr F'"
  shows "same_blocks (BBs F) (BBs F') \<and> MCglobals F' = MCglobals F \<and> (\<forall>i < length (BBs F). \<exists>ss.
     block_succs A (BBs F) i = Inr ss \<and> getSuccs (BBs F' ! i) = map (\<lambda>b. getName (BBs F ! b)) ss)"
  using assms succs_loop_result[of A "[0..<length (BBs F)]" "BBs F"]
  by (auto simp: generateSuccessors_def split: sum.splits)

lemma removeEmptyBlocks_wf: "\<forall>bb \<in> set (BBs F). block_wf A bb \<Longrightarrow> removeEmptyBlocks F = F"
  by (cases F) (simp add: removeEmptyBlocks_def block_empty_def block_wf_def filter_True)

section \<open>Control flow of the listing and of the blocks\<close>

text \<open>Symbols as an assembler accepts them: not a number (the generated names are), not the name of the
  entry block (\<open>#\<close> starts a comment).\<close>

definition asm_name :: "string \<Rightarrow> bool" where
  "asm_name nm \<longleftrightarrow> \<not> numeric nm \<and> nm \<noteq> ''bpf-tv#entry''"

definition branch_symbol :: "mcinst \<Rightarrow> string option" where
  "branch_symbol I = first_symbol (operands I)"

definition asm_listing :: "listing \<Rightarrow> bool" where
  "asm_listing a \<longleftrightarrow> list_all (\<lambda>l. asm_name (fst l)) (llabels a) \<and> distinct (map fst (llabels a))
     \<and> length (lcode a) < 2 ^ 32 \<and> list_all (\<lambda>I. case branch_symbol I of None \<Rightarrow> True | Some nm \<Rightarrow> asm_name nm) (lcode a)"

lemma asm_listing_good: "asm_listing a \<Longrightarrow> good_labels a"
  by (auto simp: asm_listing_def good_labels_def asm_name_def list_all_iff)

text \<open>One step of control in the listing: on to the next position unless the instruction is an
  unconditional branch or a return, and to the position of the label a branch names.\<close>

definition is_jump :: "instr_analysis \<Rightarrow> opcode \<Rightarrow> bool" where
  "is_jump A op \<longleftrightarrow> isConditionalBranch A op \<or> isUnconditionalBranch A op"

inductive lin_flow :: "instr_analysis \<Rightarrow> listing \<Rightarrow> nat \<Rightarrow> nat \<Rightarrow> bool" for A a where
  lin_next: "Suc p < length (lcode a) \<Longrightarrow> \<not> isUnconditionalBranch A (getOpcode (lcode a ! p)) \<Longrightarrow>
     \<not> isReturn A (getOpcode (lcode a ! p)) \<Longrightarrow> lin_flow A a p (Suc p)"
| lin_branch: "p < length (lcode a) \<Longrightarrow> is_jump A (getOpcode (lcode a ! p)) \<Longrightarrow>
     branch_symbol (lcode a ! p) = Some nm \<Longrightarrow> map_of (llabels a) nm = Some q \<Longrightarrow> lin_flow A a p q"

inductive_simps lin_flow_iff: "lin_flow A a p q"

text \<open>One step of control in the blocks: on inside a block, from its last instruction to the start of
  a successor, looked up by name as the lifter does.\<close>

inductive cfg_flow :: "MCBasicBlock list \<Rightarrow> nat \<times> nat \<Rightarrow> nat \<times> nat \<Rightarrow> bool" for bbs where
  cfg_inside: "i < length bbs \<Longrightarrow> Suc k < length (getInstrs (bbs ! i)) \<Longrightarrow> cfg_flow bbs (i, k) (i, Suc k)"
| cfg_succ: "i < length bbs \<Longrightarrow> Suc k = length (getInstrs (bbs ! i)) \<Longrightarrow> nm \<in> set (getSuccs (bbs ! i)) \<Longrightarrow>
     index_of nm bbs = Some j \<Longrightarrow> cfg_flow bbs (i, k) (j, 0)"

inductive_simps cfg_flow_iff: "cfg_flow bbs (i, k) (j, l)"

definition offset :: "MCBasicBlock list \<Rightarrow> nat \<Rightarrow> nat" where
  "offset bbs i = length (code_of (take i bbs))"

lemma offset_Suc: "i < length bbs \<Longrightarrow> offset bbs (Suc i) = offset bbs i + length (getInstrs (bbs ! i))"
  by (simp add: offset_def take_Suc_conv_app_nth)

lemma offset_mono: "i \<le> j \<Longrightarrow> j \<le> length bbs \<Longrightarrow> offset bbs i \<le> offset bbs j"
proof (induction rule: dec_induct)
  case (step n)
  then show ?case using offset_Suc[of n bbs] by simp
qed simp

lemma offset_end: "offset bbs (length bbs) = length (code_of bbs)"
  by (simp add: offset_def)

definition at_block :: "MCBasicBlock list \<Rightarrow> nat \<Rightarrow> nat \<Rightarrow> bool" where
  "at_block bbs i k \<longleftrightarrow> i < length bbs \<and> k < length (getInstrs (bbs ! i))"

lemma offset_inside:
  assumes "at_block bbs i k"
  shows "offset bbs i + k < offset bbs (Suc i)" "offset bbs i + k < length (code_of bbs)"
proof -
  show "offset bbs i + k < offset bbs (Suc i)" using assms offset_Suc by (simp add: at_block_def)
  also have "\<dots> \<le> length (code_of bbs)"
    using assms offset_mono[of "Suc i" "length bbs" bbs] offset_end by (simp add: at_block_def)
  finally show "offset bbs i + k < length (code_of bbs)" .
qed

lemma offset_inj:
  assumes "at_block bbs i k" "at_block bbs j l"
  shows "offset bbs i + k = offset bbs j + l \<longleftrightarrow> i = j \<and> k = l"
proof -
  have "offset bbs i + k < offset bbs j + l" if "i < j" "at_block bbs i k" "at_block bbs j l" for i j k l
    using that offset_inside(1)[OF that(2)] offset_mono[of "Suc i" j bbs] by (simp add: at_block_def)
  with assms show ?thesis by (cases i j rule: linorder_cases) force+
qed

lemma code_of_nth: "at_block bbs i k \<Longrightarrow> code_of bbs ! (offset bbs i + k) = getInstrs (bbs ! i) ! k"
proof -
  assume a: "at_block bbs i k"
  have "code_of bbs = code_of (take i bbs) @ getInstrs (bbs ! i) @ code_of (drop (Suc i) bbs)"
    using a id_take_nth_drop[of i bbs] unfolding at_block_def
    by (metis (no_types, lifting) concat.simps(2) concat_append list.simps(9) map_append)
  with a show ?thesis by (simp add: offset_def at_block_def nth_append)
qed

section \<open>The blocks realise the listing\<close>

definition flows :: "instr_analysis \<Rightarrow> MCBasicBlock list \<Rightarrow> nat \<Rightarrow> nat set" where
  "flows A bbs i = (let I = last (getInstrs (bbs ! i)) in
     {b. (is_jump A (getOpcode I) \<and> (\<exists>nm. branch_symbol I = Some nm \<and> index_of nm bbs = Some b))
       \<or> (\<not> isUnconditionalBranch A (getOpcode I) \<and> \<not> isReturn A (getOpcode I) \<and> b = Suc i \<and> Suc i < length bbs)})"

lemma addSucc_set [simp]: "set (addSucc b ss) = insert b (set ss)"
  by (auto simp: addSucc_def)

lemma add_next_set: "set (add_next (next_block bbs i) ss) = (if Suc i < length bbs then insert (Suc i) (set ss) else set ss)"
  by (simp add: add_next_def next_block_def)

context bpf_analysis
begin

lemma block_succs_flows:
  assumes "block_succs A bbs i = Inr ss" "0 < i" "getInstrs (bbs ! i) \<noteq> []"
  shows "set ss = flows A bbs i"
proof -
  let ?I = "last (getInstrs (bbs ! i))" and ?op = "getOpcode (last (getInstrs (bbs ! i)))"
  consider (cond) "isConditionalBranch A ?op" | (uncond) "isUnconditionalBranch A ?op" "\<not> isConditionalBranch A ?op"
    | (ret) "isReturn A ?op" "\<not> is_jump A ?op" | (other) "\<not> isReturn A ?op" "\<not> is_jump A ?op"
    by (auto simp: is_jump_def)
  then show ?thesis
  proof cases
    case cond
    with branch_exclusive[OF cond] branch_kinds[of ?op] return_no_branch[of ?op]
    have "is_jump A ?op" "\<not> isReturn A ?op" "\<not> isUnconditionalBranch A ?op" by (auto simp: is_jump_def)
    with cond assms show ?thesis
      by (auto simp: block_succs_def flows_def Let_def findTargetLabel_def branch_symbol_def add_next_set
          split: option.splits if_splits)
  next
    case uncond
    with branch_kinds[of ?op] return_no_branch[of ?op] have "is_jump A ?op" "\<not> isReturn A ?op" by (auto simp: is_jump_def)
    with uncond assms show ?thesis
      by (auto simp: block_succs_def flows_def Let_def findTargetLabel_def branch_symbol_def split: option.splits)
  next
    case ret
    with assms show ?thesis by (auto simp: block_succs_def flows_def Let_def is_jump_def)
  next
    case other
    with assms show ?thesis
      by (auto simp: block_succs_def flows_def Let_def is_jump_def add_next_set split: if_splits)
  qed
qed

end

text \<open>A symbol's label in the listing and its block.\<close>

lemma names_ok_target:
  assumes ok: "names_ok k a bbs" "asm_listing a" and nm: "asm_name nm"
  shows "map_of (llabels a) nm = Some q \<longleftrightarrow> (\<exists>b. index_of nm bbs = Some b \<and> offset bbs b = q)"
proof
  assume "map_of (llabels a) nm = Some q"
  from names_ok_label_block[OF ok(1) asm_listing_good[OF ok(2)] map_of_SomeD[OF this]]
  show "\<exists>b. index_of nm bbs = Some b \<and> offset bbs b = q" unfolding offset_def by blast
next
  assume "\<exists>b. index_of nm bbs = Some b \<and> offset bbs b = q"
  then obtain b where b: "index_of nm bbs = Some b" "offset bbs b = q" by blast
  then have "b < length bbs" "getName (bbs ! b) = nm" by (simp_all add: index_of_Some)
  with nth_starts[of b bbs 0] b have "(nm, q) \<in> set (starts 0 bbs)"
    by (metis offset_def add_0 length_starts nth_mem)
  with nm have "(nm, q) \<in> set (filter (\<lambda>l. \<not> numeric (fst l)) (starts 0 bbs))" by (simp add: asm_name_def)
  with ok asm_listing_good[OF ok(2)] show "map_of (llabels a) nm = Some q"
    by (simp add: names_ok_def good_labels_def map_of_eq_Some_iff)
qed

lemma asm_names_distinct:
  assumes "names_ok k a bbs" "asm_listing a" "getName e = ''bpf-tv#entry''"
  shows "distinct (map getName (e # bbs))"
proof -
  have "''bpf-tv#entry'' \<noteq> getName bb" if "bb \<in> set bbs" for bb
  proof (cases "numeric (getName bb)")
    case False
    from that have "getName bb \<in> fst ` set (starts 0 bbs)"
      by (metis list.set_map map_fst_starts imageI)
    with False have "getName bb \<in> fst ` set (filter (\<lambda>l. \<not> numeric (fst l)) (starts 0 bbs))" by auto
    with assms(1) asm_listing_good[OF assms(2)] have "getName bb \<in> fst ` set (llabels a)"
      by (simp add: names_ok_def good_labels_def)
    with assms(2) show ?thesis by (force simp: asm_listing_def list_all_iff asm_name_def)
  next
    case True
    have "\<not> numeric ''bpf-tv#entry''" by (simp add: numeric_def)
    with True show ?thesis by metis
  qed
  with names_ok_distinct[OF assms(1) asm_listing_good[OF assms(2)]] assms(3) show ?thesis by auto
qed

text \<open>The function handed to the lifter: the entry block, then the collected blocks.\<close>

definition realises :: "instr_analysis \<Rightarrow> listing \<Rightarrow> MCBasicBlock list \<Rightarrow> MCBasicBlock list \<Rightarrow> bool" where
  "realises A a bbs out \<longleftrightarrow> code_of bbs = lcode a \<and> length out = Suc (length bbs) \<and> bbs \<noteq> []
     \<and> distinct (map getName out) \<and> map getInstrs out = [mk_inst JMP [ImmOp 1]] # map getInstrs bbs
     \<and> (\<forall>i k j l. at_block bbs i k \<longrightarrow> at_block bbs j l \<longrightarrow>
          (cfg_flow out (Suc i, k) (Suc j, l) \<longleftrightarrow> lin_flow A a (offset bbs i + k) (offset bbs j + l)))
     \<and> (\<forall>j l. cfg_flow out (0, 0) (j, l) \<longleftrightarrow> j = 1 \<and> l = 0) \<and> (\<forall>i k l. \<not> cfg_flow out (i, k) (0, l))"

lemma at_block_0: "block_wf A (bbs ! i) \<Longrightarrow> i < length bbs \<Longrightarrow> at_block bbs i 0"
  by (simp add: at_block_def block_wf_def)

definition collected :: "instr_analysis \<Rightarrow> listing \<Rightarrow> nat \<Rightarrow> MCBasicBlock list \<Rightarrow> bool" where
  "collected A a k bbs \<longleftrightarrow> names_ok k a bbs \<and> asm_listing a \<and> code_of bbs = lcode a \<and> (\<forall>bb \<in> set bbs. block_wf A bb)"

lemma collectedD:
  assumes "collected A a k bbs"
  shows "names_ok k a bbs" "asm_listing a" "code_of bbs = lcode a" "\<forall>bb \<in> set bbs. block_wf A bb"
  using assms by (simp_all add: collected_def)

lemma wf_nth: "collected A a k0 bbs \<Longrightarrow> i < length bbs \<Longrightarrow> block_wf A (bbs ! i)"
  by (simp add: collected_def)

lemma last_nth:
  assumes c: "collected A a k0 bbs" and b: "at_block bbs i k" and k: "Suc k = length (getInstrs (bbs ! i))"
  shows "last (getInstrs (bbs ! i)) = lcode a ! (offset bbs i + k)"
proof -
  note code = collectedD(3)[OF c]
  have "length (getInstrs (bbs ! i)) - Suc 0 = k" using k by simp
  with b wf_nth[OF c, of i] code_of_nth[OF b] show ?thesis
    by (simp add: code[symmetric] last_conv_nth block_wf_def at_block_def)
qed

lemma symbol_asm:
  assumes c: "collected A a k0 bbs" and b: "at_block bbs i k" "branch_symbol (lcode a ! (offset bbs i + k)) = Some nm"
  shows "asm_name nm"
proof -
  have "lcode a ! (offset bbs i + k) \<in> set (lcode a)"
    using offset_inside(2)[OF b(1)] by (simp add: collectedD(3)[OF c])
  with collectedD(2)[OF c] b(2) show ?thesis by (force simp: asm_listing_def list_all_iff)
qed

context bpf_analysis
begin

text \<open>Inside a block control only moves on.\<close>

lemma flow_inside:
  assumes c: "collected A a k0 bbs" and b: "at_block bbs i k" "Suc k < length (getInstrs (bbs ! i))"
  shows "lin_flow A a (offset bbs i + k) q \<longleftrightarrow> q = Suc (offset bbs i + k)"
proof -
  let ?I = "lcode a ! (offset bbs i + k)"
  note code = collectedD(3)[OF c]
  have I: "?I = getInstrs (bbs ! i) ! k" using code_of_nth[OF b(1)] code by simp
  have "?I \<in> set (butlast (getInstrs (bbs ! i)))"
    using b(2) unfolding I by (metis Suc_lessE diff_Suc_1 length_butlast nth_butlast nth_mem not_less_eq)
  then have "\<not> ends_block A ?I" using b(1) wf_nth[OF c, of i] by (simp add: block_wf_def at_block_def)
  then have "\<not> is_jump A (getOpcode ?I)" "\<not> isReturn A (getOpcode ?I)" "\<not> isUnconditionalBranch A (getOpcode ?I)"
    using branch_terminates return_terminates branch_kinds by (auto simp: ends_block_def is_jump_def)
  moreover have "Suc (offset bbs i + k) < length (lcode a)"
    using offset_inside(2)[of bbs i "Suc k"] b by (simp add: at_block_def code)
  ultimately show ?thesis by (auto simp: lin_flow_iff)
qed

text \<open>From the last instruction control moves to the blocks of \<open>flows\<close>.\<close>

lemma flow_last:
  assumes c: "collected A a k0 bbs" and i: "at_block bbs i k" "Suc k = length (getInstrs (bbs ! i))" and j: "at_block bbs j l"
    and e: "getName e = ''bpf-tv#entry''"
  shows "lin_flow A a (offset bbs i + k) (offset bbs j + l) \<longleftrightarrow> l = 0 \<and> Suc j \<in> flows A (e # bbs) (Suc i)"
proof -
  let ?I = "lcode a ! (offset bbs i + k)"
  note ok = collectedD(1,2)[OF c] and code = collectedD(3)[OF c]
  have I: "last (getInstrs (bbs ! i)) = ?I" by (rule last_nth[OF c i])
  have il: "i < length bbs" using i by (simp add: at_block_def)
  have p: "Suc (offset bbs i + k) = offset bbs (Suc i)" using offset_Suc[OF il] i(2) by simp
  have fall: "Suc (offset bbs i + k) < length (lcode a) \<and> offset bbs j + l = Suc (offset bbs i + k)
      \<longleftrightarrow> l = 0 \<and> j = Suc i \<and> Suc i < length bbs"
  proof (cases "Suc i < length bbs")
    case True
    from at_block_0[OF wf_nth[OF c True] True] have "at_block bbs (Suc i) 0" .
    from offset_inj[OF j this] offset_inside(2)[OF this] True show ?thesis by (auto simp: p code)
  next
    case False
    with il have "Suc i = length bbs" by simp
    with False show ?thesis using offset_end[of bbs] by (simp add: p code)
  qed
  have branch: "map_of (llabels a) nm = Some (offset bbs j + l) \<longleftrightarrow> l = 0 \<and> index_of nm (e # bbs) = Some (Suc j)"
    if n: "branch_symbol ?I = Some nm" for nm
  proof -
    have "asm_name nm" by (rule symbol_asm[OF c i(1) n])
    then have "index_of nm (e # bbs) = map_option Suc (index_of nm bbs)" using e by (auto simp: asm_name_def)
    moreover have "offset bbs b = offset bbs j + l \<longleftrightarrow> l = 0 \<and> b = j" if "index_of nm bbs = Some b" for b
      using offset_inj[OF at_block_0[OF wf_nth[OF c]] j, of b] that by (auto simp: index_of_Some)
    ultimately show ?thesis unfolding names_ok_target[OF ok \<open>asm_name nm\<close>] by auto
  qed
  have "offset bbs i + k < length (lcode a)" using offset_inside(2)[OF i(1)] by (simp add: code)
  then have "lin_flow A a (offset bbs i + k) (offset bbs j + l) \<longleftrightarrow>
      (\<not> isUnconditionalBranch A (getOpcode ?I) \<and> \<not> isReturn A (getOpcode ?I) \<and>
        Suc (offset bbs i + k) < length (lcode a) \<and> offset bbs j + l = Suc (offset bbs i + k)) \<or>
      (is_jump A (getOpcode ?I) \<and> (\<exists>nm. branch_symbol ?I = Some nm \<and> map_of (llabels a) nm = Some (offset bbs j + l)))"
    by (auto simp: lin_flow_iff)
  also have "\<dots> \<longleftrightarrow> l = 0 \<and> Suc j \<in> flows A (e # bbs) (Suc i)"
    unfolding fall flows_def Let_def nth_Cons_Suc I using branch by (auto simp del: index_of.simps)
  finally show ?thesis .
qed

text \<open>The blocks the two passes hand on.\<close>

lemma finished:
  assumes c: "collected A a k0 bbs" and F: "BBs F = bbs" and r: "finish_function A JMP F = Inr F'"
  obtains e where "getName e = ''bpf-tv#entry''" "getInstrs e = [mk_inst JMP [ImmOp 1]]" "same_blocks (e # bbs) (BBs F')"
    "\<forall>i < Suc (length bbs). \<exists>ss. block_succs A (e # bbs) i = Inr ss \<and>
       getSuccs (BBs F' ! i) = map (\<lambda>b. getName ((e # bbs) ! b)) ss"
proof -
  let ?e = "addInstBegin (mk_inst JMP [ImmOp 1]) (new_block ''bpf-tv#entry'')"
  have "removeEmptyBlocks F = F" using collectedD(4)[OF c] F by (intro removeEmptyBlocks_wf) simp
  with r generateSuccessors_result[of A "checkEntryBlock JMP F" F'] F show ?thesis
    by (intro that[of ?e]) (simp_all add: finish_function_def checkEntryBlock_def addInstBegin_def new_block_def)
qed

lemma finished_succs:
  assumes c: "collected A a k0 bbs" and e: "getName e = ''bpf-tv#entry''" "getInstrs e = [mk_inst JMP [ImmOp 1]]" and s: "same_blocks (e # bbs) out"
    and ss: "block_succs A (e # bbs) i = Inr ss" "getSuccs (out ! i) = map (\<lambda>b. getName ((e # bbs) ! b)) ss"
    and i: "i \<le> length bbs"
  shows "(\<exists>nm \<in> set (getSuccs (out ! i)). index_of nm out = Some j) \<longleftrightarrow> j \<in> set ss"
    "j \<in> set ss \<Longrightarrow> j < Suc (length bbs) \<and> 0 < j"
proof -
  have d: "distinct (map getName (e # bbs))" by (rule asm_names_distinct[OF collectedD(1,2)[OF c] e(1)])
  have set_ss: "set ss = (if i = 0 then {1} \<inter> {b. bbs \<noteq> []} else flows A (e # bbs) i)"
  proof (cases "i = 0")
    case True
    with ss(1) e jump(1) show ?thesis
      by (auto simp: block_succs_def Let_def next_block_def split: if_splits)
  next
    case False
    with i wf_nth[OF c, of "i - 1"] block_succs_flows[OF ss(1)] show ?thesis by (simp add: block_wf_def nth_Cons')
  qed
  have range: "b < Suc (length bbs) \<and> 0 < b" if b: "b \<in> set ss" for b
  proof (cases "i = 0")
    case False
    then obtain i' where i': "i = Suc i'" "i' < length bbs" using i by (cases i) auto
    then have at: "at_block bbs i' (length (getInstrs (bbs ! i')) - 1)"
       "Suc (length (getInstrs (bbs ! i')) - 1) = length (getInstrs (bbs ! i'))"
      using wf_nth[OF c i'(2)] by (auto simp: at_block_def block_wf_def)
    have "index_of nm (e # bbs) \<noteq> Some 0" if n: "branch_symbol (last (getInstrs (bbs ! i'))) = Some nm" for nm
      using symbol_asm[OF c at(1)] n last_nth[OF c at] e(1) by (auto simp: asm_name_def index_of_Some)
    with b False set_ss i' show ?thesis
      by (auto simp: flows_def Let_def index_of_Some simp del: index_of.simps intro: gr0I)
  qed (use b set_ss in \<open>auto split: if_splits\<close>)
  then show "j \<in> set ss \<Longrightarrow> j < Suc (length bbs) \<and> 0 < j" by blast
  have "index_of (getName ((e # bbs) ! b)) (e # bbs) = Some b" if "b \<in> set ss" for b
    using index_of_distinct[OF d, of b] range[OF that] by simp
  then show "(\<exists>nm \<in> set (getSuccs (out ! i)). index_of nm out = Some j) \<longleftrightarrow> j \<in> set ss"
    by (auto simp: ss(2) index_of_same_blocks[OF s] simp del: index_of.simps)
qed

lemma realise:
  assumes c: "collected A a k0 bbs" and F: "BBs F = bbs" and r: "finish_function A JMP F = Inr F'"
  shows "realises A a bbs (BBs F')"
proof -
  from finished[OF c F r] obtain e where e: "getName e = ''bpf-tv#entry''" "getInstrs e = [mk_inst JMP [ImmOp 1]]"
    and s: "same_blocks (e # bbs) (BBs F')" and all: "\<forall>i < Suc (length bbs). \<exists>ss. block_succs A (e # bbs) i = Inr ss \<and>
       getSuccs (BBs F' ! i) = map (\<lambda>b. getName ((e # bbs) ! b)) ss" by blast
  let ?out = "BBs F'"
  have len: "length ?out = Suc (length bbs)" using same_blocks_length[OF s] by simp
  have ins: "getInstrs (?out ! 0) = [mk_inst JMP [ImmOp 1]]" "i < length bbs \<Longrightarrow> getInstrs (?out ! Suc i) = getInstrs (bbs ! i)" for i
    using same_blocks_nth(2)[OF s, of 0] same_blocks_nth(2)[OF s, of "Suc i"] e by simp_all
  have succs: "\<exists>ss. block_succs A (e # bbs) i = Inr ss \<and>
      (\<forall>j. (\<exists>nm \<in> set (getSuccs (?out ! i)). index_of nm ?out = Some j) \<longleftrightarrow> j \<in> set ss) \<and> (\<forall>j \<in> set ss. j \<noteq> 0)"
    if i: "i \<le> length bbs" for i
  proof -
    from i all obtain ss where ss: "block_succs A (e # bbs) i = Inr ss" "getSuccs (?out ! i) = map (\<lambda>b. getName ((e # bbs) ! b)) ss"
      by (auto simp: less_Suc_eq_le)
    from finished_succs[OF c e s this i] ss(1) show ?thesis by auto
  qed
  from succs[of 0] e have ne: "bbs \<noteq> []" by (auto simp: block_succs_def Let_def jump next_block_def split: if_splits)
  have entry: "cfg_flow ?out (0, 0) (j, l) \<longleftrightarrow> j = 1 \<and> l = 0" for j l
    using succs[of 0] ne e by (auto simp: cfg_flow_iff len ins block_succs_def Let_def jump next_block_def)
  have no_entry: "\<not> cfg_flow ?out (i, k) (0, l)" for i k l
    using succs[of i] ins(1) by (auto simp: cfg_flow_iff len less_Suc_eq_le)
  have equiv: "cfg_flow ?out (Suc i, k) (Suc j, l) \<longleftrightarrow> lin_flow A a (offset bbs i + k) (offset bbs j + l)"
    if i: "at_block bbs i k" and j: "at_block bbs j l" for i j k l
  proof (cases "Suc k < length (getInstrs (bbs ! i))")
    case True
    then have "at_block bbs i (Suc k)" using i by (simp add: at_block_def)
    from offset_inj[OF j this] True i show ?thesis
      by (auto simp: flow_inside[OF c i True] cfg_flow_iff len ins at_block_def)
  next
    case False
    with i have k: "Suc k = length (getInstrs (bbs ! i))" and il: "Suc i \<le> length bbs" by (simp_all add: at_block_def)
    from succs[OF il] obtain ss where ss: "block_succs A (e # bbs) (Suc i) = Inr ss"
      "\<And>j. (\<exists>nm \<in> set (getSuccs (?out ! Suc i)). index_of nm ?out = Some j) \<longleftrightarrow> j \<in> set ss" by blast
    have "set ss = flows A (e # bbs) (Suc i)"
      using block_succs_flows[OF ss(1)] wf_nth[OF c, of i] il by (simp add: block_wf_def)
    with ss(2)[of "Suc j"] k il show ?thesis
      by (auto simp: flow_last[OF c i k j e(1)] cfg_flow_iff len ins)
  qed
  show ?thesis
    unfolding realises_def
    using collectedD(3)[OF c] len ne entry no_entry equiv asm_names_distinct[OF collectedD(1,2)[OF c] e(1)] e(2) s
    by (simp add: same_blocks_def)
qed

end

text \<open>From the callbacks to the lifter's input.\<close>

definition streamed :: "instr_analysis \<Rightarrow> (nat \<Rightarrow> nat option) \<Rightarrow> mc_event list \<Rightarrow> lift_error + MCFunction" where
  "streamed A lm evs = (case parse_run A evs (new_streamer NOP lm) of Inl err \<Rightarrow> Inl err
     | Inr (u, s) \<Rightarrow> finish_function A JMP (MF s))"

context bpf_analysis
begin

lemma parse_inv: "parse_run A evs (new_streamer NOP lm) = Inr (u, s) \<Longrightarrow> str_inv A s"
  unfolding parse_run_def
  by (erule shape.loop_keeps[rotated]) (simp add: str_inv_def new_streamer_def new_MCFunction_def)

lemma streamed_realises:
  assumes r: "streamed A lm evs = Inr F'" and a: "asm_listing (listing_of lm evs)"
  shows "\<exists>bbs. (\<forall>bb \<in> set bbs. block_wf A bb) \<and> realises A (listing_of lm evs) bbs (BBs F')"
proof -
  from r obtain s where s: "parse_run A evs (new_streamer NOP lm) = Inr ((), s)" "finish_function A JMP (MF s) = Inr F'"
    by (auto simp: streamed_def split: sum.splits)
  from code.loop[OF listed_empty s(1)[unfolded parse_run_def]]
  have l: "listed A lm (listing_of lm evs) s" by (simp add: listing_of_def)
  then obtain k where k: "str_inv A s" "code_of (BBs (MF s)) = lcode (listing_of lm evs)" "names_ok k (listing_of lm evs) (BBs (MF s))"
    by (rule listedE)
  then have "\<forall>bb \<in> set (BBs (MF s)). block_wf A bb" by (simp add: str_inv_def)
  with k(2,3) a have "collected A (listing_of lm evs) k (BBs (MF s))" by (simp add: collected_def)
  from realise[OF this refl s(2)] k(1) show ?thesis by (auto simp: str_inv_def)
qed

end

end
