(* ===== verification/Streamer_Props.thy ===== *)
theory Streamer_Props
  imports Streamer_Flow
begin

text \<open>
  The properties of the assembly streamer, with a small program as the concrete run: a comparison
  that skips one assignment, and a data object.
\<close>

section \<open>A small program\<close>

definition demo_events :: "mc_event list" where
  "demo_events = [EmitLabel ''.text'' ''f'', EmitDwarfLoc 3,
     EmitInstruction (mk_inst MOV_ri [RegOp (R 0), ImmOp 1]),
     EmitInstruction (mk_inst (JCOND JEQ RI B64) [RegOp (R 1), ImmOp 0, ExprOp (SymbolRef ''LBB0_2'')]),
     EmitInstruction (mk_inst MOV_ri [RegOp (R 0), ImmOp 2]),
     EmitLabel ''.text'' ''LBB0_2'',
     EmitInstruction (mk_inst RET []),
     EmitLabel ''.text'' ''.Lfunc_end0'', EmitELFSize,
     EmitLabel ''.data'' ''tab'', EmitBytes [1, 2], EmitValue (BinaryExpr (SymbolRef ''f'') (ConstantExpr 8)),
     EmitELFSize]"

definition demo_lines :: "nat \<Rightarrow> nat option" where
  "demo_lines n = (if n = 3 then Some 0 else None)"

lemma demo_runs: "isl (streamed bpf_desc demo_lines demo_events) = False"
  by code_simp

lemma demo_asm: "asm_listing (listing_of demo_lines demo_events)"
proof -
  have "length (lcode (listing_of demo_lines demo_events)) = 6" by code_simp
  moreover have "list_all (\<lambda>l. asm_name (fst l)) (llabels (listing_of demo_lines demo_events))
     \<and> distinct (map fst (llabels (listing_of demo_lines demo_events)))
     \<and> list_all (\<lambda>I. case branch_symbol I of None \<Rightarrow> True | Some nm \<Rightarrow> asm_name nm) (lcode (listing_of demo_lines demo_events))" by code_simp
  ultimately show ?thesis by (simp add: asm_listing_def)
qed

section \<open>Code\<close>

text \<open>C7. Whatever sequence of callbacks the assembly parser makes, if the streamer and its passes
  accept it, the blocks handed to the lifter hold exactly the emitted instructions in order (with a
  sentinel at each label), have distinct names, and their control flow - on inside a block, from its last
  instruction to its successors - is the control flow of the linear assembly: fall through unless
  the instruction is an unconditional branch or a return, and to the label a branch names. The added
  entry block leads to the first block and nothing leads back to it.\<close>

theorem streamer_realises_assembly:
  assumes "bpf_analysis A" and "streamed A lm evs = Inr F" and "asm_listing (listing_of lm evs)"
  shows "\<exists>bbs. realises A (listing_of lm evs) bbs (BBs F)"
  using bpf_analysis.streamed_realises[OF assms] by blast

theorem streamer_realises_assembly_witness:
  "\<exists>F bbs. streamed bpf_desc demo_lines demo_events = Inr F \<and> realises bpf_desc (listing_of demo_lines demo_events) bbs (BBs F)"
proof -
  from demo_runs obtain F where "streamed bpf_desc demo_lines demo_events = Inr F"
    by (cases "streamed bpf_desc demo_lines demo_events") auto
  with streamer_realises_assembly[OF desc.bpf_analysis_axioms this demo_asm] show ?thesis by blast
qed

text \<open>C8. Between callbacks the streamer's state is consistent: the current-block pointer is the last
  block as soon as a label was seen, no block is empty, a terminator is only ever the last instruction
  of its block, and the recorded kind of the last line says whether the block is closed. So
  \<open>removeEmptyBlocks\<close> removes nothing.\<close>

theorem streamer_invariant:
  assumes "bpf_analysis A" and "parse_run A evs (new_streamer NOP lm) = Inr (u, s)"
  shows "str_inv A s \<and> removeEmptyBlocks (MF s) = MF s"
  using bpf_analysis.parse_inv[OF assms] removeEmptyBlocks_wf[of "MF s" A] by (auto simp: str_inv_def)

theorem streamer_invariant_witness:
  "\<exists>s. parse_run bpf_desc demo_events (new_streamer NOP demo_lines) = Inr ((), s) \<and> str_inv bpf_desc s"
proof -
  have "isl (parse_run bpf_desc demo_events (new_streamer NOP demo_lines)) = False" by code_simp
  then obtain s where s: "parse_run bpf_desc demo_events (new_streamer NOP demo_lines) = Inr ((), s)"
    by (cases "parse_run bpf_desc demo_events (new_streamer NOP demo_lines)") auto
  from streamer_invariant[OF desc.bpf_analysis_axioms s] s show ?thesis by blast
qed

text \<open>C9. From a consistent state a callback fails in exactly three ways: an instruction before any
  label, a data value whose expression the streamer does not handle (outside debug sections), a fill value
  that is not a byte. In particular the current-block pointer is never null when it is used.\<close>

theorem callback_failures:
  assumes "str_inv A s"
  shows "isl (callback A e s) \<longleftrightarrow>
     (\<exists>I. e = EmitInstruction I \<and> prev_line s = no_line)
   \<or> (\<exists>v. e = EmitValue v \<and> isl (value_item v) \<and> \<not> is_debug_section (curSec s))
   \<or> (\<exists>n v. e = EmitFill (ConstantExpr n) v \<and> 256 \<le> v)"
proof (cases e)
  case (EmitInstruction I)
  then show ?thesis
    using emitInstruction_run[OF assms, of I] by (cases "prev_line s = no_line") (auto simp: emitInstruction_no_line Let_def)
next
  case (EmitFill n v)
  then show ?thesis by (cases n) (auto simp: emitFill_def andthen_def bnd_def push_data_def)
next
  case (EmitValue v)
  then show ?thesis by (auto simp: emitValueImpl_def bnd_def push_data_def split: sum.splits)
qed (auto simp: emitLabel_run emitBytes_def push_data_def emitCommonSymbol_def emitELFSize_def addConstant_run
      emitValueToAlignment_def emitDwarfLocDirective_def)

theorem callback_failures_witness:
  "isl (callback bpf_desc (EmitInstruction (mk_inst RET [])) (new_streamer NOP demo_lines))
   \<and> \<not> isl (callback bpf_desc (EmitFill (ConstantExpr 3) 255) (new_streamer NOP demo_lines))"
proof -
  have "str_inv bpf_desc (new_streamer NOP demo_lines)" by (simp add: str_inv_def new_streamer_def new_MCFunction_def)
  from callback_failures[OF this, of "EmitInstruction (mk_inst RET [])"]
    callback_failures[OF this, of "EmitFill (ConstantExpr 3) 255"]
  show ?thesis by (simp add: new_streamer_def)
qed

section \<open>Data\<close>

text \<open>The items one data callback contributes outside debug sections.\<close>

fun data_items :: "mc_event \<Rightarrow> RODataItem list" where
  "data_items (EmitValue v) = (case value_item v of Inl e \<Rightarrow> [] | Inr d \<Rightarrow> [d])"
| "data_items (EmitBytes bs) = map DataByte bs"
| "data_items (EmitFill (ConstantExpr n) v) = replicate (nat n) (DataByte (word_of_nat v))"
| "data_items _ = []"

fun is_data :: "mc_event \<Rightarrow> bool" where
  "is_data (EmitValue v) = True"
| "is_data (EmitBytes bs) = True"
| "is_data (EmitFill n v) = True"
| "is_data (EmitDwarfLoc l) = True"
| "is_data EmitPrintOnly = True"
| "is_data _ = False"

definition same_object :: "streamer \<Rightarrow> streamer \<Rightarrow> bool" where
  "same_object s t \<longleftrightarrow> curSym t = curSym s \<and> curSec t = curSec s \<and> curAlign t = curAlign s
     \<and> MCglobals (MF t) = MCglobals (MF s)"

lemma data_step:
  assumes "is_data e" "\<not> is_debug_section (curSec s)" "callback A e s = Inr (u, t)"
  shows "same_object s t \<and> curROData t = curROData s @ data_items e"
  using assms
  by (cases e rule: data_items.cases)
    (auto simp: same_object_def emitValueImpl_def push_data_def emitBytes_def emitFill_def emitDwarfLocDirective_def
      andthen_def bnd_def split: sum.splits if_splits)

lemma data_steps:
  assumes "list_all is_data evs" "\<not> is_debug_section (curSec s)" "for_each evs (callback A) s = Inr (u, t)"
  shows "same_object s t \<and> curROData t = curROData s @ concat (map data_items evs)"
  using assms
proof (induction evs arbitrary: s)
  case (Cons e evs)
  from Cons.prems(3) obtain s1 where s1: "callback A e s = Inr ((), s1)" "for_each evs (callback A) s1 = Inr (u, t)"
    unfolding for_each_Cons_Inr by blast
  from data_step[OF _ Cons.prems(2) s1(1)] Cons.prems(1)
  have d: "same_object s s1" "curROData s1 = curROData s @ data_items e" by simp_all
  with Cons.IH[OF _ _ s1(2)] Cons.prems show ?case by (auto simp: same_object_def)
qed (simp add: same_object_def)

text \<open>C10. A data object is collected whole: after a label outside the debug sections, any
  sequence of values, bytes and fills followed by the object's size directive adds exactly one global under
  the label's name with all these items in order (after whatever was still pending), and leaves nothing pending.\<close>

theorem data_object_collected:
  assumes "\<not> is_debug_section sec" and "list_all is_data evs" and "concat (map data_items evs) \<noteq> []"
    and "parse_run A (EmitLabel sec lab # evs @ [EmitELFSize]) s = Inr (u, t)"
  shows "curROData t = [] \<and> MCglobals (MF t) = MCglobals (MF s)
     @ (if curROData s = [] then [] else [\<lparr>gname = curSym s, galign = curAlign s, gsection = curSec s, gdata = curROData s\<rparr>])
     @ [\<lparr>gname = lab, galign = curAlign s, gsection = sec, gdata = concat (map data_items evs)\<rparr>]"
proof -
  from assms(4) obtain s1 s2 where r: "emitLabel sec lab s = Inr ((), s1)" "for_each evs (callback A) s1 = Inr ((), s2)"
      "addConstant s2 = Inr (u, t)"
    by (auto simp: parse_run_def for_each_append andthen_eq_Inr emitELFSize_def)
  from r(1) assms(1) have s1: "curSym s1 = lab" "curSec s1 = sec" "curAlign s1 = curAlign s" "curROData s1 = []"
    "MCglobals (MF s1) = MCglobals (MF s)
     @ (if curROData s = [] then [] else [\<lparr>gname = curSym s, galign = curAlign s, gsection = curSec s, gdata = curROData s\<rparr>])"
    by (auto simp: emitLabel_run labelled_def Let_def open_block_def split: if_splits)
  from data_steps[OF assms(2) _ r(2)] s1 assms(1,3) r(3) show ?thesis
    by (auto simp: same_object_def addConstant_run)
qed

theorem data_object_collected_witness:
  "\<exists>t. parse_run bpf_desc (EmitLabel ''.data'' ''tab'' # [EmitBytes [1, 2], EmitFill (ConstantExpr 2) 0] @ [EmitELFSize])
       (new_streamer NOP demo_lines) = Inr ((), t) \<and>
     last (MCglobals (MF t)) = \<lparr>gname = ''tab'', galign = 1, gsection = ''.data'', gdata = map DataByte [1, 2, 0, 0]\<rparr>"
proof -
  let ?r = "parse_run bpf_desc (EmitLabel ''.data'' ''tab'' # [EmitBytes [1, 2], EmitFill (ConstantExpr 2) 0] @ [EmitELFSize])
       (new_streamer NOP demo_lines)"
  have "isl ?r = False" by code_simp
  then obtain t where t: "?r = Inr ((), t)" by (cases ?r) auto
  have "\<not> is_debug_section ''.data''" by code_simp
  from data_object_collected[OF this _ _ t] t show ?thesis
    by (auto simp: new_streamer_def numeral_2_eq_2)
qed

end
