(* ===== verification/Bytes_Mode.thy ===== *)
theory Bytes_Mode
  imports Streamer
begin

text \<open>
  \<open>bpf2llvm::runBytes\<close> (\<open>src/src/lifter/bpf2llvm.cpp\<close>): raw bytecode to blocks. The disassembler is LLVM's
  and a parameter; everything after it - sign extension of the immediate fields, block leaders,
  rewriting of branch offsets to labels, population of the function - is modelled.
\<close>

section \<open>The disassembler\<close>

text \<open>\<open>getInstruction\<close> on the remaining bytes and their offset: the instruction and its size when the
  status is \<open>Success\<close>.\<close>

type_synonym disassembler = "byte list \<Rightarrow> nat \<Rightarrow> (mcinst \<times> nat) option"

text \<open>What the code relies on: a BPF instruction takes 8 or 16 bytes of the input, and without a
  symbolizer operands are registers and immediates.\<close>

locale bpf_disassembler =
  fixes dis :: disassembler
  assumes insn_size: "dis bs off = Some (I, sz) \<Longrightarrow> sz = 8 \<or> sz = 16"
    and insn_bytes: "dis bs off = Some (I, sz) \<Longrightarrow> sz \<le> length bs"
    and no_symbols: "dis bs off = Some (I, sz) \<Longrightarrow> op \<in> set (operands I) \<Longrightarrow> \<not> is_ExprOp op"

section \<open>Decoding\<close>

record DecodedInsn =
  di_inst :: mcinst
  di_unit :: nat
  di_units :: nat

function decode_from :: "disassembler \<Rightarrow> byte list \<Rightarrow> nat \<Rightarrow> lift_error + DecodedInsn list" where
  "decode_from dis bytes off = (if length bytes \<le> off then Inr []
     else (case dis (drop off bytes) off of
       None \<Rightarrow> Inl (ExitError ''cannot disassemble instruction'')
     | Some (inst, sz) \<Rightarrow>
         if sz = 0 then Inl (ExitError ''cannot disassemble instruction'')
         else if getOpcode inst = JAL \<and> length bytes \<le> Suc off then Inl (Assertion ''bytes[off + 1]'')
         else if getOpcode inst = JAL \<and> drop_bit 4 (bytes ! Suc off) AND 0xf = 1
         then Inl (ExitError ''bpf2bpf local calls are not supported yet'')
         else (case decode_from dis bytes (off + sz) of Inl e \<Rightarrow> Inl e
           | Inr rest \<Rightarrow> Inr (\<lparr>di_inst = inst, di_unit = off div 8, di_units = sz div 8\<rparr> # rest))))"
  by pat_completeness auto

termination decode_from
  by (relation "measure (\<lambda>(dis, bytes, off). length bytes - off)") auto

declare decode_from.simps [simp del]

definition decode :: "disassembler \<Rightarrow> byte list \<Rightarrow> lift_error + DecodedInsn list" where
  "decode dis bytes = (case decode_from dis bytes 0 of Inl e \<Rightarrow> Inl e
     | Inr insns \<Rightarrow> if insns = [] then Inl (ExitError ''empty program'') else Inr insns)"

section \<open>Sign extension of immediates\<close>

text \<open>\<open>sext\<close>: the immediate at operand \<open>idx\<close>, if it is one, through \<open>int16_t\<close> or \<open>int32_t\<close>.\<close>

definition sext :: "nat \<Rightarrow> nat \<Rightarrow> mcinst \<Rightarrow> lift_error + mcinst" where
  "sext idx bits I = (if length (operands I) \<le> idx then Inl (Assertion ''operand index out of range'')
     else (case operands I ! idx of
       ImmOp v \<Rightarrow> Inr (I\<lparr>operands := (operands I)[idx :=
         ImmOp (if bits = 16 then signed_take_bit 15 v else signed_take_bit 31 v)]\<rparr>)
     | _ \<Rightarrow> Inr I))"

definition sext2 :: "nat \<Rightarrow> nat \<Rightarrow> nat \<Rightarrow> nat \<Rightarrow> mcinst \<Rightarrow> lift_error + mcinst" where
  "sext2 i1 b1 i2 b2 I = (case sext i1 b1 I of Inl e \<Rightarrow> Inl e | Inr I' \<Rightarrow> sext i2 b2 I')"

definition normalize_inst :: "instr_analysis \<Rightarrow> mcinst \<Rightarrow> lift_error + mcinst" where
  "normalize_inst A I = (let op = getOpcode I; n = length (operands I) in
     if op = LD_imm64 \<or> op = NOP \<or> n = 0 then Inr I
     else if isBranch A op then
       (if n = 3 then sext2 1 32 (n - 1) (if op = JMPL then 32 else 16) I
        else sext (n - 1) (if op = JMPL then 32 else 16) I)
     else if isCall A op then sext (n - 1) 32 I
     else (case op of
       LOAD _ \<Rightarrow> sext 2 16 I
     | STORE _ \<Rightarrow> sext 2 16 I
     | STORE_IMM _ \<Rightarrow> sext2 0 32 2 16 I
     | CMPXCHGD \<Rightarrow> sext 1 16 I
     | CMPXCHGW32 \<Rightarrow> sext 1 16 I
     | ATOMIC _ \<Rightarrow> sext 2 16 I
     | _ \<Rightarrow> sext (n - 1) 32 I))"

fun map_result :: "('a \<Rightarrow> lift_error + 'b) \<Rightarrow> 'a list \<Rightarrow> lift_error + 'b list" where
  "map_result f [] = Inr []"
| "map_result f (x # xs) = (case f x of Inl e \<Rightarrow> Inl e
     | Inr y \<Rightarrow> (case map_result f xs of Inl e \<Rightarrow> Inl e | Inr ys \<Rightarrow> Inr (y # ys)))"

definition normalize_insn :: "instr_analysis \<Rightarrow> DecodedInsn \<Rightarrow> lift_error + DecodedInsn" where
  "normalize_insn A di = (case normalize_inst A (di_inst di) of Inl e \<Rightarrow> Inl e | Inr I \<Rightarrow> Inr (di\<lparr>di_inst := I\<rparr>))"

section \<open>Leaders and labels\<close>

definition branchTargetUnit :: "DecodedInsn \<Rightarrow> lift_error + int" where
  "branchTargetUnit di = (let ops = operands (di_inst di) in
     if ops = [] then Inl (Assertion ''operand index out of range'')
     else (case last ops of
       ImmOp v \<Rightarrow> Inr (int (di_unit di) + int (di_units di) + v)
     | _ \<Rightarrow> Inl (Assertion ''op.isImm()'')))"

definition next_unit :: "DecodedInsn \<Rightarrow> nat" where
  "next_unit di = di_unit di + di_units di"

definition insn_leaders :: "instr_analysis \<Rightarrow> DecodedInsn \<Rightarrow> lift_error + nat set" where
  "insn_leaders A di = (let op = getOpcode (di_inst di) in
     if isBranch A op then
       (case branchTargetUnit di of Inl e \<Rightarrow> Inl e
        | Inr t \<Rightarrow> Inr (insert (next_unit di) (if 0 \<le> t then {nat t} else {})))
     else if isReturn A op then Inr {next_unit di} else Inr {})"

definition leaders :: "instr_analysis \<Rightarrow> DecodedInsn list \<Rightarrow> lift_error + nat set" where
  "leaders A insns = (case map_result (insn_leaders A) insns of Inl e \<Rightarrow> Inl e
     | Inr ls \<Rightarrow> Inr (insert (di_unit (hd insns)) (\<Union> (set ls))))"

definition labelName :: "nat \<Rightarrow> string" where
  "labelName u = ''L'' @ to_string u"

definition rewrite_target :: "instr_analysis \<Rightarrow> nat set \<Rightarrow> DecodedInsn \<Rightarrow> lift_error + DecodedInsn" where
  "rewrite_target A units di =
     (if \<not> isBranch A (getOpcode (di_inst di)) then Inr di
      else (case branchTargetUnit di of Inl e \<Rightarrow> Inl e
        | Inr tgt \<Rightarrow> if tgt < 0 \<or> nat tgt \<notin> units
            then Inl (ExitError ''branch to a unit which is not an instruction boundary'')
            else Inr (di\<lparr>di_inst := (di_inst di)\<lparr>operands := (operands (di_inst di))
              [length (operands (di_inst di)) - 1 := ExprOp (SymbolRef (labelName (nat tgt)))]\<rparr>\<rparr>)))"

section \<open>Population\<close>

definition add_to_block :: "nat \<Rightarrow> mcinst \<Rightarrow> MCFunction \<Rightarrow> MCFunction" where
  "add_to_block b I F = F\<lparr>BBs := (BBs F)[b := addInst I (BBs F ! b)]\<rparr>"

fun populate :: "nat set \<Rightarrow> DecodedInsn list \<Rightarrow> nat option \<Rightarrow> MCFunction \<Rightarrow> MCFunction" where
  "populate lds [] cur F = F"
| "populate lds (di # insns) cur F =
     (case (if di_unit di \<in> lds then None else cur) of
        None \<Rightarrow> (case addBlock (labelName (di_unit di)) F of
          (b, F') \<Rightarrow> populate lds insns (Some b) (add_to_block b (di_inst di) F'))
      | Some b \<Rightarrow> populate lds insns (Some b) (add_to_block b (di_inst di) F))"

text \<open>\<open>runBytes\<close> up to the call of \<open>liftMCFunction\<close>: the function it hands over.\<close>

definition runBytes ::
    "disassembler \<Rightarrow> instr_analysis \<Rightarrow> string \<Rightarrow> byte list \<Rightarrow> lift_error + MCFunction" where
  "runBytes dis A srcName bytes =
     (case decode dis bytes of Inl e \<Rightarrow> Inl e
      | Inr insns \<Rightarrow>
     (case map_result (normalize_insn A) insns of Inl e \<Rightarrow> Inl e
      | Inr insns \<Rightarrow>
     (case leaders A insns of Inl e \<Rightarrow> Inl e
      | Inr lds \<Rightarrow>
     (case map_result (rewrite_target A (set (map di_unit insns))) insns of Inl e \<Rightarrow> Inl e
      | Inr insns \<Rightarrow> finish_function A JMP (populate lds insns None (setName srcName new_MCFunction))))))"

end
