(* ===== verification/Bytes_Flow.thy ===== *)
theory Bytes_Flow
  imports Bytes_Mode Streamer_Flow
begin

text \<open>
  The bytes path builds the control flow graph of the bytecode: the decoded instructions tile the
  input, leaders cut them into blocks, and the blocks with their successors realise the flow given by
  the numeric branch offsets.
\<close>

section \<open>Decoded instructions tile the input\<close>

fun contiguous :: "nat \<Rightarrow> DecodedInsn list \<Rightarrow> bool" where
  "contiguous u [] = True"
| "contiguous u (di # ds) = (di_unit di = u \<and> (di_units di = 1 \<or> di_units di = 2) \<and> contiguous (next_unit di) ds)"

definition units_total :: "DecodedInsn list \<Rightarrow> nat" where
  "units_total ds = sum_list (map di_units ds)"

lemma contiguous_ge: "contiguous u ds \<Longrightarrow> d \<in> set ds \<Longrightarrow> u \<le> di_unit d"
  by (induction ds arbitrary: u) (force simp: next_unit_def)+

lemma contiguous_distinct: "contiguous u ds \<Longrightarrow> distinct (map di_unit ds)"
proof (induction ds arbitrary: u)
  case (Cons d ds)
  then have "\<forall>d' \<in> set ds. di_unit d < di_unit d'"
    using contiguous_ge[of "next_unit d" ds] by (force simp: next_unit_def)
  with Cons show ?case by auto
qed simp

lemma contiguous_nth: "contiguous u ds \<Longrightarrow> Suc p < length ds \<Longrightarrow> di_unit (ds ! Suc p) = next_unit (ds ! p)"
proof (induction ds arbitrary: u p)
  case (Cons d ds)
  then show ?case by (cases p; cases ds) auto
qed simp

context bpf_disassembler
begin

lemma decode_from_tiles:
  assumes "decode_from dis bytes off = Inr ds" "8 dvd off" "off \<le> length bytes"
  shows "contiguous (off div 8) ds \<and> off + 8 * units_total ds = length bytes
     \<and> (\<forall>d \<in> set ds. \<forall>op \<in> set (operands (di_inst d)). \<not> is_ExprOp op)"
  using assms
proof (induction dis\<equiv>dis bytes off arbitrary: ds rule: decode_from.induct)
  case (1 bytes off)
  show ?case
  proof (cases "length bytes \<le> off")
    case True
    with 1 show ?thesis by (simp add: decode_from.simps[of _ bytes off] units_total_def)
  next
    case False
    with 1(2) obtain I sz rest where d: "dis (drop off bytes) off = Some (I, sz)" "sz \<noteq> 0"
      "\<not> (getOpcode I = JAL \<and> length bytes \<le> Suc off)" "\<not> (getOpcode I = JAL \<and> drop_bit 4 (bytes ! Suc off) AND 0xf = 1)"
      "decode_from dis bytes (off + sz) = Inr rest" "ds = \<lparr>di_inst = I, di_unit = off div 8, di_units = sz div 8\<rparr> # rest"
      by (subst (asm) decode_from.simps) (auto split: option.splits if_splits sum.splits)
    from insn_size[OF d(1)] insn_bytes[OF d(1)] False have sz: "sz = 8 \<or> sz = 16" "off + sz \<le> length bytes" by auto
    from 1(1)[OF False d(1) refl d(2,3,4,5)] 1(3) sz
    have IH: "contiguous ((off + sz) div 8) rest \<and> off + sz + 8 * units_total rest = length bytes
       \<and> (\<forall>d \<in> set rest. \<forall>op \<in> set (operands (di_inst d)). \<not> is_ExprOp op)" by auto
    have "(off + sz) div 8 = off div 8 + sz div 8" using 1(3) by (auto elim: dvdE)
    with IH sz no_symbols[OF d(1)] show ?thesis by (auto simp: d(6) units_total_def next_unit_def)
  qed
qed

lemma decode_tiles:
  assumes "decode dis bytes = Inr ds"
  shows "contiguous 0 ds" "8 * units_total ds = length bytes" "ds \<noteq> []"
    "\<forall>d \<in> set ds. \<forall>op \<in> set (operands (di_inst d)). \<not> is_ExprOp op"
  using assms decode_from_tiles[of bytes 0] by (auto simp: decode_def split: sum.splits if_splits)

end

section \<open>Normalisation keeps everything but immediates\<close>

definition same_shape :: "mcinst \<Rightarrow> mcinst \<Rightarrow> bool" where
  "same_shape I J \<longleftrightarrow> getOpcode J = getOpcode I \<and> list_all2 (\<lambda>x y. y = x \<or> (is_ImmOp x \<and> is_ImmOp y)) (operands I) (operands J)"

lemma same_shape_refl [simp]: "same_shape I I"
  by (simp add: same_shape_def list.rel_refl)

lemma same_shape_trans: "same_shape I J \<Longrightarrow> same_shape J K \<Longrightarrow> same_shape I K"
  unfolding same_shape_def list_all2_conv_all_nth by metis

lemma sext_shape: "sext idx bits I = Inr J \<Longrightarrow> same_shape I J"
  by (auto simp: sext_def same_shape_def list_all2_conv_all_nth nth_list_update split: if_splits mcoperand.splits)

lemma sext2_shape: "sext2 i1 b1 i2 b2 I = Inr J \<Longrightarrow> same_shape I J"
  by (auto simp: sext2_def split: sum.splits intro: same_shape_trans sext_shape)

lemma normalize_shape: "normalize_inst A I = Inr J \<Longrightarrow> same_shape I J"
  by (auto simp: normalize_inst_def Let_def split: if_splits opcode.splits intro: sext_shape sext2_shape)

lemma map_result_Inr: "map_result f xs = Inr ys \<longleftrightarrow> list_all2 (\<lambda>x y. f x = Inr y) xs ys"
proof (induction xs arbitrary: ys)
  case (Cons x xs)
  show ?case
  proof (cases "map_result f xs")
    case (Inl e)
    then have "\<not> list_all2 (\<lambda>x y. f x = Inr y) xs zs" for zs using Cons[of zs] by simp
    with Inl show ?thesis by (cases ys) (auto split: sum.splits)
  next
    case (Inr zs)
    then have "list_all2 (\<lambda>x y. f x = Inr y) xs zs' \<longleftrightarrow> zs' = zs" for zs' using Cons[of zs'] by auto
    with Inr show ?thesis by (cases ys) (auto split: sum.splits)
  qed
qed auto

section \<open>Population\<close>

fun labels_from :: "nat set \<Rightarrow> nat \<Rightarrow> DecodedInsn list \<Rightarrow> (string \<times> nat) list" where
  "labels_from lds p [] = []"
| "labels_from lds p (d # ds) =
     (if di_unit d \<in> lds then [(labelName (di_unit d), p)] else []) @ labels_from lds (Suc p) ds"

text \<open>Instructions after which a new block has to start do have one.\<close>

fun cut :: "instr_analysis \<Rightarrow> nat set \<Rightarrow> DecodedInsn list \<Rightarrow> bool" where
  "cut A lds [] = True"
| "cut A lds (d # ds) = ((ends_block A (di_inst d) \<longrightarrow> ds \<noteq> [] \<longrightarrow> di_unit (hd ds) \<in> lds) \<and> cut A lds ds)"

definition closed :: "instr_analysis \<Rightarrow> MCBasicBlock list \<Rightarrow> bool" where
  "closed A bbs \<longleftrightarrow> bbs = [] \<or> ends_block A (last (getInstrs (last bbs)))"

lemma starts_addInst: "starts p (bbs @ [addInst I bb]) = starts p (bbs @ [bb])"
  by (simp add: starts_append addInst_def)

lemma block_wf_addInst: "block_wf A bb \<Longrightarrow> \<not> ends_block A (last (getInstrs bb)) \<Longrightarrow> block_wf A (addInst I bb)"
  unfolding block_wf_def addInst_def
  by simp (metis append_butlast_last_id UnE set_append empty_iff insert_iff list.set)

definition populated :: "instr_analysis \<Rightarrow> nat set \<Rightarrow> DecodedInsn list \<Rightarrow> MCFunction \<Rightarrow> MCFunction \<Rightarrow> bool" where
  "populated A lds ds F F' \<longleftrightarrow> code_of (BBs F') = code_of (BBs F) @ map di_inst ds
     \<and> starts 0 (BBs F') = starts 0 (BBs F) @ labels_from lds (length (code_of (BBs F))) ds
     \<and> (\<forall>bb \<in> set (BBs F'). block_wf A bb)"

lemma populate_step:
  assumes "di_unit d \<in> lds \<or> \<not> closed A (BBs F)" "\<forall>bb \<in> set (BBs F). block_wf A bb"
    and "cur = (if BBs F = [] then None else Some (length (BBs F) - 1))"
  obtains F1 where "populate lds (d # ds) cur F = populate lds ds (Some (length (BBs F1) - 1)) F1" "BBs F1 \<noteq> []"
    "populated A lds [d] F F1" "last (getInstrs (last (BBs F1))) = di_inst d"
proof (cases "di_unit d \<in> lds")
  case True
  let ?F = "F\<lparr>BBs := BBs F @ [addInst (di_inst d) (new_block (labelName (di_unit d)))]\<rparr>"
  have "populate lds (d # ds) cur F = populate lds ds (Some (length (BBs F))) ?F"
    using True by (simp add: addBlock_def add_to_block_def)
  moreover have "populated A lds [d] F ?F"
    using True assms(2) by (auto simp: populated_def starts_append addInst_def new_block_def block_wf_def)
  ultimately show ?thesis by (intro that[of ?F]) (simp_all add: addInst_def)
next
  case False
  with assms(1) obtain bbs bb where b: "BBs F = bbs @ [bb]" "\<not> ends_block A (last (getInstrs bb))"
    by (cases "BBs F" rule: rev_cases) (auto simp: closed_def)
  let ?F = "F\<lparr>BBs := bbs @ [addInst (di_inst d) bb]\<rparr>"
  have "populate lds (d # ds) cur F = populate lds ds (Some (length bbs)) ?F"
    using False b assms(3) by (simp add: add_to_block_def)
  moreover have "populated A lds [d] F ?F"
    using False assms(2) b block_wf_addInst[of A bb "di_inst d"]
    by (auto simp: populated_def starts_addInst) (simp add: addInst_def)
  ultimately show ?thesis by (intro that[of ?F]) (simp_all add: addInst_def)
qed

lemma populate_spec:
  assumes "cut A lds ds" "\<forall>bb \<in> set (BBs F). block_wf A bb" "ds \<noteq> [] \<Longrightarrow> closed A (BBs F) \<Longrightarrow> di_unit (hd ds) \<in> lds"
    and "cur = (if BBs F = [] then None else Some (length (BBs F) - 1))"
  shows "populated A lds ds F (populate lds ds cur F)"
  using assms
proof (induction ds arbitrary: cur F)
  case (Cons d ds)
  from Cons.prems(3) have "di_unit d \<in> lds \<or> \<not> closed A (BBs F)" by auto
  from populate_step[OF this Cons.prems(2,4), of ds] obtain F1 where F1:
    "populate lds (d # ds) cur F = populate lds ds (Some (length (BBs F1) - 1)) F1" "BBs F1 \<noteq> []"
    "populated A lds [d] F F1" "last (getInstrs (last (BBs F1))) = di_inst d" by blast
  have "populated A lds ds F1 (populate lds ds (Some (length (BBs F1) - 1)) F1)"
    by (rule Cons.IH) (use Cons.prems(1) F1 in \<open>auto simp: populated_def closed_def\<close>)
  with F1(3) show ?case unfolding F1(1) by (simp add: populated_def)
qed (simp add: populated_def)

section \<open>The flow of the bytecode\<close>

text \<open>Control over the normalised instructions by position: on to the next instruction unless it is an
  unconditional branch or a return; a branch goes to the instruction its numeric offset reaches,
  counted in units from the end of the branch.\<close>

inductive bc_flow :: "instr_analysis \<Rightarrow> DecodedInsn list \<Rightarrow> nat \<Rightarrow> nat \<Rightarrow> bool" for A ds where
  bc_next: "Suc p < length ds \<Longrightarrow> \<not> isUnconditionalBranch A (getOpcode (di_inst (ds ! p))) \<Longrightarrow>
     \<not> isReturn A (getOpcode (di_inst (ds ! p))) \<Longrightarrow> bc_flow A ds p (Suc p)"
| bc_jump: "p < length ds \<Longrightarrow> is_jump A (getOpcode (di_inst (ds ! p))) \<Longrightarrow> q < length ds \<Longrightarrow>
     last (operands (di_inst (ds ! p))) = ImmOp v \<Longrightarrow>
     int (di_unit (ds ! q)) = int (next_unit (ds ! p)) + v \<Longrightarrow> bc_flow A ds p q"

inductive_simps bc_flow_iff: "bc_flow A ds p q"

text \<open>What rewriting the targets does to one instruction.\<close>

definition retargeted :: "instr_analysis \<Rightarrow> nat set \<Rightarrow> DecodedInsn \<Rightarrow> DecodedInsn \<Rightarrow> bool" where
  "retargeted A units d r \<longleftrightarrow> di_unit r = di_unit d \<and> di_units r = di_units d
     \<and> getOpcode (di_inst r) = getOpcode (di_inst d)
     \<and> butlast (operands (di_inst r)) = butlast (operands (di_inst d))
     \<and> (if isBranch A (getOpcode (di_inst d))
        then \<exists>v. operands (di_inst d) \<noteq> [] \<and> last (operands (di_inst d)) = ImmOp v \<and> 0 \<le> int (next_unit d) + v
          \<and> nat (int (next_unit d) + v) \<in> units
          \<and> branch_symbol (di_inst r) = Some (labelName (nat (int (next_unit d) + v)))
        else r = d \<and> branch_symbol (di_inst r) = None)"

lemma first_symbol_None: "\<forall>op \<in> set ops. \<not> is_ExprOp op \<Longrightarrow> first_symbol ops = None"
  by (induction ops rule: first_symbol.induct) auto

lemma first_symbol_last: "\<forall>op \<in> set ops. \<not> is_ExprOp op \<Longrightarrow> first_symbol (ops @ [ExprOp (SymbolRef nm)]) = Some nm"
  by (induction ops rule: first_symbol.induct) auto

lemma rewrite_target_retargeted:
  assumes "rewrite_target A units d = Inr r" "\<forall>op \<in> set (operands (di_inst d)). \<not> is_ExprOp op"
  shows "retargeted A units d r"
proof (cases "isBranch A (getOpcode (di_inst d))")
  case False
  with assms show ?thesis
    by (simp add: rewrite_target_def retargeted_def branch_symbol_def first_symbol_None)
next
  case True
  with assms(1) obtain v where v: "operands (di_inst d) \<noteq> []" "last (operands (di_inst d)) = ImmOp v"
    "0 \<le> int (next_unit d) + v" "nat (int (next_unit d) + v) \<in> units"
    "r = d\<lparr>di_inst := (di_inst d)\<lparr>operands := (operands (di_inst d))[length (operands (di_inst d)) - 1 :=
       ExprOp (SymbolRef (labelName (nat (int (next_unit d) + v))))]\<rparr>\<rparr>"
    by (auto simp: rewrite_target_def branchTargetUnit_def Let_def next_unit_def split: if_splits mcoperand.splits)
  have "(operands (di_inst d))[length (operands (di_inst d)) - 1 := x] = butlast (operands (di_inst d)) @ [x]" for x
    using v(1) by (cases "operands (di_inst d)" rule: rev_cases) (auto simp: list_update_append)
  moreover have "first_symbol (butlast (operands (di_inst d)) @ [ExprOp (SymbolRef nm)]) = Some nm" for nm
    using assms(2) by (intro first_symbol_last) (auto dest: in_set_butlastD)
  ultimately show ?thesis using v True by (auto simp: retargeted_def branch_symbol_def)
qed

text \<open>Leaders: the first instruction, every branch target, and what follows a branch or a return.\<close>

lemma leaders_closed:
  assumes "leaders A ds = Inr lds" "ds \<noteq> []"
  shows "di_unit (hd ds) \<in> lds"
    and "d \<in> set ds \<Longrightarrow> isBranch A (getOpcode (di_inst d)) \<or> isReturn A (getOpcode (di_inst d)) \<Longrightarrow> next_unit d \<in> lds"
    and "d \<in> set ds \<Longrightarrow> isBranch A (getOpcode (di_inst d)) \<Longrightarrow> last (operands (di_inst d)) = ImmOp v \<Longrightarrow>
      0 \<le> int (next_unit d) + v \<Longrightarrow> nat (int (next_unit d) + v) \<in> lds"
proof -
  from assms(1) obtain ls where ls: "list_all2 (\<lambda>d l. insn_leaders A d = Inr l) ds ls"
    "lds = insert (di_unit (hd ds)) (\<Union> (set ls))"
    by (auto simp: leaders_def map_result_Inr split: sum.splits)
  have in_lds: "\<exists>l. insn_leaders A d = Inr l \<and> l \<subseteq> lds" if "d \<in> set ds" for d
    using ls that by (fastforce simp: list_all2_conv_all_nth in_set_conv_nth)
  show "di_unit (hd ds) \<in> lds" using ls by simp
  show "next_unit d \<in> lds" if "d \<in> set ds" "isBranch A (getOpcode (di_inst d)) \<or> isReturn A (getOpcode (di_inst d))"
    using in_lds[OF that(1)] that(2) by (auto simp: insn_leaders_def Let_def split: if_splits sum.splits)
  show "nat (int (next_unit d) + v) \<in> lds" if "d \<in> set ds" "isBranch A (getOpcode (di_inst d))"
    "last (operands (di_inst d)) = ImmOp v" "0 \<le> int (next_unit d) + v"
    using in_lds[OF that(1)] that(2-)
    by (auto simp: insn_leaders_def branchTargetUnit_def next_unit_def Let_def split: if_splits sum.splits)
qed

section \<open>Labels\<close>

lemma labelName_inj [simp]: "labelName u = labelName v \<longleftrightarrow> u = v"
  using to_string_inj by (auto simp: labelName_def)

lemma asm_name_labelName [simp]: "asm_name (labelName u)"
  by (simp add: asm_name_def numeric_def labelName_def)

lemma set_labels_from: "(nm, q) \<in> set (labels_from lds p ds) \<longleftrightarrow>
   (\<exists>i < length ds. di_unit (ds ! i) \<in> lds \<and> nm = labelName (di_unit (ds ! i)) \<and> q = p + i)"
proof (induction ds arbitrary: p)
  case (Cons d ds)
  show ?case by (auto simp: Cons less_Suc_eq_0_disj)
qed simp

lemma labels_from_names: "fst ` set (labels_from lds p ds) \<subseteq> labelName ` di_unit ` set ds"
  by (force simp: set_labels_from)

lemma labels_from_distinct: "distinct (map di_unit ds) \<Longrightarrow> distinct (map fst (labels_from lds p ds))"
proof (induction ds arbitrary: p)
  case (Cons d ds)
  have "labelName (di_unit d) \<notin> fst ` set (labels_from lds (Suc p) ds)"
    using labels_from_names[of lds "Suc p" ds] Cons.prems by auto
  with Cons show ?case by simp
qed simp

lemma label_target:
  assumes "distinct (map di_unit ds)" "u \<in> lds"
  shows "map_of (labels_from lds 0 ds) (labelName u) = Some q \<longleftrightarrow> q < length ds \<and> di_unit (ds ! q) = u"
  using assms by (auto simp: map_of_eq_Some_iff[OF labels_from_distinct] set_labels_from)

definition bytes_listing :: "nat set \<Rightarrow> DecodedInsn list \<Rightarrow> listing" where
  "bytes_listing lds rs = \<lparr>lcode = map di_inst rs, llabels = labels_from lds 0 rs, lline = 0, lended = False\<rparr>"

section \<open>From bytes to blocks\<close>

lemma cut_contiguous:
  assumes "contiguous u ds" "\<forall>d \<in> set ds. ends_block A (di_inst d) \<longrightarrow> next_unit d \<in> lds"
  shows "cut A lds ds"
  using assms
proof (induction ds arbitrary: u)
  case (Cons d ds)
  then show ?case by (cases ds) auto
qed simp

lemma contiguous_cong:
  "list_all2 (\<lambda>d r. di_unit r = di_unit d \<and> di_units r = di_units d) ds rs \<Longrightarrow> contiguous u rs = contiguous u ds"
  by (induction ds rs arbitrary: u rule: list_all2_induct) (auto simp: next_unit_def)

lemma list_all2_retargeted:
  assumes "list_all2 (retargeted A units) ds rs"
  shows "length rs = length ds" "map di_unit rs = map di_unit ds" "map next_unit rs = map next_unit ds"
    "map (getOpcode \<circ> di_inst) rs = map (getOpcode \<circ> di_inst) ds" "contiguous u rs = contiguous u ds"
  using assms contiguous_cong[of ds rs u]
  by (auto simp: list_all2_conv_all_nth retargeted_def next_unit_def intro!: nth_equalityI)

text \<open>The normalised instructions of an input, their leaders and their retargeted form.\<close>

definition bytes_stages :: "disassembler \<Rightarrow> instr_analysis \<Rightarrow> byte list \<Rightarrow> DecodedInsn list \<Rightarrow> nat set \<Rightarrow> DecodedInsn list \<Rightarrow> bool" where
  "bytes_stages dis A bytes ds lds rs \<longleftrightarrow> (\<exists>raw. decode dis bytes = Inr raw
     \<and> list_all2 (\<lambda>d n. normalize_insn A d = Inr n) raw ds) \<and> leaders A ds = Inr lds
     \<and> list_all2 (retargeted A (set (map di_unit ds))) ds rs \<and> contiguous 0 ds \<and> ds \<noteq> []
     \<and> 8 * units_total ds = length bytes"

lemma normalize_insn_same:
  assumes "normalize_insn A d = Inr n"
  shows "di_unit n = di_unit d" "di_units n = di_units d" "same_shape (di_inst d) (di_inst n)"
  using assms normalize_shape by (auto simp: normalize_insn_def split: sum.splits)

lemma same_shape_no_symbols:
  "same_shape I J \<Longrightarrow> \<forall>op \<in> set (operands I). \<not> is_ExprOp op \<Longrightarrow> \<forall>op \<in> set (operands J). \<not> is_ExprOp op"
  by (fastforce simp: same_shape_def list_all2_conv_all_nth in_set_conv_nth is_ImmOp_def)

context bpf_disassembler
begin

lemma runBytes_stages:
  assumes "runBytes dis A nm bytes = Inr F"
  obtains ds lds rs where "bytes_stages dis A bytes ds lds rs"
    "finish_function A JMP (populate lds rs None (setName nm new_MCFunction)) = Inr F"
proof -
  from assms obtain raw ds lds rs where r: "decode dis bytes = Inr raw" "map_result (normalize_insn A) raw = Inr ds"
    "leaders A ds = Inr lds" "map_result (rewrite_target A (set (map di_unit ds))) ds = Inr rs"
    "finish_function A JMP (populate lds rs None (setName nm new_MCFunction)) = Inr F"
    by (auto simp: runBytes_def split: sum.splits)
  note tiles = decode_tiles[OF r(1)]
  from r(2) have n: "list_all2 (\<lambda>d n. normalize_insn A d = Inr n) raw ds" by (simp add: map_result_Inr)
  then have same: "list_all2 (\<lambda>d r. di_unit r = di_unit d \<and> di_units r = di_units d) raw ds"
    by (rule list_all2_mono) (auto dest: normalize_insn_same)
  then have "map di_units ds = map di_units raw"
    by (auto simp: list_all2_conv_all_nth intro!: nth_equalityI)
  then have total: "units_total ds = units_total raw" by (simp add: units_total_def)
  have nosym: "\<forall>op \<in> set (operands (di_inst d)). \<not> is_ExprOp op" if d: "d \<in> set ds" for d
  proof -
    from d obtain i where i: "i < length ds" "d = ds ! i" by (auto simp: in_set_conv_nth)
    with n have "normalize_insn A (raw ! i) = Inr d" "raw ! i \<in> set raw" by (auto simp: list_all2_conv_all_nth)
    with normalize_insn_same(3)[OF this(1)] tiles(4) show ?thesis using same_shape_no_symbols by blast
  qed
  from r(4) have "list_all2 (\<lambda>d r. rewrite_target A (set (map di_unit ds)) d = Inr r) ds rs" by (simp add: map_result_Inr)
  then have "list_all2 (retargeted A (set (map di_unit ds))) ds rs"
    unfolding list_all2_conv_all_nth using nosym rewrite_target_retargeted by (metis nth_mem)
  moreover have "ds \<noteq> []" using n tiles(3) by auto
  ultimately have "bytes_stages dis A bytes ds lds rs"
    using r(1,3) n tiles(1,2) total contiguous_cong[OF same] by (auto simp: bytes_stages_def)
  with r(5) show ?thesis by (rule that[rotated])
qed

end

text \<open>The listing of the retargeted instructions is one an assembler could have produced.\<close>

lemma bytes_asm_listing:
  assumes st: "bytes_stages dis A bytes ds lds rs" and len: "length bytes < 2 ^ 32"
  shows "asm_listing (bytes_listing lds rs)"
proof -
  from st have c: "contiguous 0 ds" and r: "list_all2 (retargeted A (set (map di_unit ds))) ds rs"
    and t: "8 * units_total ds = length bytes" by (simp_all add: bytes_stages_def)
  note rs = list_all2_retargeted[OF r]
  have "length xs \<le> units_total xs" if "contiguous u xs" for u xs
    using that by (induction xs arbitrary: u) (force simp: units_total_def)+
  from this[OF c] t len rs(1) have "length rs < 2 ^ 32" by simp
  moreover have "distinct (map fst (labels_from lds 0 rs))"
    using contiguous_distinct[OF c] rs(2) by (simp add: labels_from_distinct)
  moreover have "asm_name nm" if "branch_symbol (di_inst x) = Some nm" "x \<in> set rs" for nm x
    using r that by (fastforce simp: list_all2_conv_all_nth in_set_conv_nth retargeted_def split: if_splits)
  moreover have "asm_name (fst l)" if "l \<in> set (labels_from lds 0 rs)" for l
    using that set_labels_from[of "fst l" "snd l"] by auto
  ultimately show ?thesis
    by (auto simp: asm_listing_def bytes_listing_def list_all_iff split: option.splits)
qed

text \<open>Its flow is the flow of the bytecode.\<close>

lemma bytes_flow:
  assumes st: "bytes_stages dis A bytes ds lds rs" and kinds: "\<And>op. is_jump A op \<Longrightarrow> isBranch A op"
  shows "lin_flow A (bytes_listing lds rs) p q \<longleftrightarrow> bc_flow A ds p q"
proof -
  from st have c: "contiguous 0 ds" and r: "list_all2 (retargeted A (set (map di_unit ds))) ds rs"
    and l: "leaders A ds = Inr lds" "ds \<noteq> []" by (simp_all add: bytes_stages_def)
  note rs = list_all2_retargeted[OF r]
  have op: "getOpcode (di_inst (rs ! p)) = getOpcode (di_inst (ds ! p))" if "p < length ds"
    using r that by (auto simp: list_all2_conv_all_nth retargeted_def)
  have jump: "(\<exists>nm. branch_symbol (di_inst (rs ! p)) = Some nm \<and> map_of (labels_from lds 0 rs) nm = Some q) \<longleftrightarrow>
     (\<exists>v. q < length ds \<and> last (operands (di_inst (ds ! p))) = ImmOp v \<and> int (di_unit (ds ! q)) = int (next_unit (ds ! p)) + v)"
    if p: "p < length ds" "is_jump A (getOpcode (di_inst (ds ! p)))"
  proof -
    have "retargeted A (set (map di_unit ds)) (ds ! p) (rs ! p)" using list_all2_nthD[OF r p(1)] .
    with kinds[OF p(2)] obtain v where v: "last (operands (di_inst (ds ! p))) = ImmOp v" "0 \<le> int (next_unit (ds ! p)) + v"
      "branch_symbol (di_inst (rs ! p)) = Some (labelName (nat (int (next_unit (ds ! p)) + v)))"
      by (auto simp: retargeted_def)
    have "nat (int (next_unit (ds ! p)) + v) \<in> lds"
      using leaders_closed(3)[OF l, of "ds ! p" v] p v kinds by simp
    from label_target[OF _ this, of rs q] contiguous_distinct[OF c] rs(1,2) v(2)
    have "map_of (labels_from lds 0 rs) (labelName (nat (int (next_unit (ds ! p)) + v))) = Some q \<longleftrightarrow>
       q < length ds \<and> int (di_unit (ds ! q)) = int (next_unit (ds ! p)) + v"
      by (metis int_eq_iff nat_int nth_map)
    with v show ?thesis by auto
  qed
  show ?thesis
  proof (cases "p < length ds")
    case True
    with jump[OF True] op[OF True] rs(1) show ?thesis by (auto simp: lin_flow_iff bc_flow_iff bytes_listing_def)
  next
    case False
    then show ?thesis using rs(1) by (auto simp: lin_flow_iff bc_flow_iff bytes_listing_def)
  qed
qed

text \<open>The function \<open>runBytes\<close> hands to the lifter: the bytecode's instructions in order, cut into
  distinctly named blocks behind the entry block, with the bytecode's control flow.\<close>

definition realises_bytes :: "instr_analysis \<Rightarrow> DecodedInsn list \<Rightarrow> DecodedInsn list \<Rightarrow> MCBasicBlock list \<Rightarrow> MCBasicBlock list \<Rightarrow> bool" where
  "realises_bytes A ds rs bbs out \<longleftrightarrow> bbs \<noteq> [] \<and> distinct (map getName out)
     \<and> map getInstrs out = [mk_inst JMP [ImmOp 1]] # map getInstrs bbs
     \<and> code_of bbs = map di_inst rs
     \<and> (\<forall>i k j l. at_block bbs i k \<longrightarrow> at_block bbs j l \<longrightarrow>
          (cfg_flow out (Suc i, k) (Suc j, l) \<longleftrightarrow> bc_flow A ds (offset bbs i + k) (offset bbs j + l)))
     \<and> (\<forall>j l. cfg_flow out (0, 0) (j, l) \<longleftrightarrow> j = 1 \<and> l = 0) \<and> (\<forall>i k l. \<not> cfg_flow out (i, k) (0, l))"

context bpf_analysis
begin

lemma bytes_collected:
  assumes st: "bytes_stages dis A bytes ds lds rs" and len: "length bytes < 2 ^ 32"
  shows "collected A (bytes_listing lds rs) 0 (BBs (populate lds rs None (setName nm new_MCFunction)))"
proof -
  from st have c: "contiguous 0 ds" and r: "list_all2 (retargeted A (set (map di_unit ds))) ds rs"
    and l: "leaders A ds = Inr lds" "ds \<noteq> []" by (simp_all add: bytes_stages_def)
  note rs = list_all2_retargeted[OF r]
  have "next_unit x \<in> lds" if x: "x \<in> set rs" "ends_block A (di_inst x)" for x
  proof -
    from x(1) obtain i where i: "i < length rs" "x = rs ! i" by (auto simp: in_set_conv_nth)
    with list_all2_nthD2[OF r i(1)] have "getOpcode (di_inst x) = getOpcode (di_inst (ds ! i))" "next_unit x = next_unit (ds ! i)"
      by (simp_all add: retargeted_def next_unit_def)
    with leaders_closed(2)[OF l, of "ds ! i"] x(2) terminator_kinds i rs(1) show ?thesis by (auto simp: ends_block_def)
  qed
  with cut_contiguous[of 0 rs] c rs(5) have "cut A lds rs" by blast
  moreover have "di_unit (hd rs) \<in> lds"
    using leaders_closed(1)[OF l] rs(1,2) l(2) by (metis hd_map length_0_conv)
  ultimately have p: "populated A lds rs (setName nm new_MCFunction) (populate lds rs None (setName nm new_MCFunction))"
    by (intro populate_spec) (simp_all add: setName_def new_MCFunction_def)
  then have s: "starts 0 (BBs (populate lds rs None (setName nm new_MCFunction))) = labels_from lds 0 rs"
    by (simp add: populated_def setName_def new_MCFunction_def)
  have nn: "\<not> numeric (fst l)" if "l \<in> set (labels_from lds 0 rs)" for l
    using that set_labels_from[of "fst l" "snd l"] by (auto simp: numeric_def labelName_def)
  then have "\<not> numeric n" if "n \<in> set (map fst (labels_from lds 0 rs))" for n using that by auto
  then have "filter numeric (map getName (BBs (populate lds rs None (setName nm new_MCFunction)))) = []"
    using map_fst_starts[of 0, symmetric] by (simp only: s filter_empty_conv) blast
  with nn have "names_ok 0 (bytes_listing lds rs) (BBs (populate lds rs None (setName nm new_MCFunction)))"
    by (simp add: names_ok_def s bytes_listing_def filter_id_conv)
  with p bytes_asm_listing[OF st len] show ?thesis
    by (simp add: collected_def populated_def bytes_listing_def setName_def new_MCFunction_def)
qed

lemma runBytes_realises:
  assumes "bpf_disassembler dis" and run: "runBytes dis A nm bytes = Inr F" and len: "length bytes < 2 ^ 32"
  shows "\<exists>ds lds rs bbs. bytes_stages dis A bytes ds lds rs \<and> realises_bytes A ds rs bbs (BBs F)"
proof -
  from bpf_disassembler.runBytes_stages[OF assms(1) run] obtain ds lds rs where st: "bytes_stages dis A bytes ds lds rs"
    and fin: "finish_function A JMP (populate lds rs None (setName nm new_MCFunction)) = Inr F" by blast
  let ?bbs = "BBs (populate lds rs None (setName nm new_MCFunction))"
  from realise[OF bytes_collected[OF st len] refl fin] have re: "realises A (bytes_listing lds rs) ?bbs (BBs F)" .
  have kinds: "is_jump A op \<Longrightarrow> isBranch A op" for op using branch_kinds by (simp add: is_jump_def)
  from re st have "realises_bytes A ds rs ?bbs (BBs F)"
    by (simp add: realises_def realises_bytes_def bytes_flow[OF st kinds]) (simp add: bytes_listing_def)
  with st show ?thesis by blast
qed

end

end
