(* ===== verification/Bytes_Props.thy ===== *)
theory Bytes_Props
  imports Bytes_Flow
begin

text \<open>
  The properties of the bytes path, with a disassembler for a few opcodes of the encoding of RFC 9669 as
  the concrete instance of LLVM's.
\<close>

section \<open>A disassembler\<close>

definition le_field :: "nat \<Rightarrow> nat \<Rightarrow> byte list \<Rightarrow> int" where
  "le_field i n bs = foldr (\<lambda>b acc. uint b + 256 * acc) (take n (drop i bs)) 0"

text \<open>\<open>mov\<close>, \<open>ja\<close>, \<open>jne\<close> against an immediate, \<open>exit\<close>: opcode, registers, offset, immediate.\<close>

definition mini_dis :: disassembler where
  "mini_dis bs off = (if length bs < 8 then None else
     let dst = R (unat (bs ! 1 AND 0xf)); jump_off = le_field 2 2 bs; imm = le_field 4 4 bs in
     if bs ! 0 = 0xb7 then Some (mk_inst MOV_ri [RegOp dst, ImmOp imm], 8)
     else if bs ! 0 = 0x05 then Some (mk_inst JMP [ImmOp jump_off], 8)
     else if bs ! 0 = 0x55 then Some (mk_inst (JCOND JNE RI B64) [RegOp dst, ImmOp imm, ImmOp jump_off], 8)
     else if bs ! 0 = 0x95 then Some (mk_inst RET [], 8) else None)"

interpretation mini: bpf_disassembler mini_dis
  by unfold_locales (auto simp: mini_dis_def Let_def split: if_splits)

text \<open>\<open>r0 = 3; r0 = 4; if r0 != -1 goto -2; exit\<close>.\<close>

definition mini_bytes :: "byte list" where
  "mini_bytes = [0xb7, 0, 0, 0, 3, 0, 0, 0,  0xb7, 0, 0, 0, 4, 0, 0, 0,
     0x55, 0, 0xfe, 0xff, 0xff, 0xff, 0xff, 0xff,  0x95, 0, 0, 0, 0, 0, 0, 0]"

lemma mini_runs: "isl (runBytes mini_dis bpf_desc ''f'' mini_bytes) = False"
  by code_simp

section \<open>Control flow\<close>

text \<open>C11. For every disassembler with BPF instruction sizes, a program \<open>runBytes\<close> accepts is handed
  to the lifter as blocks that hold its decoded instructions in order (immediates sign extended, branch targets
  replaced by labels) and whose control flow is that of the bytecode: fall through unless the
  instruction is an unconditional branch or a return, and from a branch to the instruction its
  numeric offset reaches, backward offsets included. The decoded instructions tile the input.\<close>

theorem bytes_realise_bytecode:
  assumes "bpf_disassembler dis" and "bpf_analysis A" and "runBytes dis A nm bytes = Inr F" and "length bytes < 2 ^ 32"
  shows "\<exists>ds lds rs bbs. bytes_stages dis A bytes ds lds rs \<and> realises_bytes A ds rs bbs (BBs F)"
  by (rule bpf_analysis.runBytes_realises[OF assms(2,1,3,4)])

theorem bytes_realise_bytecode_witness:
  "\<exists>F ds lds rs bbs. runBytes mini_dis bpf_desc ''f'' mini_bytes = Inr F \<and>
     bytes_stages mini_dis bpf_desc mini_bytes ds lds rs \<and> realises_bytes bpf_desc ds rs bbs (BBs F)"
proof -
  from mini_runs obtain F where F: "runBytes mini_dis bpf_desc ''f'' mini_bytes = Inr F"
    by (cases "runBytes mini_dis bpf_desc ''f'' mini_bytes") auto
  have "length mini_bytes < 2 ^ 32" by (simp add: mini_bytes_def)
  from bytes_realise_bytecode[OF mini.bpf_disassembler_axioms desc.bpf_analysis_axioms F this] F show ?thesis by blast
qed

section \<open>Decoding\<close>

lemma decode_from_total:
  assumes dis: "bpf_disassembler dis"
    and all: "\<And>off. 8 dvd off \<Longrightarrow> off < length bytes \<Longrightarrow> \<exists>I sz. dis (drop off bytes) off = Some (I, sz) \<and> getOpcode I \<noteq> JAL"
    and off: "8 dvd off"
  shows "\<exists>ds. decode_from dis bytes off = Inr ds \<and> (off < length bytes \<longrightarrow> ds \<noteq> [])"
  using off
proof (induction "length bytes - off" arbitrary: off rule: less_induct)
  case less
  show ?case
  proof (cases "off < length bytes")
    case True
    with all less(2) obtain I sz where d: "dis (drop off bytes) off = Some (I, sz)" "getOpcode I \<noteq> JAL" by blast
    with bpf_disassembler.insn_size[OF dis d(1)] have sz: "0 < sz" "8 dvd sz" by auto
    with less(2) True have "length bytes - (off + sz) < length bytes - off" "8 dvd off + sz" by auto
    from less(1)[OF this] obtain ds where "decode_from dis bytes (off + sz) = Inr ds" by blast
    with d sz True show ?thesis by (subst decode_from.simps) simp
  qed (simp add: decode_from.simps[of dis bytes off])
qed



section \<open>Immediates\<close>

lemma signed_uint16: "signed_take_bit 15 (uint w) = sint w" for w :: "16 word"
  by (simp add: sint_uint)

lemma signed_uint32: "signed_take_bit 31 (uint w) = sint w" for w :: "32 word"
  by (simp add: sint_uint)

context bpf_analysis
begin

lemma jump_kinds: "isBranch A JMP" "isBranch A JMPL" "isBranch A (JCOND c k w)" "isBranch A (JSET k w)"
  using jump jcond jset branch_kinds by simp_all

lemma plain_op:
  assumes "op \<notin> {JMP, JMPL, JAL}" "\<And>c k w. op \<noteq> JCOND c k w" "\<And>k w. op \<noteq> JSET k w" "\<And>nm. op \<noteq> OTHER nm"
  shows "\<not> isBranch A op" "\<not> isCall A op"
  using assms branch_ops[of op] call_ops[of op] by auto

lemmas plain_ops = plain_op[of "ALU n k w" for n k w, simplified] plain_op[of MOV_ri, simplified] plain_op[of "LOAD n" for n, simplified]
  plain_op[of "STORE n" for n, simplified] plain_op[of "STORE_IMM n" for n, simplified] plain_op[of "ATOMIC n" for n, simplified]
  plain_op[of CMPXCHGD, simplified] plain_op[of CMPXCHGW32, simplified]

lemma jal_no_branch: "\<not> isBranch A JAL"
  using branch_ops[of JAL] by auto

lemmas normalize_kinds = jump_kinds plain_ops jal_no_branch call_insn

end

lemma mk_inst_operands: "(mk_inst op xs)\<lparr>operands := ys\<rparr> = mk_inst op ys"
  by (simp add: mk_inst_def)

lemmas normalize_run = normalize_inst_def sext2_def sext_def Let_def mk_inst_operands signed_uint16 signed_uint32



end
