(* ===== verification/Source_IR.thy ===== *)
theory Source_IR
  imports LLVM_IR
begin

text \<open>
  LLVM functions as the driver and the support checks see them (\<open>bpf-tv.cpp\<close>, \<open>lifter.cpp\<close>, the checks of
  \<open>mc2llvm.cpp\<close> and \<open>bpf2llvm.cpp\<close>): modules, functions, blocks and instructions with the operands, types and
  attributes the code reads, and the graph of uses with the two operations of LLVM's API on it,
  \<open>replaceAllUsesWith\<close> and \<open>eraseFromParent\<close>. The data that LLVM computes itself (whether an alloca is static,
  its size, the constraints of an inline assembly) are fields of the model.
\<close>

section \<open>Types\<close>

datatype stype = SInt nat | SPtr nat | SVoid | SHalf | SBFloat | SFloat | SDouble | SX86FP80 | SFP128
  | SPPCFP128 | SStruct "stype list" | SArray nat stype | SVector bool nat stype | SLabel | SMetadata | SToken

fun isIntegerTy :: "stype \<Rightarrow> bool" where
  "isIntegerTy (SInt _) = True"
| "isIntegerTy _ = False"

fun isPointerTy :: "stype \<Rightarrow> bool" where
  "isPointerTy (SPtr _) = True"
| "isPointerTy _ = False"

fun isVectorTy :: "stype \<Rightarrow> bool" where
  "isVectorTy (SVector _ _ _) = True"
| "isVectorTy _ = False"

fun isStructTy :: "stype \<Rightarrow> bool" where
  "isStructTy (SStruct _) = True"
| "isStructTy _ = False"

fun isArrayTy :: "stype \<Rightarrow> bool" where
  "isArrayTy (SArray _ _) = True"
| "isArrayTy _ = False"

fun isFloatingPointTy :: "stype \<Rightarrow> bool" where
  "isFloatingPointTy t = (t \<in> {SHalf, SBFloat, SFloat, SDouble, SX86FP80, SFP128, SPPCFP128})"

text \<open>\<open>DataLayout::getTypeSizeInBits\<close> of the types a value of BPF code can have; the layout of aggregates is
  LLVM's and never asked for.\<close>

fun type_bits :: "stype \<Rightarrow> nat option" where
  "type_bits (SInt w) = Some w"
| "type_bits (SPtr _) = Some 64"
| "type_bits SHalf = Some 16"
| "type_bits SBFloat = Some 16"
| "type_bits SFloat = Some 32"
| "type_bits SDouble = Some 64"
| "type_bits SX86FP80 = Some 80"
| "type_bits SFP128 = Some 128"
| "type_bits SPPCFP128 = Some 128"
| "type_bits (SVector scalable n t) = (if scalable then None else map_option (\<lambda>b. n * b) (type_bits t))"
| "type_bits _ = None"

section \<open>Values and instructions\<close>

text \<open>\<open>TargetLowering\<close>'s view of one entry of an inline assembly's constraint string.\<close>

datatype constraint_type = isInput | isOutput | isLabel | isClobber

record constraint_info =
  c_type :: constraint_type
  c_indirect :: bool
  MatchingInput :: int

record inline_asm =
  getAsmString :: string
  ParseConstraints :: "constraint_info list"

datatype svalue = Inst nat | Param nat | IntC nat int | Func string | GlobalVar string nat | Asm inline_asm
  | IntToPtrC svalue | ConstC string "svalue list" stype | MetadataV string | LabelV nat

record fun_ty =
  ft_ret :: stype
  ft_params :: "stype list"
  ft_vararg :: bool

datatype sop = SAlloca bool "nat option" | SLoad | SStore | SGEP stype | SPtrToInt | SIntToPtr | SZExt | SSExt
  | SBitCast | SBin binop | SICmp pred | SCall fun_ty | SInvoke fun_ty | SExtractValue "nat list" | SPhi
  | SSelect | SRet | SBr | SVAArg | SOther string

text \<open>An instruction is identified by its number, as LLVM identifies it by its address. The operands of a call
  are its arguments and then the called operand.\<close>

record sinst =
  s_id :: nat
  s_type :: stype
  s_op :: sop
  s_ops :: "svalue list"
  s_name :: string
  s_volatile :: bool
  s_atomic :: bool
  s_line :: "nat option"
  s_ret_attrs :: "string list"
  s_tail :: bool

type_synonym sblock = "sinst list"

record sarg =
  a_type :: stype
  a_attrs :: "string list"

datatype linkage = ExternalLinkage | AvailableExternallyLinkage | InternalLinkage | OtherLinkage string

datatype call_conv = C_CC | Fast_CC | Other_CC nat

record sfunc =
  f_name :: string
  f_linkage :: linkage
  f_cc :: call_conv
  f_type :: fun_ty
  f_args :: "sarg list"
  f_ret_attrs :: "string list"
  f_personality :: bool
  f_intrinsic :: bool
  f_constrained_fp :: bool
  f_body :: "sblock list"

record sglobal =
  g_name :: string
  g_valueType :: stype
  g_constant :: bool
  g_init :: bool
  g_threadLocal :: bool

record smodule =
  m_globals :: "sglobal list"
  m_funs :: "sfunc list"

definition isDeclaration :: "sfunc \<Rightarrow> bool" where
  "isDeclaration F \<longleftrightarrow> f_body F = []"

definition insts :: "sfunc \<Rightarrow> sinst list" where
  "insts F = concat (f_body F)"

definition find_inst :: "sfunc \<Rightarrow> nat \<Rightarrow> sinst option" where
  "find_inst F n = find (\<lambda>i. s_id i = n) (insts F)"

definition find_fun :: "smodule \<Rightarrow> string \<Rightarrow> sfunc option" where
  "find_fun M n = find (\<lambda>F. f_name F = n) (m_funs M)"

text \<open>The type of a value; a reference to a number that is not there is typed like \<open>void\<close>.\<close>

fun value_type :: "sfunc \<Rightarrow> svalue \<Rightarrow> stype" where
  "value_type F (Inst n) = (case find_inst F n of Some i \<Rightarrow> s_type i | None \<Rightarrow> SVoid)"
| "value_type F (Param n) = (if n < length (f_args F) then a_type (f_args F ! n) else SVoid)"
| "value_type F (IntC w _) = SInt w"
| "value_type F (Func _) = SPtr 0"
| "value_type F (GlobalVar _ a) = SPtr a"
| "value_type F (Asm _) = SPtr 0"
| "value_type F (IntToPtrC _) = SPtr 0"
| "value_type F (ConstC _ _ t) = t"
| "value_type F (MetadataV _) = SMetadata"
| "value_type F (LabelV _) = SLabel"

section \<open>Calls\<close>

fun isCallInst :: "sinst \<Rightarrow> bool" where
  "isCallInst i = (case s_op i of SCall _ \<Rightarrow> True | _ \<Rightarrow> False)"

fun isCallBase :: "sinst \<Rightarrow> bool" where
  "isCallBase i = (case s_op i of SCall _ \<Rightarrow> True | SInvoke _ \<Rightarrow> True | _ \<Rightarrow> False)"

fun call_type :: "sinst \<Rightarrow> fun_ty option" where
  "call_type i = (case s_op i of SCall t \<Rightarrow> Some t | SInvoke t \<Rightarrow> Some t | _ \<Rightarrow> None)"

definition getCalledOperand :: "sinst \<Rightarrow> svalue" where
  "getCalledOperand i = last (s_ops i)"

text \<open>The arguments: the operands before the callee, and for an invoke before its two destinations.\<close>

definition call_args :: "sinst \<Rightarrow> svalue list" where
  "call_args i = (case s_op i of SInvoke _ \<Rightarrow> take (length (s_ops i) - 3) (s_ops i) | _ \<Rightarrow> butlast (s_ops i))"

text \<open>\<open>CallBase::getCalledFunction\<close>: null for an indirect call and for a signature that does not match.\<close>

definition called_function :: "smodule \<Rightarrow> sinst \<Rightarrow> sfunc option" where
  "called_function M i = (case getCalledOperand i of
     Func n \<Rightarrow> (case find_fun M n of
        Some F \<Rightarrow> if call_type i = Some (f_type F) then Some F else None
      | None \<Rightarrow> None)
   | _ \<Rightarrow> None)"

section \<open>Uses\<close>

definition map_insts :: "(sinst \<Rightarrow> sinst) \<Rightarrow> sfunc \<Rightarrow> sfunc" where
  "map_insts f F = F\<lparr>f_body := map (map f) (f_body F)\<rparr>"

text \<open>\<open>Value::replaceAllUsesWith\<close>, within constant expressions only instructions and arguments never occur.\<close>

definition subst_value :: "svalue \<Rightarrow> svalue \<Rightarrow> svalue \<Rightarrow> svalue" where
  "subst_value v w x = (if x = v then w else x)"

definition subst_inst :: "svalue \<Rightarrow> svalue \<Rightarrow> sinst \<Rightarrow> sinst" where
  "subst_inst v w i = i\<lparr>s_ops := map (subst_value v w) (s_ops i)\<rparr>"

definition replaceAllUsesWith :: "svalue \<Rightarrow> svalue \<Rightarrow> sfunc \<Rightarrow> sfunc" where
  "replaceAllUsesWith v w = map_insts (subst_inst v w)"

definition eraseFromParent :: "nat \<Rightarrow> sfunc \<Rightarrow> sfunc" where
  "eraseFromParent n F = F\<lparr>f_body := map (filter (\<lambda>i. s_id i \<noteq> n)) (f_body F)\<rparr>"

text \<open>\<open>Value::users\<close>: an instruction is listed once for each of its operands that is the value.\<close>

definition users :: "sfunc \<Rightarrow> svalue \<Rightarrow> sinst list" where
  "users F v = concat (map (\<lambda>i. replicate (count_list (s_ops i) v) i) (insts F))"

definition getNumUses :: "sfunc \<Rightarrow> svalue \<Rightarrow> nat" where
  "getNumUses F v = sum_list (map (\<lambda>i. count_list (s_ops i) v) (insts F))"

lemma insts_map_insts [simp]: "insts (map_insts f F) = map f (insts F)"
  by (simp add: insts_def map_insts_def map_concat)

lemma insts_eraseFromParent [simp]: "insts (eraseFromParent n F) = filter (\<lambda>i. s_id i \<noteq> n) (insts F)"
  by (simp add: insts_def eraseFromParent_def filter_concat)

lemma insts_replaceAllUsesWith [simp]: "insts (replaceAllUsesWith v w F) = map (subst_inst v w) (insts F)"
  by (simp add: replaceAllUsesWith_def)

lemma subst_inst_simps [simp]:
  "s_id (subst_inst v w i) = s_id i" "s_type (subst_inst v w i) = s_type i" "s_op (subst_inst v w i) = s_op i"
  "s_ops (subst_inst v w i) = map (subst_value v w) (s_ops i)" "s_line (subst_inst v w i) = s_line i"
  by (simp_all add: subst_inst_def)

lemma set_users: "i \<in> set (users F v) \<longleftrightarrow> i \<in> set (insts F) \<and> v \<in> set (s_ops i)"
proof -
  have "i \<in> set (replicate (count_list (s_ops j) v) j) \<longleftrightarrow> i = j \<and> v \<in> set (s_ops i)" for j
    using count_list_0_iff[of "s_ops j" v] by (auto simp: set_replicate_conv_if)
  then show ?thesis by (auto simp: users_def)
qed

lemma length_users: "length (users F v) = getNumUses F v"
  by (simp add: users_def getNumUses_def length_concat o_def)

text \<open>Well-formedness: the numbers of the instructions are distinct.\<close>

definition distinct_ids :: "sfunc \<Rightarrow> bool" where
  "distinct_ids F \<longleftrightarrow> distinct (map s_id (insts F))"

lemma find_inst_id: "find_inst F n = Some i \<Longrightarrow> i \<in> set (insts F) \<and> s_id i = n"
  by (auto simp: find_inst_def find_Some_iff)

lemma find_distinct: "distinct (map f xs) \<Longrightarrow> x \<in> set xs \<Longrightarrow> find (\<lambda>y. f y = f x) xs = Some x"
proof (induction xs)
  case (Cons a xs)
  then have "f a = f x \<Longrightarrow> x = a" by (cases "x = a") (auto simp: rev_image_eqI)
  with Cons show ?case by auto
qed simp

lemma find_inst_in: "distinct_ids F \<Longrightarrow> i \<in> set (insts F) \<Longrightarrow> find_inst F (s_id i) = Some i"
  unfolding find_inst_def distinct_ids_def by (rule find_distinct)

end
