(* ===== verification/Support.thy ===== *)
theory Support
  imports Source_IR Slots Bpf_Regs
begin

text \<open>
  What the lifter refuses before it lifts: \<open>checkSupport\<close> and its helpers (\<open>mc2llvm.cpp\<close>), the hooks of the BPF
  back end (\<open>bpf2llvm.cpp\<close>) and the escape analysis (\<open>lifter.cpp\<close>). Every check of the code is an action that
  ends the run with the code's message. \<open>getUnderlyingObject\<close> is an analysis of LLVM and a parameter.
\<close>

section \<open>The state of the checks\<close>

record support =
  typeSet :: "stype list"
  totalAllocas :: int

definition require :: "bool \<Rightarrow> string \<Rightarrow> ('s, unit) action" where
  "require b msg = check b (ExitError msg)"

lemma require_apply [simp]: "require b msg s = (if b then Inr ((), s) else Inl (ExitError msg))"
  by (simp add: require_def)

definition add_type :: "stype \<Rightarrow> support \<Rightarrow> support" where
  "add_type t st = st\<lparr>typeSet := List.insert t (typeSet st)\<rparr>"

fun collect :: "'a list \<Rightarrow> ('a \<Rightarrow> ('s, 'b) action) \<Rightarrow> ('s, 'b list) action" where
  "collect [] f = ret []"
| "collect (x # xs) f = bnd (f x) (\<lambda>y. bnd (collect xs f) (\<lambda>ys. ret (y # ys)))"

section \<open>Escaping stack objects\<close>

definition is_alloca :: "sfunc \<Rightarrow> svalue \<Rightarrow> bool" where
  "is_alloca F v = (case v of
     Inst n \<Rightarrow> (case find_inst F n of
        Some i \<Rightarrow> (case s_op i of SAlloca _ _ \<Rightarrow> True | _ \<Rightarrow> False)
      | None \<Rightarrow> False)
   | _ \<Rightarrow> False)"

definition intrinsic_call :: "smodule \<Rightarrow> sinst \<Rightarrow> bool" where
  "intrinsic_call M i = (case called_function M i of Some c \<Rightarrow> f_intrinsic c | None \<Rightarrow> False)"

definition inst_escapes :: "smodule \<Rightarrow> (svalue \<Rightarrow> svalue) \<Rightarrow> sfunc \<Rightarrow> sinst \<Rightarrow> svalue list" where
  "inst_escapes M obj F i = (if \<not> isCallBase i then [] else if intrinsic_call M i then []
     else filter (is_alloca F) (map obj (filter (\<lambda>a. isPointerTy (value_type F a)) (call_args i))))"

definition escapingStackObjects :: "smodule \<Rightarrow> (svalue \<Rightarrow> svalue) \<Rightarrow> sfunc \<Rightarrow> svalue list" where
  "escapingStackObjects M obj F = fold List.insert (concat (map (inst_escapes M obj F) (insts F))) []"

section \<open>The hooks of the BPF back end\<close>

definition checkArgSupport :: "sarg \<Rightarrow> ('s, unit) action" where
  "checkArgSupport a = require (isIntegerTy (a_type a) \<or> isPointerTy (a_type a))
     ''only integer/pointer arguments supported on BPF''"

definition checkTypeSupport :: "stype \<Rightarrow> ('s, unit) action" where
  "checkTypeSupport t =
     andthen (require (\<not> isVectorTy t) ''vectors not supported on BPF'')
     (andthen (require (\<not> isFloatingPointTy t) ''floating point not supported on BPF'')
     (require (case t of SInt w \<Rightarrow> w \<le> 64 | _ \<Rightarrow> True) ''integers wider than 64 bits not supported yet''))"

definition checkCallingConv :: "sfunc \<Rightarrow> ('s, unit) action" where
  "checkCallingConv F = require (f_cc F = C_CC \<or> f_cc F = Fast_CC) ''Only the C calling convention is supported''"

fun hasPtr :: "stype \<Rightarrow> bool" where
  "hasPtr (SPtr _) = True"
| "hasPtr (SStruct ts) = (\<exists>t \<in> set ts. hasPtr t)"
| "hasPtr (SArray _ t) = hasPtr t"
| "hasPtr (SVector _ _ t) = hasPtr t"
| "hasPtr _ = False"

text \<open>\<open>isa<MemTransferInst>\<close>: a call of the memcpy, memcpy.inline or memmove intrinsic.\<close>

definition isMemTransfer :: "smodule \<Rightarrow> sinst \<Rightarrow> bool" where
  "isMemTransfer M i \<longleftrightarrow> isCallInst i \<and> (case called_function M i of
     Some c \<Rightarrow> f_intrinsic c \<and> (prefix ''llvm.memcpy.p'' (f_name c) \<or> prefix ''llvm.memcpy.inline.p'' (f_name c)
       \<or> prefix ''llvm.memmove.p'' (f_name c))
   | None \<Rightarrow> False)"

definition find_global :: "smodule \<Rightarrow> string \<Rightarrow> sglobal option" where
  "find_global M n = find (\<lambda>g. g_name g = n) (m_globals M)"

definition pointer_free_source :: "smodule \<Rightarrow> svalue \<Rightarrow> bool" where
  "pointer_free_source M v = (case v of
     GlobalVar n _ \<Rightarrow> (case find_global M n of
        Some g \<Rightarrow> g_constant g \<and> g_init g \<and> \<not> hasPtr (g_valueType g)
      | None \<Rightarrow> False)
   | _ \<Rightarrow> False)"

definition copy_ok :: "smodule \<Rightarrow> (svalue \<Rightarrow> svalue) \<Rightarrow> svalue list \<Rightarrow> sinst \<Rightarrow> bool" where
  "copy_ok M obj escaped i \<longleftrightarrow> (if \<not> isMemTransfer M i then True
     else if obj (call_args i ! 0) \<notin> set escaped then True
     else if (case call_args i ! 2 of IntC w n \<Rightarrow> take_bit w n < 8 | _ \<Rightarrow> False) then True
     else pointer_free_source M (obj (call_args i ! 1)))"

definition covered_by :: "sfunc \<Rightarrow> StackSlot list \<Rightarrow> svalue \<Rightarrow> bool" where
  "covered_by F slots v = (case v of
     Inst n \<Rightarrow> (case find_inst F n of
        Some i \<Rightarrow> (case s_line i of Some l \<Rightarrow> (\<exists>s \<in> set slots. srcLine s = l) | None \<Rightarrow> False)
      | None \<Rightarrow> False)
   | _ \<Rightarrow> False)"

definition escapes_covered :: "sfunc \<Rightarrow> StackSlot list option \<Rightarrow> svalue list \<Rightarrow> bool" where
  "escapes_covered F frameSlots escaped = (case frameSlots of
     None \<Rightarrow> False
   | Some slots \<Rightarrow> slots \<noteq> [] \<and> (\<forall>v \<in> set escaped. covered_by F slots v))"

definition checkFuncSupport :: "bool \<Rightarrow> smodule \<Rightarrow> (svalue \<Rightarrow> svalue) \<Rightarrow> StackSlot list option \<Rightarrow> sfunc \<Rightarrow> ('s, unit) action" where
  "checkFuncSupport allowStackEscape M obj frameSlots F =
     (let escaped = escapingStackObjects M obj F in
      andthen (if \<not> allowStackEscape then
          for_each (insts F) (\<lambda>i. require (copy_ok M obj escaped i)
            ''memcpy into an escaping stack object from possibly-pointer-carrying memory'')
        else ret ())
      (if \<not> allowStackEscape \<and> 1 < length escaped then
          require (escapes_covered F frameSlots escaped) ''distinct stack objects escape to callees''
        else ret ()))"

section \<open>Instructions\<close>

definition avoidArgMD :: "sinst \<Rightarrow> string \<Rightarrow> ('s, unit) action" where
  "avoidArgMD i str = for_each (call_args i) (\<lambda>a. require (a \<noteq> MetadataV str) (str @ '' not supported''))"

definition vec_error :: string where
  "vec_error = ''Only short vectors 8 and 16 bytes long are supported''"

fun element_width :: "stype \<Rightarrow> ('s, nat) action" where
  "element_width (SInt w) = andthen (require (w = 8 \<or> w = 16 \<or> w = 32 \<or> w = 64) vec_error) (ret w)"
| "element_width SFloat = ret 32"
| "element_width SDouble = ret 64"
| "element_width _ = fail (ExitError ''Only vectors of integer, f32, f64, supported for now'')"

fun checkVectorTy :: "stype \<Rightarrow> ('s, unit) action" where
  "checkVectorTy (SVector scalable n t) = bnd (element_width t) (\<lambda>w.
     andthen (check (\<not> scalable) (Assertion ''fixed element count''))
     (require (n * w div 8 = 8 \<or> n * w div 8 = 16) vec_error))"
| "checkVectorTy _ = ret ()"

definition checkOperand :: "sfunc \<Rightarrow> svalue \<Rightarrow> (support, unit) action" where
  "checkOperand F v = (let t = value_type F v in
     andthen (modify (add_type t))
     (andthen (case t of SVector _ _ e \<Rightarrow> modify (add_type e) | _ \<Rightarrow> ret ())
     (require (case t of SPtr a \<Rightarrow> a = 0 | _ \<Rightarrow> True) ''address spaces other than 0 are unsupported'')))"

definition checkAlloca :: "sinst \<Rightarrow> (support, unit) action" where
  "checkAlloca i = (case s_op i of
     SAlloca isStatic allocSize \<Rightarrow>
       andthen (require isStatic ''only static allocas supported for now'')
       (case allocSize of
          Some n \<Rightarrow> modify (\<lambda>st. st\<lparr>totalAllocas := totalAllocas st + int n\<rparr>)
        | None \<Rightarrow> ret ())
   | _ \<Rightarrow> ret ())"

definition isInlineAsm :: "svalue \<Rightarrow> bool" where
  "isInlineAsm v = (case v of Asm _ \<Rightarrow> True | _ \<Rightarrow> False)"

definition checkCalleeArg :: "sarg \<Rightarrow> ('s, unit) action" where
  "checkCalleeArg a = andthen (checkVectorTy (a_type a))
     (require (''byval'' \<notin> set (a_attrs a)) ''we don't support the byval parameter attribute yet'')"

definition roundings :: "string list" where
  "roundings = [''round.dynamic'', ''round.downward'', ''round.upward'', ''round.towardzero'', ''round.tonearestaway'']"

definition checkCallee :: "sinst \<Rightarrow> sfunc \<Rightarrow> ('s, unit) action" where
  "checkCallee i callee = (let name = f_name callee in
     andthen (checkCallingConv callee)
     (andthen (if f_intrinsic callee then
          (if f_constrained_fp callee \<or> sublist ''llvm.fptrunc.round'' name then for_each roundings (avoidArgMD i) else ret ())
        else for_each (f_args callee) checkCalleeArg)
     (andthen (require (name = ''llvm.fake.use'' \<or> \<not> ft_vararg (f_type callee)) ''varargs not supported'')
     (andthen (require (\<not> sublist ''llvm.memcpy.element.unordered.atomic'' name) ''atomic instrinsics not supported'')
     (andthen (require (\<not> sublist ''llvm.objc'' name) ''llvm.objc instrinsics not supported'')
     (andthen (require (\<not> sublist ''llvm.thread'' name) ''llvm.thread instrinsics not supported'')
     (require (\<not> sublist ''llvm.experimental.gc'' name \<and> \<not> sublist ''llvm.experimental.stackmap'' name)
        ''llvm GC instrinsics not supported'')))))))"

definition checkCall :: "smodule \<Rightarrow> sinst \<Rightarrow> ('s, unit) action" where
  "checkCall M i = (case called_function M i of
     Some callee \<Rightarrow> checkCallee i callee
   | None \<Rightarrow> (case getCalledOperand i of
        Func n \<Rightarrow> (case find_fun M n of
           Some cf \<Rightarrow> require (\<not> ft_vararg (f_type cf)) ''varargs not supported''
         | None \<Rightarrow> ret ())
      | _ \<Rightarrow> ret ()))"

text \<open>The return attributes \<open>nonnull\<close> and \<open>noalias\<close> of a call site are removed on the way.\<close>

definition stripRetAttrs :: "sinst \<Rightarrow> sinst" where
  "stripRetAttrs i = i\<lparr>s_ret_attrs := removeAll ''noalias'' (removeAll ''nonnull'' (s_ret_attrs i))\<rparr>"

definition checkInstSupport :: "smodule \<Rightarrow> sfunc \<Rightarrow> sinst \<Rightarrow> (support, sinst) action" where
  "checkInstSupport M F i =
     andthen (modify (add_type (s_type i)))
     (andthen (for_each (s_ops i) (checkOperand F))
     (andthen (require (\<not> s_volatile i) ''volatiles not supported'')
     (andthen (require (\<not> s_atomic i) ''atomics not supported yet'')
     (andthen (require (s_op i \<noteq> SVAArg) ''va_arg instructions not supported'')
     (andthen (require (case s_op i of SInvoke _ \<Rightarrow> False | _ \<Rightarrow> True) ''invoke instructions not supported'')
     (andthen (checkAlloca i)
     (andthen (require (\<not> (isCallBase i \<and> isInlineAsm (getCalledOperand i))) ''inline assembly not supported'')
     (if isCallInst i then andthen (checkCall M i) (ret (stripRetAttrs i)) else ret i))))))))"

section \<open>Functions\<close>

definition checkArg :: "sarg \<Rightarrow> ('s, unit) action" where
  "checkArg a = (let t = a_type a in
     andthen (checkArgSupport a)
     (andthen (require (''byval'' \<notin> set (a_attrs a)) ''we don't support the byval parameter attribute yet'')
     (andthen (require (\<not> isStructTy t) ''we don't support structures in arguments yet'')
     (andthen (require (\<not> isArrayTy t) ''we don't support arrays in arguments yet'')
     (bnd (from_option (Assertion ''sized type'') (type_bits t)) (\<lambda>orig_width.
      if isVectorTy t then andthen (checkVectorTy t)
        (require (orig_width \<le> 128) ''Vector arguments >128 bits not supported'')
      else require (orig_width \<le> 64) ''Unsupported function argument''))))))"

definition checkSupport :: "bool \<Rightarrow> smodule \<Rightarrow> (svalue \<Rightarrow> svalue) \<Rightarrow> StackSlot list option \<Rightarrow> sfunc \<Rightarrow> (support, sfunc) action" where
  "checkSupport allowStackEscape M obj frameSlots F = (let rt = ft_ret (f_type F) in
     andthen (checkCallingConv F)
     (andthen (checkFuncSupport allowStackEscape M obj frameSlots F)
     (andthen (require (f_linkage F \<noteq> AvailableExternallyLinkage) ''function has externally_available linkage type'')
     (andthen (require (\<not> f_personality F) ''personality functions not supported'')
     (andthen (for_each (f_args F) checkArg)
     (andthen (checkVectorTy rt)
     (andthen (require (\<not> isStructTy rt) ''we don't support structures in return values yet'')
     (andthen (require (\<not> isArrayTy rt) ''we don't support arrays in return values yet'')
     (andthen (modify (\<lambda>_. \<lparr>typeSet = [], totalAllocas = 0\<rparr>))
     (bnd (collect (f_body F) (\<lambda>bb. collect bb (checkInstSupport M F))) (\<lambda>body.
      bnd (gets id) (\<lambda>st.
      andthen (require (totalAllocas st < stackBytes) ''Stack frame too large, consider increasing stackBytes'')
      (andthen (for_each (typeSet st) checkTypeSupport)
      (ret (F\<lparr>f_body := body\<rparr>)))))))))))))))"

end
