(* ===== verification/Support_Sound.thy ===== *)
theory Support_Sound
  imports Support
begin

text \<open>
  What acceptance by the checks means: lemmas by check, down to the facts about the types, the instructions,
  the stack and the escaping objects of an accepted function.
\<close>

section \<open>Checks that change no state\<close>

named_theorems pure_intro \<open>actions that keep the state\<close>

definition keeps :: "('s, 'a) action \<Rightarrow> bool" where
  "keeps m \<longleftrightarrow> (\<forall>s v s'. m s = Inr (v, s') \<longrightarrow> s' = s)"

lemma keepsD: "keeps m \<Longrightarrow> m s = Inr (v, s') \<Longrightarrow> s' = s"
  by (auto simp: keeps_def)

lemma keeps_ret [pure_intro]: "keeps (ret v)"
  by (simp add: keeps_def)

lemma keeps_fail [pure_intro]: "keeps (fail e)"
  by (simp add: keeps_def)

lemma keeps_check [pure_intro]: "keeps (check b e)"
  by (auto simp: keeps_def split: if_splits)

lemma keeps_require [pure_intro]: "keeps (require b e)"
  by (auto simp: keeps_def split: if_splits)

lemma keeps_bnd [pure_intro]: "keeps m \<Longrightarrow> (\<And>v. keeps (k v)) \<Longrightarrow> keeps (bnd m k)"
  unfolding keeps_def bnd_eq_Inr by blast

lemma keeps_andthen [pure_intro]: "keeps m \<Longrightarrow> keeps k \<Longrightarrow> keeps (andthen m k)"
  unfolding keeps_def andthen_eq_Inr by blast

lemma keeps_for_each [pure_intro]: "(\<And>x. keeps (f x)) \<Longrightarrow> keeps (for_each xs f)"
  by (induction xs) (auto intro: pure_intro)

lemma keeps_from_option [pure_intro]: "keeps (from_option e x)"
  by (cases x) (auto simp: keeps_def)

lemma keeps_element_width [pure_intro]: "keeps (element_width t)"
  by (cases t rule: element_width.cases) (auto intro!: pure_intro)

lemma keeps_checkVectorTy [pure_intro]: "keeps (checkVectorTy t)"
  by (cases t rule: checkVectorTy.cases) (auto intro!: pure_intro)

lemma keeps_checkCallingConv [pure_intro]: "keeps (checkCallingConv F)"
  by (simp add: checkCallingConv_def pure_intro)

lemma keeps_checkArg [pure_intro]: "keeps (checkArg a)"
  unfolding checkArg_def checkArgSupport_def Let_def by (auto intro!: pure_intro)

lemma keeps_checkFuncSupport [pure_intro]: "keeps (checkFuncSupport A M obj sl F)"
  unfolding checkFuncSupport_def Let_def by (auto intro!: pure_intro)

lemma keeps_checkCallee [pure_intro]: "keeps (checkCallee i c)"
  unfolding checkCallee_def checkCalleeArg_def avoidArgMD_def Let_def by (auto intro!: pure_intro)

lemma keeps_checkCall [pure_intro]: "keeps (checkCall M i)"
  unfolding checkCall_def by (auto intro!: pure_intro split: option.splits svalue.splits)

lemma keeps_checkTypeSupport [pure_intro]: "keeps (checkTypeSupport t)"
  unfolding checkTypeSupport_def by (auto intro!: pure_intro)

lemma for_each_keeps_iff:
  assumes "\<And>x. keeps (f x)"
  shows "for_each xs f s = Inr (u, s') \<longleftrightarrow> s' = s \<and> (\<forall>x \<in> set xs. f x s = Inr ((), s))"
  using assms by (induction xs) (auto simp: andthen_eq_Inr dest: keepsD)

section \<open>Types\<close>

definition supported_type :: "stype \<Rightarrow> bool" where
  "supported_type t \<longleftrightarrow> \<not> isVectorTy t \<and> \<not> isFloatingPointTy t \<and> (\<forall>w. t = SInt w \<longrightarrow> w \<le> 64)"

definition register_type :: "stype \<Rightarrow> bool" where
  "register_type t \<longleftrightarrow> (\<exists>w \<le> 64. t = SInt w) \<or> (\<exists>a. t = SPtr a)"

lemma checkTypeSupport_ok: "checkTypeSupport t s = Inr (u, s') \<longleftrightarrow> s' = s \<and> supported_type t"
  by (cases t) (auto simp: checkTypeSupport_def andthen_def bnd_def supported_type_def)

lemma checkArg_ok: "checkArg a s = Inr (u, s') \<Longrightarrow> register_type (a_type a) \<and> ''byval'' \<notin> set (a_attrs a)"
  by (cases "a_type a") (auto simp: checkArg_def checkArgSupport_def andthen_def bnd_def register_type_def split: if_splits)

section \<open>Instructions\<close>

definition alloca_bytes :: "sinst \<Rightarrow> int" where
  "alloca_bytes i = (case s_op i of SAlloca _ (Some n) \<Rightarrow> int n | _ \<Rightarrow> 0)"

definition static_alloca :: "sinst \<Rightarrow> bool" where
  "static_alloca i \<longleftrightarrow> (case s_op i of SAlloca b _ \<Rightarrow> b | _ \<Rightarrow> True)"

definition inst_supported :: "sfunc \<Rightarrow> sinst \<Rightarrow> bool" where
  "inst_supported F i \<longleftrightarrow> \<not> s_volatile i \<and> \<not> s_atomic i \<and> s_op i \<noteq> SVAArg \<and> (\<forall>t. s_op i \<noteq> SInvoke t)
     \<and> static_alloca i \<and> (isCallInst i \<longrightarrow> \<not> isInlineAsm (getCalledOperand i))
     \<and> (\<forall>v \<in> set (s_ops i). \<forall>a. value_type F v = SPtr a \<longrightarrow> a = 0)"

definition inst_types :: "sfunc \<Rightarrow> sinst \<Rightarrow> stype set" where
  "inst_types F i = insert (s_type i) (value_type F ` set (s_ops i))"

lemma typeSet_add_type [simp]: "set (typeSet (add_type t st)) = insert t (set (typeSet st))"
  by (simp add: add_type_def)

lemma totalAllocas_add_type [simp]: "totalAllocas (add_type t st) = totalAllocas st"
  by (simp add: add_type_def)

lemma checkOperand_ok:
  "checkOperand F v st = Inr (u, st') \<Longrightarrow> totalAllocas st' = totalAllocas st \<and>
     insert (value_type F v) (set (typeSet st)) \<subseteq> set (typeSet st') \<and> (\<forall>a. value_type F v = SPtr a \<longrightarrow> a = 0)"
  by (cases "value_type F v") (auto simp: checkOperand_def andthen_def bnd_def Let_def split: if_splits)

lemma checkOperands_ok:
  "for_each vs (checkOperand F) st = Inr (u, st') \<Longrightarrow> totalAllocas st' = totalAllocas st \<and>
     value_type F ` set vs \<union> set (typeSet st) \<subseteq> set (typeSet st') \<and> (\<forall>v \<in> set vs. \<forall>a. value_type F v = SPtr a \<longrightarrow> a = 0)"
proof (induction vs arbitrary: st)
  case (Cons v vs)
  from Cons.prems obtain st1 where "checkOperand F v st = Inr ((), st1)" "for_each vs (checkOperand F) st1 = Inr (u, st')"
    unfolding for_each_Cons_Inr by blast
  with checkOperand_ok[OF this(1)] Cons.IH[OF this(2)] show ?case by auto
qed simp

lemma checkAlloca_ok:
  "checkAlloca i st = Inr (u, st') \<Longrightarrow> totalAllocas st' = totalAllocas st + alloca_bytes i \<and>
     typeSet st' = typeSet st \<and> static_alloca i"
  by (cases "s_op i") (auto simp: checkAlloca_def alloca_bytes_def static_alloca_def andthen_def bnd_def split: if_splits option.splits)

definition stripped :: "sinst \<Rightarrow> sinst" where
  "stripped i = (if isCallInst i then stripRetAttrs i else i)"

lemma checkInstSupport_ok:
  assumes "checkInstSupport M F i st = Inr (i', st')"
  shows "i' = stripped i \<and> inst_supported F i \<and> totalAllocas st' = totalAllocas st + alloca_bytes i
    \<and> inst_types F i \<union> set (typeSet st) \<subseteq> set (typeSet st')"
proof -
  from assms obtain st1 st2 where ops: "for_each (s_ops i) (checkOperand F) (add_type (s_type i) st) = Inr ((), st1)"
    and al: "checkAlloca i st1 = Inr ((), st2)"
    and flags: "\<not> s_volatile i" "\<not> s_atomic i" "s_op i \<noteq> SVAArg" "case s_op i of SInvoke _ \<Rightarrow> False | _ \<Rightarrow> True"
      "\<not> (isCallBase i \<and> isInlineAsm (getCalledOperand i))"
    and rest: "(if isCallInst i then andthen (checkCall M i) (ret (stripRetAttrs i)) else ret i) st2 = Inr (i', st')"
    unfolding checkInstSupport_def andthen_eq_Inr by (auto split: if_splits)
  from rest have "i' = stripped i" "st' = st2"
    by (auto simp: stripped_def andthen_eq_Inr split: if_splits dest: keepsD[OF keeps_checkCall])
  moreover have "isCallInst i \<longrightarrow> isCallBase i" by (cases "s_op i") auto
  ultimately show ?thesis
    using checkOperands_ok[OF ops] checkAlloca_ok[OF al] flags
    by (auto simp: inst_supported_def inst_types_def)
qed

lemma checkBlock_ok:
  "collect bb (checkInstSupport M F) st = Inr (bb', st') \<Longrightarrow> bb' = map stripped bb \<and> (\<forall>i \<in> set bb. inst_supported F i)
     \<and> totalAllocas st' = totalAllocas st + (\<Sum>i\<leftarrow>bb. alloca_bytes i)
     \<and> \<Union> (inst_types F ` set bb) \<union> set (typeSet st) \<subseteq> set (typeSet st')"
proof (induction bb arbitrary: st bb')
  case (Cons i bb)
  from Cons.prems obtain i' st1 bb1 where "checkInstSupport M F i st = Inr (i', st1)"
    "collect bb (checkInstSupport M F) st1 = Inr (bb1, st')" "bb' = i' # bb1"
    by (auto simp: bnd_eq_Inr)
  with checkInstSupport_ok[OF this(1)] Cons.IH[OF this(2)] show ?case by auto
qed auto

lemma checkBody_ok:
  "collect bbs (\<lambda>bb. collect bb (checkInstSupport M F)) st = Inr (bbs', st') \<Longrightarrow> bbs' = map (map stripped) bbs
     \<and> (\<forall>i \<in> set (concat bbs). inst_supported F i)
     \<and> totalAllocas st' = totalAllocas st + (\<Sum>i\<leftarrow>concat bbs. alloca_bytes i)
     \<and> \<Union> (inst_types F ` set (concat bbs)) \<union> set (typeSet st) \<subseteq> set (typeSet st')"
proof (induction bbs arbitrary: st bbs')
  case (Cons bb bbs)
  from Cons.prems obtain bb' st1 bbs1 where "collect bb (checkInstSupport M F) st = Inr (bb', st1)"
    "collect bbs (\<lambda>bb. collect bb (checkInstSupport M F)) st1 = Inr (bbs1, st')" "bbs' = bb' # bbs1"
    by (auto simp: bnd_eq_Inr)
  with checkBlock_ok[OF this(1)] Cons.IH[OF this(2)] show ?case by auto
qed auto

section \<open>Functions\<close>

text \<open>The checks in the order of the code, each with its outcome.\<close>

lemma checkSupport_parts:
  assumes "checkSupport A M obj sl F st = Inr (F', st')"
  shows "F' = map_insts stripped F" "\<forall>a \<in> set (f_args F). register_type (a_type a) \<and> ''byval'' \<notin> set (a_attrs a)"
    "\<forall>i \<in> set (insts F). inst_supported F i" "(\<Sum>i\<leftarrow>insts F. alloca_bytes i) < stackBytes"
    "\<forall>i \<in> set (insts F). \<forall>t \<in> inst_types F i. supported_type t"
    "\<not> isStructTy (ft_ret (f_type F))" "\<not> isArrayTy (ft_ret (f_type F))"
    "checkFuncSupport A M obj sl F st = Inr ((), st)"
proof -
  let ?st0 = "\<lparr>typeSet = [], totalAllocas = 0\<rparr>"
  from assms obtain st1 st2 body where func: "checkFuncSupport A M obj sl F st1 = Inr ((), st2)" "st1 = st"
    and args: "for_each (f_args F) checkArg st2 = Inr ((), st2)"
    and rt: "\<not> isStructTy (ft_ret (f_type F))" "\<not> isArrayTy (ft_ret (f_type F))"
    and body: "collect (f_body F) (\<lambda>bb. collect bb (checkInstSupport M F)) ?st0 = Inr (body, st')"
    and total: "totalAllocas st' < stackBytes" and types: "for_each (typeSet st') checkTypeSupport st' = Inr ((), st')"
    and F': "F' = F\<lparr>f_body := body\<rparr>"
    unfolding checkSupport_def Let_def andthen_eq_Inr bnd_eq_Inr
    by (auto split: if_splits dest!: keepsD[OF keeps_checkCallingConv] simp: for_each_keeps_iff[OF keeps_checkArg] for_each_keeps_iff[OF keeps_checkTypeSupport])
  from keepsD[OF keeps_checkFuncSupport func(1)] func show "checkFuncSupport A M obj sl F st = Inr ((), st)" by simp
  show "\<not> isStructTy (ft_ret (f_type F))" "\<not> isArrayTy (ft_ret (f_type F))" by (fact rt)+
  show "\<forall>a \<in> set (f_args F). register_type (a_type a) \<and> ''byval'' \<notin> set (a_attrs a)"
    using args unfolding for_each_keeps_iff[OF keeps_checkArg] by (blast dest: checkArg_ok)
  from types have "\<forall>t \<in> set (typeSet st'). supported_type t"
    unfolding for_each_keeps_iff[OF keeps_checkTypeSupport] checkTypeSupport_ok by blast
  moreover from checkBody_ok[OF body] have "inst_types F i \<subseteq> set (typeSet st')" if "i \<in> set (insts F)" for i
    using that unfolding insts_def by blast
  ultimately show "\<forall>i \<in> set (insts F). \<forall>t \<in> inst_types F i. supported_type t" by blast
  from checkBody_ok[OF body] total F'
  show "F' = map_insts stripped F" "\<forall>i \<in> set (insts F). inst_supported F i" "(\<Sum>i\<leftarrow>insts F. alloca_bytes i) < stackBytes"
    by (auto simp: insts_def map_insts_def)
qed

lemma for_each_require:
  "for_each xs (\<lambda>x. require (P x) msg) s = (if \<forall>x \<in> set xs. P x then Inr ((), s) else Inl (ExitError msg))"
  by (induction xs) (auto simp: andthen_def bnd_def)

lemma checkFuncSupport_ok:
  "checkFuncSupport A M obj sl F st = Inr (u, st') \<longleftrightarrow> st' = st \<and> (A \<or>
     (\<forall>i \<in> set (insts F). copy_ok M obj (escapingStackObjects M obj F) i) \<and>
     (1 < length (escapingStackObjects M obj F) \<longrightarrow> escapes_covered F sl (escapingStackObjects M obj F)))"
  by (auto simp: checkFuncSupport_def Let_def andthen_eq_Inr for_each_require split: if_splits)

text \<open>The escape analysis finds exactly the allocas underlying the pointer arguments of non-intrinsic calls,
  each once.\<close>

lemma fold_insert_list: "set (fold List.insert xs acc) = set xs \<union> set acc"
  "distinct acc \<Longrightarrow> distinct (fold List.insert xs acc)"
  by (induction xs arbitrary: acc) auto

lemma escapingStackObjects_set:
  "v \<in> set (escapingStackObjects M obj F) \<longleftrightarrow> is_alloca F v \<and> (\<exists>i \<in> set (insts F). isCallBase i \<and> \<not> intrinsic_call M i \<and>
     (\<exists>a \<in> set (call_args i). isPointerTy (value_type F a) \<and> obj a = v))"
  by (auto simp: escapingStackObjects_def fold_insert_list inst_escapes_def split: if_splits)

lemma escapingStackObjects_distinct: "distinct (escapingStackObjects M obj F)"
  by (simp add: escapingStackObjects_def fold_insert_list)

lemma escapes_coveredD:
  assumes "escapes_covered F fs E" and "v \<in> set E"
  shows "\<exists>slots n i s. fs = Some slots \<and> v = Inst n \<and> find_inst F n = Some i \<and> s \<in> set slots \<and> s_line i = Some (srcLine s)"
proof -
  from assms obtain slots where fs: "fs = Some slots" and "covered_by F slots v"
    by (auto simp: escapes_covered_def split: option.splits)
  then obtain n i l where "v = Inst n" "find_inst F n = Some i" "s_line i = Some l" "\<exists>s \<in> set slots. srcLine s = l"
    by (auto simp: covered_by_def split: svalue.splits option.splits)
  with fs show ?thesis by blast
qed

lemma copy_okD:
  assumes "copy_ok M obj E i" and "isMemTransfer M i" and "obj (call_args i ! 0) \<in> set E"
  shows "(\<exists>w n. call_args i ! 2 = IntC w n \<and> take_bit w n < 8) \<or> pointer_free_source M (obj (call_args i ! 1))"
  using assms unfolding copy_ok_def by (cases "call_args i ! 2") (simp_all split: if_splits)

end
