(* ===== verification/Source_Exec.thy ===== *)
theory Source_Exec
  imports Source_IR
begin

text \<open>
  Execution of the functions of \<open>Source_IR\<close>. The integer and address arithmetic the rewrites of the driver
  speak of (extensions, additions, byte-indexed \<open>getelementptr\<close>, the casts between pointers and integers) has
  the meaning of \<open>llvm_sem\<close>; every other instruction is a parameter: it reads its operands and the memory and
  gives a value and a memory. An instruction's meaning does not depend on its number, its name or the names of
  its operands.
\<close>

section \<open>Values\<close>

type_synonym sval = "stype \<times> int"
type_synonym venv = "nat \<rightharpoonup> sval"

record 'm src_sem =
  sem_val :: "svalue \<Rightarrow> int option"
  sem_op :: "nat \<Rightarrow> sop \<Rightarrow> stype \<Rightarrow> sval option list \<Rightarrow> 'm \<Rightarrow> (int \<times> 'm) option"

text \<open>A value carries its type and is a residue of its width.\<close>

definition fit :: "stype \<Rightarrow> int \<Rightarrow> sval" where
  "fit t x = (t, case type_bits t of Some w \<Rightarrow> take_bit w x | None \<Rightarrow> x)"

fun src_val :: "'m src_sem \<Rightarrow> sfunc \<Rightarrow> venv \<Rightarrow> svalue \<Rightarrow> sval option" where
  "src_val P F \<eta> (Inst n) = \<eta> n"
| "src_val P F \<eta> (IntC w x) = Some (fit (SInt w) x)"
| "src_val P F \<eta> v = map_option (fit (value_type F v)) (sem_val P v)"

definition width_of :: "stype \<Rightarrow> nat" where
  "width_of t = (case type_bits t of Some w \<Rightarrow> w | None \<Rightarrow> 0)"

section \<open>Instructions\<close>

definition unary :: "(stype \<Rightarrow> int \<Rightarrow> int) \<Rightarrow> sval option list \<Rightarrow> 'm \<Rightarrow> (int \<times> 'm) option" where
  "unary f vs m = (case vs of [Some (t, x)] \<Rightarrow> Some (f t x, m) | _ \<Rightarrow> None)"

definition binary :: "(int \<Rightarrow> int \<Rightarrow> int option) \<Rightarrow> sval option list \<Rightarrow> 'm \<Rightarrow> (int \<times> 'm) option" where
  "binary f vs m = (case vs of [Some (_, x), Some (_, y)] \<Rightarrow> map_option (\<lambda>z. (z, m)) (f x y) | _ \<Rightarrow> None)"

text \<open>A byte-indexed \<open>getelementptr\<close> sign extends its index to the width of an address.\<close>

definition gep_index :: "sval option \<Rightarrow> sval option" where
  "gep_index v = map_option (\<lambda>(t, x). (SInt 64, take_bit 64 (sgn_of (width_of t) x))) v"

definition byte_gep :: "sop \<Rightarrow> sval option list \<Rightarrow> bool" where
  "byte_gep op vs \<longleftrightarrow> op = SGEP (SInt 8) \<and> length vs = 2"

definition op_result :: "'m llvm_sem \<Rightarrow> 'm src_sem \<Rightarrow> nat \<Rightarrow> sop \<Rightarrow> stype \<Rightarrow> sval option list \<Rightarrow> 'm \<Rightarrow> (int \<times> 'm) option" where
  "op_result S P prev op t vs m = (case op of
     SZExt \<Rightarrow> unary (\<lambda>t0. sem_cast S ZExt (width_of t0) (width_of t)) vs m
   | SSExt \<Rightarrow> unary (\<lambda>t0. sem_cast S SExt (width_of t0) (width_of t)) vs m
   | SPtrToInt \<Rightarrow> unary (\<lambda>_. take_bit (width_of t)) vs m
   | SIntToPtr \<Rightarrow> unary (\<lambda>_. take_bit 64) vs m
   | SBin b \<Rightarrow> binary (sem_bin S b (width_of t)) vs m
   | _ \<Rightarrow> if byte_gep op vs then binary (\<lambda>p d. Some (sem_gep S p d)) [hd vs, gep_index (vs ! 1)] m
       else sem_op P prev op t vs m)"

datatype 'm flow = Next venv 'm | Jump nat venv 'm | Done "sval option" 'm

definition exec_src :: "'m llvm_sem \<Rightarrow> 'm src_sem \<Rightarrow> sfunc \<Rightarrow> nat \<Rightarrow> sinst \<Rightarrow> venv \<Rightarrow> 'm \<Rightarrow> 'm flow option" where
  "exec_src S P F prev i \<eta> m = (let vs = map (src_val P F \<eta>) (s_ops i) in case s_op i of
     SRet \<Rightarrow> (case vs of [] \<Rightarrow> Some (Done None m) | [Some x] \<Rightarrow> Some (Done (Some x) m) | _ \<Rightarrow> None)
   | SBr \<Rightarrow> map_option (\<lambda>(b, m'). Jump (nat b) \<eta> m') (sem_op P prev SBr (s_type i) vs m)
   | _ \<Rightarrow> map_option (\<lambda>(x, m'). Next (\<eta>(s_id i \<mapsto> fit (s_type i) x)) m')
       (op_result S P prev (s_op i) (s_type i) vs m))"

fun exec_srcs :: "'m llvm_sem \<Rightarrow> 'm src_sem \<Rightarrow> sfunc \<Rightarrow> nat \<Rightarrow> sinst list \<Rightarrow> venv \<Rightarrow> 'm \<Rightarrow> 'm flow option" where
  "exec_srcs S P F prev [] \<eta> m = Some (Next \<eta> m)"
| "exec_srcs S P F prev (i # is) \<eta> m = (case exec_src S P F prev i \<eta> m of
     Some (Next \<eta>' m') \<Rightarrow> exec_srcs S P F prev is \<eta>' m'
   | r \<Rightarrow> r)"

section \<open>Blocks and functions\<close>

text \<open>The phis at the head of a block read the environment before any of them.\<close>

definition is_phi :: "sinst \<Rightarrow> bool" where
  "is_phi i \<longleftrightarrow> s_op i = SPhi"

fun exec_phis :: "'m src_sem \<Rightarrow> sfunc \<Rightarrow> nat \<Rightarrow> sinst list \<Rightarrow> venv \<Rightarrow> venv \<Rightarrow> 'm \<Rightarrow> venv option" where
  "exec_phis P F prev [] \<eta>0 \<eta> m = Some \<eta>"
| "exec_phis P F prev (i # is) \<eta>0 \<eta> m = (case sem_op P prev SPhi (s_type i) (map (src_val P F \<eta>0) (s_ops i)) m of
     Some (x, _) \<Rightarrow> exec_phis P F prev is \<eta>0 (\<eta>(s_id i \<mapsto> fit (s_type i) x)) m
   | None \<Rightarrow> None)"

definition exec_sblock :: "'m llvm_sem \<Rightarrow> 'm src_sem \<Rightarrow> sfunc \<Rightarrow> nat \<Rightarrow> sblock \<Rightarrow> venv \<Rightarrow> 'm \<Rightarrow> 'm flow option" where
  "exec_sblock S P F prev bb \<eta> m = (case exec_phis P F prev (takeWhile is_phi bb) \<eta> \<eta> m of
     Some \<eta>' \<Rightarrow> exec_srcs S P F prev (dropWhile is_phi bb) \<eta>' m
   | None \<Rightarrow> None)"

text \<open>A run over at most \<open>n\<close> blocks from block \<open>b\<close>; it has no result if it goes wrong, falls off a block or
  does not return within the bound.\<close>

fun run_src :: "nat \<Rightarrow> 'm llvm_sem \<Rightarrow> 'm src_sem \<Rightarrow> sfunc \<Rightarrow> nat \<Rightarrow> nat \<Rightarrow> venv \<Rightarrow> 'm \<Rightarrow> (sval option \<times> 'm) option" where
  "run_src 0 S P F prev b \<eta> m = None"
| "run_src (Suc n) S P F prev b \<eta> m = (if length (f_body F) \<le> b then None else
     (case exec_sblock S P F prev (f_body F ! b) \<eta> m of
        Some (Done v m') \<Rightarrow> Some (v, m')
      | Some (Jump b' \<eta>' m') \<Rightarrow> run_src n S P F b b' \<eta>' m'
      | _ \<Rightarrow> None))"

section \<open>Facts\<close>

lemma exec_srcs_append:
  "exec_srcs S P F prev (xs @ ys) \<eta> m = (case exec_srcs S P F prev xs \<eta> m of
     Some (Next \<eta>' m') \<Rightarrow> exec_srcs S P F prev ys \<eta>' m' | r \<Rightarrow> r)"
  by (induction xs arbitrary: \<eta> m) (auto split: option.splits flow.splits)

lemma fst_fit [simp]: "fst (fit t x) = t"
  by (simp add: fit_def)

text \<open>Only the numbers an instruction mentions matter, and of the function only the types of its arguments.\<close>

lemma src_val_cong:
  assumes "f_args G = f_args F" and "\<And>n. v = Inst n \<Longrightarrow> \<theta> n = \<eta> n"
  shows "src_val P G \<theta> v = src_val P F \<eta> v"
  using assms by (cases v) auto

definition has_type :: "stype \<Rightarrow> sval \<Rightarrow> bool" where
  "has_type t v \<longleftrightarrow> fst v = t \<and> fit t (snd v) = v"

definition typed_env :: "sfunc \<Rightarrow> venv \<Rightarrow> bool" where
  "typed_env F \<eta> \<longleftrightarrow> (\<forall>n v. \<eta> n = Some v \<longrightarrow> has_type (value_type F (Inst n)) v)"

lemma has_type_fit [simp]: "has_type t (fit t x)"
  by (cases "type_bits t") (simp_all add: fit_def has_type_def)

lemma typed_env_upd:
  assumes "distinct_ids F" and "i \<in> set (insts F)" and "typed_env F \<eta>"
  shows "typed_env F (\<eta>(s_id i \<mapsto> fit (s_type i) x))"
  unfolding typed_env_def
proof (intro allI impI)
  fix n v assume "(\<eta>(s_id i \<mapsto> fit (s_type i) x)) n = Some v"
  then show "has_type (value_type F (Inst n)) v"
    using assms(3) find_inst_in[OF assms(1,2)] unfolding typed_env_def by (cases "n = s_id i") (auto simp del: split_paired_All)
qed

lemma typed_val:
  assumes "typed_env F \<eta>" and "src_val P F \<eta> v = Some x"
  shows "has_type (value_type F v) x"
proof (cases v)
  case (Inst n)
  with assms(2) have "\<eta> n = Some x" by simp
  with assms(1) Inst show ?thesis unfolding typed_env_def by blast
qed (use assms(2) in auto)

lemma typed_exec:
  assumes "distinct_ids F" and "i \<in> set (insts F)" and "typed_env F \<eta>"
    and "exec_src S P F prev i \<eta> m = Some (Next \<eta>' m')"
  shows "typed_env F \<eta>'"
  using assms(4) typed_env_upd[OF assms(1,2,3)] by (auto simp: exec_src_def Let_def split: sop.splits list.splits option.splits)

lemma exec_src_Jump: "exec_src S P F prev i \<eta> m = Some (Jump b \<eta>' m') \<Longrightarrow> \<eta>' = \<eta>"
  by (auto simp: exec_src_def Let_def split: sop.splits list.splits option.splits)

lemma same_body_run:
  assumes "f_body G = f_body F" and "f_args G = f_args F"
  shows "run_src n S P G = run_src n S P F"
proof -
  have "src_val P G \<eta> v = src_val P F \<eta> v" for \<eta> v using src_val_cong[OF assms(2)] by blast
  then have val: "src_val P G = src_val P F" by (intro ext)
  have ex: "exec_src S P G = exec_src S P F" by (intro ext) (simp add: exec_src_def val)
  have "exec_srcs S P G prev is \<eta> m = exec_srcs S P F prev is \<eta> m" for prev "is" \<eta> m
    by (induction "is" arbitrary: \<eta> m) (auto simp: ex split: option.split flow.split)
  moreover have "exec_phis P G prev is \<eta>0 \<eta> m = exec_phis P F prev is \<eta>0 \<eta> m" for prev "is" \<eta>0 \<eta> m
    by (induction "is" arbitrary: \<eta>) (auto simp: val split: option.split)
  ultimately have blk: "exec_sblock S P G = exec_sblock S P F" by (intro ext) (simp add: exec_sblock_def split: option.split)
  have "run_src n S P G prev b \<eta> m = run_src n S P F prev b \<eta> m" for prev b \<eta> m
    by (induction n arbitrary: prev b \<eta> m) (auto simp: blk assms(1) split: option.split flow.split)
  then show ?thesis by (intro ext)
qed

section \<open>Executions that agree on some values\<close>

definition agree_on :: "nat set \<Rightarrow> venv \<Rightarrow> venv \<Rightarrow> bool" where
  "agree_on K \<eta> \<theta> \<longleftrightarrow> (\<forall>n \<in> K. \<theta> n = \<eta> n)"

lemma agree_refl [simp]: "agree_on K \<eta> \<eta>"
  by (simp add: agree_on_def)

lemma agree_upd: "agree_on K \<eta> \<theta> \<Longrightarrow> agree_on K (\<eta>(n \<mapsto> x)) (\<theta>(n \<mapsto> x))"
  by (simp add: agree_on_def)

text \<open>The instructions an instruction reads.\<close>

definition refs :: "sinst \<Rightarrow> nat set" where
  "refs i = {n. Inst n \<in> set (s_ops i)}"

lemma agree_vals:
  assumes "agree_on K \<eta> \<theta>" and "f_args G = f_args F" and "refs i \<subseteq> K"
  shows "map (src_val P G \<theta>) (s_ops i) = map (src_val P F \<eta>) (s_ops i)"
proof (rule map_cong[OF refl])
  fix v assume "v \<in> set (s_ops i)"
  with assms show "src_val P G \<theta> v = src_val P F \<eta> v"
    by (intro src_val_cong) (auto simp: agree_on_def refs_def)
qed

fun flow_rel :: "nat set \<Rightarrow> (sval \<Rightarrow> sval) \<Rightarrow> 'm flow \<Rightarrow> 'm flow \<Rightarrow> bool" where
  "flow_rel K f (Next \<eta> m) (Next \<theta> m') \<longleftrightarrow> agree_on K \<eta> \<theta> \<and> m' = m"
| "flow_rel K f (Jump b \<eta> m) (Jump b' \<theta> m') \<longleftrightarrow> b' = b \<and> agree_on K \<eta> \<theta> \<and> m' = m"
| "flow_rel K f (Done v m) (Done v' m') \<longleftrightarrow> v' = map_option f v \<and> m' = m"
| "flow_rel _ _ _ _ \<longleftrightarrow> False"

lemma exec_agree:
  assumes "agree_on K \<eta> \<theta>" and "f_args G = f_args F" and "refs i \<subseteq> K" and "s_op i \<noteq> SRet"
  shows "rel_option (flow_rel K f) (exec_src S P F prev i \<eta> m) (exec_src S P G prev i \<theta> m)"
proof -
  note vals = agree_vals[OF assms(1-3), of P]
  have upd: "rel_option (flow_rel K f) (map_option (\<lambda>(x, m'). Next (\<eta>(s_id i \<mapsto> fit t x)) m') r)
      (map_option (\<lambda>(x, m'). Next (\<theta>(s_id i \<mapsto> fit t x)) m') r)" for r t
    using agree_upd[OF assms(1), of _ "fit t _"] by (cases r) (auto simp del: fun_upd_apply)
  have jump: "rel_option (flow_rel K f) (map_option (\<lambda>(b, m'). Jump (nat b) \<eta> m') r)
      (map_option (\<lambda>(b, m'). Jump (nat b) \<theta> m') r)" for r :: "(int \<times> 'a) option"
    using assms(1) by (cases r) auto
  show ?thesis using assms(4) upd jump by (cases "s_op i") (simp_all add: exec_src_def vals)
qed

lemma exec_ret_agree:
  assumes "agree_on K \<eta> \<theta>" and "f_args G = f_args F" and "refs i \<subseteq> K" and "s_op i = SRet"
  shows "exec_src S P G prev i \<theta> m = exec_src S P F prev i \<eta> m"
  using assms(4) by (simp add: exec_src_def agree_vals[OF assms(1-3), of P] del: map_eq_conv)

lemma phis_agree:
  assumes "agree_on K \<eta>0 \<theta>0" and "f_args G = f_args F"
  shows "agree_on K \<eta> \<theta> \<Longrightarrow> \<forall>i \<in> set is. refs i \<subseteq> K \<Longrightarrow>
    rel_option (agree_on K) (exec_phis P F prev is \<eta>0 \<eta> m) (exec_phis P G prev is \<theta>0 \<theta> m)"
proof (induction "is" arbitrary: \<eta> \<theta>)
  case (Cons i "is")
  then have vals: "map (src_val P G \<theta>0) (s_ops i) = map (src_val P F \<eta>0) (s_ops i)"
    by (intro agree_vals[OF assms]) simp
  show ?case
  proof (cases "sem_op P prev SPhi (s_type i) (map (src_val P F \<eta>0) (s_ops i)) m")
    case (Some r)
    with Cons.IH[OF agree_upd[OF Cons.prems(1)], of "s_id i" "fit (s_type i) (fst r)"] Cons.prems(2) show ?thesis
      by (cases r) (simp add: vals del: fun_upd_apply map_eq_conv)
  qed (simp add: vals del: map_eq_conv)
qed simp

lemma exec_src_Next: "exec_src S P F prev i \<eta> m = Some (Next \<eta>' m') \<Longrightarrow> \<exists>a. \<eta>' = \<eta>(s_id i \<mapsto> fit (s_type i) a)"
  by (auto simp: exec_src_def Let_def split: sop.splits list.splits option.splits)

lemma in_width_take_bit [simp]: "in_width w (take_bit w x)"
  by (simp add: in_width_def take_bit_int_less_exp)

lemma take_bit_in_width: "in_width w x \<Longrightarrow> w \<le> w' \<Longrightarrow> take_bit w' x = x"
  by (rule take_bit_int_eq_self) (auto simp: in_width_def elim!: order.strict_trans2 intro: power_increasing)

lemma has_type_bits:
  assumes "has_type t x" and "type_bits t = Some w"
  shows "\<exists>a. x = (t, a) \<and> in_width w a"
proof -
  have "in_width w (take_bit w (snd x))" by simp
  moreover from assms have "x = (t, take_bit w (snd x))" by (simp add: has_type_def fit_def)
  ultimately show ?thesis by blast
qed

lemma phis_typed:
  assumes "distinct_ids F"
  shows "set is \<subseteq> set (insts F) \<Longrightarrow> typed_env F \<eta> \<Longrightarrow> exec_phis P F prev is \<eta>0 \<eta> m = Some \<eta>' \<Longrightarrow> typed_env F \<eta>'"
proof (induction "is" arbitrary: \<eta>)
  case (Cons i "is")
  then show ?case
    using typed_env_upd[OF assms, of i] by (auto split: option.splits prod.splits simp del: fun_upd_apply)
qed simp

end
