(* ===== verification/Adjust.thy ===== *)
theory Adjust
  imports Support Source_Exec
begin

text \<open>
  \<open>mc2llvm::adjustSrc\<close>: the clone of the source function whose return value is widened when the function
  promises a sign- or zero-extended result.
\<close>

section \<open>Widening the return value\<close>

text \<open>The number of the next instruction LLVM creates is beyond all numbers in use.\<close>

definition fresh_id :: "sfunc \<Rightarrow> nat" where
  "fresh_id F = Suc (fold max (map s_id (insts F)) 0)"

fun value_name :: "sfunc \<Rightarrow> svalue \<Rightarrow> string" where
  "value_name F (Inst n) = (case find_inst F n of Some i \<Rightarrow> s_name i | None \<Rightarrow> '''')"
| "value_name F (Func n) = n"
| "value_name F (GlobalVar n _) = n"
| "value_name F _ = ''''"

definition new_inst :: "nat \<Rightarrow> stype \<Rightarrow> sop \<Rightarrow> svalue list \<Rightarrow> string \<Rightarrow> sinst" where
  "new_inst n t op vs name = \<lparr>s_id = n, s_type = t, s_op = op, s_ops = vs, s_name = name, s_volatile = False,
     s_atomic = False, s_line = None, s_ret_attrs = [], s_tail = False\<rparr>"

definition has_sext :: "sfunc \<Rightarrow> bool" where
  "has_sext F \<longleftrightarrow> ''signext'' \<in> set (f_ret_attrs F)"

definition has_zext :: "sfunc \<Rightarrow> bool" where
  "has_zext F \<longleftrightarrow> ''zeroext'' \<in> set (f_ret_attrs F)"

text \<open>The instructions that take the place of one return: a bit cast for a vector, the extensions, and the
  return of the result.\<close>

definition widen_ret :: "sfunc \<Rightarrow> nat \<Rightarrow> nat \<Rightarrow> svalue \<Rightarrow> sinst list" where
  "widen_ret F w n v = (let name = value_name F v;
     cast = (if isVectorTy (ft_ret (f_type F)) then [new_inst n (SInt w) SBitCast [v] (name @ ''_bitcast'')] else []);
     v1 = (if isVectorTy (ft_ret (f_type F)) then Inst n else v);
     n1 = n + length cast in
     cast @
     (if has_zext F then [new_inst n1 (SInt 64) SZExt [v1] (name @ ''_zext''), new_inst (n1 + 1) SVoid SRet [Inst n1] '''']
      else if w < 32 then [new_inst n1 (SInt 32) SSExt [v1] (name @ ''_sext''),
        new_inst (n1 + 1) (SInt 64) SZExt [Inst n1] (name @ ''_zext''), new_inst (n1 + 2) SVoid SRet [Inst (n1 + 1)] '''']
      else [new_inst n1 (SInt 64) SSExt [v1] (name @ ''_sext''), new_inst (n1 + 1) SVoid SRet [Inst n1] '''']))"

text \<open>A return without a value has no value to extend: the null pointer LLVM gives for it ends the run.\<close>

fun widen_insts :: "sfunc \<Rightarrow> nat \<Rightarrow> sinst list \<Rightarrow> (nat, sinst list) action" where
  "widen_insts F w [] = ret []"
| "widen_insts F w (i # is) = bnd (if s_op i \<noteq> SRet then ret [i] else (case s_ops i of
       [v] \<Rightarrow> bnd (gets id) (\<lambda>n. let ws = widen_ret F w n v in andthen (modify (\<lambda>_. n + length ws)) (ret ws))
     | _ \<Rightarrow> fail (Assertion ''return value'')))
     (\<lambda>xs. bnd (widen_insts F w is) (\<lambda>ys. ret (xs @ ys)))"

definition widened_type :: "bool \<Rightarrow> nat \<Rightarrow> bool" where
  "widened_type attr w \<longleftrightarrow> attr \<and> w \<noteq> 32 \<and> w \<noteq> 64"

definition return_width :: "stype \<Rightarrow> nat option" where
  "return_width t = (if t = SVoid then Some 0 else type_bits t)"

record adjusted =
  adj_fun :: sfunc
  has_ret_attr_of :: bool
  origRetWidth_of :: nat

definition adjustSrc :: "sfunc \<Rightarrow> lift_error + adjusted" where
  "adjustSrc F = (let origRetTy = ft_ret (f_type F) in
     if \<not> (isIntegerTy origRetTy \<or> isVectorTy origRetTy \<or> isPointerTy origRetTy \<or> origRetTy = SVoid \<or> isFloatingPointTy origRetTy)
     then Inl (ExitError ''Unsupported Function Return Type'')
     else (case return_width origRetTy of
       None \<Rightarrow> Inl (Assertion ''fixed size'')
     | Some w \<Rightarrow>
       if isVectorTy origRetTy \<and> 128 < w then Inl (ExitError ''Unsupported Function Return: vector > 128 bits'')
       else if \<not> isVectorTy origRetTy \<and> 64 < w then Inl (ExitError ''Scalar return values larger than 64 bits are not supported'')
       else let has_attr = has_sext F \<or> has_zext F in
         (case (if widened_type has_attr w then collect (f_body F) (widen_insts F w) (fresh_id F) else Inr (f_body F, fresh_id F)) of
            Inl e \<Rightarrow> Inl e
          | Inr (body, _) \<Rightarrow> Inr \<lparr>adj_fun = F\<lparr>f_body := body, f_type := \<lparr>
                ft_ret = (if widened_type has_attr w then SInt 64 else origRetTy), ft_params = ft_params (f_type F),
                ft_vararg = False\<rparr>\<rparr>,
              has_ret_attr_of = has_attr, origRetWidth_of = w\<rparr>)))"

text \<open>In the module the clone, appended, takes the name and the uses of the function it replaces.\<close>

definition replace_function :: "smodule \<Rightarrow> sfunc \<Rightarrow> smodule" where
  "replace_function M NF = M\<lparr>m_funs := filter (\<lambda>G. f_name G \<noteq> f_name NF) (m_funs M) @ [NF]\<rparr>"

section \<open>Preparing the source\<close>

text \<open>The first steps of \<open>mc2llvm::setupLift\<close>: the checks, then the clone the lifter works on. The names
  \<open>nameGlobals\<close> gives to nameless globals are the names of the model's globals.\<close>

definition setupLift :: "bool \<Rightarrow> smodule \<Rightarrow> (svalue \<Rightarrow> svalue) \<Rightarrow> StackSlot list option \<Rightarrow> sfunc \<Rightarrow> (support, adjusted) action" where
  "setupLift allowStackEscape M obj frameSlots F = bnd (checkSupport allowStackEscape M obj frameSlots F) (\<lambda>F'.
     case adjustSrc F' of Inl e \<Rightarrow> fail e | Inr A \<Rightarrow> ret A)"

lemma setupLift_iff:
  "setupLift allow M obj fs F st = Inr (A, st') \<longleftrightarrow> (\<exists>F'. checkSupport allow M obj fs F st = Inr (F', st') \<and> adjustSrc F' = Inr A)"
proof -
  have "(case r of Inl e \<Rightarrow> fail e | Inr A \<Rightarrow> ret A) s = Inr (A, s') \<longleftrightarrow> r = Inr A \<and> s' = s" for r and s s' :: support
    by (cases r) auto
  then show ?thesis by (auto simp: setupLift_def bnd_eq_Inr)
qed

end
