(* ===== verification/Adjust_Sound.thy ===== *)
theory Adjust_Sound
  imports Adjust
begin

text \<open>
  The clone \<open>adjustSrc\<close> builds runs like the function it replaces and returns its value widened to 64 bits.
\<close>

section \<open>Numbers in use\<close>

abbreviation agree :: "nat \<Rightarrow> venv \<Rightarrow> venv \<Rightarrow> bool" where
  "agree lo \<equiv> agree_on {..<lo}"

abbreviation same_flow :: "nat \<Rightarrow> (sval \<Rightarrow> sval) \<Rightarrow> 'm flow \<Rightarrow> 'm flow \<Rightarrow> bool" where
  "same_flow lo \<equiv> flow_rel {..<lo}"

section \<open>The instructions that replace a return\<close>

definition widen_value :: "sfunc \<Rightarrow> nat \<Rightarrow> sval \<Rightarrow> sval" where
  "widen_value F w v = (SInt 64, if has_zext F then snd v
     else if w < 32 then take_bit 32 (sgn_of w (snd v)) else take_bit 64 (sgn_of w (snd v)))"

lemma in_width_le: "in_width w x \<Longrightarrow> w \<le> w' \<Longrightarrow> in_width w' x"
  by (auto simp: in_width_def elim!: order.strict_trans2 intro: power_increasing)

context langref
begin

lemma exec_zext:
  assumes "src_val P G \<theta> v = Some (SInt w, a)" and "in_width w a" and "w < w'"
  shows "exec_src S P G prev (new_inst n (SInt w') SZExt [v] nm) \<theta> m = Some (Next (\<theta>(n \<mapsto> (SInt w', a))) m)"
proof -
  have "take_bit w' a = a" using take_bit_in_width[OF assms(2)] assms(3) by simp
  with cast_zext[OF assms(2,3)] assms(1) show ?thesis
    by (simp add: new_inst_def exec_src_def op_result_def unary_def width_of_def fit_def)
qed

lemma exec_sext:
  assumes "src_val P G \<theta> v = Some (SInt w, a)" and "in_width w a" and "w < w'"
  shows "exec_src S P G prev (new_inst n (SInt w') SSExt [v] nm) \<theta> m =
    Some (Next (\<theta>(n \<mapsto> (SInt w', take_bit w' (sgn_of w a)))) m)"
  using cast_sext[OF assms(2,3)] assms(1)
  by (simp add: new_inst_def exec_src_def op_result_def unary_def width_of_def fit_def)

lemma exec_ret:
  "src_val P G \<theta> v = Some x \<Longrightarrow> exec_src S P G prev (new_inst n SVoid SRet [v] nm) \<theta> m = Some (Done (Some x) m)"
  by (simp add: new_inst_def exec_src_def)

lemma exec_widen_ret:
  assumes v: "src_val P G \<theta> v = Some (SInt w, a)" "in_width w a"
    and F: "ft_ret (f_type F) = SInt w" and w: "w < 64" "w \<noteq> 32"
  shows "exec_srcs S P G prev (widen_ret F w n v) \<theta> m = Some (Done (Some (widen_value F w (SInt w, a))) m)"
proof -
  consider "has_zext F" | "\<not> has_zext F" "w < 32" | "\<not> has_zext F" "\<not> w < 32" by blast
  then show ?thesis
  proof cases
    case 1
    with F show ?thesis by (simp add: widen_ret_def Let_def widen_value_def exec_zext[OF v w(1)] exec_ret)
  next
    case 2
    let ?\<theta> = "\<theta>(n \<mapsto> (SInt 32, take_bit 32 (sgn_of w a)))"
    have "src_val P G ?\<theta> (Inst n) = Some (SInt 32, take_bit 32 (sgn_of w a))" by simp
    from exec_zext[OF this in_width_take_bit, of 64] 2 F show ?thesis
      by (simp add: widen_ret_def Let_def widen_value_def exec_sext[OF v 2(2)] exec_ret)
  next
    case 3
    with F show ?thesis by (simp add: widen_ret_def Let_def widen_value_def exec_sext[OF v w(1)] exec_ret)
  qed
qed

end

section \<open>A function and its clone\<close>

text \<open>Blocks in which every return of the one is replaced in the other, with numbers from \<open>lo\<close> on.\<close>

inductive widened :: "sfunc \<Rightarrow> nat \<Rightarrow> nat \<Rightarrow> sinst list \<Rightarrow> sinst list \<Rightarrow> bool" for F w lo where
  Nil: "widened F w lo [] []"
| keep: "s_op i \<noteq> SRet \<Longrightarrow> widened F w lo is is' \<Longrightarrow> widened F w lo (i # is) (i # is')"
| ret: "s_op i = SRet \<Longrightarrow> s_ops i = [v] \<Longrightarrow> lo \<le> n \<Longrightarrow> widened F w lo is is' \<Longrightarrow>
    widened F w lo (i # is) (widen_ret F w n v @ is')"

lemma widen_insts_widened:
  "lo \<le> n \<Longrightarrow> widen_insts F w is n = Inr (is', n') \<Longrightarrow> widened F w lo is is' \<and> lo \<le> n'"
proof (induction "is" arbitrary: n is')
  case (Cons i "is")
  show ?case
  proof (cases "s_op i = SRet")
    case True
    with Cons.prems(2) obtain v ys where "s_ops i = [v]" and rest: "widen_insts F w is (n + length (widen_ret F w n v)) = Inr (ys, n')"
      and "is' = widen_ret F w n v @ ys"
      by (auto simp: bnd_eq_Inr Let_def andthen_eq_Inr split: list.splits)
    with Cons.IH[OF _ rest] True Cons.prems(1) show ?thesis by (auto intro: widened.ret)
  next
    case False
    with Cons.prems obtain ys where rest: "widen_insts F w is n = Inr (ys, n')" and "is' = i # ys"
      by (auto simp: bnd_eq_Inr)
    with Cons.IH[OF Cons.prems(1) rest] False show ?thesis by (auto intro: widened.keep)
  qed
qed (simp add: widened.Nil)

lemma widen_blocks_widened:
  "lo \<le> n \<Longrightarrow> collect bbs (widen_insts F w) n = Inr (bbs', n') \<Longrightarrow> list_all2 (widened F w lo) bbs bbs'"
proof (induction bbs arbitrary: n bbs')
  case (Cons bb bbs)
  then obtain bb' n1 rest where "widen_insts F w bb n = Inr (bb', n1)" "collect bbs (widen_insts F w) n1 = Inr (rest, n')" "bbs' = bb' # rest"
    by (auto simp: bnd_eq_Inr)
  with widen_insts_widened[OF Cons.prems(1) this(1)] Cons.IH[OF _ this(2)] show ?case by simp
qed simp

section \<open>Runs\<close>

text \<open>What LLVM's verifier guarantees: numbers identify instructions, operands exist, returns have the type of the
  function.\<close>

definition wf_src :: "sfunc \<Rightarrow> bool" where
  "wf_src F \<longleftrightarrow> distinct_ids F \<and> (\<forall>i \<in> set (insts F). (\<forall>n. Inst n \<in> set (s_ops i) \<longrightarrow> n \<in> s_id ` set (insts F)) \<and>
     (s_op i = SRet \<longrightarrow> (\<forall>v \<in> set (s_ops i). value_type F v = ft_ret (f_type F))))"

lemma fold_max_ge: "a \<le> fold max xs a" "x \<in> set xs \<Longrightarrow> x \<le> fold max xs (a :: nat)"
proof -
  have ge: "a \<le> fold max xs a" for a :: nat
  proof (induction xs arbitrary: a)
    case (Cons y ys)
    from Cons[of "max y a"] show ?case by simp
  qed simp
  then show "a \<le> fold max xs a" .
  show "x \<in> set xs \<Longrightarrow> x \<le> fold max xs a"
  proof (induction xs arbitrary: a)
    case (Cons y ys)
    have "max y a \<le> fold max ys (max y a)" for a ys
      by (induction ys arbitrary: y a) (simp, metis fold_simps(2) max.bounded_iff max.cobounded2)
    with Cons show ?case by (auto intro: order_trans[of _ "max y a"])
  qed simp
qed

lemma id_below_fresh: "i \<in> set (insts F) \<Longrightarrow> s_id i < fresh_id F"
  unfolding fresh_id_def by (simp add: less_Suc_eq_le fold_max_ge(2))

lemma wf_ids_below: "wf_src F \<Longrightarrow> i \<in> set (insts F) \<Longrightarrow> refs i \<subseteq> {..<fresh_id F}"
  using id_below_fresh unfolding wf_src_def refs_def by fastforce

lemma widened_phis:
  "widened F w lo is is' \<Longrightarrow> takeWhile is_phi is' = takeWhile is_phi is \<and> widened F w lo (dropWhile is_phi is) (dropWhile is_phi is')"
proof (induction rule: widened.induct)
  case (ret i v n "is" is')
  have "\<exists>j js. widen_ret F w n v = j # js \<and> \<not> is_phi j"
    by (auto simp: widen_ret_def Let_def new_inst_def is_phi_def)
  with ret widened.ret[OF ret.hyps(1-3) ret.hyps(4)] show ?case by (auto simp: is_phi_def)
qed (auto intro: widened.intros)

lemma srcs_typed:
  assumes "distinct_ids F"
  shows "set is \<subseteq> set (insts F) \<Longrightarrow> typed_env F \<eta> \<Longrightarrow> exec_srcs S P F prev is \<eta> m = Some (Jump b \<eta>' m') \<Longrightarrow> typed_env F \<eta>'"
proof (induction "is" arbitrary: \<eta> m)
  case (Cons i "is")
  from Cons.prems(1) have i: "i \<in> set (insts F)" by simp
  from Cons.prems(3) consider \<eta>1 m1 where "exec_src S P F prev i \<eta> m = Some (Next \<eta>1 m1)" "exec_srcs S P F prev is \<eta>1 m1 = Some (Jump b \<eta>' m')"
    | "exec_src S P F prev i \<eta> m = Some (Jump b \<eta>' m')"
    by (auto split: option.splits flow.splits)
  then show ?case
  proof cases
    case 1
    from Cons.IH[OF _ typed_exec[OF assms i Cons.prems(2) 1(1)] 1(2)] Cons.prems(1) show ?thesis by simp
  next
    case 2
    with exec_src_Jump[OF 2] Cons.prems(2) show ?thesis by simp
  qed
qed simp

context langref
begin

lemma exec_widen_undef: "src_val P G \<theta> v = None \<Longrightarrow> ft_ret (f_type F) = SInt w \<Longrightarrow>
    exec_srcs S P G prev (widen_ret F w n v) \<theta> m = None"
  by (simp add: widen_ret_def Let_def new_inst_def exec_src_def op_result_def unary_def)

lemma widened_exec:
  assumes F: "wf_src F" "ft_ret (f_type F) = SInt w" "w < 64" "w \<noteq> 32" and G: "f_args G = f_args F"
  shows "widened F w (fresh_id F) is is' \<Longrightarrow> set is \<subseteq> set (insts F) \<Longrightarrow> typed_env F \<eta> \<Longrightarrow> agree (fresh_id F) \<eta> \<theta> \<Longrightarrow>
    rel_option (same_flow (fresh_id F) (widen_value F w)) (exec_srcs S P F prev is \<eta> m) (exec_srcs S P G prev is' \<theta> m)"
proof (induction arbitrary: \<eta> \<theta> m rule: widened.induct)
  case (keep i "is" is')
  from keep.prems F have i: "i \<in> set (insts F)" "distinct_ids F" by (auto simp: wf_src_def)
  from exec_agree[OF keep.prems(3) G wf_ids_below[OF F(1) i(1)] keep.hyps(1), of "widen_value F w" S P prev m]
  show ?case
  proof (cases rule: option.rel_cases)
    case (Some r r')
    show ?thesis
    proof (cases "\<exists>\<eta>1 m1. r = Next \<eta>1 m1")
      case True
      then obtain \<eta>1 m1 \<theta>1 where r: "r = Next \<eta>1 m1" "r' = Next \<theta>1 m1" "agree (fresh_id F) \<eta>1 \<theta>1"
        using Some(3) by (cases r') auto
      from typed_exec[OF i(2,1) keep.prems(2), of S P prev m \<eta>1 m1] Some(1) r(1) have "typed_env F \<eta>1" by simp
      from keep.IH[OF _ this r(3), of m1] keep.prems(1) Some(1,2) r show ?thesis by simp
    next
      case False
      with Some show ?thesis by (cases r; cases r') auto
    qed
  qed simp
next
  case (ret i v n "is" is')
  from ret.prems(1) have i: "i \<in> set (insts F)" by simp
  have v: "src_val P G \<theta> v = src_val P F \<eta> v"
    using agree_vals[OF ret.prems(3) G wf_ids_below[OF F(1) i], of P] ret.hyps(2) by simp
  show ?case
  proof (cases "src_val P F \<eta> v")
    case None
    with v ret.hyps exec_widen_undef[OF _ F(2), of P G \<theta> v prev n m] show ?thesis
      by (simp add: exec_src_def exec_srcs_append)
  next
    case (Some x)
    have "value_type F v = SInt w" using F(1,2) i ret.hyps(1,2) by (simp add: wf_src_def)
    with typed_val[OF ret.prems(2) Some] have "has_type (SInt w) x" by simp
    then obtain a where x: "x = (SInt w, a)" "in_width w a" using has_type_bits[of "SInt w" x w] by auto
    with v Some have "src_val P G \<theta> v = Some (SInt w, a)" by simp
    from exec_widen_ret[OF this x(2) F(2,3,4), of prev n m] Some x(1) ret.hyps(1,2) show ?thesis
      by (simp add: exec_src_def exec_srcs_append)
  qed
qed simp

lemma widened_run:
  assumes F: "wf_src F" "ft_ret (f_type F) = SInt w" "w < 64" "w \<noteq> 32" and G: "f_args G = f_args F"
    and body: "list_all2 (widened F w (fresh_id F)) (f_body F) (f_body G)"
  shows "typed_env F \<eta> \<Longrightarrow> agree (fresh_id F) \<eta> \<theta> \<Longrightarrow> run_src n S P G prev b \<theta> m =
    map_option (\<lambda>(v, m). (map_option (widen_value F w) v, m)) (run_src n S P F prev b \<eta> m)"
proof (induction n arbitrary: prev b \<eta> \<theta> m)
  case (Suc n)
  have len: "length (f_body G) = length (f_body F)" using body by (simp add: list_all2_lengthD)
  have ids: "distinct_ids F" using F(1) by (simp add: wf_src_def)
  show ?case
  proof (cases "length (f_body F) \<le> b")
    case False
    let ?bb = "f_body F ! b" and ?bb' = "f_body G ! b"
    have bb: "widened F w (fresh_id F) ?bb ?bb'" using body False by (simp add: list_all2_nthD)
    have sub: "set ?bb \<subseteq> set (insts F)" using False by (auto simp: insts_def intro!: bexI[OF _ nth_mem])
    from widened_phis[OF bb] have heads: "takeWhile is_phi ?bb' = takeWhile is_phi ?bb"
      and tails: "widened F w (fresh_id F) (dropWhile is_phi ?bb) (dropWhile is_phi ?bb')" by simp_all
    have phi_sub: "set (takeWhile is_phi ?bb) \<subseteq> set (insts F)" "set (dropWhile is_phi ?bb) \<subseteq> set (insts F)"
      using sub by (auto dest: set_takeWhileD set_dropWhileD)
    then have below: "\<forall>i \<in> set (takeWhile is_phi ?bb). refs i \<subseteq> {..<fresh_id F}" using wf_ids_below[OF F(1)] by blast
    have "rel_option (same_flow (fresh_id F) (widen_value F w)) (exec_sblock S P F prev ?bb \<eta> m) (exec_sblock S P G prev ?bb' \<theta> m)"
      unfolding exec_sblock_def heads
      using phis_agree[OF Suc.prems(2) G Suc.prems(2) below, of P prev m]
    proof (cases rule: option.rel_cases)
      case (Some \<eta>' \<theta>')
      with phis_typed[OF ids phi_sub(1) Suc.prems(1), of P prev \<eta> m \<eta>'] widened_exec[OF F G tails phi_sub(2), of \<eta>' \<theta>' P prev m] show
        "rel_option (same_flow (fresh_id F) (widen_value F w))
          (case exec_phis P F prev (takeWhile is_phi ?bb) \<eta> \<eta> m of None \<Rightarrow> None
            | Some \<eta>' \<Rightarrow> exec_srcs S P F prev (dropWhile is_phi ?bb) \<eta>' m)
          (case exec_phis P G prev (takeWhile is_phi ?bb) \<theta> \<theta> m of None \<Rightarrow> None
            | Some \<eta>' \<Rightarrow> exec_srcs S P G prev (dropWhile is_phi ?bb') \<eta>' m)" by simp
    qed simp
    moreover have "typed_env F \<eta>'" if "exec_sblock S P F prev ?bb \<eta> m = Some (Jump b' \<eta>' m')" for b' \<eta>' m'
      using that srcs_typed[OF ids phi_sub(2), of _ S P prev m b' \<eta>' m'] phis_typed[OF ids phi_sub(1) Suc.prems(1), of P prev \<eta> m]
      by (auto simp: exec_sblock_def split: option.splits)
    ultimately show ?thesis
      using False len Suc.IH
      by (cases "exec_sblock S P F prev ?bb \<eta> m"; cases "exec_sblock S P G prev ?bb' \<theta> m")
         (auto split: flow.split elim!: flow_rel.elims)
  qed (simp add: len)
qed simp

end

end
