(* ===== verification/Support_Props.thy ===== *)
theory Support_Props
  imports Support_Sound Adjust_Sound Function_Props
begin

text \<open>
  Properties of the support checks and of \<open>adjustSrc\<close>, and their composition with the lifter: what the checks
  accept is what the lifter needs.
\<close>

section \<open>The lifter's view of the source function\<close>

text \<open>The types of \<open>LLVM_IR\<close> the lifter distinguishes.\<close>

fun env_type :: "stype \<Rightarrow> ty option" where
  "env_type (SInt w) = Some (IntTy w)"
| "env_type (SPtr _) = Some PtrTy"
| "env_type SVoid = Some VoidTy"
| "env_type SHalf = Some HalfTy"
| "env_type SFloat = Some FloatTy"
| "env_type SDouble = Some DoubleTy"
| "env_type SFP128 = Some FP128Ty"
| "env_type _ = None"

definition src_view :: "adjusted \<Rightarrow> src_env \<Rightarrow> bool" where
  "src_view A E \<longleftrightarrow> env_type (ft_ret (f_type (adj_fun A))) = Some (srcRetTy E)
     \<and> has_ret_attr E = has_ret_attr_of A \<and> origRetWidth E = origRetWidth_of A
     \<and> list_all2 (\<lambda>a (t, s, z). env_type (a_type a) = Some t \<and> (s \<longleftrightarrow> ''signext'' \<in> set (a_attrs a)) \<and> (z \<longleftrightarrow> ''zeroext'' \<in> set (a_attrs a)))
         (f_args (adj_fun A)) (srcArgs E)"

text \<open>A function that can return: some return instruction carries a value of the return type, or there is none to
  carry. Integer types have at least one bit.\<close>

definition returns :: "sfunc \<Rightarrow> bool" where
  "returns F \<longleftrightarrow> ft_ret (f_type F) = SVoid \<or> (\<exists>i \<in> set (insts F). \<exists>v \<in> set (s_ops i). value_type F v = ft_ret (f_type F))"

definition bits_positive :: "sfunc \<Rightarrow> bool" where
  "bits_positive F \<longleftrightarrow> (\<forall>a \<in> set (f_args F). a_type a \<noteq> SInt 0)"

lemma adjustSrc_ok:
  assumes "adjustSrc F = Inr A"
  shows "f_args (adj_fun A) = f_args F" "has_ret_attr_of A \<longleftrightarrow> has_sext F \<or> has_zext F"
    "return_width (ft_ret (f_type F)) = Some (origRetWidth_of A)"
    "ft_ret (f_type (adj_fun A)) = (if widened_type (has_ret_attr_of A) (origRetWidth_of A) then SInt 64 else ft_ret (f_type F))"
    "\<not> isVectorTy (ft_ret (f_type F)) \<Longrightarrow> origRetWidth_of A \<le> 64"
  using assms by (auto simp: adjustSrc_def Let_def split: if_splits option.splits sum.splits prod.splits)

lemma adjustSrc_body:
  assumes "adjustSrc F = Inr A" and "widened_type (has_ret_attr_of A) (origRetWidth_of A)"
  shows "list_all2 (widened F (origRetWidth_of A) (fresh_id F)) (f_body F) (f_body (adj_fun A))"
proof -
  from assms obtain n where "collect (f_body F) (widen_insts F (origRetWidth_of A)) (fresh_id F) = Inr (f_body (adj_fun A), n)"
    by (auto simp: adjustSrc_def Let_def split: if_splits option.splits sum.splits prod.splits)
  from widen_blocks_widened[OF order_refl this] show ?thesis .
qed

lemma checked_return:
  assumes "\<forall>i \<in> set (insts F). \<forall>t \<in> inst_types F i. supported_type t" and "returns F"
    and "isIntegerTy t \<or> isVectorTy t \<or> isPointerTy t \<or> t = SVoid \<or> isFloatingPointTy t" and "t = ft_ret (f_type F)"
  shows "t = SVoid \<or> register_type t"
proof -
  from assms(1,2,4) have "t = SVoid \<or> supported_type t" by (fastforce simp: returns_def inst_types_def)
  with assms(3) show ?thesis by (cases t) (auto simp: supported_type_def register_type_def)
qed

lemma map_insts_stripped_simps [simp]:
  "f_args (map_insts f F) = f_args F" "f_type (map_insts f F) = f_type F" "f_ret_attrs (map_insts f F) = f_ret_attrs F"
  by (simp_all add: map_insts_def)

text \<open>What the lifter asks of the environment follows from the checks.\<close>

lemma checked_env:
  assumes "checkSupport allow M obj fs F st = Inr (F', st')" and "adjustSrc F' = Inr A" and "src_view A E" and "returns F"
  shows "returnable E" and "length (f_args F) \<le> 5 \<Longrightarrow> bits_positive F \<Longrightarrow> args_supported E"
proof -
  note parts = checkSupport_parts[OF assms(1)] and adj = adjustSrc_ok[OF assms(2)]
  have F': "f_args F' = f_args F" "f_type F' = f_type F" using parts(1) by simp_all
  have "isIntegerTy (ft_ret (f_type F)) \<or> isVectorTy (ft_ret (f_type F)) \<or> isPointerTy (ft_ret (f_type F)) \<or> ft_ret (f_type F) = SVoid \<or> isFloatingPointTy (ft_ret (f_type F))"
    using assms(2) F'(2) by (simp add: adjustSrc_def Let_def split: if_splits)
  from checked_return[OF parts(5) assms(4) this refl]
  show "returnable E"
    using assms(3) adj(2-4) F'(2) unfolding src_view_def returnable_def register_type_def widened_type_def return_width_def
    by (auto split: if_splits)
  assume "length (f_args F) \<le> 5" and "bits_positive F"
  moreover have "list_all2 (\<lambda>a p. env_type (a_type a) = Some (fst p)) (f_args F) (srcArgs E)"
    using assms(3) adj(1) F'(1) unfolding src_view_def by (auto elim!: list_all2_mono)
  moreover have "fst p = PtrTy \<or> (\<exists>w. fst p = IntTy w \<and> 0 < w \<and> w \<le> 64)"
    if "register_type (a_type a)" "a_type a \<noteq> SInt 0" "env_type (a_type a) = Some (fst p)" for a and p :: "ty \<times> bool \<times> bool"
    using that by (cases "a_type a"; cases "fst p") (auto simp: register_type_def)
  ultimately show "args_supported E"
    using parts(2) by (fastforce simp: args_supported_def bits_positive_def list_all2_conv_all_nth in_set_conv_nth)
qed

section \<open>A concrete function\<close>

text \<open>\<open>define signext i8 @f(i8 zeroext %x) { %a = add i8 %x, 1  ret i8 %a }\<close>\<close>

definition demo_src :: sfunc where
  "demo_src = \<lparr>f_name = ''f'', f_linkage = ExternalLinkage, f_cc = C_CC,
     f_type = \<lparr>ft_ret = SInt 8, ft_params = [SInt 8], ft_vararg = False\<rparr>,
     f_args = [\<lparr>a_type = SInt 8, a_attrs = [''zeroext'']\<rparr>], f_ret_attrs = [''signext''], f_personality = False,
     f_intrinsic = False, f_constrained_fp = False,
     f_body = [[new_inst 0 (SInt 8) (SBin Add) [Param 0, IntC 8 1] ''a'', new_inst 1 SVoid SRet [Inst 0] '''']]\<rparr>"

definition demo_module :: smodule where
  "demo_module = \<lparr>m_globals = [], m_funs = [demo_src]\<rparr>"

lemma demo_src_checked:
  "checkSupport False demo_module id None demo_src \<lparr>typeSet = [], totalAllocas = 0\<rparr> =
     Inr (demo_src, \<lparr>typeSet = [SVoid, SInt 8], totalAllocas = 0\<rparr>)"
  by (simp add: checkSupport_def Let_def demo_src_def demo_module_def new_inst_def checkCallingConv_def checkFuncSupport_def
      escapingStackObjects_def inst_escapes_def insts_def copy_ok_def isMemTransfer_def checkArg_def checkArgSupport_def
      andthen_def bnd_def require_def check_def checkInstSupport_def checkOperand_def find_inst_def
      add_type_def checkAlloca_def stackBytes_def checkTypeSupport_def gets_def modify_def from_option_def)

definition demo_adjusted :: adjusted where
  "demo_adjusted = \<lparr>adj_fun = demo_src\<lparr>f_body := [[new_inst 0 (SInt 8) (SBin Add) [Param 0, IntC 8 1] ''a'',
     new_inst 2 (SInt 32) SSExt [Inst 0] ''a_sext'', new_inst 3 (SInt 64) SZExt [Inst 2] ''a_zext'', new_inst 4 SVoid SRet [Inst 3] '''']],
     f_type := \<lparr>ft_ret = SInt 64, ft_params = [SInt 8], ft_vararg = False\<rparr>\<rparr>, has_ret_attr_of = True, origRetWidth_of = 8\<rparr>"

lemma demo_adjust: "adjustSrc demo_src = Inr demo_adjusted"
  by (simp add: adjustSrc_def demo_src_def demo_adjusted_def new_inst_def has_sext_def has_zext_def return_width_def widened_type_def
      fresh_id_def insts_def bnd_def andthen_def gets_def modify_def Let_def widen_ret_def find_inst_def)

definition demo_view :: src_env where
  "demo_view = \<lparr>srcRetTy = IntTy 64, has_ret_attr = True, origRetWidth = 8, srcArgs = [(IntTy 8, False, True)],
     srcInst = Map.empty, globals = Map.empty\<rparr>"

lemma demo_src_view: "src_view demo_adjusted demo_view"
  by (simp add: src_view_def demo_adjusted_def demo_view_def demo_src_def)

section \<open>Properties\<close>

text \<open>C18. Type safety of acceptance. In a function the checks accept every argument is an integer of at most 64
  bits or a pointer and none is \<open>byval\<close>; no instruction produces or reads a vector, a floating-point value or
  an integer wider than 64 bits, none is volatile, atomic, an \<open>invoke\<close>, a \<open>va_arg\<close> or an inline assembly
  call, pointers are in address space 0, allocas are static and their total size is below the lifted frame;
  and the only change the checks make is to remove two return attributes of calls.\<close>

theorem checked_function_types:
  assumes "checkSupport allow M obj fs F st = Inr (F', st')"
  shows "F' = map_insts stripped F
    \<and> (\<forall>a \<in> set (f_args F). register_type (a_type a) \<and> ''byval'' \<notin> set (a_attrs a))
    \<and> (\<forall>i \<in> set (insts F). inst_supported F i \<and> (\<forall>t \<in> inst_types F i. supported_type t))
    \<and> (\<Sum>i\<leftarrow>insts F. alloca_bytes i) < stackBytes"
  using checkSupport_parts[OF assms] by blast

theorem checked_function_types_witness:
  "demo_src = map_insts stripped demo_src \<and> (\<Sum>i\<leftarrow>insts demo_src. alloca_bytes i) < 1024"
  using checked_function_types[OF demo_src_checked] by (simp add: stackBytes_def)



text \<open>C20. The clone behaves like the function it replaces: a run of the clone ends when the run of the function
  ends, with the same memory, and returns the function's value - widened to 64 bits exactly when the
  function promises an extended result of a width other than 32 and 64.\<close>

theorem adjusted_function_runs:
  assumes "langref S" and "wf_src F" and "ft_ret (f_type F) = SInt w" and "adjustSrc F = Inr A" and "typed_env F \<eta>"
  shows "run_src n S P (adj_fun A) prev b \<eta> m = map_option (\<lambda>(v, m'). (map_option
     (if widened_type (has_sext F \<or> has_zext F) w then widen_value F w else (\<lambda>v. v)) v, m')) (run_src n S P F prev b \<eta> m)"
proof (cases "widened_type (has_sext F \<or> has_zext F) w")
  case True
  have A: "has_ret_attr_of A = (has_sext F \<or> has_zext F)" "origRetWidth_of A = w" "w \<le> 64"
    using adjustSrc_ok(2,3,5)[OF assms(4)] assms(3) by (auto simp: return_width_def)
  from True have w: "w < 64" "w \<noteq> 32" using A(3) by (auto simp: widened_type_def)
  from langref.widened_run[OF assms(1-3) w adjustSrc_ok(1)[OF assms(4)] _ assms(5) agree_refl, of n P prev b m]
    adjustSrc_body[OF assms(4)] A True show ?thesis by simp
next
  case False
  with assms(3,4) have "f_body (adj_fun A) = f_body F" "f_args (adj_fun A) = f_args F"
    by (auto simp: adjustSrc_def Let_def return_width_def split: if_splits sum.splits)
  from same_body_run[OF this, of n S P] False show ?thesis by (cases "run_src n S P F prev b \<eta> m") (auto simp: option.map_ident split: prod.split)
qed

definition demo_sem :: "bytemem src_sem" where
  "demo_sem = \<lparr>sem_val = (\<lambda>v. if v = Param 0 then Some 127 else None), sem_op = (\<lambda>_ _ _ _ _. None)\<rparr>"

theorem adjusted_function_runs_witness:
  "\<forall>m. run_src 1 ref_sem demo_sem (adj_fun demo_adjusted) 0 0 Map.empty m = Some (Some (SInt 64, 0xFFFFFF80), m)"
proof
  fix m :: bytemem
  have wf: "wf_src demo_src" by (simp add: wf_src_def demo_src_def distinct_ids_def insts_def new_inst_def find_inst_def)
  have ret: "ft_ret (f_type demo_src) = SInt 8" by (simp add: demo_src_def)
  have ty: "typed_env demo_src Map.empty" by (simp add: typed_env_def)
  have attrs: "has_sext demo_src" "\<not> has_zext demo_src" by (simp_all add: has_sext_def has_zext_def demo_src_def)
  have run: "run_src 1 ref_sem demo_sem demo_src 0 0 Map.empty m = Some (Some (SInt 8, 128), m)"
    by (simp add: demo_src_def new_inst_def exec_sblock_def is_phi_def exec_src_def op_result_def demo_sem_def binary_def
        width_of_def fit_def ref_sem_def ref_bin_def take_bit_eq_mod)
  have "take_bit 32 (sgn_of 8 128) = (0xFFFFFF80 :: int)" by (simp add: sgn_of_def signed_take_bit_eq_if_negative take_bit_eq_mod)
  with adjusted_function_runs[OF langref_ref_sem wf ret demo_adjust ty, of 1 demo_sem 0 0 m] run attrs show "run_src 1 ref_sem demo_sem (adj_fun demo_adjusted) 0 0 Map.empty m = Some (Some (SInt 64, 0xFFFFFF80), m)"
    by (simp add: widened_type_def widen_value_def)
qed



text \<open>An alloca that underlies a pointer argument of a call of something else than an intrinsic.\<close>

definition escapes :: "smodule \<Rightarrow> (svalue \<Rightarrow> svalue) \<Rightarrow> sfunc \<Rightarrow> svalue \<Rightarrow> bool" where
  "escapes M obj F v \<longleftrightarrow> is_alloca F v \<and> (\<exists>i \<in> set (insts F). isCallBase i \<and> \<not> intrinsic_call M i \<and>
     (\<exists>a \<in> set (call_args i). isPointerTy (value_type F a) \<and> obj a = v))"

lemma escapes_iff: "v \<in> set (escapingStackObjects M obj F) \<longleftrightarrow> escapes M obj F v"
  by (simp add: escapingStackObjects_set escapes_def)

text \<open>C22. Stack objects that escape. When an accepted function passes two allocas to callees other than
  intrinsics, the backend's frame layout has a slot for each, found by the debug line of the alloca, so that
  the driver can split the lifted frame; and a copy into an escaping alloca is shorter than a pointer or
  comes from a constant global without pointers.\<close>

theorem escaping_objects_covered:
  assumes "checkSupport False M obj fs F st = Inr (F', st')"
  shows "(\<forall>v v'. escapes M obj F v \<and> escapes M obj F v' \<and> v \<noteq> v' \<longrightarrow>
      (\<exists>slots n i s. fs = Some slots \<and> v = Inst n \<and> find_inst F n = Some i \<and> s \<in> set slots \<and> s_line i = Some (srcLine s)))
    \<and> (\<forall>i \<in> set (insts F). isMemTransfer M i \<and> escapes M obj F (obj (call_args i ! 0)) \<longrightarrow>
      (\<exists>w n. call_args i ! 2 = IntC w n \<and> take_bit w n < 8) \<or> pointer_free_source M (obj (call_args i ! 1)))"
proof -
  let ?esc = "escapingStackObjects M obj F"
  note esc = escapes_iff[of _ M obj F]
  from checkSupport_parts(8)[OF assms] have copies: "\<forall>i \<in> set (insts F). copy_ok M obj ?esc i"
    and many: "1 < length ?esc \<longrightarrow> escapes_covered F fs ?esc" by (auto simp: checkFuncSupport_ok)
  have "\<exists>slots n i s. fs = Some slots \<and> v = Inst n \<and> find_inst F n = Some i \<and> s \<in> set slots \<and> s_line i = Some (srcLine s)"
    if "escapes M obj F v" "escapes M obj F v'" "v \<noteq> v'" for v v'
  proof -
    from that esc have "{v, v'} \<subseteq> set ?esc" by auto
    then have "card {v, v'} \<le> length ?esc" by (meson card_length card_mono finite_set le_trans)
    with that(3) many have "escapes_covered F fs ?esc" by simp
    from escapes_coveredD[OF this] esc that(1) show ?thesis by blast
  qed
  moreover from copies have "(\<exists>w n. call_args i ! 2 = IntC w n \<and> take_bit w n < 8) \<or> pointer_free_source M (obj (call_args i ! 1))"
    if "i \<in> set (insts F)" "isMemTransfer M i" "escapes M obj F (obj (call_args i ! 0))" for i
    using copy_okD[of M obj ?esc i] that esc copies by blast
  ultimately show ?thesis by blast
qed

definition demo_escape :: sfunc where
  "demo_escape = \<lparr>f_name = ''e'', f_linkage = ExternalLinkage, f_cc = Fast_CC,
     f_type = \<lparr>ft_ret = SVoid, ft_params = [], ft_vararg = False\<rparr>, f_args = [], f_ret_attrs = [], f_personality = False,
     f_intrinsic = False, f_constrained_fp = False,
     f_body = [[(new_inst 0 (SPtr 0) (SAlloca True (Some 8)) [IntC 32 1] ''p'')\<lparr>s_line := Some 0\<rparr>,
       (new_inst 1 (SPtr 0) (SAlloca True (Some 4)) [IntC 32 1] ''q'')\<lparr>s_line := Some 1\<rparr>,
       new_inst 2 SVoid (SCall \<lparr>ft_ret = SVoid, ft_params = [SPtr 0, SPtr 0], ft_vararg = False\<rparr>) [Inst 0, Inst 1, Func ''g''] '''',
       new_inst 3 SVoid SRet [] '''']]\<rparr>"

definition demo_callee :: sfunc where
  "demo_callee = demo_escape\<lparr>f_name := ''g'', f_type := \<lparr>ft_ret = SVoid, ft_params = [SPtr 0, SPtr 0], ft_vararg = False\<rparr>,
     f_args := [\<lparr>a_type = SPtr 0, a_attrs = []\<rparr>, \<lparr>a_type = SPtr 0, a_attrs = []\<rparr>], f_body := []\<rparr>"

definition demo_slots :: "StackSlot list" where
  "demo_slots = [\<lparr>offset = -16, size = 4, align = 4, srcLine = 1\<rparr>, \<lparr>offset = -8, size = 8, align = 8, srcLine = 0\<rparr>]"

definition demo_escape_module :: smodule where
  "demo_escape_module = \<lparr>m_globals = [], m_funs = [demo_escape, demo_callee]\<rparr>"

lemma demo_escaping:
  "escapingStackObjects demo_escape_module id demo_escape = [Inst 1, Inst 0]"
  by (simp add: escapingStackObjects_def inst_escapes_def demo_escape_module_def demo_escape_def demo_callee_def new_inst_def
      insts_def intrinsic_call_def called_function_def getCalledOperand_def find_fun_def is_alloca_def find_inst_def call_args_def)

lemma demo_escape_func: "checkFuncSupport False demo_escape_module id (Some demo_slots) demo_escape st = Inr ((), st)"
  by (simp add: checkFuncSupport_ok demo_escaping)
     (simp add: copy_ok_def isMemTransfer_def escapes_covered_def covered_by_def demo_escape_module_def demo_escape_def
      demo_callee_def new_inst_def insts_def called_function_def getCalledOperand_def find_fun_def find_inst_def demo_slots_def)

lemma demo_escape_checked:
  "\<exists>F' st'. checkSupport False demo_escape_module id (Some demo_slots) demo_escape \<lparr>typeSet = [], totalAllocas = 0\<rparr> = Inr (F', st')"
proof -
  have insts: "\<exists>bs st'. collect (f_body demo_escape) (\<lambda>bb. collect bb (checkInstSupport demo_escape_module demo_escape))
      \<lparr>typeSet = [], totalAllocas = 0\<rparr> = Inr (bs, st') \<and> totalAllocas st' = 12 \<and> (\<forall>t \<in> set (typeSet st'). supported_type t)"
    by (simp add: demo_escape_def demo_escape_module_def demo_callee_def new_inst_def checkInstSupport_def checkOperand_def find_inst_def
      insts_def Let_def add_type_def checkAlloca_def andthen_def bnd_def require_def check_def modify_def getCalledOperand_def isInlineAsm_def
      checkCall_def called_function_def find_fun_def checkCallee_def checkCallingConv_def checkCalleeArg_def supported_type_def sublist_code)
  then obtain bs st' where b: "collect (f_body demo_escape) (\<lambda>bb. collect bb (checkInstSupport demo_escape_module demo_escape))
      \<lparr>typeSet = [], totalAllocas = 0\<rparr> = Inr (bs, st')" "totalAllocas st' = 12" "\<forall>t \<in> set (typeSet st'). supported_type t" by blast
  from b(3) have "for_each (typeSet st') checkTypeSupport st' = Inr ((), st')"
    by (simp add: for_each_keeps_iff[OF keeps_checkTypeSupport] checkTypeSupport_ok)
  moreover have "f_cc demo_escape = Fast_CC" "f_linkage demo_escape = ExternalLinkage" "\<not> f_personality demo_escape"
    "f_args demo_escape = []" "ft_ret (f_type demo_escape) = SVoid" by (simp_all add: demo_escape_def)
  ultimately show ?thesis
    using b(1,2) by (simp add: demo_escape_func checkSupport_def Let_def andthen_def bnd_def checkCallingConv_def stackBytes_def gets_def modify_def)
qed

theorem escaping_objects_covered_witness:
  "\<exists>s \<in> set demo_slots. srcLine s = 0"
proof -
  from demo_escape_checked obtain F' st' where
    ok: "checkSupport False demo_escape_module id (Some demo_slots) demo_escape \<lparr>typeSet = [], totalAllocas = 0\<rparr> = Inr (F', st')" by blast
  have esc: "escapes demo_escape_module id demo_escape (Inst 0)" "escapes demo_escape_module id demo_escape (Inst 1)"
    unfolding escapes_iff[symmetric] demo_escaping by simp_all
  have "map_option s_line (find_inst demo_escape 0) = Some (Some 0)"
    by (simp add: find_inst_def demo_escape_def new_inst_def insts_def)
  with conjunct1[OF escaping_objects_covered[OF ok], rule_format, of "Inst 0" "Inst 1"] esc show ?thesis by auto
qed

end
