(* ===== verification/Driver_Source.thy ===== *)
theory Driver_Source
  imports Source_Exec
begin

text \<open>
  What the driver does to the source function before the refinement check: \<open>addDebugInfo\<close> (\<open>lifter.cpp\<close>), which
  numbers the instructions by debug lines, and the rewrites of the semantic copy in \<open>bpf-tv.cpp\<close>,
  \<open>stripEmptyInlineAsm\<close>, \<open>replaceIdentityInlineAsm\<close> and \<open>rewriteHelperCallsByNumber\<close>. The state is the function
  and the line map, from debug lines to the numbers of instructions.
\<close>

record driver =
  fun_of :: sfunc
  lineMap :: "nat \<rightharpoonup> nat"

section \<open>Debug lines\<close>

fun number_insts :: "nat \<Rightarrow> sinst list \<Rightarrow> sinst list" where
  "number_insts line [] = []"
| "number_insts line (i # is) = i\<lparr>s_line := Some line\<rparr> # number_insts (Suc line) is"

fun number_blocks :: "nat \<Rightarrow> sblock list \<Rightarrow> sblock list" where
  "number_blocks line [] = []"
| "number_blocks line (bb # bbs) = number_insts line bb # number_blocks (line + length bb) bbs"

fun line_table :: "nat \<Rightarrow> sinst list \<Rightarrow> nat \<rightharpoonup> nat" where
  "line_table line [] = Map.empty"
| "line_table line (i # is) = (line_table (Suc line) is)(line \<mapsto> s_id i)"

definition addDebugInfo :: "sfunc \<Rightarrow> driver" where
  "addDebugInfo F = \<lparr>fun_of = F\<lparr>f_body := number_blocks 0 (f_body F)\<rparr>, lineMap = line_table 0 (insts F)\<rparr>"

section \<open>Compiler barriers\<close>

definition empty_asm :: "sinst \<Rightarrow> bool" where
  "empty_asm i \<longleftrightarrow> isCallInst i \<and> (case getCalledOperand i of Asm a \<Rightarrow> getAsmString a = '''' | _ \<Rightarrow> False)"

definition forget_line :: "nat \<Rightarrow> (nat \<rightharpoonup> nat) \<Rightarrow> nat \<rightharpoonup> nat" where
  "forget_line n lm = (\<lambda>l. if lm l = Some n then None else lm l)"

definition erase_inst :: "nat \<Rightarrow> driver \<Rightarrow> driver" where
  "erase_inst n d = \<lparr>fun_of = eraseFromParent n (fun_of d), lineMap = forget_line n (lineMap d)\<rparr>"

definition barriers :: "sfunc \<Rightarrow> nat list" where
  "barriers F = map s_id (filter (\<lambda>i. empty_asm i \<and> s_type i = SVoid) (insts F))"

definition stripEmptyInlineAsm :: "driver \<Rightarrow> driver" where
  "stripEmptyInlineAsm d = fold erase_inst (barriers (fun_of d)) d"

section \<open>Identity inline assembly\<close>

text \<open>The argument each entry of the constraints consumes: inputs take the arguments in order.\<close>

fun arg_of :: "nat \<Rightarrow> constraint_info list \<Rightarrow> nat option list" where
  "arg_of arg [] = []"
| "arg_of arg (c # cs) = (if c_type c = isInput then Some arg # arg_of (Suc arg) cs else None # arg_of arg cs)"

fun tied_values :: "nat option list \<Rightarrow> svalue list \<Rightarrow> constraint_info list \<Rightarrow> svalue list option" where
  "tied_values argOf as [] = Some []"
| "tied_values argOf as (c # cs) = (if c_type c \<noteq> isOutput then tied_values argOf as cs
     else let m = MatchingInput c in
       if m < 0 \<or> int (length argOf) \<le> m then None
       else (case argOf ! nat m of
           None \<Rightarrow> None
         | Some a \<Rightarrow> if length as \<le> a then None else map_option ((#) (as ! a)) (tied_values argOf as cs)))"

definition outVal :: "sinst \<Rightarrow> svalue list option" where
  "outVal i = (case getCalledOperand i of
     Asm a \<Rightarrow> let cinfos = ParseConstraints a in
       if \<exists>c \<in> set cinfos. c_type c = isOutput \<and> c_indirect c then None
       else (case tied_values (arg_of 0 cinfos) (call_args i) cinfos of
           Some [] \<Rightarrow> None
         | r \<Rightarrow> r)
   | _ \<Rightarrow> None)"

definition extracts :: "sfunc \<Rightarrow> svalue list \<Rightarrow> sinst \<Rightarrow> bool" where
  "extracts F outs ev \<longleftrightarrow> (case s_op ev of
     SExtractValue [k] \<Rightarrow> k < length outs \<and> s_type ev = value_type F (outs ! k)
   | _ \<Rightarrow> False)"

definition extract_index :: "sinst \<Rightarrow> nat" where
  "extract_index ev = (case s_op ev of SExtractValue (k # _) \<Rightarrow> k | _ \<Rightarrow> 0)"

definition replace_extract :: "svalue list \<Rightarrow> sinst \<Rightarrow> driver \<Rightarrow> driver" where
  "replace_extract outs ev d = erase_inst (s_id ev)
     (d\<lparr>fun_of := replaceAllUsesWith (Inst (s_id ev)) (outs ! extract_index ev) (fun_of d)\<rparr>)"

text \<open>One instruction of the loop; the calls to erase at the end are collected.\<close>

definition replace_identity :: "nat \<Rightarrow> driver \<times> nat list \<Rightarrow> driver \<times> nat list" where
  "replace_identity n = (\<lambda>(d, dead). let F = fun_of d in case find_inst F n of
     None \<Rightarrow> (d, dead)
   | Some ci \<Rightarrow> if \<not> empty_asm ci \<or> s_type ci = SVoid then (d, dead)
     else (case outVal ci of
         None \<Rightarrow> (d, dead)
       | Some outs \<Rightarrow>
         if \<not> isStructTy (s_type ci) then
           (if length outs \<noteq> 1 \<or> value_type F (outs ! 0) \<noteq> s_type ci then (d, dead)
            else (d\<lparr>fun_of := replaceAllUsesWith (Inst n) (outs ! 0) F\<rparr>, dead @ [n]))
         else if \<exists>u \<in> set (users F (Inst n)). \<not> extracts F outs u then (d, dead)
         else (fold (replace_extract outs) (users F (Inst n)) d, dead @ [n])))"

definition replaceIdentityInlineAsm :: "driver \<Rightarrow> driver" where
  "replaceIdentityInlineAsm d = (case fold replace_identity (map s_id (insts (fun_of d))) (d, []) of
     (d', dead) \<Rightarrow> fold erase_inst dead d')"

section \<open>Helper calls by number\<close>

text \<open>\<open>Module::getOrInsertFunction\<close> keeps a function that has the name.\<close>

definition new_declaration :: "string \<Rightarrow> fun_ty \<Rightarrow> sfunc" where
  "new_declaration n t = \<lparr>f_name = n, f_linkage = ExternalLinkage, f_cc = C_CC, f_type = t,
     f_args = map (\<lambda>p. \<lparr>a_type = p, a_attrs = []\<rparr>) (ft_params t), f_ret_attrs = [], f_personality = False,
     f_intrinsic = False, f_constrained_fp = False, f_body = []\<rparr>"

definition getOrInsertFunction :: "string \<Rightarrow> fun_ty \<Rightarrow> smodule \<Rightarrow> smodule" where
  "getOrInsertFunction n t M = (case find_fun M n of
     Some _ \<Rightarrow> M
   | None \<Rightarrow> M\<lparr>m_funs := m_funs M @ [new_declaration n t]\<rparr>)"

definition helper_call :: "sinst \<Rightarrow> nat option" where
  "helper_call i = (if \<not> isCallInst i then None else (case getCalledOperand i of
     IntToPtrC (IntC w x) \<Rightarrow> if sgn_of w x < 0 then None else Some (nat (take_bit w x))
   | _ \<Rightarrow> None))"

definition helper_symbol :: "nat \<Rightarrow> string" where
  "helper_symbol h = ''__bpf_helper_'' @ to_string h"

definition rewrite_helper_call :: "sinst \<Rightarrow> smodule \<Rightarrow> sinst \<times> smodule" where
  "rewrite_helper_call i M = (case (helper_call i, call_type i) of
     (Some h, Some t) \<Rightarrow> (i\<lparr>s_ops := butlast (s_ops i) @ [Func (helper_symbol h)]\<rparr>, getOrInsertFunction (helper_symbol h) t M)
   | _ \<Rightarrow> (i, M))"

fun rewrite_calls :: "sinst list \<Rightarrow> smodule \<Rightarrow> sinst list \<times> smodule" where
  "rewrite_calls [] M = ([], M)"
| "rewrite_calls (i # is) M = (case rewrite_helper_call i M of (i', M') \<Rightarrow>
     (case rewrite_calls is M' of (is', M'') \<Rightarrow> (i' # is', M'')))"

fun rewrite_blocks :: "sblock list \<Rightarrow> smodule \<Rightarrow> sblock list \<times> smodule" where
  "rewrite_blocks [] M = ([], M)"
| "rewrite_blocks (bb # bbs) M = (case rewrite_calls bb M of (bb', M') \<Rightarrow>
     (case rewrite_blocks bbs M' of (bbs', M'') \<Rightarrow> (bb' # bbs', M'')))"

definition rewriteHelperCallsByNumber :: "sfunc \<Rightarrow> smodule \<Rightarrow> sfunc \<times> smodule" where
  "rewriteHelperCallsByNumber F M = (case rewrite_blocks (f_body F) M of (body, M') \<Rightarrow> (F\<lparr>f_body := body\<rparr>, M'))"

end
