(* ===== verification/Driver_Rewrite.thy ===== *)
theory Driver_Rewrite
  imports Driver_Source
begin

text \<open>
  Facts on the driver's rewrites: the line map stays exact, erasing no-ops and replacing a value by an equal one
  keep executions.
\<close>

section \<open>The line map\<close>

text \<open>The map sends a line to the one instruction that carries it.\<close>

definition lines_exact :: "driver \<Rightarrow> bool" where
  "lines_exact d \<longleftrightarrow> (\<forall>l n. lineMap d l = Some n \<longleftrightarrow> (\<exists>i \<in> set (insts (fun_of d)). s_id i = n \<and> s_line i = Some l))"

lemma number_insts_append: "number_insts line (xs @ ys) = number_insts line xs @ number_insts (line + length xs) ys"
  by (induction xs arbitrary: line) auto

lemma concat_number_blocks: "concat (number_blocks line bbs) = number_insts line (concat bbs)"
  by (induction bbs arbitrary: line) (auto simp: number_insts_append)

lemma number_insts_lines: "i \<in> set (number_insts line is) \<Longrightarrow> s_line i = Some l \<Longrightarrow> line \<le> l"
  by (induction "is" arbitrary: line) (auto dest: Suc_leD)

lemma line_table_exact:
  "line_table line is l = Some n \<longleftrightarrow> (\<exists>i \<in> set (number_insts line is). s_id i = n \<and> s_line i = Some l)"
proof (induction "is" arbitrary: line)
  case (Cons i "is")
  have "l \<noteq> line" if "j \<in> set (number_insts (Suc line) is)" "s_line j = Some l" for j
    using number_insts_lines[OF that] by simp
  with Cons[of "Suc line"] show ?case by (cases "l = line") auto
qed simp

lemma lines_exact_addDebugInfo: "lines_exact (addDebugInfo F)"
  by (simp add: lines_exact_def addDebugInfo_def insts_def concat_number_blocks line_table_exact)

lemma lines_exact_erase: "lines_exact d \<Longrightarrow> lines_exact (erase_inst n d)"
  unfolding lines_exact_def erase_inst_def forget_line_def
  by simp (smt (verit, best) option.inject)

lemma lines_exact_replace: "lines_exact d \<Longrightarrow> lines_exact (d\<lparr>fun_of := replaceAllUsesWith v w (fun_of d)\<rparr>)"
  by (simp add: lines_exact_def)

lemma lines_exact_fold:
  assumes "\<And>x d. lines_exact d \<Longrightarrow> lines_exact (f x d)"
  shows "lines_exact d \<Longrightarrow> lines_exact (fold f xs d)"
  by (induction xs arbitrary: d) (auto simp: assms)

lemma lines_exact_strip: "lines_exact d \<Longrightarrow> lines_exact (stripEmptyInlineAsm d)"
  by (simp add: stripEmptyInlineAsm_def lines_exact_fold lines_exact_erase)

lemma lines_exact_replace_identity:
  assumes "lines_exact d"
  shows "lines_exact (fst (replace_identity n (d, dead)))"
proof -
  have "lines_exact (replace_extract outs ev d)" if "lines_exact d" for outs ev d
    using lines_exact_erase[OF lines_exact_replace[OF that]] by (simp add: replace_extract_def)
  with assms lines_exact_replace[OF assms] show ?thesis
    by (auto simp: replace_identity_def Let_def lines_exact_fold split: option.split)
qed

lemma lines_exact_identity:
  assumes "lines_exact d"
  shows "lines_exact (replaceIdentityInlineAsm d)"
proof -
  have "lines_exact (fst (fold replace_identity ns (d, dead)))" if "lines_exact d" for ns d dead
    using that
  proof (induction ns arbitrary: d dead)
    case (Cons n ns)
    obtain d1 dead1 where r: "replace_identity n (d, dead) = (d1, dead1)" by (cases "replace_identity n (d, dead)")
    with lines_exact_replace_identity[OF Cons.prems, of n dead] Cons.IH[of d1 dead1] show ?case by simp
  qed simp
  from this[OF assms, of "map s_id (insts (fun_of d))" "[]"] show ?thesis
    by (cases "fold replace_identity (map s_id (insts (fun_of d))) (d, [])")
       (simp add: replaceIdentityInlineAsm_def lines_exact_fold lines_exact_erase)
qed

section \<open>Erasing instructions without effect\<close>

text \<open>In each block the phis come first.\<close>

definition phis_first :: "sfunc \<Rightarrow> bool" where
  "phis_first F \<longleftrightarrow> (\<forall>bb \<in> set (f_body F). \<forall>i \<in> set (dropWhile is_phi bb). \<not> is_phi i)"

lemma f_body_erase [simp]: "f_body (eraseFromParent n F) = map (filter (\<lambda>i. s_id i \<noteq> n)) (f_body F)"
  by (simp add: eraseFromParent_def)

lemma f_args_erase [simp]: "f_args (eraseFromParent n F) = f_args F"
  by (simp add: eraseFromParent_def)

lemma fold_erase:
  "f_body (fun_of (fold erase_inst ns d)) = map (filter (\<lambda>i. s_id i \<notin> set ns)) (f_body (fun_of d))"
  "f_args (fun_of (fold erase_inst ns d)) = f_args (fun_of d)"
proof (induction ns arbitrary: d)
  case (Cons n ns)
  case 1
  from Cons(1)[of "erase_inst n d"] show ?case
    by (simp add: erase_inst_def)
  case 2
  from Cons(2)[of "erase_inst n d"] show ?case by (simp add: erase_inst_def)
qed (simp_all add: map_idI)

lemma filter_phis:
  assumes "\<forall>i \<in> set (dropWhile is_phi bb). \<not> is_phi i" and "\<And>i. i \<in> set bb \<Longrightarrow> is_phi i \<Longrightarrow> Q i"
  shows "takeWhile is_phi (filter Q bb) = takeWhile is_phi bb \<and> dropWhile is_phi (filter Q bb) = filter Q (dropWhile is_phi bb)"
  using assms
proof (induction bb)
  case (Cons i bb)
  show ?case
  proof (cases "is_phi i")
    case False
    with Cons.prems(1) have "\<forall>j \<in> set (filter Q (i # bb)). \<not> is_phi j" by auto
    then have "takeWhile is_phi (filter Q (i # bb)) = [] \<and> dropWhile is_phi (filter Q (i # bb)) = filter Q (i # bb)"
      by (cases "filter Q (i # bb)") auto
    with False show ?thesis by simp
  next
    case True
    have "takeWhile is_phi (filter Q bb) = takeWhile is_phi bb \<and> dropWhile is_phi (filter Q bb) = filter Q (dropWhile is_phi bb)"
    proof (rule Cons.IH)
      show "\<forall>j \<in> set (dropWhile is_phi bb). \<not> is_phi j" using Cons.prems(1) True by simp
      show "Q j" if "j \<in> set bb" "is_phi j" for j using Cons.prems(2)[of j] that by simp
    qed
    with True Cons.prems(2)[of i] show ?thesis by simp
  qed
qed simp

definition no_op :: "'m llvm_sem \<Rightarrow> 'm src_sem \<Rightarrow> sfunc \<Rightarrow> sinst \<Rightarrow> bool" where
  "no_op S P F i \<longleftrightarrow> (\<forall>prev \<eta> m. \<exists>x. exec_src S P F prev i \<eta> m = Some (Next (\<eta>(s_id i \<mapsto> x)) m))"

lemma erased_exec:
  assumes G: "f_args G = f_args F"
  shows "\<forall>i \<in> set is. refs i \<subseteq> - D \<and> (s_id i \<in> D \<longrightarrow> no_op S P F i) \<Longrightarrow> agree_on (- D) \<eta> \<theta> \<Longrightarrow>
    rel_option (flow_rel (- D) id) (exec_srcs S P F prev is \<eta> m) (exec_srcs S P G prev (filter (\<lambda>i. s_id i \<notin> D) is) \<theta> m)"
proof (induction "is" arbitrary: \<eta> \<theta> m)
  case (Cons i "is")
  show ?case
  proof (cases "s_id i \<in> D")
    case True
    with Cons.prems(1) obtain x where x: "exec_src S P F prev i \<eta> m = Some (Next (\<eta>(s_id i \<mapsto> x)) m)"
      unfolding no_op_def by force
    have "agree_on (- D) (\<eta>(s_id i \<mapsto> x)) \<theta>" using True Cons.prems(2) by (auto simp: agree_on_def)
    from Cons.IH[OF _ this, of m] Cons.prems(1) x True show ?thesis by (simp del: fun_upd_apply)
  next
    case False
    have r: "refs i \<subseteq> - D" using Cons.prems(1) by simp
    show ?thesis
    proof (cases "s_op i = SRet")
      case True
      have "exec_src S P F prev i \<eta> m = None \<or> (\<exists>v. exec_src S P F prev i \<eta> m = Some (Done v m))"
        using True by (auto simp: exec_src_def split: list.split option.split)
      with exec_ret_agree[OF Cons.prems(2) G r True, of S P prev m] False show ?thesis
        by (auto simp: option.map_ident)
    next
      case op: False
      from exec_agree[OF Cons.prems(2) G r op, of id S P prev m] show ?thesis
      proof (cases rule: option.rel_cases)
        case (Some f g)
        show ?thesis
        proof (cases f)
          case (Next \<eta>1 m1)
          with Some(3) obtain \<theta>1 where "g = Next \<theta>1 m1" "agree_on (- D) \<eta>1 \<theta>1" by (cases g) auto
          with Cons.IH[OF _ this(2), of m1] Cons.prems(1) Some Next False show ?thesis by simp
        next
          case (Jump b1 \<eta>1 m1)
          with Some(3) obtain \<theta>1 where "g = Jump b1 \<theta>1 m1" "agree_on (- D) \<eta>1 \<theta>1" by (cases g) auto
          with Some Jump False show ?thesis by simp
        next
          case (Done v m1)
          with Some(3) have "g = Done (map_option id v) m1" by (cases g) auto
          with Some Done False show ?thesis by (simp add: id_def)
        qed
      qed (simp add: False)
    qed
  qed
qed simp

lemma erased_run:
  assumes G: "f_args G = f_args F" "f_body G = map (filter (\<lambda>i. s_id i \<notin> D)) (f_body F)" and phis: "phis_first F"
    and ok: "\<forall>i \<in> set (insts F). refs i \<subseteq> - D \<and> (s_id i \<in> D \<longrightarrow> \<not> is_phi i \<and> no_op S P F i)"
  shows "agree_on (- D) \<eta> \<theta> \<Longrightarrow> run_src n S P G prev b \<theta> m = run_src n S P F prev b \<eta> m"
proof (induction n arbitrary: prev b \<eta> \<theta> m)
  case (Suc n)
  show ?case
  proof (cases "length (f_body F) \<le> b")
    case False
    let ?bb = "f_body F ! b"
    have bb: "?bb \<in> set (f_body F)" using False by simp
    then have sub: "set ?bb \<subseteq> set (insts F)" by (auto simp: insts_def)
    have split: "set (takeWhile is_phi ?bb) \<subseteq> set (insts F)" "set (dropWhile is_phi ?bb) \<subseteq> set (insts F)"
      using sub by (auto dest: set_takeWhileD set_dropWhileD)
    have heads: "takeWhile is_phi (filter (\<lambda>i. s_id i \<notin> D) ?bb) = takeWhile is_phi ?bb"
      and tails: "dropWhile is_phi (filter (\<lambda>i. s_id i \<notin> D) ?bb) = filter (\<lambda>i. s_id i \<notin> D) (dropWhile is_phi ?bb)"
      using filter_phis[of ?bb "\<lambda>i. s_id i \<notin> D"] phis bb ok sub by (auto simp: phis_first_def)
    have "\<forall>i \<in> set (takeWhile is_phi ?bb). refs i \<subseteq> - D" using split(1) ok by blast
    note ph = phis_agree[OF Suc.prems G(1) Suc.prems this, of P prev m]
    have tl: "\<forall>i \<in> set (dropWhile is_phi ?bb). refs i \<subseteq> - D \<and> (s_id i \<in> D \<longrightarrow> no_op S P F i)" using split(2) ok by blast
    have "rel_option (flow_rel (- D) id) (exec_sblock S P F prev ?bb \<eta> m) (exec_sblock S P G prev (f_body G ! b) \<theta> m)"
      using ph
    proof (cases rule: option.rel_cases)
      case (Some \<eta>' \<theta>')
      from erased_exec[OF G(1) tl Some(3), of prev m] Some(1,2) heads tails False G(2) show ?thesis
        by (simp add: exec_sblock_def)
    qed (use heads tails False G(2) in \<open>simp add: exec_sblock_def\<close>)
    with False G(2) Suc.IH show ?thesis
      by (cases "exec_sblock S P F prev ?bb \<eta> m"; cases "exec_sblock S P G prev (f_body G ! b) \<theta> m")
         (auto simp: option.map_id split: flow.split elim!: flow_rel.elims)
  qed (simp add: G(2))
qed simp

section \<open>Replacing a value by an equal one\<close>

lemma exec_vals:
  assumes "s_id j = s_id i" "s_type j = s_type i" "s_op j = s_op i" and "agree_on K \<eta> \<theta>"
    and vals: "map (src_val P G \<theta>) (s_ops j) = map (src_val P F \<eta>) (s_ops i)"
  shows "rel_option (flow_rel K id) (exec_src S P F prev i \<eta> m) (exec_src S P G prev j \<theta> m)"
proof -
  have upd: "rel_option (flow_rel K id) (map_option (\<lambda>(x, m'). Next (\<eta>(s_id i \<mapsto> fit t x)) m') r)
      (map_option (\<lambda>(x, m'). Next (\<theta>(s_id i \<mapsto> fit t x)) m') r)" for r t
    using agree_upd[OF assms(4), of _ "fit t _"] by (cases r) (auto simp del: fun_upd_apply)
  have jump: "rel_option (flow_rel K id) (map_option (\<lambda>(b, m'). Jump (nat b) \<eta> m') r)
      (map_option (\<lambda>(b, m'). Jump (nat b) \<theta> m') r)" for r :: "(int \<times> 'a) option"
    using assms(4) by (cases r) auto
  have fin: "rel_option (flow_rel K id) (case vs of [] \<Rightarrow> Some (Done None m) | [Some x] \<Rightarrow> Some (Done (Some x) m) | _ \<Rightarrow> None)
      (case vs of [] \<Rightarrow> Some (Done None m) | [Some x] \<Rightarrow> Some (Done (Some x) m) | _ \<Rightarrow> None)" for vs :: "sval option list"
    by (auto split: list.split option.split)
  show ?thesis using upd jump fin by (cases "s_op i") (simp_all add: exec_src_def assms(1-3) vals del: map_eq_conv)
qed

lemma rel_srcs_step:
  assumes "rel_option (flow_rel K id) (exec_src S P F prev i \<eta> m) (exec_src S P G prev j \<theta> m)"
    and "\<And>\<eta>' \<theta>' m'. agree_on K \<eta>' \<theta>' \<Longrightarrow> exec_src S P F prev i \<eta> m = Some (Next \<eta>' m') \<Longrightarrow>
      exec_src S P G prev j \<theta> m = Some (Next \<theta>' m') \<Longrightarrow>
      rel_option (flow_rel K id) (exec_srcs S P F prev is \<eta>' m') (exec_srcs S P G prev js \<theta>' m')"
  shows "rel_option (flow_rel K id) (exec_srcs S P F prev (i # is) \<eta> m) (exec_srcs S P G prev (j # js) \<theta> m)"
  using assms(1)
proof (cases rule: option.rel_cases)
  case (Some f g)
  then show ?thesis using assms(2) by (cases f; cases g) auto
qed simp

lemma subst_vals:
  assumes "f_args G = f_args F" and "agree_on (- {n}) \<eta> \<theta>" and "w \<noteq> Inst n" and "\<eta> n = src_val P F \<eta> w"
  shows "map (src_val P G \<theta>) (map (subst_value (Inst n) w) vs) = map (src_val P F \<eta>) vs"
proof -
  have w: "src_val P G \<theta> w = src_val P F \<eta> w" using assms(1-3) by (intro src_val_cong) (auto simp: agree_on_def)
  have "src_val P G \<theta> (subst_value (Inst n) w v) = src_val P F \<eta> v" for v
  proof (cases "v = Inst n")
    case False
    with assms(1,2) have "src_val P G \<theta> v = src_val P F \<eta> v" by (intro src_val_cong) (auto simp: agree_on_def)
    with False show ?thesis by (simp add: subst_value_def)
  qed (use w assms(4) in \<open>simp add: subst_value_def\<close>)
  then show ?thesis by simp
qed

text \<open>As long as neither the value nor its replacement is computed again, they stay equal.\<close>

lemma subst_exec:
  assumes G: "f_args G = f_args F" and w: "w \<noteq> Inst n"
  shows "\<forall>i \<in> set is. s_id i \<noteq> n \<and> (\<forall>k. w = Inst k \<longrightarrow> s_id i \<noteq> k) \<Longrightarrow> \<eta> n = src_val P F \<eta> w \<Longrightarrow> agree_on (- {n}) \<eta> \<theta> \<Longrightarrow>
    rel_option (flow_rel (- {n}) id) (exec_srcs S P F prev is \<eta> m) (exec_srcs S P G prev (map (subst_inst (Inst n) w) is) \<theta> m)"
proof (induction "is" arbitrary: \<eta> \<theta> m)
  case (Cons i "is")
  let ?j = "subst_inst (Inst n) w i"
  from exec_vals[of ?j i "- {n}" \<eta> \<theta> P G F S prev m] subst_vals[OF G Cons.prems(3) w Cons.prems(2), of "s_ops i"] Cons.prems(3)
  have step: "rel_option (flow_rel (- {n}) id) (exec_src S P F prev i \<eta> m) (exec_src S P G prev ?j \<theta> m)"
    by (simp del: map_map)
  have keep: "\<eta>1 n = src_val P F \<eta>1 w" if st: "exec_src S P F prev i \<eta> m = Some (Next \<eta>1 m1)" for \<eta>1 m1
  proof -
    obtain x where "\<eta>1 = \<eta>(s_id i \<mapsto> x)"
      using exec_src_Next[OF st] by blast
    moreover have "src_val P F (\<eta>(s_id i \<mapsto> x)) w = src_val P F \<eta> w"
      using Cons.prems(1) by (intro src_val_cong) auto
    ultimately show ?thesis using Cons.prems(1,2) by auto
  qed
  show ?case
    unfolding list.map
  proof (rule rel_srcs_step[OF step])
    fix \<eta>1 \<theta>1 m1
    assume a: "agree_on (- {n}) \<eta>1 \<theta>1" and e: "exec_src S P F prev i \<eta> m = Some (Next \<eta>1 m1)"
    have "\<forall>i \<in> set is. s_id i \<noteq> n \<and> (\<forall>k. w = Inst k \<longrightarrow> s_id i \<noteq> k)" using Cons.prems(1) by simp
    from Cons.IH[OF this keep[OF e] a]
    show "rel_option (flow_rel (- {n}) id) (exec_srcs S P F prev is \<eta>1 m1)
      (exec_srcs S P G prev (map (subst_inst (Inst n) w) is) \<theta>1 m1)" .
  qed
qed simp

lemma exec_same_list:
  assumes "f_args G = f_args F" and "\<forall>i \<in> set is. refs i \<subseteq> - D \<and> s_id i \<notin> D" and "agree_on (- D) \<eta> \<theta>"
  shows "rel_option (flow_rel (- D) id) (exec_srcs S P F prev is \<eta> m) (exec_srcs S P G prev is \<theta> m)"
proof -
  have "filter (\<lambda>i. s_id i \<notin> D) is = is" using assms(2) by (simp add: filter_id_conv)
  with erased_exec[OF assms(1) _ assms(3), of "is" S P prev m] assms(2) show ?thesis by simp
qed

lemma phis_append:
  assumes "\<forall>i \<in> set zs. \<not> is_phi i"
  shows "takeWhile is_phi (xs @ zs) = takeWhile is_phi xs" "dropWhile is_phi (xs @ zs) = dropWhile is_phi xs @ zs"
proof -
  from assms have "takeWhile is_phi zs = []" "dropWhile is_phi zs = zs" by (cases zs; simp)+
  then show "takeWhile is_phi (xs @ zs) = takeWhile is_phi xs" "dropWhile is_phi (xs @ zs) = dropWhile is_phi xs @ zs"
    by (induction xs) auto
qed

lemma phis_tail:
  assumes "\<forall>i \<in> set (dropWhile is_phi (xs @ j # zs)). \<not> is_phi i" and "\<not> is_phi j"
  shows "\<forall>i \<in> set zs. \<not> is_phi i"
proof -
  have "dropWhile is_phi (xs @ j # zs) = dropWhile is_phi xs @ j # zs" using assms(2) by (induction xs) auto
  with assms(1) show ?thesis by simp
qed

lemma subst_unused: "n \<notin> refs i \<Longrightarrow> subst_inst (Inst n) w i = i"
proof -
  assume "n \<notin> refs i"
  then have "map (subst_value (Inst n) w) (s_ops i) = s_ops i"
    by (intro map_idI) (auto simp: refs_def subst_value_def)
  then show "subst_inst (Inst n) w i = i" by (simp add: subst_inst_def)
qed

lemma block_distinct:
  assumes "distinct_ids F" and "b < length (f_body F)"
  shows "distinct (map s_id (f_body F ! b))"
proof -
  have "map s_id (f_body F ! b) \<in> set (map (map s_id) (f_body F))" using assms(2) by simp
  with assms(1) show ?thesis unfolding distinct_ids_def insts_def map_concat distinct_concat_iff by blast
qed

lemma block_in_insts: "b < length (f_body F) \<Longrightarrow> set (f_body F ! b) \<subseteq> set (insts F)"
  unfolding insts_def set_concat by (metis UN_upper nth_mem)

lemma count_le_uses: "i \<in> set (insts F) \<Longrightarrow> count_list (s_ops i) v \<le> getNumUses F v"
  unfolding getNumUses_def by (rule member_le_sum_list) simp_all

end
