(* ===== verification/Round_Trip.thy ===== *)
theory Round_Trip
  imports Driver_Rewrite
begin

text \<open>
  \<open>tryReplaceRoundTrip\<close> and \<open>tryReplacePtrtoInt\<close> (\<open>bpf-tv.cpp\<close>): on the lifted function, \<open>inttoptr (ptrtoint p + i)\<close>
  becomes the byte-indexed \<open>getelementptr\<close> of \<open>p\<close> by \<open>i\<close>.
\<close>

section \<open>The rewrite\<close>

definition is_add :: "sinst \<Rightarrow> bool" where
  "is_add i \<longleftrightarrow> s_op i = SBin Add"

definition ptr_to_int :: "sfunc \<Rightarrow> svalue \<Rightarrow> sinst option" where
  "ptr_to_int F v = (case v of
     Inst k \<Rightarrow> (case find_inst F k of Some i \<Rightarrow> if s_op i = SPtrToInt then Some i else None | None \<Rightarrow> None)
   | _ \<Rightarrow> None)"

text \<open>The instructions of a round trip: the addition, the \<open>ptrtoint\<close> and the integer operand.\<close>

definition round_trip :: "sfunc \<Rightarrow> sinst \<Rightarrow> (sinst \<times> sinst \<times> svalue) option" where
  "round_trip F itp = (case s_ops itp of
     [Inst k] \<Rightarrow> (case find_inst F k of
        None \<Rightarrow> None
      | Some op_inst \<Rightarrow> if \<not> is_add op_inst \<or> 1 < getNumUses F (Inst k) then None
          else (case s_ops op_inst of
             [x, y] \<Rightarrow> (case ptr_to_int F x of
                Some pti \<Rightarrow> if 1 < getNumUses F (Inst (s_id pti)) then None else Some (op_inst, pti, y)
              | None \<Rightarrow> (case ptr_to_int F y of
                  Some pti \<Rightarrow> if 1 < getNumUses F (Inst (s_id pti)) then None else Some (op_inst, pti, x)
                | None \<Rightarrow> None))
           | _ \<Rightarrow> None))
   | _ \<Rightarrow> None)"

definition gep_inst :: "nat \<Rightarrow> svalue \<Rightarrow> svalue \<Rightarrow> sinst" where
  "gep_inst g base idx = \<lparr>s_id = g, s_type = SPtr 0, s_op = SGEP (SInt 8), s_ops = [base, idx], s_name = '''', s_volatile = False,
     s_atomic = False, s_line = None, s_ret_attrs = [], s_tail = False\<rparr>"

definition insert_before :: "nat \<Rightarrow> sinst \<Rightarrow> sfunc \<Rightarrow> sfunc" where
  "insert_before n j F = F\<lparr>f_body := map (\<lambda>bb. concat (map (\<lambda>i. if s_id i = n then [j, i] else [i]) bb)) (f_body F)\<rparr>"

definition tryReplaceRoundTrip :: "nat \<Rightarrow> sinst \<Rightarrow> sfunc \<Rightarrow> bool \<times> sfunc" where
  "tryReplaceRoundTrip g itp F = (case round_trip F itp of
     None \<Rightarrow> (False, F)
   | Some (op_inst, pti, idx) \<Rightarrow>
       (True, eraseFromParent (s_id pti) (eraseFromParent (s_id op_inst) (eraseFromParent (s_id itp)
         (replaceAllUsesWith (Inst (s_id itp)) (Inst g) (insert_before (s_id itp) (gep_inst g (hd (s_ops pti)) idx) F))))))"

text \<open>The loop over the instructions; new instructions get numbers that are not in use.\<close>

definition next_id :: "sfunc \<Rightarrow> nat" where
  "next_id F = Suc (fold max (map s_id (insts F)) 0)"

definition collapse_inst :: "nat \<Rightarrow> sfunc \<Rightarrow> sfunc" where
  "collapse_inst n F = (case find_inst F n of
     Some i \<Rightarrow> if s_op i = SIntToPtr then snd (tryReplaceRoundTrip (next_id F) i F) else F
   | None \<Rightarrow> F)"

definition tryReplacePtrtoInt :: "sfunc \<Rightarrow> sfunc" where
  "tryReplacePtrtoInt F = fold collapse_inst (map s_id (insts F)) F"

section \<open>What was matched\<close>

lemma ptr_to_int_Some: "ptr_to_int F v = Some i \<Longrightarrow> v = Inst (s_id i) \<and> find_inst F (s_id i) = Some i \<and> s_op i = SPtrToInt"
  by (auto simp: ptr_to_int_def split: svalue.splits option.splits if_splits dest: find_inst_id)

lemma round_trip_Some:
  assumes "round_trip F itp = Some (oi, pti, idx)"
  shows "s_ops itp = [Inst (s_id oi)]" "find_inst F (s_id oi) = Some oi" "s_op oi = SBin Add" "getNumUses F (Inst (s_id oi)) \<le> 1"
    "s_ops oi = [Inst (s_id pti), idx] \<or> s_ops oi = [idx, Inst (s_id pti)]" "find_inst F (s_id pti) = Some pti"
    "s_op pti = SPtrToInt" "getNumUses F (Inst (s_id pti)) \<le> 1"
proof -
  have find: "find_inst F n = Some i \<Longrightarrow> n = s_id i \<and> find_inst F (s_id i) = Some i" for n i
    using find_inst_id[of F n i] by auto
  show "s_ops itp = [Inst (s_id oi)]" "find_inst F (s_id oi) = Some oi" "s_op oi = SBin Add" "getNumUses F (Inst (s_id oi)) \<le> 1"
    "s_ops oi = [Inst (s_id pti), idx] \<or> s_ops oi = [idx, Inst (s_id pti)]" "find_inst F (s_id pti) = Some pti"
    "s_op pti = SPtrToInt" "getNumUses F (Inst (s_id pti)) \<le> 1"
    using assms
    by (auto simp: round_trip_def is_add_def split: list.splits svalue.splits option.splits if_splits dest!: ptr_to_int_Some dest: find)
qed

text \<open>A value that is used once has one user.\<close>

lemma single_user:
  assumes "getNumUses F v \<le> 1" and "distinct_ids F" and "i \<in> set (insts F)" and "v \<in> set (s_ops i)" and "j \<in> set (insts F)" and "v \<in> set (s_ops j)"
  shows "j = i"
proof (rule ccontr)
  assume ne: "j \<noteq> i"
  have pos: "1 \<le> count_list (s_ops k) v" if "v \<in> set (s_ops k)" for k
    using that count_list_0_iff[of "s_ops k" v] by (simp add: Suc_le_eq)
  have dist: "distinct (insts F)" using assms(2) by (simp add: distinct_ids_def distinct_map)
  have "getNumUses F v = (\<Sum>k\<in>set (insts F). count_list (s_ops k) v)"
    unfolding getNumUses_def using dist by (simp add: sum_list_distinct_conv_sum_set)
  moreover have "(\<Sum>k\<in>{i, j}. count_list (s_ops k) v) \<le> (\<Sum>k\<in>set (insts F). count_list (s_ops k) v)"
    using assms(3,5) by (intro sum_mono2) auto
  ultimately show False using pos[OF assms(4)] pos[OF assms(6)] ne assms(1) by simp
qed

section \<open>Execution\<close>

text \<open>The values outside \<open>D\<close> agree, and what the one execution reads from \<open>n\<close> the other reads from \<open>w\<close>.\<close>

lemma subst_exec_gen:
  assumes G: "f_args G = f_args F" and w: "w \<noteq> Inst n"
  shows "\<forall>i \<in> set is. s_id i \<noteq> n \<and> (\<forall>k. w = Inst k \<longrightarrow> s_id i \<noteq> k) \<and> refs i \<subseteq> insert n (- D) \<Longrightarrow>
    \<eta> n = src_val P G \<theta> w \<Longrightarrow> agree_on (- D) \<eta> \<theta> \<Longrightarrow>
    rel_option (flow_rel (- D) id) (exec_srcs S P F prev is \<eta> m) (exec_srcs S P G prev (map (subst_inst (Inst n) w) is) \<theta> m)"
proof (induction "is" arbitrary: \<eta> \<theta> m)
  case (Cons i "is")
  let ?j = "subst_inst (Inst n) w i"
  have vals: "map (src_val P G \<theta>) (s_ops ?j) = map (src_val P F \<eta>) (s_ops i)"
    unfolding subst_inst_simps map_map
  proof (rule map_cong[OF refl])
    fix v assume "v \<in> set (s_ops i)"
    with Cons.prems(1) have "v = Inst k \<Longrightarrow> k = n \<or> k \<in> - D" for k by (auto simp: refs_def)
    with Cons.prems(2,3) show "(src_val P G \<theta> \<circ> subst_value (Inst n) w) v = src_val P F \<eta> v"
      by (cases "v = Inst n") (auto simp: subst_value_def agree_on_def intro!: src_val_cong[OF G])
  qed
  have step: "rel_option (flow_rel (- D) id) (exec_src S P F prev i \<eta> m) (exec_src S P G prev ?j \<theta> m)"
    by (rule exec_vals[OF _ _ _ Cons.prems(3) vals]) simp_all
  show ?case
    unfolding list.map
  proof (rule rel_srcs_step[OF step])
    fix \<eta>1 \<theta>1 m1
    assume a: "agree_on (- D) \<eta>1 \<theta>1" and e: "exec_src S P F prev i \<eta> m = Some (Next \<eta>1 m1)"
      and e': "exec_src S P G prev ?j \<theta> m = Some (Next \<theta>1 m1)"
    from exec_src_Next[OF e] obtain x where x: "\<eta>1 = \<eta>(s_id i \<mapsto> fit (s_type i) x)" ..
    from exec_src_Next[OF e'] obtain y where "\<theta>1 = \<theta>(s_id i \<mapsto> fit (s_type i) y)" by (simp only: subst_inst_simps) blast
    note upd = x this
    have "src_val P G \<theta>1 w = src_val P G \<theta> w" using Cons.prems(1) upd(2) by (intro src_val_cong) auto
    then have "\<eta>1 n = src_val P G \<theta>1 w" using Cons.prems(1,2) upd(1) by simp
    moreover have "\<forall>i \<in> set is. s_id i \<noteq> n \<and> (\<forall>k. w = Inst k \<longrightarrow> s_id i \<noteq> k) \<and> refs i \<subseteq> insert n (- D)"
      using Cons.prems(1) by simp
    ultimately show "rel_option (flow_rel (- D) id) (exec_srcs S P F prev is \<eta>1 m1)
      (exec_srcs S P G prev (map (subst_inst (Inst n) w) is) \<theta>1 m1)" using Cons.IH[OF _ _ a, of m1] by blast
  qed
qed simp

text \<open>One execution does whatever the other does.\<close>

definition follows :: "nat set \<Rightarrow> 'm flow option \<Rightarrow> 'm flow option \<Rightarrow> bool" where
  "follows K r r' \<longleftrightarrow> (\<forall>f. r = Some f \<longrightarrow> (\<exists>g. r' = Some g \<and> flow_rel K id f g))"

lemma rel_follows: "rel_option (flow_rel K id) r r' \<Longrightarrow> follows K r r'"
  by (auto simp: follows_def elim: option.rel_cases)

lemma follows_append:
  assumes "follows K (exec_srcs S P F prev xs \<eta> m) (exec_srcs S P G prev xs' \<theta> m)"
    and "\<And>\<eta>' \<theta>' m'. exec_srcs S P F prev xs \<eta> m = Some (Next \<eta>' m') \<Longrightarrow> agree_on K \<eta>' \<theta>' \<Longrightarrow>
      follows K (exec_srcs S P F prev ys \<eta>' m') (exec_srcs S P G prev ys' \<theta>' m')"
  shows "follows K (exec_srcs S P F prev (xs @ ys) \<eta> m) (exec_srcs S P G prev (xs' @ ys') \<theta> m)"
proof (cases "exec_srcs S P F prev xs \<eta> m")
  case (Some f)
  with assms(1) obtain g where g: "exec_srcs S P G prev xs' \<theta> m = Some g" "flow_rel K id f g" by (auto simp: follows_def)
  show ?thesis
  proof (cases "\<exists>\<eta>' m'. f = Next \<eta>' m'")
    case True
    then obtain \<eta>' m' \<theta>' where "f = Next \<eta>' m'" "g = Next \<theta>' m'" "agree_on K \<eta>' \<theta>'" using g(2) by (cases g) auto
    with assms(2) Some g(1) show ?thesis by (simp add: exec_srcs_append)
  next
    case False
    with Some g show ?thesis by (cases f; cases g) (simp_all add: exec_srcs_append follows_def)
  qed
qed (simp add: follows_def exec_srcs_append)

text \<open>An instruction only the first execution has.\<close>

lemma follows_left:
  assumes "\<And>f. exec_src S P F prev i \<eta> m = Some f \<Longrightarrow> \<exists>\<eta>'. f = Next \<eta>' m \<and> follows K (exec_srcs S P F prev is \<eta>' m) r"
  shows "follows K (exec_srcs S P F prev (i # is) \<eta> m) r"
  using assms by (cases "exec_src S P F prev i \<eta> m") (auto simp: follows_def)

lemma exec_srcs_other:
  "exec_srcs S P F prev is \<eta> m = Some (Next \<eta>' m') \<Longrightarrow> k \<notin> s_id ` set is \<Longrightarrow> \<eta>' k = \<eta> k"
proof (induction "is" arbitrary: \<eta> m)
  case (Cons i "is")
  then obtain \<eta>1 m1 where s: "exec_src S P F prev i \<eta> m = Some (Next \<eta>1 m1)" "exec_srcs S P F prev is \<eta>1 m1 = Some (Next \<eta>' m')"
    by (auto split: option.splits flow.splits)
  from exec_src_Next[OF s(1)] Cons.prems(2) have "\<eta>1 k = \<eta> k" by auto
  with Cons.IH[OF s(2)] Cons.prems(2) show ?case by simp
qed simp

lemma exec_srcs_val:
  assumes "exec_srcs S P F prev is \<eta> m = Some (Next \<eta>' m')" and "\<And>k. v = Inst k \<Longrightarrow> k \<notin> s_id ` set is"
  shows "src_val P F \<eta>' v = src_val P F \<eta> v"
  using exec_srcs_other[OF assms(1)] assms(2) by (intro src_val_cong) auto

text \<open>The value of the rewritten address, in the arithmetic of LLVM.\<close>

lemma sgn_take_bit: "take_bit 64 (b + take_bit 64 (sgn_of 64 i)) = take_bit 64 (b + i)"
proof -
  have "take_bit 64 (take_bit 64 (sgn_of 64 i)) = take_bit 64 i" by (simp add: sgn_of_def take_bit_signed_take_bit)
  then show ?thesis by (metis take_bit_add)
qed

context langref
begin

lemma exec_gep:
  assumes "src_val P G \<theta> base = Some (SPtr a, b)" and "src_val P G \<theta> idx = Some (SInt 64, i)" and "in_width 64 b"
  shows "exec_src S P G prev (gep_inst g base idx) \<theta> m = Some (Next (\<theta>(g \<mapsto> (SPtr 0, take_bit 64 (b + i)))) m)"
proof -
  have "sem_gep S b (take_bit 64 (sgn_of 64 i)) = take_bit 64 (b + take_bit 64 (sgn_of 64 i))"
    by (rule gep[OF assms(3) in_width_take_bit])
  with assms(1,2) show ?thesis
    by (simp add: exec_src_def gep_inst_def op_result_def byte_gep_def binary_def gep_index_def width_of_def fit_def sgn_take_bit)
qed

end

section \<open>The block of a round trip\<close>

text \<open>The block as the rewrite finds it - the \<open>ptrtoint\<close>, the addition and the \<open>inttoptr\<close> in this order - and the
  conditions on numbers that SSA form gives: each is computed once, nothing is read before it is computed.\<close>

definition trip_block :: "sinst list \<Rightarrow> sinst \<Rightarrow> sinst list \<Rightarrow> sinst \<Rightarrow> sinst list \<Rightarrow> sinst \<Rightarrow> sinst list \<Rightarrow> sinst list" where
  "trip_block x1 pti x2 oi x3 itp ys = x1 @ pti # x2 @ oi # x3 @ itp # ys"

definition collapsed_block :: "nat \<Rightarrow> sinst list \<Rightarrow> sinst \<Rightarrow> sinst list \<Rightarrow> sinst list \<Rightarrow> sinst \<Rightarrow> svalue \<Rightarrow> sinst list \<Rightarrow> sinst list" where
  "collapsed_block g x1 pti x2 x3 itp idx ys =
     x1 @ x2 @ x3 @ gep_inst g (hd (s_ops pti)) idx # map (subst_inst (Inst (s_id itp)) (Inst g)) ys"

definition fresh_for :: "nat set \<Rightarrow> sinst list \<Rightarrow> bool" where
  "fresh_for D is \<longleftrightarrow> (\<forall>i \<in> set is. s_id i \<notin> D \<and> refs i \<subseteq> - D)"

lemma fresh_for_notin: "fresh_for D is \<Longrightarrow> k \<in> D \<Longrightarrow> k \<notin> s_id ` set is"
  by (auto simp: fresh_for_def)

definition not_computed :: "svalue \<Rightarrow> sinst list \<Rightarrow> bool" where
  "not_computed v is \<longleftrightarrow> (\<forall>k. v = Inst k \<longrightarrow> k \<notin> s_id ` set is)"

lemma not_computed_simps [simp]:
  "not_computed v []" "not_computed v (i # is) \<longleftrightarrow> v \<noteq> Inst (s_id i) \<and> not_computed v is"
  "not_computed v (xs @ ys) \<longleftrightarrow> not_computed v xs \<and> not_computed v ys"
  by (auto simp: not_computed_def)

context langref
begin

lemma collapsed_exec:
  assumes G: "f_args G = f_args F"
    and ops: "s_ops itp = [Inst (s_id oi)]" "s_op itp = SIntToPtr" "s_type itp = SPtr 0"
      "s_op oi = SBin Add" "s_type oi = SInt 64" "s_ops oi = [Inst (s_id pti), idx] \<or> s_ops oi = [idx, Inst (s_id pti)]"
      "s_op pti = SPtrToInt" "s_type pti = SInt 64" "s_ops pti = [base]"
    and D: "D = {s_id pti, s_id oi, s_id itp, g}" "s_id pti \<noteq> s_id oi" "s_id oi \<noteq> s_id itp" "s_id pti \<noteq> s_id itp" "g \<notin> {s_id pti, s_id oi, s_id itp}"
    and fresh: "fresh_for D x2" "fresh_for D x3" "\<forall>i \<in> set ys. s_id i \<notin> D \<and> refs i \<subseteq> insert (s_id itp) (- D)"
    and base: "\<And>k. base = Inst k \<Longrightarrow> k \<notin> D" "not_computed base (x2 @ x3)"
    and idx: "\<And>k. idx = Inst k \<Longrightarrow> k \<notin> D" "not_computed idx x3"
    and typed: "\<And>\<eta> b. src_val P F \<eta> base = Some b \<Longrightarrow> okv \<eta> \<Longrightarrow> has_type (SPtr 0) b" "\<And>\<eta> b. src_val P F \<eta> idx = Some b \<Longrightarrow> okv \<eta> \<Longrightarrow> has_type (SInt 64) b"
    and okv: "\<And>xs \<eta> m \<eta>' m'. set xs \<subseteq> set (pti # x2 @ oi # x3) \<Longrightarrow> okv \<eta> \<Longrightarrow> exec_srcs S P F prev xs \<eta> m = Some (Next \<eta>' m') \<Longrightarrow> okv \<eta>'"
  shows "okv \<eta> \<Longrightarrow> agree_on (- D) \<eta> \<theta> \<Longrightarrow>
    follows (- D) (exec_srcs S P F prev (pti # x2 @ oi # x3 @ itp # ys) \<eta> m)
      (exec_srcs S P G prev (x2 @ x3 @ gep_inst g base idx # map (subst_inst (Inst (s_id itp)) (Inst g)) ys) \<theta> m)"
proof -
  assume ok0: "okv \<eta>" and a0: "agree_on (- D) \<eta> \<theta>"
  have same: "follows (- D) (exec_srcs S P F prev xs \<eta> m) (exec_srcs S P G prev xs \<theta> m)"
    if "fresh_for D xs" "agree_on (- D) \<eta> \<theta>" for xs \<eta> \<theta> m
    by (rule rel_follows[OF exec_same_list[OF G _ that(2)]]) (use that(1) in \<open>auto simp: fresh_for_def\<close>)
  show ?thesis
  proof (rule follows_left)
    fix f assume f: "exec_src S P F prev pti \<eta> m = Some f"
    from f ops(7-9) obtain bv where bv: "src_val P F \<eta> base = Some bv"
      by (cases "src_val P F \<eta> base") (auto simp: exec_src_def op_result_def unary_def)
    from has_type_bits[OF typed(1)[OF bv ok0], of 64] obtain b where b': "bv = (SPtr 0, b)" and wb: "in_width 64 b" by auto
    from bv b' have b: "src_val P F \<eta> base = Some (SPtr 0, b)" by simp
    let ?\<eta>1 = "\<eta>(s_id pti \<mapsto> (SInt 64, b))"
    have p: "f = Next ?\<eta>1 m"
      using f ops(7-9) b take_bit_in_width[OF wb, of 64] by (simp add: exec_src_def op_result_def unary_def width_of_def fit_def)
    have ok1: "okv ?\<eta>1" by (rule okv[of "[pti]" \<eta> m _ m]) (use ok0 f p in simp_all)
    have a1: "agree_on (- D) ?\<eta>1 \<theta>" using a0 D(1) by (simp add: agree_on_def)
    have b1: "src_val P F ?\<eta>1 base = Some (SPtr 0, b)" using b base(1) D(1) src_val_cong[of F F base ?\<eta>1 \<eta> P] by auto
    have "follows (- D) (exec_srcs S P F prev (x2 @ oi # x3 @ itp # ys) ?\<eta>1 m)
        (exec_srcs S P G prev (x2 @ x3 @ gep_inst g base idx # map (subst_inst (Inst (s_id itp)) (Inst g)) ys) \<theta> m)"
    proof (rule follows_append[OF same[OF fresh(1) a1]])
      fix \<eta>2 \<theta>2 m2 assume e2: "exec_srcs S P F prev x2 ?\<eta>1 m = Some (Next \<eta>2 m2)" and a2: "agree_on (- D) \<eta>2 \<theta>2"
      have p2: "\<eta>2 (s_id pti) = Some (SInt 64, b)" using exec_srcs_other[OF e2 fresh_for_notin[OF fresh(1)], of "s_id pti"] D(1) by simp
      have b2: "src_val P F \<eta>2 base = Some (SPtr 0, b)" using exec_srcs_val[OF e2, of base] base(2) b1 by (auto simp: not_computed_def)
      have ok2: "okv \<eta>2" by (rule okv[OF _ ok1 e2]) auto
      show "follows (- D) (exec_srcs S P F prev (oi # x3 @ itp # ys) \<eta>2 m2)
        (exec_srcs S P G prev (x3 @ gep_inst g base idx # map (subst_inst (Inst (s_id itp)) (Inst g)) ys) \<theta>2 m2)"
      proof (rule follows_left)
        fix f assume f: "exec_src S P F prev oi \<eta>2 m2 = Some f"
        with ops(4-6) p2 obtain iv where iv: "src_val P F \<eta>2 idx = Some iv"
          by (cases "src_val P F \<eta>2 idx") (auto simp: exec_src_def op_result_def binary_def)
        from has_type_bits[OF typed(2)[OF iv ok2], of 64] obtain i where i': "iv = (SInt 64, i)" and wi: "in_width 64 i" by auto
        from iv i' have i: "src_val P F \<eta>2 idx = Some (SInt 64, i)" by simp
        let ?\<eta>3 = "\<eta>2(s_id oi \<mapsto> (SInt 64, take_bit 64 (b + i)))"
        have o: "f = Next ?\<eta>3 m2"
          using f ops(4-6) p2 i bin_add[OF wb wi] bin_add[OF wi wb]
          by (auto simp: exec_src_def op_result_def binary_def width_of_def fit_def add.commute)
        have ok3: "okv ?\<eta>3" by (rule okv[of "[oi]" \<eta>2 m2 _ m2]) (use ok2 f o in simp_all)
        have a3: "agree_on (- D) ?\<eta>3 \<theta>2" using a2 D(1) by (simp add: agree_on_def)
        have v3: "src_val P F ?\<eta>3 base = Some (SPtr 0, b)" "src_val P F ?\<eta>3 idx = Some (SInt 64, i)"
          using b2 i base(1) idx(1) D(1) src_val_cong[of F F base ?\<eta>3 \<eta>2 P] src_val_cong[of F F idx ?\<eta>3 \<eta>2 P] by auto
        have "follows (- D) (exec_srcs S P F prev (x3 @ itp # ys) ?\<eta>3 m2)
            (exec_srcs S P G prev (x3 @ gep_inst g base idx # map (subst_inst (Inst (s_id itp)) (Inst g)) ys) \<theta>2 m2)"
        proof (rule follows_append[OF same[OF fresh(2) a3]])
          fix \<eta>4 \<theta>4 m4 assume e4: "exec_srcs S P F prev x3 ?\<eta>3 m2 = Some (Next \<eta>4 m4)" and a4: "agree_on (- D) \<eta>4 \<theta>4"
          have o4: "\<eta>4 (s_id oi) = Some (SInt 64, take_bit 64 (b + i))"
            using exec_srcs_other[OF e4 fresh_for_notin[OF fresh(2)], of "s_id oi"] D(1) by simp
          have v4: "src_val P F \<eta>4 base = Some (SPtr 0, b)" "src_val P F \<eta>4 idx = Some (SInt 64, i)"
            using exec_srcs_val[OF e4, of base] exec_srcs_val[OF e4, of idx] base(2) idx(2) v3 by (auto simp: not_computed_def)
          have v4': "src_val P G \<theta>4 base = Some (SPtr 0, b)" "src_val P G \<theta>4 idx = Some (SInt 64, i)"
            using v4 a4 base(1) idx(1) src_val_cong[OF G, of base \<theta>4 \<eta>4 P] src_val_cong[OF G, of idx \<theta>4 \<eta>4 P] by (auto simp: agree_on_def)
          let ?v = "(SPtr 0, take_bit 64 (b + i))"
          have itp: "exec_src S P F prev itp \<eta>4 m4 = Some (Next (\<eta>4(s_id itp \<mapsto> ?v)) m4)"
            using ops(1-3) o4 by (simp add: exec_src_def op_result_def unary_def fit_def)
          have gp: "exec_src S P G prev (gep_inst g base idx) \<theta>4 m4 = Some (Next (\<theta>4(g \<mapsto> ?v)) m4)"
            by (rule exec_gep[OF v4' wb])
          have "rel_option (flow_rel (- D) id) (exec_srcs S P F prev ys (\<eta>4(s_id itp \<mapsto> ?v)) m4)
              (exec_srcs S P G prev (map (subst_inst (Inst (s_id itp)) (Inst g)) ys) (\<theta>4(g \<mapsto> ?v)) m4)"
          proof (rule subst_exec_gen[OF G])
            show "Inst g \<noteq> Inst (s_id itp)" using D(5) by simp
            show "\<forall>i \<in> set ys. s_id i \<noteq> s_id itp \<and> (\<forall>k. Inst g = Inst k \<longrightarrow> s_id i \<noteq> k) \<and> refs i \<subseteq> insert (s_id itp) (- D)"
              using fresh(3) D(1) by auto
            show "agree_on (- D) (\<eta>4(s_id itp \<mapsto> ?v)) (\<theta>4(g \<mapsto> ?v))" using a4 D(1) by (simp add: agree_on_def)
          qed simp
          then show "follows (- D) (exec_srcs S P F prev (itp # ys) \<eta>4 m4)
              (exec_srcs S P G prev (gep_inst g base idx # map (subst_inst (Inst (s_id itp)) (Inst g)) ys) \<theta>4 m4)"
            using itp gp by (simp add: rel_follows del: fun_upd_apply)
        qed
        with o show "\<exists>\<eta>'. f = Next \<eta>' m2 \<and> follows (- D) (exec_srcs S P F prev (x3 @ itp # ys) \<eta>' m2)
            (exec_srcs S P G prev (x3 @ gep_inst g base idx # map (subst_inst (Inst (s_id itp)) (Inst g)) ys) \<theta>2 m2)" by blast
      qed
    qed
    with p show "\<exists>\<eta>'. f = Next \<eta>' m \<and> follows (- D) (exec_srcs S P F prev (x2 @ oi # x3 @ itp # ys) \<eta>' m)
        (exec_srcs S P G prev (x2 @ x3 @ gep_inst g base idx # map (subst_inst (Inst (s_id itp)) (Inst g)) ys) \<theta> m)" by blast
  qed
qed

end

section \<open>The rewrite of a function\<close>

lemma typed_srcs:
  assumes "distinct_ids F"
  shows "set is \<subseteq> set (insts F) \<Longrightarrow> typed_env F \<eta> \<Longrightarrow> exec_srcs S P F prev is \<eta> m = Some (Next \<eta>' m') \<Longrightarrow> typed_env F \<eta>'"
proof (induction "is" arbitrary: \<eta> m)
  case (Cons i "is")
  then obtain \<eta>1 m1 where s: "exec_src S P F prev i \<eta> m = Some (Next \<eta>1 m1)" "exec_srcs S P F prev is \<eta>1 m1 = Some (Next \<eta>' m')"
    by (auto split: option.splits flow.splits)
  have "typed_env F \<eta>1" by (rule typed_exec[OF assms _ Cons.prems(2) s(1)]) (use Cons.prems(1) in simp)
  from Cons.IH[OF _ this s(2)] Cons.prems(1) show ?case by simp
qed simp

text \<open>What SSA form and the types of address arithmetic give for a block with a round trip.\<close>

definition trip_ok :: "sfunc \<Rightarrow> nat \<Rightarrow> sinst list \<Rightarrow> sinst \<Rightarrow> sinst list \<Rightarrow> sinst \<Rightarrow> sinst list \<Rightarrow> sinst \<Rightarrow> svalue \<Rightarrow> svalue \<Rightarrow> sinst list \<Rightarrow> bool" where
  "trip_ok F g x1 pti x2 oi x3 itp base idx ys \<longleftrightarrow>
     s_op itp = SIntToPtr \<and> s_type itp = SPtr 0 \<and> s_type oi = SInt 64 \<and> s_type pti = SInt 64 \<and> s_ops pti = [base]
     \<and> value_type F base = SPtr 0 \<and> value_type F idx = SInt 64
     \<and> (\<forall>i \<in> set (insts F). s_id i \<noteq> g \<and> g \<notin> refs i)
     \<and> (\<forall>i \<in> set (x1 @ pti # x2 @ oi # x3 @ [itp]). s_id itp \<notin> refs i)
     \<and> not_computed base (pti # x2 @ oi # x3 @ itp # ys) \<and> not_computed idx (oi # x3 @ itp # ys)
     \<and> (\<forall>i \<in> set x1. s_id pti \<notin> refs i \<and> s_id oi \<notin> refs i)"

lemma distinct_trip:
  "distinct (a1 @ p # a2 @ q # a3 @ r # b) \<Longrightarrow> {p, q, r} \<inter> (set a1 \<union> set a2 \<union> set a3 \<union> set b) = {} \<and> p \<noteq> q \<and> q \<noteq> r \<and> p \<noteq> r"
  by auto

lemma trip_ids:
  assumes "distinct (map s_id (x1 @ p # x2 @ q # x3 @ r # ys))"
  shows "\<forall>i \<in> set x1 \<union> set x2 \<union> set x3 \<union> set ys. s_id i \<noteq> s_id p \<and> s_id i \<noteq> s_id q \<and> s_id i \<noteq> s_id r"
    and "s_id p \<noteq> s_id q \<and> s_id q \<noteq> s_id r \<and> s_id p \<noteq> s_id r"
proof -
  have "distinct (map s_id x1 @ s_id p # map s_id x2 @ s_id q # map s_id x3 @ s_id r # map s_id ys)"
    using assms by (simp only: map_append list.map)
  note d = distinct_trip[OF this]
  then show "s_id p \<noteq> s_id q \<and> s_id q \<noteq> s_id r \<and> s_id p \<noteq> s_id r" by blast
  have "set (map s_id xs) = s_id ` set xs" for xs by simp
  with d show "\<forall>i \<in> set x1 \<union> set x2 \<union> set x3 \<union> set ys. s_id i \<noteq> s_id p \<and> s_id i \<noteq> s_id q \<and> s_id i \<noteq> s_id r"
    by blast
qed

context langref
begin

lemma round_trip_block:
  assumes m: "round_trip F itp = Some (oi, pti, idx)" and wf: "distinct_ids F" "phis_first F"
    and at: "b < length (f_body F)" "f_body F ! b = trip_block x1 pti x2 oi x3 itp ys"
    and ok: "trip_ok F g x1 pti x2 oi x3 itp base idx ys"
    and G: "G = snd (tryReplaceRoundTrip g itp F)"
    and env: "typed_env F \<eta>" "agree_on (- {s_id pti, s_id oi, s_id itp, g}) \<eta> \<theta>"
  shows "f_body G ! b = collapsed_block g x1 pti x2 x3 itp idx ys"
    and "follows (- {s_id pti, s_id oi, s_id itp, g}) (exec_sblock S P F prev (f_body F ! b) \<eta> m0) (exec_sblock S P G prev (f_body G ! b) \<theta> m0)"
proof -
  note rt = round_trip_Some[OF m]
  let ?D = "{s_id pti, s_id oi, s_id itp, g}" and ?bb = "x1 @ pti # x2 @ oi # x3 @ itp # ys"
  have bb: "f_body F ! b = ?bb" using at(2) by (simp add: trip_block_def)
  from block_in_insts[OF at(1)] bb have sub: "set ?bb \<subseteq> set (insts F)" by simp
  from block_distinct[OF wf(1) at(1)] bb have dist: "distinct (map s_id ?bb)" by simp
  have k: "s_op itp = SIntToPtr" "s_type itp = SPtr 0" "s_type oi = SInt 64" "s_type pti = SInt 64" "s_ops pti = [base]"
    and g: "\<And>i. i \<in> set (insts F) \<Longrightarrow> s_id i \<noteq> g \<and> g \<notin> refs i"
    and n: "\<And>i. i \<in> set (x1 @ pti # x2 @ oi # x3 @ [itp]) \<Longrightarrow> s_id itp \<notin> refs i"
    and nc: "not_computed base (pti # x2 @ oi # x3 @ itp # ys)" "not_computed idx (oi # x3 @ itp # ys)"
    and ty: "value_type F base = SPtr 0" "value_type F idx = SInt 64"
    using ok by (auto simp: trip_ok_def)
  have mem: "pti \<in> set (insts F)" "oi \<in> set (insts F)" "itp \<in> set (insts F)" using sub by auto
  have uses: "Inst (s_id oi) \<in> set (s_ops itp)" "Inst (s_id pti) \<in> set (s_ops oi)" using rt(1,5) by auto
  have other: "i \<in> set (insts F) \<Longrightarrow> s_id oi \<in> refs i \<Longrightarrow> i = itp" "i \<in> set (insts F) \<Longrightarrow> s_id pti \<in> refs i \<Longrightarrow> i = oi" for i
    using single_user[OF rt(4) wf(1) mem(3) uses(1), of i] single_user[OF rt(8) wf(1) mem(2) uses(2), of i]
    unfolding refs_def by blast+
  have idx3: "\<forall>i \<in> set x1 \<union> set x2 \<union> set x3. s_id i \<noteq> s_id pti \<and> s_id i \<noteq> s_id oi \<and> s_id i \<noteq> s_id itp"
    and idy: "\<forall>i \<in> set ys. s_id i \<noteq> s_id pti \<and> s_id i \<noteq> s_id oi \<and> s_id i \<noteq> s_id itp"
    and ne: "s_id pti \<noteq> s_id oi" "s_id oi \<noteq> s_id itp" "s_id pti \<noteq> s_id itp"
    using trip_ids[OF dist] by blast+
  have fr: "fresh_for ?D xs" if "set xs \<subseteq> set x1 \<union> set x2 \<union> set x3" for xs
    unfolding fresh_for_def
  proof (intro ballI conjI)
    fix i assume "i \<in> set xs"
    with that have i: "i \<in> set x1 \<union> set x2 \<union> set x3" by auto
    then have mi: "i \<in> set (insts F)" using sub by auto
    have di: "s_id i \<noteq> s_id pti" "s_id i \<noteq> s_id oi" "s_id i \<noteq> s_id itp" using idx3 i by blast+
    with g[OF mi] show "s_id i \<notin> ?D" by simp
    have "s_id pti \<notin> refs i" "s_id oi \<notin> refs i" using other[OF mi] di by blast+
    moreover have "s_id itp \<notin> refs i" using n[of i] i by auto
    ultimately show "refs i \<subseteq> - ?D" using g[OF mi] by auto
  qed
  have ysf: "\<forall>i \<in> set ys. s_id i \<notin> ?D \<and> refs i \<subseteq> insert (s_id itp) (- ?D)"
  proof (intro ballI conjI)
    fix i assume i: "i \<in> set ys"
    then have mi: "i \<in> set (insts F)" using sub by auto
    have di: "s_id i \<noteq> s_id pti" "s_id i \<noteq> s_id oi" "s_id i \<noteq> s_id itp" using idy i by blast+
    with g[OF mi] show "s_id i \<notin> ?D" by simp
    have "s_id pti \<notin> refs i" "s_id oi \<notin> refs i" using other[OF mi] di by blast+
    then show "refs i \<subseteq> insert (s_id itp) (- ?D)" using g[OF mi] by auto
  qed
  have gD: "g \<notin> {s_id pti, s_id oi, s_id itp}" using g mem by auto
  have baseD: "k \<notin> ?D" if "base = Inst k" for k
    using that nc(1) g[OF mem(1)] k(5) by (auto simp: refs_def)
  have idxD: "k \<notin> ?D" if "idx = Inst k" for k
  proof -
    have "k \<in> refs oi" using rt(5) that by (auto simp: refs_def)
    moreover have "k \<noteq> s_id pti"
    proof
      assume "k = s_id pti"
      with rt(5) that have "count_list (s_ops oi) (Inst (s_id pti)) = 2" by auto
      with count_le_uses[OF mem(2), of "Inst (s_id pti)"] rt(8) show False by simp
    qed
    ultimately show ?thesis using that nc(2) g[OF mem(2)] by auto
  qed
  let ?sub = "subst_inst (Inst (s_id itp)) (Inst g)" and ?ins = "\<lambda>i. if s_id i = s_id itp then [gep_inst g base idx, i] else [i]"
  have ins: "concat (map ?ins xs) = xs" if "s_id itp \<notin> s_id ` set xs" for xs
    using that by (induction xs) auto
  have keep: "filter (\<lambda>i. s_id i \<noteq> s_id pti \<and> s_id i \<noteq> s_id oi \<and> s_id i \<noteq> s_id itp) xs = xs" if "\<forall>i \<in> set xs. s_id i \<notin> ?D" for xs
    using that by (auto simp: filter_id_conv)
  have sx: "map ?sub xs = xs" if "set xs \<subseteq> set x1 \<union> set x2 \<union> set x3" for xs
    using fr[OF that] by (intro map_idI subst_unused) (auto simp: fresh_for_def)
  have sg: "?sub (gep_inst g base idx) = gep_inst g base idx"
    by (rule subst_unused) (use baseD idxD in \<open>auto simp: gep_inst_def refs_def\<close>)
  have Gb: "f_body G ! b = filter (\<lambda>i. s_id i \<noteq> s_id pti \<and> s_id i \<noteq> s_id oi \<and> s_id i \<noteq> s_id itp) (map ?sub (concat (map ?ins ?bb)))"
  proof -
    have "f_body G ! b = filter (\<lambda>i. s_id i \<noteq> s_id pti) (filter (\<lambda>i. s_id i \<noteq> s_id oi) (filter (\<lambda>i. s_id i \<noteq> s_id itp)
        (map ?sub (concat (map ?ins ?bb)))))"
      unfolding G bb[symmetric] using at(1) m k(5)
      by (simp add: tryReplaceRoundTrip_def replaceAllUsesWith_def map_insts_def insert_before_def del: filter_filter cong: if_cong)
    also have "\<dots> = filter (\<lambda>i. s_id i \<noteq> s_id pti \<and> s_id i \<noteq> s_id oi \<and> s_id i \<noteq> s_id itp) (map ?sub (concat (map ?ins ?bb)))"
      unfolding filter_filter by (rule filter_cong[OF refl]) blast
    finally show ?thesis .
  qed
  have xD: "\<forall>i \<in> set xs. s_id i \<notin> ?D" if "set xs \<subseteq> set x1 \<union> set x2 \<union> set x3" for xs
    using fr[OF that] by (simp add: fresh_for_def)
  have xs: "concat (map ?ins x1) = x1" "concat (map ?ins x2) = x2" "concat (map ?ins x3) = x3" "concat (map ?ins ys) = ys"
    by (rule ins, unfold image_iff, use idx3 idy in \<open>force dest: sym\<close>)+
  have kx: "filter (\<lambda>i. s_id i \<noteq> s_id pti \<and> s_id i \<noteq> s_id oi \<and> s_id i \<noteq> s_id itp) xs = xs" if "set xs \<subseteq> set x1 \<union> set x2 \<union> set x3" for xs
    by (rule keep[OF xD[OF that]])
  have ky: "filter (\<lambda>i. s_id i \<noteq> s_id pti \<and> s_id i \<noteq> s_id oi \<and> s_id i \<noteq> s_id itp) (map ?sub ys) = map ?sub ys"
    by (rule keep) (use ysf in auto)
  have sx': "map ?sub x1 = x1" "map ?sub x2 = x2" "map ?sub x3 = x3" by (rule sx, blast)+
  have kx': "filter (\<lambda>i. s_id i \<noteq> s_id pti \<and> s_id i \<noteq> s_id oi \<and> s_id i \<noteq> s_id itp) x1 = x1"
    "filter (\<lambda>i. s_id i \<noteq> s_id pti \<and> s_id i \<noteq> s_id oi \<and> s_id i \<noteq> s_id itp) x2 = x2"
    "filter (\<lambda>i. s_id i \<noteq> s_id pti \<and> s_id i \<noteq> s_id oi \<and> s_id i \<noteq> s_id itp) x3 = x3" by (rule kx, blast)+
  show body: "f_body G ! b = collapsed_block g x1 pti x2 x3 itp idx ys"
    unfolding Gb collapsed_block_def using ne gD
    by (simp add: xs sx' sg kx' ky k(5) del: filter_map) (simp add: gep_inst_def)
  have Gargs: "f_args G = f_args F"
    unfolding G using m by (simp add: tryReplaceRoundTrip_def replaceAllUsesWith_def map_insts_def insert_before_def)
  have rest: "\<forall>i \<in> set (x2 @ oi # x3 @ itp # ys). \<not> is_phi i"
  proof (rule phis_tail[of x1 pti])
    show "\<forall>i \<in> set (dropWhile is_phi ?bb). \<not> is_phi i"
      using wf(2) nth_mem[OF at(1)] bb unfolding phis_first_def by metis
    show "\<not> is_phi pti" using rt(7) by (simp add: is_phi_def)
  qed
  have rest': "\<forall>i \<in> set (x2 @ x3 @ gep_inst g base idx # map ?sub ys). \<not> is_phi i"
    using rest by (auto simp: is_phi_def gep_inst_def)
  have hd: "takeWhile is_phi ?bb = takeWhile is_phi x1" "dropWhile is_phi ?bb = dropWhile is_phi x1 @ pti # x2 @ oi # x3 @ itp # ys"
    using phis_append[of "pti # x2 @ oi # x3 @ itp # ys" x1] rest rt(7) by (auto simp: is_phi_def)
  have hd': "takeWhile is_phi (f_body G ! b) = takeWhile is_phi x1"
    "dropWhile is_phi (f_body G ! b) = dropWhile is_phi x1 @ x2 @ x3 @ gep_inst g base idx # map ?sub ys"
    unfolding body collapsed_block_def using phis_append[OF rest', of x1] k(5) by simp_all
  have px: "set (takeWhile is_phi x1) \<subseteq> set x1" "set (dropWhile is_phi x1) \<subseteq> set x1" by (auto dest: set_takeWhileD set_dropWhileD)
  have tw: "\<forall>i \<in> set (takeWhile is_phi x1). refs i \<subseteq> - ?D" using fr[of "takeWhile is_phi x1"] px(1) by (auto simp: fresh_for_def)
  show "follows (- ?D) (exec_sblock S P F prev (f_body F ! b) \<eta> m0) (exec_sblock S P G prev (f_body G ! b) \<theta> m0)"
    using phis_agree[OF env(2) Gargs env(2) tw, of P prev m0]
  proof (cases rule: option.rel_cases)
    case None
    then show ?thesis by (simp add: exec_sblock_def bb hd follows_def)
  next
    case (Some \<eta>1 \<theta>1)
    have t1: "typed_env F \<eta>1"
      by (rule phis_typed[OF wf(1) _ env(1) Some(1)]) (use px(1) sub in auto)
    have "follows (- ?D) (exec_srcs S P F prev (dropWhile is_phi x1 @ pti # x2 @ oi # x3 @ itp # ys) \<eta>1 m0)
      (exec_srcs S P G prev (dropWhile is_phi x1 @ x2 @ x3 @ gep_inst g base idx # map ?sub ys) \<theta>1 m0)"
    proof (rule follows_append)
      show "follows (- ?D) (exec_srcs S P F prev (dropWhile is_phi x1) \<eta>1 m0) (exec_srcs S P G prev (dropWhile is_phi x1) \<theta>1 m0)"
        by (rule rel_follows[OF exec_same_list[OF Gargs _ Some(3)]]) (use fr[of "dropWhile is_phi x1"] px(2) in \<open>auto simp: fresh_for_def\<close>)
      fix \<eta>2 \<theta>2 m2 assume e: "exec_srcs S P F prev (dropWhile is_phi x1) \<eta>1 m0 = Some (Next \<eta>2 m2)" and a: "agree_on (- ?D) \<eta>2 \<theta>2"
      have t2: "typed_env F \<eta>2" by (rule typed_srcs[OF wf(1) _ t1 e]) (use px(2) sub in auto)
      show "follows (- ?D) (exec_srcs S P F prev (pti # x2 @ oi # x3 @ itp # ys) \<eta>2 m2)
          (exec_srcs S P G prev (x2 @ x3 @ gep_inst g base idx # map ?sub ys) \<theta>2 m2)"
      proof (rule collapsed_exec[where okv = "typed_env F", OF Gargs rt(1) k(1,2) rt(3) k(3) rt(5) rt(7) k(4,5) refl ne gD _ _ ysf baseD _ idxD])
        show "not_computed base (x2 @ x3)" "not_computed idx x3" using nc by simp_all
        show "has_type (SPtr 0) v" if "src_val P F \<eta> base = Some v" "typed_env F \<eta>" for \<eta> v
          using typed_val[OF that(2,1)] ty(1) by simp
        show "has_type (SInt 64) v" if "src_val P F \<eta> idx = Some v" "typed_env F \<eta>" for \<eta> v
          using typed_val[OF that(2,1)] ty(2) by simp
        show "typed_env F \<eta>'" if "set xs \<subseteq> set (pti # x2 @ oi # x3)" "typed_env F \<eta>" "exec_srcs S P F prev xs \<eta> m = Some (Next \<eta>' m')" for xs \<eta> m \<eta>' m'
          by (rule typed_srcs[OF wf(1) _ that(2,3)]) (use that(1) sub in auto)
      qed (use fr[of x2] fr[of x3] t2 a in auto)
    qed
    with Some(1,2) show ?thesis unfolding bb by (simp add: exec_sblock_def hd hd')
  qed
qed

end

end
