(* ===== verification/Driver_Props.thy ===== *)
theory Driver_Props
  imports Driver_Rewrite Bpf_Regs Ref_Sem
begin

text \<open>
  Properties of the driver's rewrites of the source function.
\<close>

section \<open>Helper calls\<close>

definition fun_le :: "smodule \<Rightarrow> smodule \<Rightarrow> bool" where
  "fun_le M M' \<longleftrightarrow> (\<forall>n G. find_fun M n = Some G \<longrightarrow> find_fun M' n = Some G)"

definition helpers_typed :: "(nat \<Rightarrow> fun_ty) \<Rightarrow> smodule \<Rightarrow> bool" where
  "helpers_typed T M \<longleftrightarrow> (\<forall>h G. find_fun M (helper_symbol h) = Some G \<longrightarrow> f_type G = T h)"

lemma fun_le_refl [simp]: "fun_le M M"
  by (simp add: fun_le_def)

lemma fun_le_trans: "fun_le M M' \<Longrightarrow> fun_le M' M'' \<Longrightarrow> fun_le M M''"
  by (simp add: fun_le_def)

lemma helper_symbol_inj: "helper_symbol h = helper_symbol k \<longleftrightarrow> h = k"
  using to_string_inj by (auto simp: helper_symbol_def)

lemma find_append: "find P (xs @ ys) = (case find P xs of Some x \<Rightarrow> Some x | None \<Rightarrow> find P ys)"
  by (induction xs) auto

lemma find_fun_insert:
  "find_fun (getOrInsertFunction n t M) k = (if find_fun M n = None \<and> k = n then Some (new_declaration n t) else find_fun M k)"
  by (auto simp: getOrInsertFunction_def find_fun_def find_append new_declaration_def split: option.split)

lemma insert_helper:
  assumes "helpers_typed T M"
  shows "helpers_typed T (getOrInsertFunction (helper_symbol h) (T h) M)" "fun_le M (getOrInsertFunction (helper_symbol h) (T h) M)"
    "\<exists>G. find_fun (getOrInsertFunction (helper_symbol h) (T h) M) (helper_symbol h) = Some G"
  using assms by (auto simp: helpers_typed_def fun_le_def find_fun_insert helper_symbol_inj new_declaration_def)

definition consistent :: "(nat \<Rightarrow> fun_ty) \<Rightarrow> sinst \<Rightarrow> bool" where
  "consistent T i \<longleftrightarrow> (\<forall>h. helper_call i = Some h \<longrightarrow> call_type i = Some (T h))"

definition rewritten :: "smodule \<Rightarrow> sinst \<Rightarrow> sinst \<Rightarrow> bool" where
  "rewritten M i i' \<longleftrightarrow> (case helper_call i of None \<Rightarrow> i' = i
     | Some h \<Rightarrow> i' = i\<lparr>s_ops := butlast (s_ops i) @ [Func (helper_symbol h)]\<rparr> \<and> (\<exists>G. find_fun M (helper_symbol h) = Some G))"

lemma rewritten_mono: "fun_le M M' \<Longrightarrow> rewritten M i i' \<Longrightarrow> rewritten M' i i'"
  by (fastforce simp: rewritten_def fun_le_def split: option.splits)

lemma rewrite_call:
  assumes "helpers_typed T M" and "consistent T i" and "rewrite_helper_call i M = (i', M')"
  shows "helpers_typed T M' \<and> fun_le M M' \<and> rewritten M' i i'"
proof (cases "helper_call i")
  case None
  with assms show ?thesis by (auto simp: rewrite_helper_call_def rewritten_def)
next
  case (Some h)
  with assms(2,3) have "M' = getOrInsertFunction (helper_symbol h) (T h) M" "i' = i\<lparr>s_ops := butlast (s_ops i) @ [Func (helper_symbol h)]\<rparr>"
    by (auto simp: rewrite_helper_call_def consistent_def)
  with insert_helper[OF assms(1), of h] Some show ?thesis by (auto simp: rewritten_def)
qed

lemma rewrite_calls_ok:
  "helpers_typed T M \<Longrightarrow> \<forall>i \<in> set is. consistent T i \<Longrightarrow> rewrite_calls is M = (is', M') \<Longrightarrow>
    helpers_typed T M' \<and> fun_le M M' \<and> list_all2 (rewritten M') is is'"
proof (induction "is" arbitrary: M is')
  case (Cons i "is")
  obtain i1 M1 where a: "rewrite_helper_call i M = (i1, M1)" by (cases "rewrite_helper_call i M")
  obtain is1 M2 where b: "rewrite_calls is M1 = (is1, M2)" by (cases "rewrite_calls is M1")
  from Cons.prems(3) a b have eq: "is' = i1 # is1" "M' = M2" by simp_all
  from rewrite_call[OF Cons.prems(1) _ a] Cons.prems(2) have one: "helpers_typed T M1" "fun_le M M1" "rewritten M1 i i1" by simp_all
  from Cons.IH[OF one(1) _ b[folded eq(2)]] Cons.prems(2) eq have two: "helpers_typed T M'" "fun_le M1 M'" "list_all2 (rewritten M') is is1" by simp_all
  from two rewritten_mono[OF two(2) one(3)] fun_le_trans[OF one(2) two(2)] eq show ?case by simp
qed simp

lemma rewrite_blocks_ok:
  "helpers_typed T M \<Longrightarrow> \<forall>i \<in> set (concat bbs). consistent T i \<Longrightarrow> rewrite_blocks bbs M = (bbs', M') \<Longrightarrow>
    helpers_typed T M' \<and> fun_le M M' \<and> list_all2 (rewritten M') (concat bbs) (concat bbs')"
proof (induction bbs arbitrary: M bbs')
  case (Cons bb bbs)
  obtain bb1 M1 where a: "rewrite_calls bb M = (bb1, M1)" by (cases "rewrite_calls bb M")
  obtain bbs1 M2 where b: "rewrite_blocks bbs M1 = (bbs1, M2)" by (cases "rewrite_blocks bbs M1")
  from Cons.prems(3) a b have eq: "bbs' = bb1 # bbs1" "M' = M2" by simp_all
  from rewrite_calls_ok[OF Cons.prems(1) _ a] Cons.prems(2)
  have one: "helpers_typed T M1" "fun_le M M1" "list_all2 (rewritten M1) bb bb1" by simp_all
  from Cons.IH[OF one(1) _ b[folded eq(2)]] Cons.prems(2) eq
  have two: "helpers_typed T M'" "fun_le M1 M'" "list_all2 (rewritten M') (concat bbs) (concat bbs1)" by simp_all
  have "list_all2 (rewritten M') bb bb1" by (rule list_all2_mono[OF one(3) rewritten_mono[OF two(2)]])
  with two fun_le_trans[OF one(2) two(2)] eq show ?case by (simp add: list_all2_appendI)
qed simp

section \<open>Properties\<close>

text \<open>C23. The line map is exact after every rewrite: a debug line is in the map exactly when an instruction of
  the current function carries it, and then it is mapped to that instruction. So the lifter, which finds the
  source call of an assembly instruction by its line, never meets an instruction that was erased.\<close>

theorem line_map_exact:
  "lineMap (replaceIdentityInlineAsm (stripEmptyInlineAsm (addDebugInfo F))) l = Some n \<longleftrightarrow>
    (\<exists>i \<in> set (insts (fun_of (replaceIdentityInlineAsm (stripEmptyInlineAsm (addDebugInfo F))))). s_id i = n \<and> s_line i = Some l)"
  using lines_exact_identity[OF lines_exact_strip[OF lines_exact_addDebugInfo]] unfolding lines_exact_def by blast

definition barrier_noop :: "'m src_sem \<Rightarrow> bool" where
  "barrier_noop P \<longleftrightarrow> (\<forall>prev t a vs m. getAsmString a = '''' \<longrightarrow>
     (\<exists>x. sem_op P prev (SCall t) SVoid (vs @ [map_option (fit (SPtr 0)) (sem_val P (Asm a))]) m = Some (x, m)))"

text \<open>What LLVM's verifier guarantees: a call has a called operand, nothing reads a value of type void.\<close>

definition void_unused :: "sfunc \<Rightarrow> bool" where
  "void_unused F \<longleftrightarrow> (\<forall>i \<in> set (insts F). (isCallInst i \<longrightarrow> s_ops i \<noteq> []) \<and>
     (\<forall>j \<in> set (insts F). s_type j = SVoid \<longrightarrow> s_id j \<notin> refs i))"

lemma barrier_no_op:
  assumes "barrier_noop P" and "empty_asm i" and "s_type i = SVoid" and "s_ops i \<noteq> []"
  shows "no_op S P F i \<and> \<not> is_phi i"
proof -
  from assms(2) obtain t a where op: "s_op i = SCall t" and a: "getCalledOperand i = Asm a" "getAsmString a = ''''"
    by (auto simp: empty_asm_def split: sop.splits svalue.splits)
  have vals: "map (src_val P F \<eta>) (s_ops i) = map (src_val P F \<eta>) (butlast (s_ops i)) @ [map_option (fit (SPtr 0)) (sem_val P (Asm a))]" for \<eta>
    using a(1) assms(4) by (metis (no_types, lifting) append_butlast_last_id getCalledOperand_def list.simps(8,9) map_append src_val.simps(6) value_type.simps(6))
  have "\<exists>x. exec_src S P F prev i \<eta> m = Some (Next (\<eta>(s_id i \<mapsto> x)) m)" for prev \<eta> m
  proof -
    from assms(1) a(2) obtain x where
      "sem_op P prev (SCall t) SVoid (map (src_val P F \<eta>) (butlast (s_ops i)) @ [map_option (fit (SPtr 0)) (sem_val P (Asm a))]) m = Some (x, m)"
      unfolding barrier_noop_def by blast
    then have "exec_src S P F prev i \<eta> m = Some (Next (\<eta>(s_id i \<mapsto> fit SVoid x)) m)"
      by (simp add: exec_src_def op op_result_def byte_gep_def assms(3) vals del: map_eq_conv)
    then show ?thesis by blast
  qed
  then show ?thesis by (simp add: no_op_def is_phi_def op del: split_paired_Ex)
qed

text \<open>C24. Compiler barriers are no-ops. When an empty assembly template has no effect on the memory - it emits no
  instructions -, erasing the void calls of one keeps every run of the function: it returns the same value
  with the same memory after the same number of blocks.\<close>

theorem barriers_preserve_runs:
  assumes "barrier_noop P" and "distinct_ids (fun_of d)" and "phis_first (fun_of d)" and "void_unused (fun_of d)"
  shows "run_src n S P (fun_of (stripEmptyInlineAsm d)) prev b \<eta> m = run_src n S P (fun_of d) prev b \<eta> m"
proof (rule erased_run)
  let ?F = "fun_of d" and ?D = "set (barriers (fun_of d))"
  show "f_args (fun_of (stripEmptyInlineAsm d)) = f_args ?F"
    "f_body (fun_of (stripEmptyInlineAsm d)) = map (filter (\<lambda>i. s_id i \<notin> ?D)) (f_body ?F)"
    by (simp_all add: stripEmptyInlineAsm_def fold_erase)
  have bar: "\<exists>j \<in> set (insts ?F). s_id j = k \<and> empty_asm j \<and> s_type j = SVoid" if "k \<in> ?D" for k
    using that by (auto simp: barriers_def)
  show "\<forall>i \<in> set (insts ?F). refs i \<subseteq> - ?D \<and> (s_id i \<in> ?D \<longrightarrow> \<not> is_phi i \<and> no_op S P ?F i)"
  proof (intro ballI conjI impI)
    fix i assume i: "i \<in> set (insts ?F)"
    show "refs i \<subseteq> - ?D" using bar assms(4) i unfolding void_unused_def by blast
    assume "s_id i \<in> ?D"
    with bar obtain j where j: "j \<in> set (insts ?F)" "s_id j = s_id i" "empty_asm j" "s_type j = SVoid" by blast
    with find_inst_in[OF assms(2)] i have "j = i" by (metis option.inject)
    moreover have "s_ops i \<noteq> []" using j(3) i assms(4) \<open>j = i\<close> by (auto simp: void_unused_def empty_asm_def)
    ultimately show "\<not> is_phi i" "no_op S P ?F i" using barrier_no_op[OF assms(1) j(3,4), of S ?F] by auto
  qed
qed (use assms(3) in simp_all)

definition demo_asm :: inline_asm where
  "demo_asm = \<lparr>getAsmString = '''', ParseConstraints = []\<rparr>"

definition mk_sinst :: "nat \<Rightarrow> stype \<Rightarrow> sop \<Rightarrow> svalue list \<Rightarrow> sinst" where
  "mk_sinst n t op vs = \<lparr>s_id = n, s_type = t, s_op = op, s_ops = vs, s_name = '''', s_volatile = False, s_atomic = False,
     s_line = None, s_ret_attrs = [], s_tail = False\<rparr>"

definition mk_sfunc :: "sblock list \<Rightarrow> sfunc" where
  "mk_sfunc body = \<lparr>f_name = ''f'', f_linkage = ExternalLinkage, f_cc = C_CC,
     f_type = \<lparr>ft_ret = SInt 64, ft_params = [SInt 64], ft_vararg = False\<rparr>, f_args = [\<lparr>a_type = SInt 64, a_attrs = []\<rparr>],
     f_ret_attrs = [], f_personality = False, f_intrinsic = False, f_constrained_fp = False, f_body = body\<rparr>"

definition demo_barrier :: driver where
  "demo_barrier = addDebugInfo (mk_sfunc [[mk_sinst 0 SVoid (SCall \<lparr>ft_ret = SVoid, ft_params = [], ft_vararg = False\<rparr>) [Asm demo_asm],
     mk_sinst 1 (SInt 64) (SBin Add) [Param 0, IntC 64 1], mk_sinst 2 SVoid SRet [Inst 1]]])"

definition demo_src_sem :: "bytemem src_sem" where
  "demo_src_sem = \<lparr>sem_val = (\<lambda>_. Some 7), sem_op = (\<lambda>_ op t vs m. case op of SCall _ \<Rightarrow> Some (0, m) | _ \<Rightarrow> None)\<rparr>"

theorem barriers_preserve_runs_witness:
  "\<forall>m. run_src 1 ref_sem demo_src_sem (fun_of (stripEmptyInlineAsm demo_barrier)) 0 0 Map.empty m = Some (Some (SInt 64, 8), m)"
proof
  fix m :: bytemem
  let ?F = "fun_of demo_barrier"
  have noop: "barrier_noop demo_src_sem" by (simp add: barrier_noop_def demo_src_sem_def)
  have body: "f_body ?F = [[(mk_sinst 0 SVoid (SCall \<lparr>ft_ret = SVoid, ft_params = [], ft_vararg = False\<rparr>) [Asm demo_asm])\<lparr>s_line := Some 0\<rparr>,
     (mk_sinst 1 (SInt 64) (SBin Add) [Param 0, IntC 64 1])\<lparr>s_line := Some 1\<rparr>, (mk_sinst 2 SVoid SRet [Inst 1])\<lparr>s_line := Some 2\<rparr>]]"
    and args: "f_args ?F = [\<lparr>a_type = SInt 64, a_attrs = []\<rparr>]"
    by (simp_all add: demo_barrier_def addDebugInfo_def mk_sfunc_def)
  have wf: "distinct_ids ?F" "phis_first ?F" "void_unused ?F"
    by (auto simp: distinct_ids_def phis_first_def void_unused_def insts_def body mk_sinst_def is_phi_def refs_def)
  have "run_src 1 ref_sem demo_src_sem ?F 0 0 Map.empty m = Some (Some (SInt 64, 8), m)"
    by (simp add: body args exec_sblock_def is_phi_def mk_sinst_def exec_src_def op_result_def byte_gep_def demo_src_sem_def binary_def
        width_of_def fit_def ref_sem_def ref_bin_def take_bit_eq_mod)
  with barriers_preserve_runs[OF noop wf, of 1 ref_sem 0 0 Map.empty m] show "run_src 1 ref_sem demo_src_sem (fun_of (stripEmptyInlineAsm demo_barrier)) 0 0 Map.empty m = Some (Some (SInt 64, 8), m)"
    by simp
qed

lemma block_ids:
  assumes "distinct_ids F" and "b < length (f_body F)" and "f_body F ! b = xs @ ci # ys"
  shows "s_id ci \<notin> s_id ` set xs" "s_id ci \<notin> s_id ` set ys"
proof -
  have "distinct (map s_id (f_body F ! b))"
    using assms(1,2) by (auto simp: distinct_ids_def insts_def map_concat distinct_concat_iff)
  with assms(3) show "s_id ci \<notin> s_id ` set xs" "s_id ci \<notin> s_id ` set ys" by auto
qed

lemma phis_split:
  assumes "\<forall>i \<in> set (dropWhile is_phi (xs @ ci # ys)). \<not> is_phi i" and "\<not> is_phi ci" and "\<forall>i \<in> set ys. is_phi (f i) = is_phi i"
  shows "takeWhile is_phi (xs @ ci # ys) = takeWhile is_phi xs" "dropWhile is_phi (xs @ ci # ys) = dropWhile is_phi xs @ ci # ys"
    "takeWhile is_phi (xs @ map f ys) = takeWhile is_phi xs" "dropWhile is_phi (xs @ map f ys) = dropWhile is_phi xs @ map f ys"
proof -
  show d: "dropWhile is_phi (xs @ ci # ys) = dropWhile is_phi xs @ ci # ys" "takeWhile is_phi (xs @ ci # ys) = takeWhile is_phi xs"
    using assms(2) by (induction xs) auto
  have "\<forall>i \<in> set (map f ys). \<not> is_phi i" using assms(1,3) d(1) by auto
  from phis_append[OF this] show "takeWhile is_phi (xs @ map f ys) = takeWhile is_phi xs"
    "dropWhile is_phi (xs @ map f ys) = dropWhile is_phi xs @ map f ys" by simp_all
qed

text \<open>The execution of a block in which a value that is always equal to another is replaced and erased.\<close>

lemma replaced_block_exec:
  assumes G: "f_args G = f_args F" and bb: "\<forall>i \<in> set (dropWhile is_phi (xs @ ci # ys)). \<not> is_phi i" "\<not> is_phi ci"
    and ids: "n \<notin> s_id ` set xs" "n \<notin> s_id ` set ys" and refs: "\<forall>i \<in> set xs. n \<notin> refs i"
    and w: "w \<noteq> Inst n" "\<forall>k. w = Inst k \<longrightarrow> k \<notin> s_id ` set ys"
    and ci: "\<And>\<eta> m r. exec_src S P F prev ci \<eta> m = Some r \<Longrightarrow> \<exists>x. src_val P F \<eta> w = Some x \<and> r = Next (\<eta>(n \<mapsto> x)) m"
    and ag: "agree_on (- {n}) \<eta> \<theta>" and run: "exec_sblock S P F prev (xs @ ci # ys) \<eta> m = Some f"
  shows "\<exists>g. exec_sblock S P G prev (xs @ map (subst_inst (Inst n) w) ys) \<theta> m = Some g \<and> flow_rel (- {n}) id f g"
proof -
  have sub_phi: "\<forall>i \<in> set ys. is_phi (subst_inst (Inst n) w i) = is_phi i" by (simp add: is_phi_def)
  note parts = phis_split[OF bb sub_phi]
  let ?ps = "takeWhile is_phi xs" and ?rest = "dropWhile is_phi xs"
  have px: "\<forall>i \<in> set ?ps. refs i \<subseteq> - {n}" "\<forall>i \<in> set ?rest. refs i \<subseteq> - {n} \<and> s_id i \<notin> {n}"
    using refs ids(1) by (auto dest!: set_takeWhileD set_dropWhileD)
  from run parts(1,2) obtain \<eta>1 where p1: "exec_phis P F prev ?ps \<eta> \<eta> m = Some \<eta>1"
    and r1: "exec_srcs S P F prev (?rest @ ci # ys) \<eta>1 m = Some f"
    by (auto simp: exec_sblock_def split: option.splits)
  from phis_agree[OF ag G ag px(1), of P prev m] p1 obtain \<theta>1 where
    p2: "exec_phis P G prev ?ps \<theta> \<theta> m = Some \<theta>1" and a1: "agree_on (- {n}) \<eta>1 \<theta>1"
    by (auto elim: option.rel_cases)
  have g: "exec_sblock S P G prev (xs @ map (subst_inst (Inst n) w) ys) \<theta> m =
      exec_srcs S P G prev (?rest @ map (subst_inst (Inst n) w) ys) \<theta>1 m"
    using parts(3,4) p2 by (simp add: exec_sblock_def)
  from exec_same_list[OF G px(2) a1, of S P prev m] show ?thesis
  proof (cases rule: option.rel_cases)
    case None
    with r1 show ?thesis by (simp add: exec_srcs_append)
  next
    case (Some f1 g1)
    show ?thesis
    proof (cases "\<exists>\<eta>2 m2. f1 = Next \<eta>2 m2")
      case False
      with Some r1 show ?thesis unfolding g by (cases f1; cases g1) (auto simp: exec_srcs_append)
    next
      case True
      then obtain \<eta>2 m2 \<theta>2 where n: "f1 = Next \<eta>2 m2" "g1 = Next \<theta>2 m2" "agree_on (- {n}) \<eta>2 \<theta>2"
        using Some(3) by (cases g1) auto
      with r1 Some(1) have r2: "exec_srcs S P F prev (ci # ys) \<eta>2 m2 = Some f" by (simp add: exec_srcs_append)
      then obtain r where r: "exec_src S P F prev ci \<eta>2 m2 = Some r" by (cases "exec_src S P F prev ci \<eta>2 m2") auto
      from ci[OF r] obtain x where x: "src_val P F \<eta>2 w = Some x" "r = Next (\<eta>2(n \<mapsto> x)) m2" by blast
      from r2 r x(2) have r3: "exec_srcs S P F prev ys (\<eta>2(n \<mapsto> x)) m2 = Some f" by simp
      have "src_val P F (\<eta>2(n \<mapsto> x)) w = src_val P F \<eta>2 w" using w(1) by (intro src_val_cong) auto
      then have eq: "(\<eta>2(n \<mapsto> x)) n = src_val P F (\<eta>2(n \<mapsto> x)) w" using x(1) by simp
      have ag2: "agree_on (- {n}) (\<eta>2(n \<mapsto> x)) \<theta>2" using n(3) by (simp add: agree_on_def)
      have "\<forall>i \<in> set ys. s_id i \<noteq> n \<and> (\<forall>k. w = Inst k \<longrightarrow> s_id i \<noteq> k)" using ids(2) w(2) by auto
      from subst_exec[OF G w(1) this eq ag2, of S prev m2] r3 Some(2) n(2) show ?thesis
        unfolding g by (auto simp: exec_srcs_append elim: option.rel_cases)
    qed
  qed
qed


definition demo_tied :: inline_asm where
  "demo_tied = \<lparr>getAsmString = '''', ParseConstraints = [\<lparr>c_type = isOutput, c_indirect = False, MatchingInput = 1\<rparr>,
     \<lparr>c_type = isInput, c_indirect = False, MatchingInput = -1\<rparr>, \<lparr>c_type = isClobber, c_indirect = False, MatchingInput = -1\<rparr>]\<rparr>"

definition demo_tied_call :: sinst where
  "demo_tied_call = mk_sinst 0 (SInt 64) (SCall \<lparr>ft_ret = SInt 64, ft_params = [SInt 64], ft_vararg = False\<rparr>) [Param 0, Asm demo_tied]"

definition demo_identity :: driver where
  "demo_identity = \<lparr>fun_of = mk_sfunc [[demo_tied_call, mk_sinst 1 (SInt 64) (SBin Add) [Inst 0, IntC 64 1], mk_sinst 2 SVoid SRet [Inst 1]]],
     lineMap = Map.empty\<rparr>"

definition first_operand_sem :: "bytemem src_sem" where
  "first_operand_sem = \<lparr>sem_val = (\<lambda>_. Some 7), sem_op = (\<lambda>_ op t vs m. case (op, vs) of (SCall _, Some (_, x) # _) \<Rightarrow> Some (x, m) | _ \<Rightarrow> None)\<rparr>"


text \<open>C26. Helper calls by number. After the rewrite every call whose callee was the constant \<open>h\<close> calls, with the
  same arguments, a declaration of the module whose name is the one the lifter expects at a \<open>call h\<close>
  instruction (\<open>bpf2llvm::doHelperCall\<close>), provided the call sites of one helper agree on its type and no
  function of another type has that name; other instructions are not touched.\<close>

theorem helper_calls_named:
  assumes "\<forall>i \<in> set (insts F). consistent T i" and "helpers_typed T M" and "rewriteHelperCallsByNumber F M = (F', M')"
  shows "list_all2 (\<lambda>i i'. case helper_call i of None \<Rightarrow> i' = i
     | Some h \<Rightarrow> s_id i' = s_id i \<and> call_args i' = call_args i \<and>
         (\<exists>G. called_function M' i' = Some G \<and> f_name G = helper_name (int h) \<and> f_type G = T h)) (insts F) (insts F')"
proof -
  obtain body where b: "rewrite_blocks (f_body F) M = (body, M')" "F' = F\<lparr>f_body := body\<rparr>"
    using assms(3) by (auto simp: rewriteHelperCallsByNumber_def split: prod.splits)
  from rewrite_blocks_ok[OF assms(2) _ b(1)] assms(1)
  have ok: "helpers_typed T M'" "list_all2 (rewritten M') (insts F) (insts F')" by (simp_all add: insts_def b(2))
  show ?thesis
  proof (rule list.rel_mono_strong[OF ok(2)])
    fix i i' assume i: "i \<in> set (insts F)" and r: "rewritten M' i i'"
    show "case helper_call i of None \<Rightarrow> i' = i
      | Some h \<Rightarrow> s_id i' = s_id i \<and> call_args i' = call_args i \<and>
          (\<exists>G. called_function M' i' = Some G \<and> f_name G = helper_name (int h) \<and> f_type G = T h)"
    proof (cases "helper_call i")
      case (Some h)
      with r obtain G where i': "i' = i\<lparr>s_ops := butlast (s_ops i) @ [Func (helper_symbol h)]\<rparr>" and G: "find_fun M' (helper_symbol h) = Some G"
        by (auto simp: rewritten_def)
      from Some have call: "isCallInst i" by (auto simp: helper_call_def split: if_splits)
      then obtain t where t: "s_op i = SCall t" by (auto split: sop.splits)
      have "T h = t" using assms(1) i Some t by (auto simp: consistent_def)
      moreover have "f_type G = T h" using ok(1) G by (auto simp: helpers_typed_def)
      moreover have "f_name G = helper_symbol h" using G by (auto simp: find_fun_def find_Some_iff)
      ultimately show ?thesis
        using Some i' G t by (simp add: call_args_def called_function_def getCalledOperand_def helper_symbol_def helper_name_def)
    qed (use r in \<open>simp add: rewritten_def\<close>)
  qed
qed

definition demo_helper_fun :: sfunc where
  "demo_helper_fun = mk_sfunc [[mk_sinst 0 (SInt 64) (SCall \<lparr>ft_ret = SInt 64, ft_params = [], ft_vararg = False\<rparr>) [IntToPtrC (IntC 64 5)],
     mk_sinst 1 SVoid SRet [Inst 0]]]"

theorem helper_calls_named_witness:
  "\<exists>G. called_function (snd (rewriteHelperCallsByNumber demo_helper_fun \<lparr>m_globals = [], m_funs = []\<rparr>))
     (hd (insts (fst (rewriteHelperCallsByNumber demo_helper_fun \<lparr>m_globals = [], m_funs = []\<rparr>)))) = Some G \<and> f_name G = ''__bpf_helper_5''"
proof -
  let ?M = "\<lparr>m_globals = [], m_funs = []\<rparr>"
  let ?r = "rewriteHelperCallsByNumber demo_helper_fun ?M"
  have ins: "insts demo_helper_fun = [mk_sinst 0 (SInt 64) (SCall \<lparr>ft_ret = SInt 64, ft_params = [], ft_vararg = False\<rparr>) [IntToPtrC (IntC 64 5)],
     mk_sinst 1 SVoid SRet [Inst 0]]" by (simp add: demo_helper_fun_def mk_sfunc_def insts_def)
  have five: "helper_call (mk_sinst 0 (SInt 64) (SCall t) [IntToPtrC (IntC 64 5)]) = Some 5" for t
    by (simp add: helper_call_def mk_sinst_def getCalledOperand_def sgn_of_def signed_take_bit_eq_if_positive take_bit_eq_mod bit_iff_odd)
  have "\<forall>i \<in> set (insts demo_helper_fun). consistent (\<lambda>_. \<lparr>ft_ret = SInt 64, ft_params = [], ft_vararg = False\<rparr>) i"
    by (simp add: ins consistent_def mk_sinst_def helper_call_def)
  from helper_calls_named[OF this, of ?M "fst ?r" "snd ?r"]
  have "\<exists>G. called_function (snd ?r) (hd (insts (fst ?r))) = Some G \<and> f_name G = helper_name (int 5)"
    by (auto simp: ins five helpers_typed_def find_fun_def list_all2_Cons1)
  moreover have "helper_name (int 5) = ''__bpf_helper_5''"
    by (simp add: helper_name_def to_string.simps[of 5] digit_char_def)
  ultimately show ?thesis by simp
qed

end
