(* ===== verification/Round_Trip_Props.thy ===== *)
theory Round_Trip_Props
  imports Round_Trip Driver_Props
begin

text \<open>
  The property of the collapse of pointer-to-integer round trips in the lifted function.
\<close>


definition demo_trip :: sfunc where
  "demo_trip = (mk_sfunc [[mk_sinst 0 (SInt 64) SPtrToInt [Param 0], mk_sinst 1 (SInt 64) (SBin Add) [Inst 0, Param 1],
     mk_sinst 2 (SPtr 0) SIntToPtr [Inst 1], mk_sinst 3 SVoid SRet [Inst 2]]])
     \<lparr>f_args := [\<lparr>a_type = SPtr 0, a_attrs = []\<rparr>, \<lparr>a_type = SInt 64, a_attrs = []\<rparr>]\<rparr>"

definition address_sem :: "bytemem src_sem" where
  "address_sem = \<lparr>sem_val = (\<lambda>v. if v = Param 0 then Some 4096 else Some (-8)), sem_op = (\<lambda>_ _ _ _ _. None)\<rparr>"


end
