(* ===== verification/Stack_Objects.thy ===== *)
theory Stack_Objects
  imports Round_Trip Slots
begin

text \<open>
  The per-object stack rewrite of the driver (\<open>rewriteStackObjects\<close> in \<open>bpf-tv.cpp\<close>): every use of the lifted
  stack block is classified, the addresses that fall into a frame slot become plans, and if every use is
  classified the plans are applied: one alloca per slot replaces the slot's bytes in the block. LLVM's
  \<open>accumulateConstantOffset\<close>, \<open>getUnderlyingObject\<close> and \<open>getKnownAlignment\<close> are parameters.
\<close>

section \<open>The stack block and the slots\<close>

definition is_stack :: "smodule \<Rightarrow> sinst \<Rightarrow> bool" where
  "is_stack M i \<longleftrightarrow> prefix ''stack'' (s_name i) \<and> (case s_op i of
     SAlloca _ _ \<Rightarrow> True
   | SCall _ \<Rightarrow> (case called_function M i of Some G \<Rightarrow> f_name G = ''myalloc'' | None \<Rightarrow> False)
   | _ \<Rightarrow> False)"

definition stack_block :: "smodule \<Rightarrow> sfunc \<Rightarrow> nat option" where
  "stack_block M F = (case f_body F of [] \<Rightarrow> None | bb # _ \<Rightarrow> map_option s_id (find (is_stack M) bb))"

definition frame_base :: int where
  "frame_base = StackFrameTopOffset"

definition in_slot :: "int \<Rightarrow> StackSlot \<Rightarrow> bool" where
  "in_slot c s \<longleftrightarrow> frame_base + offset s \<le> c \<and> c < frame_base + offset s + size s"

text \<open>A slot is known by its place in the list, as the code knows it by its address.\<close>

definition slotAt :: "StackSlot list \<Rightarrow> int \<Rightarrow> nat option" where
  "slotAt fs c = find (\<lambda>k. in_slot c (fs ! k)) [0..<length fs]"

section \<open>Plans\<close>

record gep_plan =
  gp_inst :: nat
  gp_slot :: nat
  gp_rel :: int
  gp_var :: "svalue option"

record int_plan =
  ip_inst :: nat
  ip_slot :: nat
  ip_rel :: int

record plans =
  gepPlans :: "gep_plan list"
  intPlans :: "int_plan list"

datatype classified = Bail string | Plans plans

text \<open>What the classifiers read: the function, the slots and \<open>accumulateConstantOffset\<close>. A classifier has no result
  only if it runs out of fuel.\<close>

record frame_ctx =
  fx_fun :: sfunc
  fx_slots :: "StackSlot list"
  fx_gep :: "sinst \<Rightarrow> int option"

type_synonym classifier = "plans \<Rightarrow> classified option"

fun all_users :: "(sinst \<Rightarrow> classifier) \<Rightarrow> sinst list \<Rightarrow> classifier" where
  "all_users f [] ps = Some (Plans ps)"
| "all_users f (u # us) ps = (case f u ps of Some (Plans ps') \<Rightarrow> all_users f us ps' | r \<Rightarrow> r)"

definition bail :: "string \<Rightarrow> classifier" where
  "bail why ps = Some (Bail why)"

definition harmless :: classifier where
  "harmless ps = Some (Plans ps)"

definition rel_in :: "frame_ctx \<Rightarrow> nat \<Rightarrow> int \<Rightarrow> int" where
  "rel_in E k tot = tot - (frame_base + offset (fx_slots E ! k))"

definition plan_gep :: "frame_ctx \<Rightarrow> sinst \<Rightarrow> nat \<Rightarrow> int \<Rightarrow> svalue option \<Rightarrow> classifier" where
  "plan_gep E u k tot var ps = Some (Plans (ps\<lparr>gepPlans := gepPlans ps @
     [\<lparr>gp_inst = s_id u, gp_slot = k, gp_rel = rel_in E k tot, gp_var = var\<rparr>]\<rparr>))"

definition plan_int :: "frame_ctx \<Rightarrow> sinst \<Rightarrow> nat \<Rightarrow> int \<Rightarrow> classifier" where
  "plan_int E u k tot ps = Some (Plans (ps\<lparr>intPlans := intPlans ps @
     [\<lparr>ip_inst = s_id u, ip_slot = k, ip_rel = rel_in E k tot\<rparr>]\<rparr>))"

section \<open>Classification\<close>

fun int_const :: "svalue \<Rightarrow> int option" where
  "int_const (IntC w x) = Some (sgn_of w x)"
| "int_const _ = None"

text \<open>The constant and the other operand of an addition.\<close>

definition const_add :: "sinst \<Rightarrow> (int \<times> svalue) option" where
  "const_add i = (case s_ops i of
     [x, y] \<Rightarrow> (case int_const y of Some k \<Rightarrow> Some (k, x) | None \<Rightarrow> map_option (\<lambda>k. (k, y)) (int_const x))
   | _ \<Rightarrow> None)"

definition variable_index :: "sfunc \<Rightarrow> svalue \<Rightarrow> (int \<times> svalue) option" where
  "variable_index F idx = (case idx of
     Inst n \<Rightarrow> (case find_inst F n of
        Some bo \<Rightarrow> if s_op bo = SBin Add then const_add bo else None
      | None \<Rightarrow> None)
   | _ \<Rightarrow> None)"

definition classify_gep :: "(svalue \<Rightarrow> int \<Rightarrow> classifier) \<Rightarrow> frame_ctx \<Rightarrow> int \<Rightarrow> sinst \<Rightarrow> stype \<Rightarrow> classifier" where
  "classify_gep ptr E c u t = (case fx_gep E u of
     Some off \<Rightarrow> (case slotAt (fx_slots E) (c + off) of
         Some k \<Rightarrow> plan_gep E u k (c + off) None
       | None \<Rightarrow> ptr (Inst (s_id u)) (c + off))
   | None \<Rightarrow> if length (s_ops u) \<noteq> 2 \<or> t \<noteq> SInt 8 then bail ''non-canonical variable-index gep''
       else (case variable_index (fx_fun E) (s_ops u ! 1) of
           None \<Rightarrow> bail ''variable-index gep without constant base''
         | Some (x, var) \<Rightarrow> (case slotAt (fx_slots E) (c + x) of
               None \<Rightarrow> bail ''variable-index gep base outside slots''
             | Some k \<Rightarrow> plan_gep E u k (c + x) (Some var))))"

definition classify_addr :: "(svalue \<Rightarrow> int \<Rightarrow> classifier) \<Rightarrow> frame_ctx \<Rightarrow> sinst \<Rightarrow> int \<Rightarrow> classifier" where
  "classify_addr ptr E i tot = (case slotAt (fx_slots E) tot of
     Some k \<Rightarrow> plan_int E i k tot
   | None \<Rightarrow> if s_op i = SIntToPtr then ptr (Inst (s_id i)) tot
       else all_users (\<lambda>u. case s_op u of
           SIntToPtr \<Rightarrow> ptr (Inst (s_id u)) tot
         | SICmp _ \<Rightarrow> harmless
         | _ \<Rightarrow> bail ''residual integer address user'') (users (fx_fun E) (Inst (s_id i))))"

definition classify_int_user :: "(svalue \<Rightarrow> int \<Rightarrow> classifier) \<Rightarrow> frame_ctx \<Rightarrow> int \<Rightarrow> sinst \<Rightarrow> classifier" where
  "classify_int_user ptr E c u = (case s_op u of
     SBin b \<Rightarrow> if b \<noteq> Add then bail ''non-add arithmetic on frame address''
       else (case const_add u of
           None \<Rightarrow> bail ''add of frame address with non-constant''
         | Some (k, _) \<Rightarrow> classify_addr ptr E u (c + k))
   | SIntToPtr \<Rightarrow> classify_addr ptr E u c
   | SICmp _ \<Rightarrow> harmless
   | _ \<Rightarrow> bail ''frame-address integer user'')"

definition classifyIntUses :: "(svalue \<Rightarrow> int \<Rightarrow> classifier) \<Rightarrow> frame_ctx \<Rightarrow> sinst \<Rightarrow> int \<Rightarrow> classifier" where
  "classifyIntUses ptr E pti c = all_users (classify_int_user ptr E c) (users (fx_fun E) (Inst (s_id pti)))"

definition classify_user :: "(svalue \<Rightarrow> int \<Rightarrow> classifier) \<Rightarrow> frame_ctx \<Rightarrow> svalue \<Rightarrow> int \<Rightarrow> sinst \<Rightarrow> classifier" where
  "classify_user ptr E p c u = (case s_op u of
     SGEP t \<Rightarrow> classify_gep ptr E c u t
   | SPtrToInt \<Rightarrow> classifyIntUses ptr E u c
   | SLoad \<Rightarrow> if slotAt (fx_slots E) c \<noteq> None then bail ''direct access at a slot-covered base'' else harmless
   | SStore \<Rightarrow> if s_ops u ! 1 = p \<and> slotAt (fx_slots E) c = None then harmless
       else bail ''residual frame pointer stored as data''
   | SCall _ \<Rightarrow> harmless
   | SInvoke _ \<Rightarrow> harmless
   | SICmp _ \<Rightarrow> harmless
   | _ \<Rightarrow> bail ''residual pointer user'')"

fun classifyPtr :: "nat \<Rightarrow> frame_ctx \<Rightarrow> svalue \<Rightarrow> int \<Rightarrow> classifier" where
  "classifyPtr 0 E p c ps = None"
| "classifyPtr (Suc n) E p c ps = all_users (classify_user (classifyPtr n E) E p c) (users (fx_fun E) p) ps"

section \<open>Application\<close>

text \<open>The function, the alloca of each referenced slot, the alignments of allocas and accesses and the next free
  number.\<close>

record split =
  sp_fun :: sfunc
  sp_objs :: "nat \<rightharpoonup> nat"
  sp_align :: "nat \<Rightarrow> nat"
  sp_next :: nat

text \<open>\<open>std::countr_zero\<close> of a \<open>uint64_t\<close>.\<close>

fun countr_zero :: "nat \<Rightarrow> nat" where
  "countr_zero n = (if n = 0 then 64 else if odd n then 0 else Suc (countr_zero (n div 2)))"

declare countr_zero.simps [simp del]

definition frame_align :: "int \<Rightarrow> nat" where
  "frame_align off = 2 ^ min (countr_zero (nat (frame_base + off))) 4"

definition obj_inst :: "nat \<Rightarrow> StackSlot \<Rightarrow> sinst" where
  "obj_inst n s = \<lparr>s_id = n, s_type = SPtr 0, s_op = SAlloca True (Some (nat (size s))), s_ops = [IntC 64 (size s)],
     s_name = ''bpftv_stkobj'', s_volatile = False, s_atomic = False, s_line = None, s_ret_attrs = [], s_tail = False\<rparr>"

definition insert_entry :: "sinst \<Rightarrow> sfunc \<Rightarrow> sfunc" where
  "insert_entry j F = F\<lparr>f_body := (case f_body F of
     [] \<Rightarrow> [] | bb # bbs \<Rightarrow> (takeWhile is_phi bb @ j # dropWhile is_phi bb) # bbs)\<rparr>"

definition objFor :: "StackSlot list \<Rightarrow> nat \<Rightarrow> split \<Rightarrow> nat \<times> split" where
  "objFor fs k st = (case sp_objs st k of
     Some n \<Rightarrow> (n, st)
   | None \<Rightarrow> let n = sp_next st; s = fs ! k in
       (n, st\<lparr>sp_fun := insert_entry (obj_inst n s) (sp_fun st), sp_objs := (sp_objs st)(k \<mapsto> n),
          sp_align := (sp_align st)(n := max (align s) (frame_align (offset s))), sp_next := Suc n\<rparr>))"

definition add_inst :: "nat \<Rightarrow> svalue \<Rightarrow> int \<Rightarrow> sinst" where
  "add_inst n v x = \<lparr>s_id = n, s_type = SInt 64, s_op = SBin Add, s_ops = [v, IntC 64 x], s_name = '''', s_volatile = False,
     s_atomic = False, s_line = None, s_ret_attrs = [], s_tail = False\<rparr>"

definition pti_inst :: "nat \<Rightarrow> svalue \<Rightarrow> sinst" where
  "pti_inst n v = \<lparr>s_id = n, s_type = SInt 64, s_op = SPtrToInt, s_ops = [v], s_name = '''', s_volatile = False,
     s_atomic = False, s_line = None, s_ret_attrs = [], s_tail = False\<rparr>"

text \<open>The instructions that take the place of a planned one, from two free numbers and the object.\<close>

definition gep_code :: "nat \<Rightarrow> nat \<Rightarrow> gep_plan \<Rightarrow> sinst list" where
  "gep_code n obj p = (case gp_var p of
     None \<Rightarrow> [gep_inst (Suc n) (Inst obj) (IntC 64 (gp_rel p))]
   | Some v \<Rightarrow> [add_inst n v (gp_rel p), gep_inst (Suc n) (Inst obj) (Inst n)])"

definition insert_all :: "nat \<Rightarrow> sinst list \<Rightarrow> sfunc \<Rightarrow> sfunc" where
  "insert_all n js F = fold (insert_before n) js F"

definition apply_gep :: "StackSlot list \<Rightarrow> gep_plan \<Rightarrow> split \<Rightarrow> split" where
  "apply_gep fs p st = (case objFor fs (gp_slot p) st of (obj, st') \<Rightarrow> let n = sp_next st' in
     st'\<lparr>sp_fun := eraseFromParent (gp_inst p) (replaceAllUsesWith (Inst (gp_inst p)) (Inst (Suc n))
           (insert_all (gp_inst p) (gep_code n obj p) (sp_fun st'))), sp_next := n + 2\<rparr>)"

definition int_code :: "nat \<Rightarrow> nat \<Rightarrow> int_plan \<Rightarrow> bool \<Rightarrow> sinst list" where
  "int_code n obj p itp = gep_inst n (Inst obj) (IntC 64 (ip_rel p)) # (if itp then [] else [pti_inst (Suc n) (Inst n)])"

definition fold_itp :: "nat \<Rightarrow> sinst \<Rightarrow> sfunc \<Rightarrow> sfunc" where
  "fold_itp np iu F = (if s_op iu = SIntToPtr then eraseFromParent (s_id iu) (replaceAllUsesWith (Inst (s_id iu)) (Inst np) F) else F)"

definition apply_int :: "StackSlot list \<Rightarrow> int_plan \<Rightarrow> split \<Rightarrow> split" where
  "apply_int fs p st = (case objFor fs (ip_slot p) st of (obj, st') \<Rightarrow>
     let n = sp_next st'; F = sp_fun st';
       itp = (case find_inst F (ip_inst p) of Some i \<Rightarrow> s_op i = SIntToPtr | None \<Rightarrow> False);
       F1 = insert_all (ip_inst p) (int_code n obj p itp) F;
       F2 = (if itp then replaceAllUsesWith (Inst (ip_inst p)) (Inst n) F1
         else replaceAllUsesWith (Inst (ip_inst p)) (Inst (Suc n)) (fold (fold_itp n) (users F1 (Inst (ip_inst p))) F1)) in
     st'\<lparr>sp_fun := eraseFromParent (ip_inst p) F2, sp_next := n + 2\<rparr>)"

text \<open>The clamp of the alignments of loads and stores.\<close>

definition access_ptr :: "sinst \<Rightarrow> svalue option" where
  "access_ptr i = (case s_op i of SLoad \<Rightarrow> Some (s_ops i ! 0) | SStore \<Rightarrow> Some (s_ops i ! 1) | _ \<Rightarrow> None)"

definition is_object :: "sfunc \<Rightarrow> svalue \<Rightarrow> bool" where
  "is_object F v = (case v of
     Inst n \<Rightarrow> (case find_inst F n of
        Some i \<Rightarrow> (case s_op i of SAlloca _ _ \<Rightarrow> prefix ''bpftv_stkobj'' (s_name i) | _ \<Rightarrow> False)
      | None \<Rightarrow> False)
   | _ \<Rightarrow> False)"

definition clamp_inst :: "(sfunc \<Rightarrow> svalue \<Rightarrow> svalue) \<Rightarrow> (sfunc \<Rightarrow> svalue \<Rightarrow> nat) \<Rightarrow> sfunc \<Rightarrow> sinst \<Rightarrow> (nat \<Rightarrow> nat) \<Rightarrow> nat \<Rightarrow> nat" where
  "clamp_inst getUnderlyingObject getKnownAlignment F i al = (case access_ptr i of
     None \<Rightarrow> al
   | Some p \<Rightarrow> if \<not> is_object F (getUnderlyingObject F p) then al
       else if getKnownAlignment F p < al (s_id i) then al(s_id i := getKnownAlignment F p) else al)"

definition rewriteStackObjects :: "(sinst \<Rightarrow> int option) \<Rightarrow> (sfunc \<Rightarrow> svalue \<Rightarrow> svalue) \<Rightarrow> (sfunc \<Rightarrow> svalue \<Rightarrow> nat)
    \<Rightarrow> smodule \<Rightarrow> StackSlot list \<Rightarrow> (nat \<Rightarrow> nat) \<Rightarrow> sfunc \<Rightarrow> (bool \<times> sfunc \<times> (nat \<Rightarrow> nat)) option" where
  "rewriteStackObjects gep getUnderlyingObject getKnownAlignment M fs al F = (if fs = [] then Some (True, F, al)
     else (case stack_block M F of
         None \<Rightarrow> Some (True, F, al)
       | Some root \<Rightarrow>
           (case classifyPtr (Suc (length (insts F))) \<lparr>fx_fun = F, fx_slots = fs, fx_gep = gep\<rparr> (Inst root) 0
                   \<lparr>gepPlans = [], intPlans = []\<rparr> of
              None \<Rightarrow> None
            | Some (Bail why) \<Rightarrow> Some (False, F, al)
            | Some (Plans ps) \<Rightarrow>
                let st = fold (apply_int fs) (intPlans ps) (fold (apply_gep fs) (gepPlans ps)
                    \<lparr>sp_fun = F, sp_objs = Map.empty, sp_align = al, sp_next = next_id F\<rparr>);
                  G = sp_fun st in
                Some (True, G, fold (clamp_inst getUnderlyingObject getKnownAlignment G) (insts G) (sp_align st)))))"

end
