(* ===== verification/Stack_Sound.thy ===== *)
theory Stack_Sound
  imports Stack_Objects
begin

text \<open>
  Soundness of the classification of \<open>rewriteStackObjects\<close>: the addresses it tracks are the addresses the function
  computes, every plan lies in its slot, every use of an address it tracks is accounted for, and it ends.
\<close>

section \<open>Loops over users\<close>

lemma all_users_invariant:
  assumes "all_users f us ps = Some (Plans ps')" and "I ps"
    and "\<And>u q q'. u \<in> set us \<Longrightarrow> I q \<Longrightarrow> f u q = Some (Plans q') \<Longrightarrow> I q'"
  shows "I ps'"
  using assms
proof (induction us arbitrary: ps)
  case (Cons u us)
  then obtain q where q: "f u ps = Some (Plans q)" "all_users f us q = Some (Plans ps')"
    by (auto split: option.splits classified.splits)
  show ?case by (rule Cons.IH[OF q(2)]) (use Cons.prems q(1) in auto)
qed simp

lemma all_users_total:
  assumes "\<And>u q. u \<in> set us \<Longrightarrow> f u q \<noteq> None"
  shows "all_users f us ps \<noteq> None"
  using assms
proof (induction us arbitrary: ps)
  case (Cons u us)
  obtain r where "f u ps = Some r" using Cons.prems[of u ps] by auto
  moreover have "all_users f us q \<noteq> None" for q by (rule Cons.IH) (use Cons.prems in simp)
  ultimately show ?case by (simp split: classified.split)
qed simp

text \<open>Plans are only added.\<close>

definition more_plans :: "plans \<Rightarrow> plans \<Rightarrow> bool" where
  "more_plans p q \<longleftrightarrow> set (gepPlans p) \<subseteq> set (gepPlans q) \<and> set (intPlans p) \<subseteq> set (intPlans q)"

lemma more_plans_refl [simp]: "more_plans p p"
  by (simp add: more_plans_def)

lemma more_plans_trans: "more_plans p q \<Longrightarrow> more_plans q r \<Longrightarrow> more_plans p r"
  by (auto simp: more_plans_def)

text \<open>A classifier only adds plans, and each of them is one of those expected.\<close>

definition adds :: "(gep_plan \<Rightarrow> bool) \<Rightarrow> (int_plan \<Rightarrow> bool) \<Rightarrow> classifier \<Rightarrow> bool" where
  "adds A B f \<longleftrightarrow> (\<forall>p q. f p = Some (Plans q) \<longrightarrow> more_plans p q \<and>
     (\<forall>x \<in> set (gepPlans q). x \<in> set (gepPlans p) \<or> A x) \<and> (\<forall>x \<in> set (intPlans q). x \<in> set (intPlans p) \<or> B x))"

lemma adds_bail [simp]: "adds A B (bail why)"
  by (simp add: adds_def bail_def)

lemma adds_harmless [simp]: "adds A B harmless"
  by (simp add: adds_def harmless_def)

lemma adds_plan_gep: "A \<lparr>gp_inst = s_id u, gp_slot = k, gp_rel = rel_in E k c, gp_var = v\<rparr> \<Longrightarrow> adds A B (plan_gep E u k c v)"
  by (auto simp: adds_def plan_gep_def more_plans_def)

lemma adds_plan_int: "B \<lparr>ip_inst = s_id u, ip_slot = k, ip_rel = rel_in E k c\<rparr> \<Longrightarrow> adds A B (plan_int E u k c)"
  by (auto simp: adds_def plan_int_def more_plans_def)

lemma adds_all_users:
  assumes "\<And>u. u \<in> set us \<Longrightarrow> adds A B (f u)"
  shows "adds A B (all_users f us)"
  unfolding adds_def
proof (intro allI impI)
  fix p q assume r: "all_users f us p = Some (Plans q)"
  show "more_plans p q \<and> (\<forall>x \<in> set (gepPlans q). x \<in> set (gepPlans p) \<or> A x) \<and> (\<forall>x \<in> set (intPlans q). x \<in> set (intPlans p) \<or> B x)"
  proof (rule all_users_invariant[OF r])
    fix u q q' assume "u \<in> set us" and I: "more_plans p q \<and> (\<forall>x \<in> set (gepPlans q). x \<in> set (gepPlans p) \<or> A x) \<and> (\<forall>x \<in> set (intPlans q). x \<in> set (intPlans p) \<or> B x)"
      and f: "f u q = Some (Plans q')"
    from assms[OF \<open>u \<in> set us\<close>] f have "more_plans q q' \<and> (\<forall>x \<in> set (gepPlans q'). x \<in> set (gepPlans q) \<or> A x) \<and> (\<forall>x \<in> set (intPlans q'). x \<in> set (intPlans q) \<or> B x)"
      unfolding adds_def by blast
    with I show "more_plans p q' \<and> (\<forall>x \<in> set (gepPlans q'). x \<in> set (gepPlans p) \<or> A x) \<and> (\<forall>x \<in> set (intPlans q'). x \<in> set (intPlans p) \<or> B x)"
      using more_plans_trans by blast
  qed simp
qed

section \<open>Slots\<close>

lemma slotAt_Some:
  "slotAt fs c = Some k \<Longrightarrow> k < length fs \<and> in_slot c (fs ! k)"
  by (auto simp: slotAt_def find_Some_iff)

lemma slotAt_None: "slotAt fs c = None \<longleftrightarrow> (\<forall>s \<in> set fs. \<not> in_slot c s)"
  by (auto simp: slotAt_def find_None_iff all_set_conv_all_nth)

section \<open>Address arithmetic\<close>

text \<open>What LLVM's verifier gives for the address arithmetic of 64-bit code.\<close>

definition addr_typed :: "sfunc \<Rightarrow> sinst \<Rightarrow> bool" where
  "addr_typed F i \<longleftrightarrow> (case s_op i of
     SGEP _ \<Rightarrow> s_type i = SPtr 0 \<and> (case s_ops i of [] \<Rightarrow> False
       | b # idx \<Rightarrow> isPointerTy (value_type F b) \<and> list_all (\<lambda>x. value_type F x = SInt 64) idx)
   | SPtrToInt \<Rightarrow> s_type i = SInt 64 \<and> (case s_ops i of [b] \<Rightarrow> isPointerTy (value_type F b) | _ \<Rightarrow> False)
   | SIntToPtr \<Rightarrow> s_type i = SPtr 0 \<and> (case s_ops i of [x] \<Rightarrow> value_type F x = SInt 64 | _ \<Rightarrow> False)
   | SBin _ \<Rightarrow> (case s_ops i of [x, y] \<Rightarrow> value_type F x = s_type i \<and> value_type F y = s_type i | _ \<Rightarrow> False)
   | _ \<Rightarrow> True)"

definition frame_ok :: "sfunc \<Rightarrow> nat \<Rightarrow> bool" where
  "frame_ok F root \<longleftrightarrow> distinct_ids F \<and> list_all (addr_typed F) (insts F) \<and> value_type F (Inst root) = SPtr 0"

text \<open>The values that are a constant offset from the stack block.\<close>

inductive frame_val :: "frame_ctx \<Rightarrow> nat \<Rightarrow> nat \<Rightarrow> int \<Rightarrow> bool" for E root where
  root: "frame_val E root root 0"
| gep: "frame_val E root n c \<Longrightarrow> u \<in> set (insts (fx_fun E)) \<Longrightarrow> s_op u = SGEP t \<Longrightarrow> s_ops u = Inst n # rest \<Longrightarrow>
    fx_gep E u = Some off \<Longrightarrow> frame_val E root (s_id u) (c + off)"
| pti: "frame_val E root n c \<Longrightarrow> u \<in> set (insts (fx_fun E)) \<Longrightarrow> s_op u = SPtrToInt \<Longrightarrow> s_ops u = [Inst n] \<Longrightarrow>
    frame_val E root (s_id u) c"
| add: "frame_val E root n c \<Longrightarrow> u \<in> set (insts (fx_fun E)) \<Longrightarrow> s_op u = SBin Add \<Longrightarrow> value_type (fx_fun E) (Inst n) = SInt 64 \<Longrightarrow>
    const_add u = Some (k, Inst n) \<Longrightarrow> frame_val E root (s_id u) (c + k)"
| itp: "frame_val E root n c \<Longrightarrow> u \<in> set (insts (fx_fun E)) \<Longrightarrow> s_op u = SIntToPtr \<Longrightarrow> s_ops u = [Inst n] \<Longrightarrow>
    frame_val E root (s_id u) c"

lemma frame_ok_inst:
  assumes "frame_ok F root" and "u \<in> set (insts F)"
  shows "addr_typed F u" "value_type F (Inst (s_id u)) = s_type u" "find_inst F (s_id u) = Some u"
  using assms find_inst_in[of F u] by (auto simp: frame_ok_def list_all_iff)

lemma const_add_cases:
  assumes "const_add i = Some (k, v)"
  obtains w x where "k = sgn_of w x" "s_ops i = [v, IntC w x] \<or> s_ops i = [IntC w x, v]"
  using assms by (auto simp: const_add_def split: list.splits option.splits elim!: int_const.elims)

section \<open>What the plans say\<close>

definition placed_in :: "frame_ctx \<Rightarrow> nat \<Rightarrow> int \<Rightarrow> bool" where
  "placed_in E k rel \<longleftrightarrow> k < length (fx_slots E) \<and> 0 \<le> rel \<and> rel < size (fx_slots E ! k)"

definition object_offset :: "frame_ctx \<Rightarrow> nat \<Rightarrow> int" where
  "object_offset E k = frame_base + offset (fx_slots E ! k)"

definition gep_plan_ok :: "frame_ctx \<Rightarrow> nat \<Rightarrow> gep_plan \<Rightarrow> bool" where
  "gep_plan_ok E root p \<longleftrightarrow> placed_in E (gp_slot p) (gp_rel p) \<and> (\<exists>u t n c rest. u \<in> set (insts (fx_fun E)) \<and> s_id u = gp_inst p
     \<and> s_op u = SGEP t \<and> s_ops u = Inst n # rest \<and> frame_val E root n c \<and> (case gp_var p of
         None \<Rightarrow> \<exists>off. fx_gep E u = Some off \<and> c + off = object_offset E (gp_slot p) + gp_rel p
       | Some v \<Rightarrow> t = SInt 8 \<and> (\<exists>idx x. rest = [idx] \<and> variable_index (fx_fun E) idx = Some (x, v)
           \<and> c + x = object_offset E (gp_slot p) + gp_rel p)))"

definition int_plan_ok :: "frame_ctx \<Rightarrow> nat \<Rightarrow> int_plan \<Rightarrow> bool" where
  "int_plan_ok E root p \<longleftrightarrow> placed_in E (ip_slot p) (ip_rel p) \<and> (\<exists>u. u \<in> set (insts (fx_fun E)) \<and> s_id u = ip_inst p
     \<and> (s_op u = SBin Add \<or> s_op u = SIntToPtr) \<and> frame_val E root (ip_inst p) (object_offset E (ip_slot p) + ip_rel p))"

abbreviation sound :: "frame_ctx \<Rightarrow> nat \<Rightarrow> classifier \<Rightarrow> bool" where
  "sound E root \<equiv> adds (gep_plan_ok E root) (int_plan_ok E root)"

lemma slot_rel:
  assumes "slotAt (fx_slots E) c = Some k"
  shows "placed_in E k (rel_in E k c)" "object_offset E k + rel_in E k c = c"
  using slotAt_Some[OF assms] by (auto simp: placed_in_def in_slot_def rel_in_def object_offset_def)

text \<open>A classifier of pointers is sound on frame pointers.\<close>

definition ptr_sound :: "frame_ctx \<Rightarrow> nat \<Rightarrow> (svalue \<Rightarrow> int \<Rightarrow> classifier) \<Rightarrow> bool" where
  "ptr_sound E root ptr \<longleftrightarrow> (\<forall>n c. frame_val E root n c \<longrightarrow> value_type (fx_fun E) (Inst n) = SPtr 0 \<longrightarrow> sound E root (ptr (Inst n) c))"

section \<open>Soundness of the classifiers\<close>

lemma sound_addr:
  assumes wf: "frame_ok (fx_fun E) root" and ptr: "ptr_sound E root ptr"
    and i: "i \<in> set (insts (fx_fun E))" "s_op i = SBin Add \<and> s_type i = SInt 64 \<or> s_op i = SIntToPtr" "frame_val E root (s_id i) c"
  shows "sound E root (classify_addr ptr E i c)"
proof (cases "slotAt (fx_slots E) c")
  case (Some k)
  have "int_plan_ok E root \<lparr>ip_inst = s_id i, ip_slot = k, ip_rel = rel_in E k c\<rparr>"
    using slot_rel[OF Some] i by (auto simp: int_plan_ok_def)
  then show ?thesis using Some by (simp add: classify_addr_def adds_plan_int)
next
  case None
  have sub: "sound E root (ptr (Inst (s_id u)) c)" if "u \<in> set (users (fx_fun E) (Inst (s_id i)))" "s_op u = SIntToPtr" for u
  proof -
    have u: "u \<in> set (insts (fx_fun E))" "Inst (s_id i) \<in> set (s_ops u)" using that(1) set_users by auto
    with frame_ok_inst[OF wf u(1)] that(2) have "s_ops u = [Inst (s_id i)]" "value_type (fx_fun E) (Inst (s_id u)) = SPtr 0"
      by (auto simp: addr_typed_def split: list.splits)
    with frame_val.itp[OF i(3) u(1) that(2)] ptr show ?thesis unfolding ptr_sound_def by blast
  qed
  show ?thesis
  proof (cases "s_op i = SIntToPtr")
    case True
    with frame_ok_inst[OF wf i(1)] have "value_type (fx_fun E) (Inst (s_id i)) = SPtr 0" by (simp add: addr_typed_def)
    with ptr i(3) True None show ?thesis unfolding ptr_sound_def classify_addr_def by simp
  next
    case False
    with None sub show ?thesis
      by (auto simp: classify_addr_def intro!: adds_all_users split: sop.splits)
  qed
qed

lemma sound_int_uses:
  assumes wf: "frame_ok (fx_fun E) root" and ptr: "ptr_sound E root ptr"
    and i: "i \<in> set (insts (fx_fun E))" "s_op i = SPtrToInt" "frame_val E root (s_id i) c"
  shows "sound E root (classifyIntUses ptr E i c)"
  unfolding classifyIntUses_def
proof (rule adds_all_users)
  fix u assume "u \<in> set (users (fx_fun E) (Inst (s_id i)))"
  then have u: "u \<in> set (insts (fx_fun E))" "Inst (s_id i) \<in> set (s_ops u)" using set_users by auto
  have ti: "value_type (fx_fun E) (Inst (s_id i)) = SInt 64" using frame_ok_inst[OF wf i(1)] i(2) by (simp add: addr_typed_def)
  note ut = frame_ok_inst(1)[OF wf u(1)]
  show "sound E root (classify_int_user ptr E c u)"
  proof (cases "s_op u")
    case (SBin b)
    show ?thesis
    proof (cases "b = Add \<and> const_add u \<noteq> None")
      case True
      then obtain k v where ca: "const_add u = Some (k, v)" by auto
      then have "v = Inst (s_id i)" using u(2) by (elim const_add_cases) auto
      moreover have "s_type u = SInt 64" using ut SBin u(2) ti by (auto simp: addr_typed_def split: list.splits)
      ultimately have "sound E root (classify_addr ptr E u (c + k))"
        using ca SBin True frame_val.add[OF i(3) u(1) _ ti, of k] by (intro sound_addr[OF wf ptr u(1)]) auto
      then show ?thesis using SBin True ca by (simp add: classify_int_user_def)
    qed (use SBin in \<open>auto simp: classify_int_user_def split: option.split\<close>)
  next
    case SIntToPtr
    with ut u(2) have "s_ops u = [Inst (s_id i)]" by (auto simp: addr_typed_def split: list.splits)
    from sound_addr[OF wf ptr u(1) _ frame_val.itp[OF i(3) u(1) SIntToPtr this]] SIntToPtr show ?thesis
      by (simp add: classify_int_user_def)
  qed (simp_all add: classify_int_user_def)
qed

lemma sound_gep:
  assumes wf: "frame_ok (fx_fun E) root" and ptr: "ptr_sound E root ptr" and n: "frame_val E root n c"
    and u: "u \<in> set (insts (fx_fun E))" "s_op u = SGEP t" "s_ops u = Inst n # rest"
  shows "sound E root (classify_gep ptr E c u t)"
proof (cases "fx_gep E u")
  case (Some off)
  show ?thesis
  proof (cases "slotAt (fx_slots E) (c + off)")
    case None
    have "value_type (fx_fun E) (Inst (s_id u)) = SPtr 0" using frame_ok_inst[OF wf u(1)] u(2) by (simp add: addr_typed_def)
    with frame_val.gep[OF n u Some] ptr show ?thesis unfolding ptr_sound_def classify_gep_def by (simp add: Some None)
  next
    case k: (Some k)
    have "gep_plan_ok E root \<lparr>gp_inst = s_id u, gp_slot = k, gp_rel = rel_in E k (c + off), gp_var = None\<rparr>"
      unfolding gep_plan_ok_def using slot_rel[OF k] n u Some by fastforce
    then show ?thesis by (simp add: classify_gep_def Some k adds_plan_gep)
  qed
next
  case None
  show ?thesis
  proof (cases "length (s_ops u) = 2 \<and> t = SInt 8 \<and> variable_index (fx_fun E) (s_ops u ! 1) \<noteq> None")
    case False
    then show ?thesis using None by (auto simp: classify_gep_def split: option.split)
  next
    case True
    then obtain idx x v where idx: "rest = [idx]" and x: "variable_index (fx_fun E) idx = Some (x, v)"
      using u(3) by (cases rest) auto
    show ?thesis
    proof (cases "slotAt (fx_slots E) (c + x)")
      case k: (Some k)
      have "gep_plan_ok E root \<lparr>gp_inst = s_id u, gp_slot = k, gp_rel = rel_in E k (c + x), gp_var = Some v\<rparr>"
        unfolding gep_plan_ok_def using slot_rel[OF k] n u idx x True by fastforce
      then show ?thesis using True idx x u(3) by (simp add: classify_gep_def None k adds_plan_gep)
    qed (use True idx x u(3) None in \<open>simp add: classify_gep_def\<close>)
  qed
qed

lemma sound_ptr:
  assumes wf: "frame_ok (fx_fun E) root"
  shows "ptr_sound E root (classifyPtr n E)"
proof (induction n)
  case 0
  show ?case by (simp add: ptr_sound_def adds_def)
next
  case (Suc m)
  show ?case
    unfolding ptr_sound_def
  proof (intro allI impI)
    fix n c assume n: "frame_val E root n c" "value_type (fx_fun E) (Inst n) = SPtr 0"
    have "sound E root (classify_user (classifyPtr m E) E (Inst n) c u)" if "u \<in> set (users (fx_fun E) (Inst n))" for u
    proof -
      have u: "u \<in> set (insts (fx_fun E))" "Inst n \<in> set (s_ops u)" using that set_users by auto
      note ut = frame_ok_inst(1)[OF wf u(1)]
      show ?thesis
      proof (cases "s_op u")
        case (SGEP t)
        with ut u(2) n(2) obtain rest where "s_ops u = Inst n # rest"
          by (auto simp: addr_typed_def list_all_iff split: list.splits)
        from sound_gep[OF wf Suc n(1) u(1) SGEP this] SGEP show ?thesis by (simp add: classify_user_def)
      next
        case SPtrToInt
        with ut u(2) have "s_ops u = [Inst n]" by (auto simp: addr_typed_def split: list.splits)
        from sound_int_uses[OF wf Suc u(1) SPtrToInt frame_val.pti[OF n(1) u(1) SPtrToInt this]] SPtrToInt show ?thesis
          by (simp add: classify_user_def)
      qed (simp_all add: classify_user_def)
    qed
    from adds_all_users[OF this] have "sound E root (all_users (classify_user (classifyPtr m E) E (Inst n) c) (users (fx_fun E) (Inst n)))" .
    then show "sound E root (classifyPtr (Suc m) E (Inst n) c)" by (simp add: adds_def)
  qed
qed

theorem classified_plans:
  assumes "frame_ok (fx_fun E) root" and "classifyPtr n E (Inst root) 0 \<lparr>gepPlans = [], intPlans = []\<rparr> = Some (Plans ps)"
  shows "\<forall>p \<in> set (gepPlans ps). gep_plan_ok E root p" "\<forall>p \<in> set (intPlans ps). int_plan_ok E root p"
proof -
  have "sound E root (classifyPtr n E (Inst root) 0)"
    using sound_ptr[OF assms(1), of n] frame_val.root assms(1) unfolding ptr_sound_def frame_ok_def by blast
  with assms(2) show "\<forall>p \<in> set (gepPlans ps). gep_plan_ok E root p" "\<forall>p \<in> set (intPlans ps). int_plan_ok E root p"
    by (fastforce simp: adds_def)+
qed

section \<open>The addresses in an execution\<close>

text \<open>Every value at a constant offset from the stack block is that address, while the block is at \<open>A\<close>.\<close>

definition frame_env :: "frame_ctx \<Rightarrow> nat \<Rightarrow> int \<Rightarrow> venv \<Rightarrow> bool" where
  "frame_env E root A \<eta> \<longleftrightarrow> (\<forall>n c v. frame_val E root n c \<longrightarrow> \<eta> n = Some v \<longrightarrow>
     v = (value_type (fx_fun E) (Inst n), take_bit 64 (A + c)))"

text \<open>What LLVM documents of \<open>accumulateConstantOffset\<close>: a \<open>getelementptr\<close> with a constant offset adds it to its base.\<close>

definition gep_offsets_ok :: "'m llvm_sem \<Rightarrow> 'm src_sem \<Rightarrow> frame_ctx \<Rightarrow> bool" where
  "gep_offsets_ok S P E \<longleftrightarrow> (\<forall>u \<in> set (insts (fx_fun E)). \<forall>t off prev \<eta> m x m'. s_op u = SGEP t \<longrightarrow> fx_gep E u = Some off \<longrightarrow>
     op_result S P prev (SGEP t) (s_type u) (map (src_val P (fx_fun E) \<eta>) (s_ops u)) m = Some (x, m') \<longrightarrow>
     m' = m \<and> (\<exists>ty b. src_val P (fx_fun E) \<eta> (hd (s_ops u)) = Some (ty, b) \<and> take_bit 64 x = take_bit 64 (b + off)))"

lemma sgn64: "take_bit 64 (sgn_of 64 i) = take_bit 64 i"
  by (simp add: sgn_of_def take_bit_signed_take_bit)

lemma take_shift: "take_bit 64 (take_bit 64 (A + c) + k) = take_bit 64 (A + (c + k :: int))"
  by (simp add: take_bit_eq_mod mod_add_left_eq add.assoc)

lemma add_sgn64: "take_bit 64 (take_bit 64 (A + c) + take_bit 64 x) = take_bit 64 (A + (c + sgn_of 64 x))"
proof -
  have "take_bit 64 (take_bit 64 (A + c) + take_bit 64 x) = take_bit 64 (take_bit 64 (A + c) + take_bit 64 (sgn_of 64 x))"
    by (simp only: sgn64)
  also have "\<dots> = take_bit 64 (take_bit 64 (A + c) + sgn_of 64 x)" by (simp add: take_bit_eq_mod mod_add_right_eq)
  finally show ?thesis by (simp only: take_shift)
qed

context langref
begin

lemma frame_add:
  assumes "s_op u = SBin Add" and "s_type u = SInt 64" and "const_add u = Some (k, Inst n)"
    and "addr_typed F u" and "\<eta> n = Some (SInt 64, take_bit 64 (A + c))"
  shows "exec_src S P F prev u \<eta> m = Some (Next (\<eta>(s_id u \<mapsto> (SInt 64, take_bit 64 (A + (c + k))))) m)"
proof -
  obtain w x where k: "k = sgn_of w x" and ops: "s_ops u = [Inst n, IntC w x] \<or> s_ops u = [IntC w x, Inst n]"
    using const_add_cases[OF assms(3)] by blast
  have w: "w = 64" using assms(1,2,4) ops by (auto simp: addr_typed_def)
  let ?a = "take_bit 64 (A + c)" and ?x = "take_bit 64 x"
  have sum: "sem_bin S Add 64 ?a ?x = Some (take_bit 64 (?a + ?x))" "sem_bin S Add 64 ?x ?a = Some (take_bit 64 (?x + ?a))"
    by (rule bin_add; simp)+
  have eq: "take_bit 64 (?x + ?a) = take_bit 64 (A + (c + sgn_of 64 x))" "take_bit 64 (?a + ?x) = take_bit 64 (A + (c + sgn_of 64 x))"
    using add_sgn64[of A c x] by (simp_all only: add.commute)
  show ?thesis
    using ops
  proof
    assume "s_ops u = [Inst n, IntC w x]"
    then show ?thesis using assms(1,2,5) sum eq k w
      by (simp add: exec_src_def op_result_def binary_def width_of_def fit_def)
  next
    assume "s_ops u = [IntC w x, Inst n]"
    then show ?thesis using assms(1,2,5) sum eq k w
      by (simp add: exec_src_def op_result_def binary_def width_of_def fit_def)
  qed
qed

lemma frame_new_value:
  assumes wf: "frame_ok (fx_fun E) root" and offs: "gep_offsets_ok S P E" and env: "frame_env E root A \<eta>"
    and u: "u \<in> set (insts (fx_fun E))" "s_id u \<noteq> root" "frame_val E root (s_id u) c"
    and ex: "exec_src S P (fx_fun E) prev u \<eta> m = Some (Next \<eta>' m')"
  shows "\<eta>' (s_id u) = Some (s_type u, take_bit 64 (A + c)) \<and> m' = m"
proof -
  have same: "u' = u" if "u' \<in> set (insts (fx_fun E))" "s_id u' = s_id u" for u'
    using frame_ok_inst(3)[OF wf that(1)] frame_ok_inst(3)[OF wf u(1)] unfolding that(2) by (metis option.inject)
  have old: "v = (value_type (fx_fun E) (Inst n), take_bit 64 (A + c0))" if "frame_val E root n c0" "\<eta> n = Some v" for n c0 v
    using env that unfolding frame_env_def by blast
  note ut = frame_ok_inst(1)[OF wf u(1)]
  from u(3) show ?thesis
  proof (cases rule: frame_val.cases)
    case root
    with u(2) show ?thesis by simp
  next
    case (gep n c0 u' t rest off)
    have "u' = u" by (rule same[OF gep(4) gep(1)[symmetric]])
    with gep have g: "s_op u = SGEP t" "s_ops u = Inst n # rest" "fx_gep E u = Some off" "c = c0 + off" by simp_all
    from ex g(1) obtain x where r: "op_result S P prev (SGEP t) (s_type u) (map (src_val P (fx_fun E) \<eta>) (s_ops u)) m = Some (x, m')"
      and \<eta>': "\<eta>' = \<eta>(s_id u \<mapsto> fit (s_type u) x)" by (auto simp: exec_src_def Let_def)
    from offs u(1) g(1,3) r have "m' = m \<and> (\<exists>ty b. src_val P (fx_fun E) \<eta> (hd (s_ops u)) = Some (ty, b) \<and> take_bit 64 x = take_bit 64 (b + off))"
      unfolding gep_offsets_ok_def by blast
    with g(2) obtain ty b where m': "m' = m" and b: "\<eta> n = Some (ty, b)" "take_bit 64 x = take_bit 64 (b + off)" by auto
    from old[OF gep(3) b(1)] have "b = take_bit 64 (A + c0)" by simp
    then have "take_bit 64 x = take_bit 64 (take_bit 64 (A + c0) + off)" using b(2) by simp
    also have "\<dots> = take_bit 64 (A + c)" unfolding g(4) by (rule take_shift)
    finally show ?thesis using ut g(1) \<eta>' m' by (simp add: fit_def addr_typed_def)
  next
    case (pti n u')
    have "u' = u" by (rule same[OF pti(3) pti(1)[symmetric]])
    with pti have p: "s_op u = SPtrToInt" "s_ops u = [Inst n]" by simp_all
    with ex obtain v where v: "\<eta> n = Some v" by (cases "\<eta> n") (auto simp: exec_src_def op_result_def unary_def)
    from old[OF pti(2) v] ut p ex v show ?thesis
      by (auto simp: exec_src_def op_result_def unary_def fit_def addr_typed_def width_of_def)
  next
    case (add n c0 u' k)
    have "u' = u" by (rule same[OF add(4) add(1)[symmetric]])
    with add have a: "s_op u = SBin Add" "const_add u = Some (k, Inst n)" "c = c0 + k" by simp_all
    obtain w x where ops: "s_ops u = [Inst n, IntC w x] \<or> s_ops u = [IntC w x, Inst n]" using const_add_cases[OF a(2)] by blast
    have ty: "s_type u = SInt 64" using ut a(1) ops add(6) by (auto simp: addr_typed_def)
    have "\<eta> n \<noteq> None" using ex a(1) ops by (cases "\<eta> n") (auto simp: exec_src_def op_result_def binary_def fit_def)
    then obtain v where v: "\<eta> n = Some v" by blast
    with old[OF add(3) v] add(6) have n: "\<eta> n = Some (SInt 64, take_bit 64 (A + c0))" by simp
    have "exec_src S P (fx_fun E) prev u \<eta> m = Some (Next (\<eta>(s_id u \<mapsto> (SInt 64, take_bit 64 (A + (c0 + k))))) m)"
      by (rule frame_add[where \<eta> = \<eta>, OF a(1) ty a(2) ut n])
    with ex ty a(3) show ?thesis by auto
  next
    case (itp n u')
    have "u' = u" by (rule same[OF itp(3) itp(1)[symmetric]])
    with itp have p: "s_op u = SIntToPtr" "s_ops u = [Inst n]" by simp_all
    with ex obtain v where v: "\<eta> n = Some v" by (cases "\<eta> n") (auto simp: exec_src_def op_result_def unary_def)
    from old[OF itp(2) v] ut p ex v show ?thesis
      by (auto simp: exec_src_def op_result_def unary_def fit_def addr_typed_def width_of_def)
  qed
qed

lemma frame_step:
  assumes "frame_ok (fx_fun E) root" and "gep_offsets_ok S P E" and "frame_env E root A \<eta>"
    and "u \<in> set (insts (fx_fun E))" and "s_id u \<noteq> root" and "exec_src S P (fx_fun E) prev u \<eta> m = Some (Next \<eta>' m')"
  shows "frame_env E root A \<eta>'"
  unfolding frame_env_def
proof (intro allI impI)
  fix n c v assume f: "frame_val E root n c" and v: "\<eta>' n = Some v"
  show "v = (value_type (fx_fun E) (Inst n), take_bit 64 (A + c))"
  proof (cases "n = s_id u")
    case True
    with frame_new_value[OF assms(1-5) _ assms(6)] f v frame_ok_inst(2)[OF assms(1,4)] show ?thesis by simp
  next
    case False
    with exec_src_Next[OF assms(6)] v have "\<eta> n = Some v" by auto
    with assms(3) f show ?thesis unfolding frame_env_def by blast
  qed
qed

lemma frame_srcs:
  assumes "frame_ok (fx_fun E) root" and "gep_offsets_ok S P E"
  shows "frame_env E root A \<eta> \<Longrightarrow> set xs \<subseteq> set (insts (fx_fun E)) \<Longrightarrow> root \<notin> s_id ` set xs \<Longrightarrow>
    exec_srcs S P (fx_fun E) prev xs \<eta> m = Some (Next \<eta>' m') \<Longrightarrow> frame_env E root A \<eta>'"
proof (induction xs arbitrary: \<eta> m)
  case (Cons u xs)
  then obtain \<eta>1 m1 where s: "exec_src S P (fx_fun E) prev u \<eta> m = Some (Next \<eta>1 m1)" "exec_srcs S P (fx_fun E) prev xs \<eta>1 m1 = Some (Next \<eta>' m')"
    by (auto split: option.splits flow.splits)
  have "frame_env E root A \<eta>1" by (rule frame_step[OF assms Cons.prems(1) _ _ s(1)]) (use Cons.prems in auto)
  from Cons.IH[OF this _ _ s(2)] Cons.prems show ?case by auto
qed simp

end

end
