(* ===== verification/Stack_Cover.thy ===== *)
theory Stack_Cover
  imports Stack_Sound
begin

text \<open>
  Completeness and termination of the classification of \<open>rewriteStackObjects\<close>: after a success every use of
  an address it tracks is accounted for, and with enough fuel it has a result.
\<close>

section \<open>What a success says of every user\<close>

abbreviation grows :: "classifier \<Rightarrow> bool" where
  "grows \<equiv> adds (\<lambda>_. True) (\<lambda>_. True)"

lemma growsD: "grows f \<Longrightarrow> f p = Some (Plans q) \<Longrightarrow> more_plans p q"
  by (simp add: adds_def)

lemma all_users_each:
  assumes "all_users f us ps = Some (Plans ps')" and "u \<in> set us"
    and grow: "\<And>u. grows (f u)"
  shows "\<exists>p q. f u p = Some (Plans q) \<and> more_plans q ps'"
  using assms(1,2)
proof (induction us arbitrary: ps)
  case (Cons w us)
  then obtain q where q: "f w ps = Some (Plans q)" "all_users f us q = Some (Plans ps')"
    by (auto split: option.splits classified.splits)
  have more: "more_plans q ps'"
  proof (rule all_users_invariant[OF q(2)])
    fix x p r assume "x \<in> set us" "more_plans q p" "f x p = Some (Plans r)"
    with growsD[OF grow] more_plans_trans show "more_plans q r" by blast
  qed simp
  show ?case
  proof (cases "u = w")
    case False
    with Cons.prems(2) have "u \<in> set us" by simp
    from Cons.IH[OF q(2) this] show ?thesis .
  qed (use q(1) more in blast)
qed simp

lemma grows_addr: "(\<And>v c. grows (ptr v c)) \<Longrightarrow> grows (classify_addr ptr E i c)"
  by (auto simp: classify_addr_def intro!: adds_all_users adds_plan_int split: option.split sop.split)

lemma grows_int_user: "(\<And>v c. grows (ptr v c)) \<Longrightarrow> grows (classify_int_user ptr E c u)"
  by (auto simp: classify_int_user_def intro!: grows_addr split: option.split sop.split)

lemma grows_int_uses: "(\<And>v c. grows (ptr v c)) \<Longrightarrow> grows (classifyIntUses ptr E i c)"
  unfolding classifyIntUses_def by (intro adds_all_users grows_int_user)

lemma grows_gep: "(\<And>v c. grows (ptr v c)) \<Longrightarrow> grows (classify_gep ptr E c u t)"
  by (auto simp: classify_gep_def intro!: adds_plan_gep split: option.split)

lemma grows_user: "(\<And>v c. grows (ptr v c)) \<Longrightarrow> grows (classify_user ptr E p c u)"
  by (auto simp: classify_user_def intro!: grows_gep grows_int_uses split: sop.split)

lemma grows_ptr: "grows (classifyPtr n E p c)"
proof (induction n arbitrary: p c)
  case 0
  show ?case by (simp add: adds_def)
next
  case (Suc n)
  have "grows (all_users (classify_user (classifyPtr n E) E p c) (users (fx_fun E) p))"
    by (intro adds_all_users grows_user Suc)
  then show ?case by (simp add: adds_def)
qed

section \<open>The residual addresses\<close>

text \<open>The addresses that stay in the block: those reached from it without entering a slot; an integer address is
  reached through a \<open>ptrtoint\<close>, and through additions of a constant to one.\<close>

inductive residual :: "frame_ctx \<Rightarrow> nat \<Rightarrow> nat \<Rightarrow> int \<Rightarrow> bool"
  and int_base :: "frame_ctx \<Rightarrow> nat \<Rightarrow> sinst \<Rightarrow> int \<Rightarrow> bool"
  and int_addr :: "frame_ctx \<Rightarrow> nat \<Rightarrow> sinst \<Rightarrow> int \<Rightarrow> bool"
  for E root where
  block: "residual E root root 0"
| gep: "residual E root n c \<Longrightarrow> u \<in> set (users (fx_fun E) (Inst n)) \<Longrightarrow> s_op u = SGEP t \<Longrightarrow> fx_gep E u = Some off \<Longrightarrow>
    slotAt (fx_slots E) (c + off) = None \<Longrightarrow> residual E root (s_id u) (c + off)"
| base: "residual E root n c \<Longrightarrow> u \<in> set (users (fx_fun E) (Inst n)) \<Longrightarrow> s_op u = SPtrToInt \<Longrightarrow> int_base E root u c"
| sum: "int_base E root i c \<Longrightarrow> u \<in> set (users (fx_fun E) (Inst (s_id i))) \<Longrightarrow> s_op u = SBin Add \<Longrightarrow> const_add u = Some (k, v) \<Longrightarrow>
    slotAt (fx_slots E) (c + k) = None \<Longrightarrow> int_addr E root u (c + k)"
| base_ptr: "int_base E root i c \<Longrightarrow> u \<in> set (users (fx_fun E) (Inst (s_id i))) \<Longrightarrow> s_op u = SIntToPtr \<Longrightarrow>
    slotAt (fx_slots E) c = None \<Longrightarrow> residual E root (s_id u) c"
| sum_ptr: "int_addr E root i c \<Longrightarrow> u \<in> set (users (fx_fun E) (Inst (s_id i))) \<Longrightarrow> s_op u = SIntToPtr \<Longrightarrow>
    residual E root (s_id u) c"

text \<open>The final plans contain those made while a value is classified.\<close>

definition ptr_done :: "frame_ctx \<Rightarrow> plans \<Rightarrow> nat \<Rightarrow> int \<Rightarrow> bool" where
  "ptr_done E ps n c \<longleftrightarrow> (\<forall>u \<in> set (users (fx_fun E) (Inst n)). \<exists>k p q.
     classify_user (classifyPtr k E) E (Inst n) c u p = Some (Plans q) \<and> more_plans q ps)"

definition base_done :: "frame_ctx \<Rightarrow> plans \<Rightarrow> sinst \<Rightarrow> int \<Rightarrow> bool" where
  "base_done E ps i c \<longleftrightarrow> (\<forall>u \<in> set (users (fx_fun E) (Inst (s_id i))). \<exists>k p q.
     classify_int_user (classifyPtr k E) E c u p = Some (Plans q) \<and> more_plans q ps)"

definition addr_done :: "frame_ctx \<Rightarrow> plans \<Rightarrow> sinst \<Rightarrow> int \<Rightarrow> bool" where
  "addr_done E ps i c \<longleftrightarrow> (\<forall>u \<in> set (users (fx_fun E) (Inst (s_id i))). case s_op u of
     SIntToPtr \<Rightarrow> ptr_done E ps (s_id u) c | SICmp _ \<Rightarrow> True | _ \<Rightarrow> False)"

lemma ptr_doneI:
  assumes "classifyPtr k E (Inst n) c p = Some (Plans q)" and "more_plans q ps"
  shows "ptr_done E ps n c"
  unfolding ptr_done_def
proof
  fix u assume u: "u \<in> set (users (fx_fun E) (Inst n))"
  from assms(1) obtain k' where r: "all_users (classify_user (classifyPtr k' E) E (Inst n) c) (users (fx_fun E) (Inst n)) p = Some (Plans q)"
    by (cases k) auto
  from all_users_each[OF r u grows_user[OF grows_ptr]] assms(2) more_plans_trans
  show "\<exists>k p q. classify_user (classifyPtr k E) E (Inst n) c u p = Some (Plans q) \<and> more_plans q ps" by blast
qed

lemma base_doneI:
  assumes "classifyIntUses (classifyPtr k E) E i c p = Some (Plans q)" and "more_plans q ps"
  shows "base_done E ps i c"
  unfolding base_done_def
proof
  fix u assume u: "u \<in> set (users (fx_fun E) (Inst (s_id i)))"
  from all_users_each[OF assms(1)[unfolded classifyIntUses_def] u grows_int_user[OF grows_ptr]] assms(2) more_plans_trans
  show "\<exists>k p q. classify_int_user (classifyPtr k E) E c u p = Some (Plans q) \<and> more_plans q ps" by blast
qed

lemma addr_residual:
  assumes "classify_addr (classifyPtr k E) E i c p = Some (Plans q)" and "more_plans q ps" and "slotAt (fx_slots E) c = None"
  shows "if s_op i = SIntToPtr then ptr_done E ps (s_id i) c else addr_done E ps i c"
proof (cases "s_op i = SIntToPtr")
  case True
  with assms have "classifyPtr k E (Inst (s_id i)) c p = Some (Plans q)" by (simp add: classify_addr_def)
  from ptr_doneI[OF this assms(2)] True show ?thesis by simp
next
  case False
  let ?f = "\<lambda>u. case s_op u of SIntToPtr \<Rightarrow> classifyPtr k E (Inst (s_id u)) c | SICmp _ \<Rightarrow> harmless | _ \<Rightarrow> bail ''residual integer address user''"
  have r: "all_users ?f (users (fx_fun E) (Inst (s_id i))) p = Some (Plans q)"
    using assms(1,3) False by (simp add: classify_addr_def)
  have g: "grows (?f u)" for u using grows_ptr by (simp split: sop.split)
  have "case s_op u of SIntToPtr \<Rightarrow> ptr_done E ps (s_id u) c | SICmp _ \<Rightarrow> True | _ \<Rightarrow> False"
    if u: "u \<in> set (users (fx_fun E) (Inst (s_id i)))" for u
  proof -
    from all_users_each[OF r u g] obtain p' q' where f: "?f u p' = Some (Plans q')" "more_plans q' q" by blast
    then show ?thesis using ptr_doneI[of k E "s_id u" c p' q' ps] more_plans_trans[OF f(2) assms(2)]
      by (cases "s_op u") (auto simp: bail_def)
  qed
  then show ?thesis using False by (simp add: addr_done_def)
qed

text \<open>Every residual address has been classified.\<close>

lemma residual_done:
  assumes "ptr_done E ps root 0"
  shows "residual E root n c \<Longrightarrow> ptr_done E ps n c" and "int_base E root i c \<Longrightarrow> base_done E ps i c"
    and "int_addr E root i c \<Longrightarrow> addr_done E ps i c"
proof (induction rule: residual_int_base_int_addr.inducts)
  case block
  show ?case by (rule assms)
next
  case (gep n c u t off)
  then obtain k p q where "classify_user (classifyPtr k E) E (Inst n) c u p = Some (Plans q)" "more_plans q ps"
    unfolding ptr_done_def by blast
  with gep have "classifyPtr k E (Inst (s_id u)) (c + off) p = Some (Plans q)" "more_plans q ps"
    by (simp_all add: classify_user_def classify_gep_def)
  then show ?case by (rule ptr_doneI)
next
  case (base n c u)
  then obtain k p q where "classify_user (classifyPtr k E) E (Inst n) c u p = Some (Plans q)" "more_plans q ps"
    unfolding ptr_done_def by blast
  with base have "classifyIntUses (classifyPtr k E) E u c p = Some (Plans q)" "more_plans q ps" by (simp_all add: classify_user_def)
  then show ?case by (rule base_doneI)
next
  case (sum i c u k v)
  then obtain f p q where "classify_int_user (classifyPtr f E) E c u p = Some (Plans q)" "more_plans q ps"
    unfolding base_done_def by blast
  with sum have "classify_addr (classifyPtr f E) E u (c + k) p = Some (Plans q)" "more_plans q ps"
    by (auto simp: classify_int_user_def)
  from addr_residual[OF this] sum show ?case by simp
next
  case (base_ptr i c u)
  then obtain f p q where "classify_int_user (classifyPtr f E) E c u p = Some (Plans q)" "more_plans q ps"
    unfolding base_done_def by blast
  with base_ptr have "classify_addr (classifyPtr f E) E u c p = Some (Plans q)" "more_plans q ps"
    by (auto simp: classify_int_user_def)
  from addr_residual[OF this] base_ptr show ?case by simp
next
  case (sum_ptr i c u)
  then show ?case unfolding addr_done_def by (auto dest: bspec)
qed

section \<open>Enough fuel\<close>

text \<open>SSA form: an instruction of address arithmetic comes after what it reads.\<close>

definition address_arith :: "sinst \<Rightarrow> bool" where
  "address_arith u \<longleftrightarrow> (case s_op u of SGEP _ \<Rightarrow> True | SPtrToInt \<Rightarrow> True | SIntToPtr \<Rightarrow> True | SBin _ \<Rightarrow> True | _ \<Rightarrow> False)"

definition ssa_order :: "sfunc \<Rightarrow> (nat \<Rightarrow> nat) \<Rightarrow> bool" where
  "ssa_order F rank \<longleftrightarrow> (\<forall>u \<in> set (insts F). address_arith u \<longrightarrow> (\<forall>n \<in> refs u. rank n < rank (s_id u)))"

definition later :: "sfunc \<Rightarrow> (nat \<Rightarrow> nat) \<Rightarrow> nat \<Rightarrow> nat" where
  "later F rank n = length (filter (\<lambda>i. rank n < rank (s_id i)) (insts F))"

lemma later_less:
  assumes "u \<in> set (insts F)" and "rank n < rank (s_id u)"
  shows "later F rank (s_id u) < later F rank n"
proof -
  let ?xs = "filter (\<lambda>i. rank n < rank (s_id i)) (insts F)"
  have "filter (\<lambda>i. rank (s_id u) < rank (s_id i)) (insts F) = filter (\<lambda>i. rank (s_id u) < rank (s_id i)) ?xs"
    using assms(2) by (auto intro!: filter_cong)
  moreover have "length (filter (\<lambda>i. rank (s_id u) < rank (s_id i)) ?xs) < length ?xs"
    by (rule length_filter_less[of u]) (use assms in auto)
  ultimately show ?thesis by (simp add: later_def)
qed

definition ends_above :: "frame_ctx \<Rightarrow> (nat \<Rightarrow> nat) \<Rightarrow> nat \<Rightarrow> (svalue \<Rightarrow> int \<Rightarrow> classifier) \<Rightarrow> bool" where
  "ends_above E rank n ptr \<longleftrightarrow> (\<forall>w \<in> set (insts (fx_fun E)). rank n < rank (s_id w) \<longrightarrow> (\<forall>c ps. ptr (Inst (s_id w)) c ps \<noteq> None))"

lemma some_simps [simp]: "\<exists>r. bail why ps = Some r" "\<exists>r. harmless ps = Some r" "\<exists>r. plan_gep E u k c v ps = Some r"
    "\<exists>r. plan_int E u k c ps = Some r"
  by (simp_all add: bail_def harmless_def plan_gep_def plan_int_def)

lemma user_above:
  assumes "ssa_order F rank" and "u \<in> set (users F (Inst n))" and "address_arith u"
  shows "u \<in> set (insts F) \<and> rank n < rank (s_id u)"
  using assms set_users by (auto simp: ssa_order_def refs_def)

lemma addr_ends:
  assumes o: "ssa_order (fx_fun E) rank" and e: "ends_above E rank n ptr" and u: "u \<in> set (insts (fx_fun E))" "rank n < rank (s_id u)"
  shows "classify_addr ptr E u c ps \<noteq> None"
proof (cases "slotAt (fx_slots E) c")
  case None
  show ?thesis
  proof (cases "s_op u = SIntToPtr")
    case True
    with e u None show ?thesis unfolding ends_above_def by (simp add: classify_addr_def)
  next
    case False
    let ?f = "\<lambda>w. case s_op w of SIntToPtr \<Rightarrow> ptr (Inst (s_id w)) c | SICmp _ \<Rightarrow> harmless | _ \<Rightarrow> bail ''residual integer address user''"
    have "?f w q \<noteq> None" if w: "w \<in> set (users (fx_fun E) (Inst (s_id u)))" for w q
    proof (cases "s_op w = SIntToPtr")
      case True
      with user_above[OF o w] u(2) have "w \<in> set (insts (fx_fun E))" "rank n < rank (s_id w)" by (auto simp: address_arith_def)
      with e True show ?thesis unfolding ends_above_def by simp
    qed (auto split: sop.split)
    from all_users_total[of "users (fx_fun E) (Inst (s_id u))" ?f ps, OF this] None False show ?thesis by (simp add: classify_addr_def)
  qed
qed (simp add: classify_addr_def)

lemma int_uses_end:
  assumes o: "ssa_order (fx_fun E) rank" and e: "ends_above E rank n ptr" and i: "rank n < rank (s_id i)"
  shows "classifyIntUses ptr E i c ps \<noteq> None"
  unfolding classifyIntUses_def
proof (rule all_users_total)
  fix u q assume u: "u \<in> set (users (fx_fun E) (Inst (s_id i)))"
  have "classify_addr ptr E u c' q \<noteq> None" if "address_arith u" for c'
    using user_above[OF o u that] i by (intro addr_ends[OF o e]) auto
  then show "classify_int_user ptr E c u q \<noteq> None"
    by (auto simp: classify_int_user_def address_arith_def split: sop.split option.split)
qed

lemma user_ends:
  assumes o: "ssa_order (fx_fun E) rank" and e: "ends_above E rank n ptr" and u: "u \<in> set (users (fx_fun E) (Inst n))"
  shows "classify_user ptr E (Inst n) c u ps \<noteq> None"
proof (cases "s_op u")
  case (SGEP t)
  with user_above[OF o u] e have "ptr (Inst (s_id u)) c' ps \<noteq> None" for c' by (auto simp: address_arith_def ends_above_def)
  with SGEP show ?thesis by (auto simp: classify_user_def classify_gep_def split: option.split)
next
  case SPtrToInt
  with user_above[OF o u] int_uses_end[OF o e] show ?thesis by (auto simp: classify_user_def address_arith_def)
qed (simp_all add: classify_user_def)

lemma classifyPtr_ends:
  assumes o: "ssa_order (fx_fun E) rank"
  shows "later (fx_fun E) rank n < k \<Longrightarrow> classifyPtr k E (Inst n) c ps \<noteq> None"
proof (induction k arbitrary: n c ps)
  case (Suc k)
  have "ends_above E rank n (classifyPtr k E)"
    unfolding ends_above_def
  proof (intro ballI impI allI)
    fix w c ps assume "w \<in> set (insts (fx_fun E))" "rank n < rank (s_id w)"
    from later_less[OF this] Suc.prems show "classifyPtr k E (Inst (s_id w)) c ps \<noteq> None" by (intro Suc.IH) simp
  qed
  from all_users_total[OF user_ends[OF o this]] show ?case by simp
qed simp

lemma later_bound: "later F rank n \<le> length (insts F)"
  by (simp add: later_def)

end
