(* ===== verification/Stack_Props.thy ===== *)
theory Stack_Props
  imports Stack_Cover Driver_Props
begin

text \<open>
  The properties of the per-object stack rewrite.
\<close>

section \<open>The code of a plan\<close>

lemma take_sum: "take_bit 64 (take_bit 64 a + take_bit 64 b) = take_bit 64 (a + b :: int)"
  by (simp add: take_bit_eq_mod mod_add_eq)

context langref
begin

lemma exec_byte_gep:
  assumes "s_op u = SGEP (SInt 8)" and "s_ops u = [p, i]" and "s_type u = SPtr 0"
    and "src_val P G \<theta> p = Some (SPtr 0, b)" and "src_val P G \<theta> i = Some (SInt 64, x)" and "in_width 64 b"
  shows "exec_src S P G prev u \<theta> m = Some (Next (\<theta>(s_id u \<mapsto> (SPtr 0, take_bit 64 (b + x)))) m)"
proof -
  have "sem_gep S b (take_bit 64 (sgn_of 64 x)) = take_bit 64 (b + take_bit 64 (sgn_of 64 x))"
    by (rule gep[OF assms(6) in_width_take_bit])
  with assms show ?thesis
    by (simp add: exec_src_def op_result_def byte_gep_def binary_def gep_index_def width_of_def fit_def sgn_take_bit)
qed

lemma exec_gep_code_const:
  assumes "gp_var p = None" and "\<theta> obj = Some (SPtr 0, take_bit 64 B)"
  shows "exec_srcs S P G prev (gep_code k obj p) \<theta> m = Some (Next (\<theta>(Suc k \<mapsto> (SPtr 0, take_bit 64 (B + gp_rel p)))) m)"
proof -
  have "exec_src S P G prev (gep_inst (Suc k) (Inst obj) (IntC 64 (gp_rel p))) \<theta> m =
      Some (Next (\<theta>(Suc k \<mapsto> (SPtr 0, take_bit 64 (take_bit 64 B + take_bit 64 (gp_rel p))))) m)"
    by (rule exec_gep) (use assms in \<open>simp_all add: fit_def\<close>)
  then show ?thesis using assms(1) by (simp add: gep_code_def take_sum)
qed

lemma exec_gep_code_var:
  assumes "gp_var p = Some v" and "\<theta> obj = Some (SPtr 0, take_bit 64 B)" and "obj \<noteq> k"
    and "src_val P G \<theta> v = Some (SInt 64, x)" and "in_width 64 x"
  shows "\<exists>\<theta>'. exec_srcs S P G prev (gep_code k obj p) \<theta> m = Some (Next \<theta>' m) \<and>
    \<theta>' (Suc k) = Some (SPtr 0, take_bit 64 (B + gp_rel p + x))"
proof -
  let ?s = "take_bit 64 (x + take_bit 64 (gp_rel p))" and ?\<theta> = "\<theta>(k \<mapsto> (SInt 64, take_bit 64 (x + take_bit 64 (gp_rel p))))"
  have "sem_bin S Add 64 x (take_bit 64 (gp_rel p)) = Some ?s" by (rule bin_add[OF assms(5) in_width_take_bit])
  then have a: "exec_src S P G prev (add_inst k v (gp_rel p)) \<theta> m = Some (Next ?\<theta> m)"
    using assms(4) by (simp add: exec_src_def add_inst_def op_result_def binary_def width_of_def fit_def)
  have g: "exec_src S P G prev (gep_inst (Suc k) (Inst obj) (Inst k)) ?\<theta> m =
      Some (Next (?\<theta>(Suc k \<mapsto> (SPtr 0, take_bit 64 (take_bit 64 B + ?s)))) m)"
    by (rule exec_gep) (use assms in simp_all)
  have "take_bit 64 (take_bit 64 B + ?s) = take_bit 64 (B + gp_rel p + x)"
  proof -
    have "?s = take_bit 64 (x + gp_rel p)" by (simp add: take_bit_eq_mod mod_add_right_eq)
    then have "take_bit 64 (take_bit 64 B + ?s) = take_bit 64 (B + (x + gp_rel p))" using take_sum[of B "x + gp_rel p"] by simp
    then show ?thesis by (simp add: ac_simps)
  qed
  then show ?thesis using assms(1) a g by (simp add: gep_code_def)
qed

lemma exec_int_code:
  assumes "\<theta> obj = Some (SPtr 0, take_bit 64 B)"
  shows "\<exists>\<theta>'. exec_srcs S P G prev (int_code k obj p itp) \<theta> m = Some (Next \<theta>' m) \<and>
    \<theta>' k = Some (SPtr 0, take_bit 64 (B + ip_rel p)) \<and> (itp \<or> \<theta>' (Suc k) = Some (SInt 64, take_bit 64 (B + ip_rel p)))"
proof -
  let ?\<theta> = "\<theta>(k \<mapsto> (SPtr 0, take_bit 64 (take_bit 64 B + take_bit 64 (ip_rel p))))"
  have g: "exec_src S P G prev (gep_inst k (Inst obj) (IntC 64 (ip_rel p))) \<theta> m = Some (Next ?\<theta> m)"
    by (rule exec_gep) (use assms in \<open>simp_all add: fit_def\<close>)
  have i: "exec_src S P G prev (pti_inst (Suc k) (Inst k)) ?\<theta> m =
      Some (Next (?\<theta>(Suc k \<mapsto> (SInt 64, take_bit 64 (B + ip_rel p)))) m)"
    by (simp add: exec_src_def pti_inst_def op_result_def unary_def width_of_def fit_def take_sum)
  show ?thesis using g i by (cases itp) (simp_all add: int_code_def take_sum)
qed

text \<open>The index of a planned \<open>getelementptr\<close>: what its addition adds.\<close>

lemma index_value:
  assumes "variable_index F idx = Some (x, v)" and "distinct_ids F" and "list_all (addr_typed F) (insts F)"
    and "value_type F idx = SInt 64" and "typed_env F \<eta>"
    and "\<And>j bo. idx = Inst j \<Longrightarrow> find_inst F j = Some bo \<Longrightarrow> exec_src S P F prev bo \<eta> m = Some (Next \<eta> m)"
  shows "\<exists>a. src_val P F \<eta> v = Some (SInt 64, a) \<and> in_width 64 a \<and> src_val P F \<eta> idx = Some (SInt 64, take_bit 64 (a + x))"
proof -
  obtain j bo where j: "idx = Inst j" "find_inst F j = Some bo" "s_op bo = SBin Add" "const_add bo = Some (x, v)"
    using assms(1) by (auto simp: variable_index_def split: svalue.splits option.splits if_splits)
  have bo: "bo \<in> set (insts F)" "s_id bo = j" using find_inst_id[OF j(2)] by auto
  have ty: "s_type bo = SInt 64" using assms(4) j(1,2) by simp
  obtain w y where x: "x = sgn_of w y" and ops: "s_ops bo = [v, IntC w y] \<or> s_ops bo = [IntC w y, v]" using const_add_cases[OF j(4)] by blast
  have "addr_typed F bo" using assms(3) bo(1) by (simp add: list_all_iff)
  then have w: "w = 64" and tv: "value_type F v = SInt 64" using j(3) ops ty by (auto simp: addr_typed_def)
  have ex: "exec_src S P F prev bo \<eta> m = Some (Next \<eta> m)" by (rule assms(6)[OF j(1,2)])
  have "src_val P F \<eta> v \<noteq> None"
    using ex j(3) ops by (cases "src_val P F \<eta> v") (auto simp: exec_src_def op_result_def binary_def fit_def)
  then obtain u where u: "src_val P F \<eta> v = Some u" by blast
  from has_type_bits[OF typed_val[OF assms(5) u]] tv obtain a where a: "u = (SInt 64, a)" "in_width 64 a" by auto
  have s: "sem_bin S Add 64 a (take_bit 64 y) = Some (take_bit 64 (a + take_bit 64 y))"
    "sem_bin S Add 64 (take_bit 64 y) a = Some (take_bit 64 (take_bit 64 y + a))" using a(2) by (simp_all add: bin_add)
  have eq: "take_bit 64 (a + take_bit 64 y) = take_bit 64 (a + x)"
  proof -
    have "take_bit 64 (a + take_bit 64 y) = take_bit 64 (a + take_bit 64 x)" unfolding x w sgn64 ..
    then show ?thesis by (simp add: take_bit_eq_mod mod_add_right_eq)
  qed
  have "\<eta>(j \<mapsto> (SInt 64, take_bit 64 (a + x))) = \<eta>"
    using ex j(3) ops ty u a(1) s w bo(2) eq
    by (auto simp: exec_src_def op_result_def binary_def width_of_def fit_def add.commute)
  then have "\<eta> j = Some (SInt 64, take_bit 64 (a + x))" by (metis fun_upd_same)
  with u a j(1) show ?thesis by simp
qed

end

section \<open>The addresses\<close>

abbreviation no_plans :: plans where
  "no_plans \<equiv> \<lparr>gepPlans = [], intPlans = []\<rparr>"

text \<open>SSA form of the index of a planned \<open>getelementptr\<close>: where the pointer is computed, its addition is up to date.\<close>

definition index_current :: "'m llvm_sem \<Rightarrow> 'm src_sem \<Rightarrow> sfunc \<Rightarrow> nat \<Rightarrow> sinst \<Rightarrow> venv \<Rightarrow> 'm \<Rightarrow> bool" where
  "index_current S P F prev u \<eta> m \<longleftrightarrow> (\<forall>j bo. Inst j \<in> set (tl (s_ops u)) \<longrightarrow> find_inst F j = Some bo \<longrightarrow>
     exec_src S P F prev bo \<eta> m = Some (Next \<eta> m))"

context langref
begin

lemma gep_plan_address:
  assumes "frame_ok (fx_fun E) root" and "gep_offsets_ok S P E"
    and "classifyPtr fuel E (Inst root) 0 no_plans = Some (Plans ps)" and "p \<in> set (gepPlans ps)"
    and "frame_env E root A \<eta>" and "typed_env (fx_fun E) \<eta>" and "set xs \<subseteq> set (insts (fx_fun E))" and "root \<notin> s_id ` set xs"
    and "exec_srcs S P (fx_fun E) prev xs \<eta> m = Some (Next \<eta>1 m1)"
    and "find_inst (fx_fun E) (gp_inst p) = Some u" and "gp_inst p \<noteq> root"
    and "exec_src S P (fx_fun E) prev u \<eta>1 m1 = Some (Next \<eta>2 m2)" and "index_current S P (fx_fun E) prev u \<eta>1 m1"
    and "\<theta> obj = Some (SPtr 0, take_bit 64 (A + object_offset E (gp_slot p)))" and "obj \<noteq> k"
    and "\<forall>v. gp_var p = Some v \<longrightarrow> src_val P G \<theta> v = src_val P (fx_fun E) \<eta>1 v"
  shows "placed_in E (gp_slot p) (gp_rel p) \<and> (\<exists>\<theta>'. exec_srcs S P G prev (gep_code k obj p) \<theta> m1 = Some (Next \<theta>' m2) \<and>
    \<theta>' (Suc k) = \<eta>2 (gp_inst p))"
proof -
  let ?F = "fx_fun E" and ?B = "A + object_offset E (gp_slot p)"
  have ok: "distinct_ids ?F" "list_all (addr_typed ?F) (insts ?F)" using assms(1) by (simp_all add: frame_ok_def)
  have u: "u \<in> set (insts ?F)" "s_id u = gp_inst p" using find_inst_id[OF assms(10)] by auto
  from classified_plans(1)[OF assms(1,3)] assms(4) have "gep_plan_ok E root p" by blast
  then obtain u' t n c rest where place: "placed_in E (gp_slot p) (gp_rel p)"
    and u': "u' \<in> set (insts ?F)" "s_id u' = gp_inst p" "s_op u' = SGEP t" "s_ops u' = Inst n # rest" "frame_val E root n c"
    and var: "case gp_var p of None \<Rightarrow> \<exists>off. fx_gep E u' = Some off \<and> c + off = object_offset E (gp_slot p) + gp_rel p
       | Some v \<Rightarrow> t = SInt 8 \<and> (\<exists>idx x. rest = [idx] \<and> variable_index ?F idx = Some (x, v) \<and> c + x = object_offset E (gp_slot p) + gp_rel p)"
    unfolding gep_plan_ok_def by blast
  have "u' = u" using frame_ok_inst(3)[OF assms(1) u'(1)] assms(10) u'(2) by simp
  note ui = u'(3-5)[unfolded this] and var = var[unfolded this]
  have ty: "s_type u = SPtr 0" and at: "addr_typed ?F u" using frame_ok_inst(1)[OF assms(1) u(1)] ui(1) by (auto simp: addr_typed_def)
  have env: "frame_env E root A \<eta>1" by (rule frame_srcs[OF assms(1,2,5,7,8,9)])
  have tenv: "typed_env ?F \<eta>1" by (rule typed_srcs[OF ok(1) assms(7,6,9)])
  show ?thesis
  proof (cases "gp_var p")
    case None
    with var obtain off where off: "fx_gep E u = Some off" "c + off = object_offset E (gp_slot p) + gp_rel p" by auto
    have "frame_val E root (s_id u) (c + off)" by (rule frame_val.gep[OF ui(3) u(1) ui(1,2) off(1)])
    from frame_new_value[OF assms(1,2) env u(1) _ this assms(12)] u(2) assms(11) ty off(2)
    have "\<eta>2 (gp_inst p) = Some (SPtr 0, take_bit 64 (?B + gp_rel p))" "m2 = m1" by (simp_all add: ac_simps)
    with exec_gep_code_const[where \<theta> = \<theta>, OF None assms(14), of P G prev k m1] place show ?thesis by simp
  next
    case (Some v)
    with var obtain idx x where v: "t = SInt 8" "rest = [idx]" "variable_index ?F idx = Some (x, v)"
      "c + x = object_offset E (gp_slot p) + gp_rel p" by auto
    have tidx: "value_type ?F idx = SInt 64" using at ui(1,2) v(2) by (simp add: addr_typed_def)
    have cur: "exec_src S P ?F prev bo \<eta>1 m1 = Some (Next \<eta>1 m1)" if "idx = Inst j" "find_inst ?F j = Some bo" for j bo
      using assms(13) that ui(2) v(2) by (simp add: index_current_def)
    have "\<exists>a. src_val P ?F \<eta>1 v = Some (SInt 64, a) \<and> in_width 64 a \<and> src_val P ?F \<eta>1 idx = Some (SInt 64, take_bit 64 (a + x))"
      by (rule index_value[OF v(3) ok tidx tenv]) (rule cur)
    then obtain a where a: "src_val P ?F \<eta>1 v = Some (SInt 64, a)" "in_width 64 a"
      "src_val P ?F \<eta>1 idx = Some (SInt 64, take_bit 64 (a + x))" by blast
    have "\<eta>1 n \<noteq> None"
      using assms(12) ui(1,2) v(1,2) by (cases "\<eta>1 n") (auto simp: exec_src_def op_result_def byte_gep_def binary_def)
    then obtain b where b: "\<eta>1 n = Some b" by blast
    moreover have "isPointerTy (value_type ?F (Inst n))" using at ui(1,2) by (simp add: addr_typed_def)
    moreover have "b = (value_type ?F (Inst n), take_bit 64 (A + c))" using env ui(3) b unfolding frame_env_def by blast
    ultimately obtain q where q: "\<eta>1 n = Some (SPtr q, take_bit 64 (A + c))" by (cases "value_type ?F (Inst n)") auto
    have val: "\<eta>2 (gp_inst p) = Some (SPtr 0, take_bit 64 (?B + gp_rel p + a))" "m2 = m1"
    proof -
      have g: "sem_gep S (take_bit 64 (A + c)) (take_bit 64 (sgn_of 64 (take_bit 64 (a + x)))) =
          take_bit 64 (take_bit 64 (A + c) + take_bit 64 (sgn_of 64 (take_bit 64 (a + x))))"
        by (rule gep[OF in_width_take_bit in_width_take_bit])
      have eq: "take_bit 64 (take_bit 64 (A + c) + take_bit 64 (a + x)) = take_bit 64 (?B + gp_rel p + a)"
      proof -
        have "A + c + (a + x) = ?B + gp_rel p + a" using v(4) by simp
        then show ?thesis by (simp only: take_sum)
      qed
      from assms(12) g ui(1,2) v(1,2) q a(3) ty show "\<eta>2 (gp_inst p) = Some (SPtr 0, take_bit 64 (?B + gp_rel p + a))" "m2 = m1"
        unfolding u(2)[symmetric] by (auto simp: exec_src_def op_result_def byte_gep_def binary_def gep_index_def width_of_def fit_def sgn64 eq)
    qed
    have "src_val P G \<theta> v = Some (SInt 64, a)" using assms(16) Some a(1) by simp
    from exec_gep_code_var[where \<theta> = \<theta>, OF Some assms(14,15) this a(2), of prev m1] val place show ?thesis by auto
  qed
qed

end

section \<open>A lifted function\<close>

text \<open>The stack block, a \<open>getelementptr\<close> with a variable and one with a constant index into the slot of its last eight
  bytes, the same address as an integer turned into a pointer, a load.\<close>

definition demo_frame :: sfunc where
  "demo_frame = mk_sfunc [[(mk_sinst 0 (SPtr 0) (SAlloca True (Some 1280)) [IntC 64 1280])\<lparr>s_name := ''stack''\<rparr>,
     mk_sinst 10 (SInt 64) (SBin Add) [Param 0, IntC 64 1016], mk_sinst 2 (SPtr 0) (SGEP (SInt 8)) [Inst 0, Inst 10],
     mk_sinst 3 (SPtr 0) (SGEP (SInt 8)) [Inst 0, IntC 64 1016], mk_sinst 4 (SInt 64) SPtrToInt [Inst 0],
     mk_sinst 5 (SInt 64) (SBin Add) [Inst 4, IntC 64 1020], mk_sinst 6 (SPtr 0) SIntToPtr [Inst 5],
     mk_sinst 7 (SInt 64) SLoad [Inst 0], mk_sinst 8 SVoid SRet [Inst 2]]]"

definition demo_gep :: "sinst \<Rightarrow> int option" where
  "demo_gep i = (case s_ops i of [_, IntC w x] \<Rightarrow> Some (sgn_of w x) | _ \<Rightarrow> None)"

definition demo_ctx :: frame_ctx where
  "demo_ctx = \<lparr>fx_fun = demo_frame, fx_slots = [\<lparr>offset = -8, size = 8, align = 8, srcLine = 0\<rparr>], fx_gep = demo_gep\<rparr>"

definition param_sem :: "bytemem src_sem" where
  "param_sem = \<lparr>sem_val = (\<lambda>v. if v = Param 0 then Some 3 else None), sem_op = (\<lambda>_ _ _ _ _. None)\<rparr>"

abbreviation demo_plans :: plans where
  "demo_plans \<equiv> \<lparr>gepPlans = [\<lparr>gp_inst = 2, gp_slot = 0, gp_rel = 0, gp_var = Some (Param 0)\<rparr>,
       \<lparr>gp_inst = 3, gp_slot = 0, gp_rel = 0, gp_var = None\<rparr>],
     intPlans = [\<lparr>ip_inst = 5, ip_slot = 0, ip_rel = 4\<rparr>]\<rparr>"

lemma demo_insts: "insts demo_frame = [(mk_sinst 0 (SPtr 0) (SAlloca True (Some 1280)) [IntC 64 1280])\<lparr>s_name := ''stack''\<rparr>,
     mk_sinst 10 (SInt 64) (SBin Add) [Param 0, IntC 64 1016], mk_sinst 2 (SPtr 0) (SGEP (SInt 8)) [Inst 0, Inst 10],
     mk_sinst 3 (SPtr 0) (SGEP (SInt 8)) [Inst 0, IntC 64 1016], mk_sinst 4 (SInt 64) SPtrToInt [Inst 0],
     mk_sinst 5 (SInt 64) (SBin Add) [Inst 4, IntC 64 1020], mk_sinst 6 (SPtr 0) SIntToPtr [Inst 5],
     mk_sinst 7 (SInt 64) SLoad [Inst 0], mk_sinst 8 SVoid SRet [Inst 2]]"
  by (simp add: demo_frame_def mk_sfunc_def insts_def)

lemma demo_find:
  "find_inst demo_frame 0 = Some ((mk_sinst 0 (SPtr 0) (SAlloca True (Some 1280)) [IntC 64 1280])\<lparr>s_name := ''stack''\<rparr>)"
  "find_inst demo_frame 10 = Some (mk_sinst 10 (SInt 64) (SBin Add) [Param 0, IntC 64 1016])"
  "find_inst demo_frame 2 = Some (mk_sinst 2 (SPtr 0) (SGEP (SInt 8)) [Inst 0, Inst 10])"
  "find_inst demo_frame 4 = Some (mk_sinst 4 (SInt 64) SPtrToInt [Inst 0])"
  "find_inst demo_frame 5 = Some (mk_sinst 5 (SInt 64) (SBin Add) [Inst 4, IntC 64 1020])"
  by (simp_all add: find_inst_def demo_insts mk_sinst_def)

lemma sgn_small: "0 \<le> x \<Longrightarrow> x < 2 ^ 63 \<Longrightarrow> sgn_of 64 x = x"
  by (simp add: sgn_of_def signed_take_bit_int_eq_self)

lemma demo_slotAt: "slotAt (fx_slots demo_ctx) c = (if 1016 \<le> c \<and> c < 1024 then Some 0 else None)"
  by (simp add: slotAt_def demo_ctx_def in_slot_def frame_base_def StackFrameTopOffset_def)

lemma demo_users:
  "users demo_frame (Inst 0) = [mk_sinst 2 (SPtr 0) (SGEP (SInt 8)) [Inst 0, Inst 10],
     mk_sinst 3 (SPtr 0) (SGEP (SInt 8)) [Inst 0, IntC 64 1016], mk_sinst 4 (SInt 64) SPtrToInt [Inst 0], mk_sinst 7 (SInt 64) SLoad [Inst 0]]"
  "users demo_frame (Inst 4) = [mk_sinst 5 (SInt 64) (SBin Add) [Inst 4, IntC 64 1020]]"
  by (simp_all add: users_def demo_insts mk_sinst_def)

lemma demo_classified: "classifyPtr (Suc 0) demo_ctx (Inst 0) 0 no_plans = Some (Plans demo_plans)"
proof -
  have fx: "fx_fun demo_ctx = demo_frame" "fx_gep demo_ctx = demo_gep" and off: "offset (fx_slots demo_ctx ! 0) = -8"
    by (simp_all add: demo_ctx_def)
  let ?c = "classify_user (classifyPtr 0 demo_ctx) demo_ctx (Inst 0) 0"
  let ?g = "\<lparr>gp_inst = 2, gp_slot = 0, gp_rel = 0, gp_var = Some (Param 0)\<rparr>" and ?h = "\<lparr>gp_inst = 3, gp_slot = 0, gp_rel = 0, gp_var = None\<rparr>"
  have v: "variable_index demo_frame (Inst 10) = Some (1016, Param 0)"
    using demo_find(2) by (simp add: variable_index_def mk_sinst_def const_add_def sgn_small)
  have 2: "?c (mk_sinst 2 (SPtr 0) (SGEP (SInt 8)) [Inst 0, Inst 10]) no_plans = Some (Plans \<lparr>gepPlans = [?g], intPlans = []\<rparr>)"
    using v by (simp add: classify_user_def classify_gep_def fx demo_gep_def mk_sinst_def demo_slotAt plan_gep_def rel_in_def off
        frame_base_def StackFrameTopOffset_def)
  have 3: "?c (mk_sinst 3 (SPtr 0) (SGEP (SInt 8)) [Inst 0, IntC 64 1016]) \<lparr>gepPlans = [?g], intPlans = []\<rparr> =
      Some (Plans \<lparr>gepPlans = [?g, ?h], intPlans = []\<rparr>)"
    by (simp add: classify_user_def classify_gep_def fx demo_gep_def mk_sinst_def demo_slotAt plan_gep_def rel_in_def off sgn_small
        frame_base_def StackFrameTopOffset_def)
  have 4: "?c (mk_sinst 4 (SInt 64) SPtrToInt [Inst 0]) \<lparr>gepPlans = [?g, ?h], intPlans = []\<rparr> = Some (Plans demo_plans)"
    using demo_users(2)
    by (simp add: classify_user_def classifyIntUses_def classify_int_user_def classify_addr_def fx mk_sinst_def const_add_def
        demo_slotAt plan_int_def rel_in_def off sgn_small frame_base_def StackFrameTopOffset_def)
  have 7: "?c (mk_sinst 7 (SInt 64) SLoad [Inst 0]) demo_plans = Some (Plans demo_plans)"
    by (simp add: classify_user_def mk_sinst_def demo_slotAt harmless_def)
  show ?thesis by (simp add: fx demo_users(1) 2 3 4 7)
qed

lemma demo_frame_ok: "frame_ok (fx_fun demo_ctx) 0"
proof -
  have "distinct_ids demo_frame" by (simp add: distinct_ids_def demo_insts mk_sinst_def)
  moreover have "value_type demo_frame (Param 0) = SInt 64" by (simp add: demo_frame_def mk_sfunc_def)
  moreover have "value_type demo_frame (Inst 0) = SPtr 0" "value_type demo_frame (Inst 10) = SInt 64" "value_type demo_frame (Inst 4) = SInt 64"
    "value_type demo_frame (Inst 5) = SInt 64" using demo_find by (simp_all add: mk_sinst_def)
  ultimately show ?thesis
    by (simp add: frame_ok_def demo_ctx_def demo_insts addr_typed_def mk_sinst_def del: value_type.simps(1,2))
qed

lemma demo_offsets: "gep_offsets_ok ref_sem param_sem demo_ctx"
  unfolding gep_offsets_ok_def
proof (intro ballI allI impI)
  fix u t off prev \<eta> m x m'
  assume "u \<in> set (insts (fx_fun demo_ctx))" "s_op u = SGEP t" "fx_gep demo_ctx u = Some off"
    and r: "op_result ref_sem param_sem prev (SGEP t) (s_type u) (map (src_val param_sem (fx_fun demo_ctx) \<eta>) (s_ops u)) m = Some (x, m')"
  then have u: "u = mk_sinst 3 (SPtr 0) (SGEP (SInt 8)) [Inst 0, IntC 64 1016]" and t: "t = SInt 8" and off: "off = 1016"
    by (auto simp: demo_ctx_def demo_insts mk_sinst_def demo_gep_def sgn_small)
  show "m' = m \<and> (\<exists>ty b. src_val param_sem (fx_fun demo_ctx) \<eta> (hd (s_ops u)) = Some (ty, b) \<and> take_bit 64 x = take_bit 64 (b + off))"
  proof (cases "\<eta> 0")
    case None
    with r show ?thesis by (simp add: u t mk_sinst_def op_result_def byte_gep_def binary_def)
  next
    case (Some v)
    with r show ?thesis
      by (cases v) (auto simp: u t off mk_sinst_def op_result_def byte_gep_def binary_def gep_index_def fit_def width_of_def sgn_small ref_sem_def
          take_bit_eq_mod)
  qed
qed

lemma demo_frame_val: "frame_val demo_ctx 0 n c \<Longrightarrow> (n = 0 \<longrightarrow> c = 0) \<and> n \<noteq> 10"
  by (cases rule: frame_val.cases) (auto simp: demo_ctx_def demo_insts mk_sinst_def const_add_def)

abbreviation demo_env :: venv where
  "demo_env \<equiv> [0 \<mapsto> (SPtr 0, 4096), 10 \<mapsto> (SInt 64, 1019)]"

lemma demo_frame_env: "frame_env demo_ctx 0 4096 demo_env" "typed_env (fx_fun demo_ctx) demo_env"
proof -
  have ty: "value_type demo_frame (Inst 0) = SPtr 0" "value_type demo_frame (Inst 10) = SInt 64" using demo_find by (simp_all add: mk_sinst_def)
  have fx: "fx_fun demo_ctx = demo_frame" by (simp add: demo_ctx_def)
  show "frame_env demo_ctx 0 4096 demo_env"
    unfolding frame_env_def fx
  proof (intro allI impI)
    fix n c v assume f: "frame_val demo_ctx 0 n c" and v: "demo_env n = Some v"
    from demo_frame_val[OF f] v have "n = 0" "c = 0" "v = (SPtr 0, 4096)" by (auto split: if_splits)
    then show "v = (value_type demo_frame (Inst n), take_bit 64 (4096 + c))" unfolding \<open>n = 0\<close> ty by (simp add: take_bit_eq_mod)
  qed
  show "typed_env (fx_fun demo_ctx) demo_env"
    unfolding typed_env_def fx using ty by (auto simp: has_type_def fit_def take_bit_eq_mod simp del: value_type.simps)
qed

text \<open>C28. Splitting the stack block keeps every address. Let the classification of the uses of the stack block
  succeed, and let the block lie at \<open>A\<close> in a state from which the function reaches a planned \<open>getelementptr\<close>. Then the
  plan lies in its slot, and with the slot's object at the place the slot has in the frame, the instructions
  that take its place compute the pointer it computes, constant or variable, and change nothing else.\<close>

theorem split_keeps_addresses:
  assumes "langref S" and "frame_ok (fx_fun E) root" and "gep_offsets_ok S P E"
    and "classifyPtr fuel E (Inst root) 0 no_plans = Some (Plans ps)" and "p \<in> set (gepPlans ps)"
    and "frame_env E root A \<eta>" and "typed_env (fx_fun E) \<eta>" and "set xs \<subseteq> set (insts (fx_fun E))" and "root \<notin> s_id ` set xs"
    and "exec_srcs S P (fx_fun E) prev xs \<eta> m = Some (Next \<eta>1 m1)"
    and "find_inst (fx_fun E) (gp_inst p) = Some u" and "gp_inst p \<noteq> root"
    and "exec_src S P (fx_fun E) prev u \<eta>1 m1 = Some (Next \<eta>2 m2)" and "index_current S P (fx_fun E) prev u \<eta>1 m1"
    and "\<theta> obj = Some (SPtr 0, take_bit 64 (A + object_offset E (gp_slot p)))" and "obj \<noteq> k"
    and "\<forall>v. gp_var p = Some v \<longrightarrow> src_val P G \<theta> v = src_val P (fx_fun E) \<eta>1 v"
  shows "placed_in E (gp_slot p) (gp_rel p) \<and> (\<exists>\<theta>'. exec_srcs S P G prev (gep_code k obj p) \<theta> m1 = Some (Next \<theta>' m2) \<and>
    \<theta>' (Suc k) = \<eta>2 (gp_inst p))"
  by (rule langref.gep_plan_address[OF assms])

theorem split_keeps_addresses_witness:
  "\<forall>m. \<exists>\<theta>. exec_srcs ref_sem param_sem demo_frame 0 (gep_code 20 9 \<lparr>gp_inst = 2, gp_slot = 0, gp_rel = 0, gp_var = Some (Param 0)\<rparr>)
     [9 \<mapsto> (SPtr 0, 5112)] m = Some (Next \<theta> m) \<and> \<theta> 21 = Some (SPtr 0, 5115)"
proof
  fix m :: bytemem
  let ?p = "\<lparr>gp_inst = 2, gp_slot = 0, gp_rel = 0, gp_var = Some (Param 0)\<rparr>" and ?u = "mk_sinst 2 (SPtr 0) (SGEP (SInt 8)) [Inst 0, Inst 10]"
  have fx: "fx_fun demo_ctx = demo_frame" by (simp add: demo_ctx_def)
  have args: "f_args demo_frame = [\<lparr>a_type = SInt 64, a_attrs = []\<rparr>]" by (simp add: demo_frame_def mk_sfunc_def)
  have run: "exec_src ref_sem param_sem (fx_fun demo_ctx) 0 ?u demo_env m = Some (Next (demo_env(2 \<mapsto> (SPtr 0, 5115))) m)"
    by (simp add: exec_src_def mk_sinst_def op_result_def byte_gep_def binary_def gep_index_def width_of_def fit_def sgn_small ref_sem_def take_bit_eq_mod)
  have cur: "index_current ref_sem param_sem (fx_fun demo_ctx) 0 ?u demo_env m"
    using demo_find(2) args
    by (auto simp: index_current_def fx mk_sinst_def exec_src_def op_result_def binary_def width_of_def fit_def param_sem_def ref_sem_def ref_bin_def
        take_bit_eq_mod)
  have find: "find_inst (fx_fun demo_ctx) (gp_inst ?p) = Some ?u" and obj: "[9 \<mapsto> (SPtr 0, 5112)] 9 = Some (SPtr 0, take_bit 64 (4096 + object_offset demo_ctx (gp_slot ?p)))"
    using demo_find(3) by (simp_all add: fx object_offset_def demo_ctx_def frame_base_def StackFrameTopOffset_def take_bit_eq_mod)
  have v: "\<forall>v. gp_var ?p = Some v \<longrightarrow> src_val param_sem demo_frame [9 \<mapsto> (SPtr 0, 5112)] v = src_val param_sem (fx_fun demo_ctx) demo_env v"
    by (simp add: fx)
  have "placed_in demo_ctx (gp_slot ?p) (gp_rel ?p) \<and> (\<exists>\<theta>'. exec_srcs ref_sem param_sem demo_frame 0 (gep_code 20 9 ?p) [9 \<mapsto> (SPtr 0, 5112)] m = Some (Next \<theta>' m) \<and>
    \<theta>' (Suc 20) = (demo_env(2 \<mapsto> (SPtr 0, 5115))) (gp_inst ?p))"
    by (rule split_keeps_addresses[where xs = "[]" and A = 4096 and \<eta> = demo_env and ?\<eta>1.0 = demo_env
        and ?\<eta>2.0 = "demo_env(2 \<mapsto> (SPtr 0, 5115))" and \<theta> = "[9 \<mapsto> (SPtr 0, 5112)]", OF langref_ref_sem demo_frame_ok demo_offsets demo_classified _ demo_frame_env _ _ _ find _ run cur obj _ v]) simp_all
  then show "\<exists>\<theta>. exec_srcs ref_sem param_sem demo_frame 0 (gep_code 20 9 ?p) [9 \<mapsto> (SPtr 0, 5112)] m = Some (Next \<theta> m) \<and> \<theta> 21 = Some (SPtr 0, 5115)"
    by simp
qed

text \<open>C29. Integer frame addresses. A planned integer address is the address of a byte of the slot's object: with the
  object at the place of the slot the new \<open>getelementptr\<close> computes the address as a pointer, which the folded
  \<open>inttoptr\<close> users read, and the new \<open>ptrtoint\<close> computes the integer that the replaced instruction computes.\<close>

theorem split_keeps_integers:
  assumes "langref S" and "frame_ok (fx_fun E) root" and "gep_offsets_ok S P E"
    and "classifyPtr fuel E (Inst root) 0 no_plans = Some (Plans ps)" and "p \<in> set (intPlans ps)"
    and "frame_env E root A \<eta>" and "set xs \<subseteq> set (insts (fx_fun E))" and "root \<notin> s_id ` set xs"
    and "exec_srcs S P (fx_fun E) prev xs \<eta> m = Some (Next \<eta>1 m1)"
    and "find_inst (fx_fun E) (ip_inst p) = Some u" and "ip_inst p \<noteq> root"
    and "exec_src S P (fx_fun E) prev u \<eta>1 m1 = Some (Next \<eta>2 m2)"
    and "\<theta> obj = Some (SPtr 0, take_bit 64 (A + object_offset E (ip_slot p)))"
  shows "placed_in E (ip_slot p) (ip_rel p) \<and> (\<exists>\<theta>' a. exec_srcs S P G prev (int_code k obj p (s_op u = SIntToPtr)) \<theta> m1 = Some (Next \<theta>' m2) \<and>
    \<theta>' k = Some (SPtr 0, a) \<and> (if s_op u = SIntToPtr then \<eta>2 (ip_inst p) = \<theta>' k
      else \<eta>2 (ip_inst p) = Some (s_type u, a) \<and> \<theta>' (Suc k) = Some (SInt 64, a)))"
proof -
  let ?F = "fx_fun E" and ?B = "A + object_offset E (ip_slot p)"
  have u: "u \<in> set (insts ?F)" "s_id u = ip_inst p" using find_inst_id[OF assms(10)] by auto
  from classified_plans(2)[OF assms(2,4)] assms(5) have "int_plan_ok E root p" by blast
  then have place: "placed_in E (ip_slot p) (ip_rel p)" and fv: "frame_val E root (s_id u) (object_offset E (ip_slot p) + ip_rel p)"
    unfolding int_plan_ok_def u(2) by blast+
  have env: "frame_env E root A \<eta>1" by (rule langref.frame_srcs[OF assms(1-3,6-9)])
  have "s_id u \<noteq> root" using u(2) assms(11) by simp
  from langref.frame_new_value[OF assms(1-3) env u(1) this fv assms(12)]
  have val: "\<eta>2 (ip_inst p) = Some (s_type u, take_bit 64 (?B + ip_rel p))" "m2 = m1" unfolding u(2) by (simp_all add: ac_simps)
  have ty: "s_op u = SIntToPtr \<Longrightarrow> s_type u = SPtr 0" using frame_ok_inst(1)[OF assms(2) u(1)] by (simp add: addr_typed_def)
  from langref.exec_int_code[where \<theta> = \<theta>, OF assms(1,13), of P G prev k p "s_op u = SIntToPtr" m1] val place ty
  show ?thesis by (cases "s_op u = SIntToPtr") auto
qed

theorem split_keeps_integers_witness:
  "\<forall>m. \<exists>\<theta>. exec_srcs ref_sem param_sem demo_frame 0 (int_code 20 9 \<lparr>ip_inst = 5, ip_slot = 0, ip_rel = 4\<rparr> False)
     [9 \<mapsto> (SPtr 0, 5112)] m = Some (Next \<theta> m) \<and> \<theta> 20 = Some (SPtr 0, 5116) \<and> \<theta> 21 = Some (SInt 64, 5116)"
proof
  fix m :: bytemem
  let ?p = "\<lparr>ip_inst = 5, ip_slot = 0, ip_rel = 4\<rparr>" and ?u = "mk_sinst 5 (SInt 64) (SBin Add) [Inst 4, IntC 64 1020]"
    and ?xs = "[mk_sinst 4 (SInt 64) SPtrToInt [Inst 0]]" and ?env = "demo_env(4 \<mapsto> (SInt 64, 4096))"
  have fx: "fx_fun demo_ctx = demo_frame" by (simp add: demo_ctx_def)
  have pre: "exec_srcs ref_sem param_sem (fx_fun demo_ctx) 0 ?xs demo_env m = Some (Next ?env m)"
    by (simp add: exec_src_def mk_sinst_def op_result_def unary_def width_of_def fit_def take_bit_eq_mod)
  have run: "exec_src ref_sem param_sem (fx_fun demo_ctx) 0 ?u ?env m = Some (Next (?env(5 \<mapsto> (SInt 64, 5116))) m)"
    by (simp add: exec_src_def mk_sinst_def op_result_def binary_def width_of_def fit_def ref_sem_def ref_bin_def take_bit_eq_mod)
  have find: "find_inst (fx_fun demo_ctx) (ip_inst ?p) = Some ?u" and obj: "[9 \<mapsto> (SPtr 0, 5112)] 9 = Some (SPtr 0, take_bit 64 (4096 + object_offset demo_ctx (ip_slot ?p)))"
    using demo_find(5) by (simp_all add: fx object_offset_def demo_ctx_def frame_base_def StackFrameTopOffset_def take_bit_eq_mod)
  have xs: "set ?xs \<subseteq> set (insts (fx_fun demo_ctx))" by (simp add: fx demo_insts)
  have "placed_in demo_ctx (ip_slot ?p) (ip_rel ?p) \<and> (\<exists>\<theta>' a. exec_srcs ref_sem param_sem demo_frame 0 (int_code 20 9 ?p (s_op ?u = SIntToPtr)) [9 \<mapsto> (SPtr 0, 5112)] m = Some (Next \<theta>' m) \<and>
    \<theta>' 20 = Some (SPtr 0, a) \<and> (if s_op ?u = SIntToPtr then (?env(5 \<mapsto> (SInt 64, 5116))) (ip_inst ?p) = \<theta>' 20
      else (?env(5 \<mapsto> (SInt 64, 5116))) (ip_inst ?p) = Some (s_type ?u, a) \<and> \<theta>' (Suc 20) = Some (SInt 64, a)))"
    by (rule split_keeps_integers[where A = 4096 and \<eta> = demo_env and ?\<eta>1.0 = ?env and ?\<eta>2.0 = "?env(5 \<mapsto> (SInt 64, 5116))"
        and \<theta> = "[9 \<mapsto> (SPtr 0, 5112)]", OF langref_ref_sem demo_frame_ok demo_offsets demo_classified _ demo_frame_env(1) xs _ pre find _ run obj])
      (simp_all add: mk_sinst_def)
  then show "\<exists>\<theta>. exec_srcs ref_sem param_sem demo_frame 0 (int_code 20 9 ?p False) [9 \<mapsto> (SPtr 0, 5112)] m = Some (Next \<theta> m) \<and> \<theta> 20 = Some (SPtr 0, 5116) \<and> \<theta> 21 = Some (SInt 64, 5116)"
    by (auto simp: mk_sinst_def)
qed

section \<open>Coverage\<close>

text \<open>A use of a residual pointer at offset \<open>c\<close> that the plans account for.\<close>

definition accounted :: "frame_ctx \<Rightarrow> plans \<Rightarrow> nat \<Rightarrow> int \<Rightarrow> sinst \<Rightarrow> bool" where
  "accounted E ps n c u \<longleftrightarrow> (case s_op u of
     SLoad \<Rightarrow> \<forall>s \<in> set (fx_slots E). \<not> in_slot c s
   | SStore \<Rightarrow> s_ops u ! 1 = Inst n \<and> (\<forall>s \<in> set (fx_slots E). \<not> in_slot c s)
   | SGEP _ \<Rightarrow> (\<exists>p \<in> set (gepPlans ps). gp_inst p = s_id u) \<or> (\<exists>off. fx_gep E u = Some off \<and> slotAt (fx_slots E) (c + off) = None)
   | SPtrToInt \<Rightarrow> True | SCall _ \<Rightarrow> True | SInvoke _ \<Rightarrow> True | SICmp _ \<Rightarrow> True
   | _ \<Rightarrow> False)"

text \<open>The same for an integer address: an addition, or a pointer made of it.\<close>

definition accounted_int :: "frame_ctx \<Rightarrow> plans \<Rightarrow> int \<Rightarrow> sinst \<Rightarrow> bool" where
  "accounted_int E ps c u \<longleftrightarrow> (case s_op u of
     SBin b \<Rightarrow> b = Add \<and> (\<exists>k v. const_add u = Some (k, v) \<and>
       ((\<exists>p \<in> set (intPlans ps). ip_inst p = s_id u) \<or> slotAt (fx_slots E) (c + k) = None))
   | SIntToPtr \<Rightarrow> (\<exists>p \<in> set (intPlans ps). ip_inst p = s_id u) \<or> slotAt (fx_slots E) c = None
   | SICmp _ \<Rightarrow> True
   | _ \<Rightarrow> False)"

lemma planned_gep: "plan_gep E u k c v p = Some (Plans q) \<Longrightarrow> more_plans q ps \<Longrightarrow> \<exists>x \<in> set (gepPlans ps). gp_inst x = s_id u"
  by (auto simp: plan_gep_def more_plans_def intro: rev_bexI)

lemma planned_int: "plan_int E u k c p = Some (Plans q) \<Longrightarrow> more_plans q ps \<Longrightarrow> \<exists>x \<in> set (intPlans ps). ip_inst x = s_id u"
  by (auto simp: plan_int_def more_plans_def intro: rev_bexI)

lemma ptr_done_accounted:
  assumes "ptr_done E ps n c" and "u \<in> set (users (fx_fun E) (Inst n))"
  shows "accounted E ps n c u"
proof -
  obtain k p q where c: "classify_user (classifyPtr k E) E (Inst n) c u p = Some (Plans q)" "more_plans q ps"
    using assms unfolding ptr_done_def by blast
  note none = slotAt_None[of "fx_slots E" c]
  show ?thesis
    using c none planned_gep[OF _ c(2), of E u]
    by (cases "s_op u") (auto simp: accounted_def classify_user_def classify_gep_def bail_def split: if_splits option.splits)
qed

lemma base_done_accounted:
  assumes "base_done E ps i c" and "u \<in> set (users (fx_fun E) (Inst (s_id i)))"
  shows "accounted_int E ps c u"
proof -
  obtain k p q where c: "classify_int_user (classifyPtr k E) E c u p = Some (Plans q)" "more_plans q ps"
    using assms unfolding base_done_def by blast
  then show ?thesis
    using planned_int[OF _ c(2), of E u]
    by (cases "s_op u") (auto simp: accounted_int_def classify_int_user_def classify_addr_def bail_def split: if_splits option.splits)
qed



section \<open>Termination\<close>

text \<open>C31. The rewrite ends: in SSA form the mutually recursive classifiers have a result, since each step goes to a
  later instruction, so \<open>rewriteStackObjects\<close> returns; and when it reports a failure it has changed nothing.\<close>

theorem rewriteStackObjects_ends:
  assumes "ssa_order F rank"
  shows "\<exists>r. rewriteStackObjects gep getObj getAlign M fs al F = Some r \<and> (\<not> fst r \<longrightarrow> r = (False, F, al))"
proof -
  let ?E = "\<lparr>fx_fun = F, fx_slots = fs, fx_gep = gep\<rparr>"
  have "classifyPtr (Suc (length (insts F))) ?E (Inst n) 0 no_plans \<noteq> None" for n
    by (rule classifyPtr_ends) (use assms later_bound in \<open>auto simp: less_Suc_eq_le\<close>)
  then have ends: "\<exists>r. classifyPtr (Suc (length (insts F))) ?E (Inst n) 0 no_plans = Some r" for n by blast
  show ?thesis
  proof (cases "fs = [] \<or> stack_block M F = None")
    case False
    then obtain root where root: "stack_block M F = Some root" by blast
    obtain r where "classifyPtr (Suc (length (insts F))) ?E (Inst root) 0 no_plans = Some r" using ends by blast
    then show ?thesis using False root
      by (cases r) (simp_all add: rewriteStackObjects_def Let_def del: classifyPtr.simps)
  qed (auto simp: rewriteStackObjects_def)
qed

theorem rewriteStackObjects_ends_witness:
  "\<exists>r. rewriteStackObjects demo_gep (\<lambda>_ v. v) (\<lambda>_ _. 8) \<lparr>m_globals = [], m_funs = []\<rparr> (fx_slots demo_ctx) (\<lambda>_. 16) demo_frame = Some r"
proof -
  have "ssa_order demo_frame (\<lambda>n. if n = 10 then 0 else n)"
    by (auto simp: ssa_order_def demo_insts address_arith_def refs_def mk_sinst_def)
  from rewriteStackObjects_ends[OF this] show ?thesis by blast
qed

end
