(* ===== verification/Globals.thy ===== *)
theory Globals
  imports Streamer Driver_Source Bpf_Regs
begin

text \<open>
  The globals of the lifted module (\<open>lazyAddGlobal\<close>, \<open>lookupGlobal\<close> and \<open>copyFunctionToTarget\<close> in
  \<open>src/src/lifter/mc2llvm.cpp\<close>): a symbol of the assembly is turned, when the lifter meets it, into a function or a
  variable of the lifted module. A reference to a data object that has not been lifted is a placeholder, replaced
  when the object is lifted.
\<close>

section \<open>The lifted module and the tables\<close>

text \<open>Objects are numbered in the order of their creation; LLVM makes names unique itself.\<close>

datatype gref = LiftedFn | Created nat

datatype init = InitByte byte | InitPtr gref int

datatype gobj = FunctionCopy sfunc | DataVariable string "init list" nat bool | DeclaredVariable sglobal
  | StackChkFail | ImplicitIntrinsic string fun_ty | Placeholder string | Erased

record gstate =
  created :: "gobj list"
  LLVMglobals :: "string \<rightharpoonup> gref"
  deferredGlobs :: "(string \<times> nat) list"

text \<open>What does not change: the name of the lifted function, the source module and the data the streamer collected.\<close>

record link_ctx =
  lk_name :: string
  lk_module :: smodule
  lk_data :: "MCGlobal list"

type_synonym 'a linker = "(gstate, 'a) action"

section \<open>Names\<close>

definition intrinsic_names :: "string \<rightharpoonup> string" where
  "intrinsic_names = [''memcpy'' \<mapsto> ''llvm.memcpy.p0.p0.i64'', ''memset'' \<mapsto> ''llvm.memset.p0.i64'',
     ''memmove'' \<mapsto> ''llvm.memmove.p0.p0.i64'',
     ''__llvm_memset_element_unordered_atomic_16'' \<mapsto> ''llvm.memset.element.unordered.atomic.p0.i32'',
     ''cosf'' \<mapsto> ''llvm.cos.f32'', ''coshf'' \<mapsto> ''llvm.cosh.f32'', ''powf'' \<mapsto> ''llvm.pow.f32'', ''pow'' \<mapsto> ''llvm.pow.f64'',
     ''expf'' \<mapsto> ''llvm.exp.f32'', ''exp'' \<mapsto> ''llvm.exp.f64'', ''exp10f'' \<mapsto> ''llvm.exp10.f32'', ''exp10'' \<mapsto> ''llvm.exp10.f64'',
     ''ldexpf'' \<mapsto> ''llvm.ldexp.f32.i32'', ''sincos'' \<mapsto> ''llvm.cos.f64'']"

definition implicit_intrinsics :: "string \<rightharpoonup> fun_ty" where
  "implicit_intrinsics = [''llvm.memset.p0.i64'' \<mapsto>
     \<lparr>ft_ret = SVoid, ft_params = [SPtr 0, SInt 8, SInt 64, SInt 1], ft_vararg = False\<rparr>]"

definition real_name :: "string \<Rightarrow> string" where
  "real_name nm = (case intrinsic_names nm of Some n \<Rightarrow> n | None \<Rightarrow> nm)"

section \<open>Adding an object\<close>

definition create :: "gobj \<Rightarrow> gref linker" where
  "create x st = Inr (Created (length (created st)), st\<lparr>created := created st @ [x]\<rparr>)"

text \<open>The attributes of a function that are copied; those of the function itself are not part of the model of
  functions.\<close>

definition copyFunctionToTarget :: "sfunc \<Rightarrow> string \<Rightarrow> sfunc" where
  "copyFunctionToTarget F nm = (new_declaration nm (f_type F))
     \<lparr>f_ret_attrs := filter (\<lambda>a. a \<in> {''noalias'', ''signext'', ''zeroext''}) (f_ret_attrs F)\<rparr>"

text \<open>The constant for a symbol in the data: the lifted object, the placeholder it has, or a new placeholder.\<close>

definition data_symbol :: "string \<Rightarrow> gref linker" where
  "data_symbol s = bnd (gets LLVMglobals) (\<lambda>gs. case gs s of
     Some r \<Rightarrow> ret r
   | None \<Rightarrow> bnd (gets deferredGlobs) (\<lambda>ds. case find (\<lambda>d. fst d = s) ds of
       Some (_, k) \<Rightarrow> ret (Created k)
     | None \<Rightarrow> bnd (create (Placeholder (s @ ''_tmp''))) (\<lambda>dummy.
         andthen (check (s \<noteq> '''') (Assertion ''name != \"\"''))
           (andthen (modify (\<lambda>st. st\<lparr>deferredGlobs := deferredGlobs st @ [(demangle s, length (created st) - 1)]\<rparr>)) (ret dummy)))))"

fun data_items :: "RODataItem list \<Rightarrow> init list linker" where
  "data_items [] = ret []"
| "data_items (DataByte b # ds) = bnd (data_items ds) (\<lambda>vs. ret (InitByte b # vs))"
| "data_items (OffsetSym s off # ds) = bnd (data_symbol s) (\<lambda>r. bnd (data_items ds) (\<lambda>vs. ret (InitPtr r off # vs)))"

definition data_constant :: "MCGlobal \<Rightarrow> bool" where
  "data_constant g \<longleftrightarrow> prefix ''.rodata'' (gsection g) \<or> gsection g = ''.text''"

definition lazyAddGlobal :: "link_ctx \<Rightarrow> string \<Rightarrow> gref linker" where
  "lazyAddGlobal C nm = (let newGlobal = real_name nm in
     if newGlobal = ''__stack_chk_fail'' then create StackChkFail
     else if newGlobal = lk_name C then ret LiftedFn
     else (case find_fun (lk_module C) newGlobal of
       Some F \<Rightarrow> create (FunctionCopy (copyFunctionToTarget F newGlobal))
     | None \<Rightarrow> (case find (\<lambda>g. demangle (gname g) = newGlobal) (lk_data C) of
         Some g \<Rightarrow> bnd (data_items (gdata g)) (\<lambda>vs. create (DataVariable newGlobal vs (galign g) (data_constant g)))
       | None \<Rightarrow> (case find (\<lambda>g. \<not> g_init g \<and> g_name g = newGlobal) (m_globals (lk_module C)) of
           Some g \<Rightarrow> create (DeclaredVariable g)
         | None \<Rightarrow> (case implicit_intrinsics newGlobal of
             Some t \<Rightarrow> create (ImplicitIntrinsic newGlobal t)
           | None \<Rightarrow> fail (ExitError ''ERROR: global symbol not found''))))))"

section \<open>Lookup\<close>

definition subst_ref :: "nat \<Rightarrow> gref \<Rightarrow> init \<Rightarrow> init" where
  "subst_ref k g x = (case x of InitPtr r off \<Rightarrow> if r = Created k then InitPtr g off else x | _ \<Rightarrow> x)"

definition replace_ref :: "nat \<Rightarrow> gref \<Rightarrow> gobj \<Rightarrow> gobj" where
  "replace_ref k g x = (case x of DataVariable n vs al c \<Rightarrow> DataVariable n (map (subst_ref k g) vs) al c | _ \<Rightarrow> x)"

text \<open>The placeholder is replaced by the object and erased.\<close>

definition fill_in :: "string \<Rightarrow> nat \<Rightarrow> gref \<Rightarrow> gstate \<Rightarrow> gstate" where
  "fill_in nm k g st = st\<lparr>created := (map (replace_ref k g) (created st))[k := Erased], LLVMglobals := (LLVMglobals st)(nm \<mapsto> g)\<rparr>"

text \<open>The loop over the placeholders; it has no result if it has not ended within the bound.\<close>

fun process_deferred :: "nat \<Rightarrow> link_ctx \<Rightarrow> gstate \<Rightarrow> (lift_error + gstate) option" where
  "process_deferred n C st = (case deferredGlobs st of
     [] \<Rightarrow> Some (Inr st)
   | (nm, k) # ds \<Rightarrow> (case n of
         0 \<Rightarrow> None
       | Suc n' \<Rightarrow> (case lazyAddGlobal C nm (st\<lparr>deferredGlobs := ds\<rparr>) of
             Inl e \<Rightarrow> Some (Inl e)
           | Inr (g2, st') \<Rightarrow> process_deferred n' C (fill_in nm k g2 st'))))"

declare process_deferred.simps [simp del]

definition lookupGlobal :: "nat \<Rightarrow> link_ctx \<Rightarrow> string \<Rightarrow> gstate \<Rightarrow> (lift_error + gref \<times> gstate) option" where
  "lookupGlobal n C nm st = (if nm = '''' then Some (Inl (Assertion ''name != \"\"'')) else
     let name = demangle nm in case LLVMglobals st name of
       Some g \<Rightarrow> Some (Inr (g, st))
     | None \<Rightarrow> (case lazyAddGlobal C name st of
         Inl e \<Rightarrow> Some (Inl e)
       | Inr (g, st') \<Rightarrow> (case process_deferred n C (st'\<lparr>LLVMglobals := (LLVMglobals st')(name \<mapsto> g)\<rparr>) of
             None \<Rightarrow> None
           | Some (Inl e) \<Rightarrow> Some (Inl e)
           | Some (Inr st'') \<Rightarrow> Some (Inr (g, st'')))))"

end
