(* ===== verification/Globals_Inv.thy ===== *)
theory Globals_Inv
  imports Globals
begin

text \<open>
  The invariant of the globals of the lifted module and the measure of the loop over the placeholders.
\<close>

section \<open>What a reference stands for\<close>

definition obj_name :: "gobj \<Rightarrow> string option" where
  "obj_name x = (case x of
     FunctionCopy F \<Rightarrow> Some (f_name F) | DataVariable n _ _ _ \<Rightarrow> Some n | DeclaredVariable g \<Rightarrow> Some (g_name g)
   | StackChkFail \<Rightarrow> Some ''__stack_chk_fail'' | ImplicitIntrinsic n _ \<Rightarrow> Some n | Placeholder _ \<Rightarrow> None | Erased \<Rightarrow> None)"

text \<open>A reference denotes the lifted function or an object of the module; a placeholder is not an object.\<close>

definition denotes :: "link_ctx \<Rightarrow> gobj list \<Rightarrow> gref \<Rightarrow> string \<Rightarrow> bool" where
  "denotes C os r nm \<longleftrightarrow> (case r of
     LiftedFn \<Rightarrow> nm = lk_name C
   | Created k \<Rightarrow> k < length os \<and> obj_name (os ! k) = Some nm)"

text \<open>An item of an initializer is the item of the data; its pointer denotes the object of the symbol, or is a placeholder
  of the set \<open>D\<close> for it.\<close>

fun item_ok :: "link_ctx \<Rightarrow> gobj list \<Rightarrow> (string \<times> nat) set \<Rightarrow> RODataItem \<Rightarrow> init \<Rightarrow> bool" where
  "item_ok C os D (DataByte b) (InitByte b') \<longleftrightarrow> b' = b"
| "item_ok C os D (OffsetSym s off) (InitPtr r off') \<longleftrightarrow> off' = off \<and>
     (denotes C os r (real_name (demangle s)) \<or> (\<exists>k. r = Created k \<and> (demangle s, k) \<in> D))"
| "item_ok _ _ _ _ _ \<longleftrightarrow> False"

definition data_ok :: "link_ctx \<Rightarrow> gobj list \<Rightarrow> (string \<times> nat) set \<Rightarrow> gobj \<Rightarrow> bool" where
  "data_ok C os D x \<longleftrightarrow> (case x of
     DataVariable n vs al c \<Rightarrow> \<exists>g \<in> set (lk_data C). demangle (gname g) = n \<and> al = galign g \<and> c = data_constant g
       \<and> list_all2 (item_ok C os D) (gdata g) vs
   | _ \<Rightarrow> True)"

definition pending :: "gobj list \<Rightarrow> string \<times> nat \<Rightarrow> bool" where
  "pending os d \<longleftrightarrow> snd d < length os \<and> (\<exists>n. os ! snd d = Placeholder n) \<and> demangle (fst d) = fst d"

lemma pending_append: "pending os d \<Longrightarrow> pending (os @ os') d"
  by (auto simp: pending_def nth_append)

definition placeholders :: "gstate \<Rightarrow> (string \<times> nat) set \<Rightarrow> bool" where
  "placeholders st X \<longleftrightarrow> (\<forall>d \<in> set (deferredGlobs st) \<union> X. pending (created st) d)
     \<and> distinct (map snd (deferredGlobs st)) \<and> snd ` X \<inter> snd ` set (deferredGlobs st) = {}"

definition linked :: "link_ctx \<Rightarrow> (string \<times> nat) set \<Rightarrow> gstate \<Rightarrow> bool" where
  "linked C X st \<longleftrightarrow> placeholders st X
     \<and> (\<forall>nm r. LLVMglobals st nm = Some r \<longrightarrow> demangle nm = nm \<and> denotes C (created st) r (real_name nm))
     \<and> (\<forall>x \<in> set (created st). data_ok C (created st) (set (deferredGlobs st) \<union> X) x)"

text \<open>Demangling a name of the program once is enough.\<close>

definition symbols :: "link_ctx \<Rightarrow> string set" where
  "symbols C = {s. \<exists>g \<in> set (lk_data C). \<exists>off. OffsetSym s off \<in> set (gdata g)}"

definition names_plain :: "link_ctx \<Rightarrow> bool" where
  "names_plain C \<longleftrightarrow> (\<forall>s \<in> symbols C. demangle (demangle s) = demangle s)"

section \<open>Growing tables\<close>

text \<open>Lifting an object only adds objects and placeholders.\<close>

definition grown :: "gstate \<Rightarrow> gstate \<Rightarrow> bool" where
  "grown st st' \<longleftrightarrow> (\<exists>os. created st' = created st @ os) \<and> (\<exists>ds. deferredGlobs st' = deferredGlobs st @ ds)
     \<and> LLVMglobals st' = LLVMglobals st"

lemma grown_refl [simp]: "grown st st"
  by (simp add: grown_def)

lemma grown_trans: "grown a b \<Longrightarrow> grown b c \<Longrightarrow> grown a c"
  by (auto simp: grown_def)

lemma denotes_append: "denotes C os r nm \<Longrightarrow> denotes C (os @ os') r nm"
  by (auto simp: denotes_def nth_append split: gref.splits)

lemma denotes_grown: "denotes C (created st) r nm \<Longrightarrow> grown st st' \<Longrightarrow> denotes C (created st') r nm"
  by (auto simp: grown_def intro: denotes_append)

lemma item_ok_mono:
  assumes "item_ok C os D d v" and "\<And>r nm. denotes C os r nm \<Longrightarrow> denotes C os' r nm" and "D \<subseteq> D'"
  shows "item_ok C os' D' d v"
  using assms by (cases d; cases v) (auto 0 4)

lemma items_mono:
  assumes "list_all2 (item_ok C os D) ds vs" and "\<And>r nm. denotes C os r nm \<Longrightarrow> denotes C os' r nm" and "D \<subseteq> D'"
  shows "list_all2 (item_ok C os' D') ds vs"
  using assms(1) by (rule list.rel_mono_strong) (blast intro: item_ok_mono[OF _ assms(2,3)])

lemma data_ok_mono:
  assumes "data_ok C os D x" and "\<And>r nm. denotes C os r nm \<Longrightarrow> denotes C os' r nm" and "D \<subseteq> D'"
  shows "data_ok C os' D' x"
  using assms(1) items_mono[OF _ assms(2,3)] by (fastforce simp: data_ok_def split: gobj.splits)

text \<open>A new object that is no data variable, or one whose items are right, keeps the invariant.\<close>

lemma linked_create:
  assumes "linked C X st" and "data_ok C (created st) (set (deferredGlobs st) \<union> X) x" and "create x st = Inr (r, st')"
  shows "linked C X st' \<and> grown st st' \<and> (\<forall>nm. obj_name x = Some nm \<longrightarrow> denotes C (created st') r nm) \<and> r = Created (length (created st)) \<and>
    created st' = created st @ [x] \<and> deferredGlobs st' = deferredGlobs st"
proof -
  have s: "st' = st\<lparr>created := created st @ [x]\<rparr>" "r = Created (length (created st))" using assms(3) by (simp_all add: create_def)
  have "data_ok C (created st @ [x]) (set (deferredGlobs st) \<union> X) y" if "y \<in> set (created st @ [x])" for y
    by (rule data_ok_mono[of C "created st" "set (deferredGlobs st) \<union> X"]) (use assms(1,2) that in \<open>auto simp: linked_def denotes_append\<close>)
  then have "linked C X st'"
    using assms(1) unfolding linked_def placeholders_def s by (auto simp: denotes_append pending_append)
  then show ?thesis by (simp add: s grown_def denotes_def)
qed

lemma linked_symbol:
  assumes "linked C X st" and "demangle (demangle s) = demangle s" and "data_symbol s st = Inr (r, st')"
  shows "linked C X st' \<and> grown st st' \<and> item_ok C (created st') (set (deferredGlobs st') \<union> X) (OffsetSym s off) (InitPtr r off)"
proof (cases "LLVMglobals st s")
  case (Some r')
  with assms have "r = r'" "st' = st" "demangle s = s" "denotes C (created st) r (real_name s)"
    by (auto simp: data_symbol_def bnd_def linked_def)
  with assms(1) show ?thesis by simp
next
  case None
  show ?thesis
  proof (cases "find (\<lambda>d. fst d = s) (deferredGlobs st)")
    case f: (Some d)
    from f have "d \<in> set (deferredGlobs st) \<and> fst d = s" by (auto simp: find_Some_iff)
    then obtain k where d: "d = (s, k)" "(s, k) \<in> set (deferredGlobs st)" by (cases d) auto
    with assms(3) None f have "r = Created k" "st' = st" by (auto simp: data_symbol_def bnd_def)
    moreover have "demangle s = s" using assms(1) d(2) by (force simp: linked_def placeholders_def pending_def)
    ultimately show ?thesis using assms(1) d(2) by auto
  next
    case f: None
    obtain st1 where c: "create (Placeholder (s @ ''_tmp'')) st = Inr (Created (length (created st)), st1)" by (simp add: create_def)
    with linked_create[OF assms(1) _ c] have l: "linked C X st1" "grown st st1" "created st1 = created st @ [Placeholder (s @ ''_tmp'')]"
      "deferredGlobs st1 = deferredGlobs st" by (auto simp: data_ok_def)
    have s: "r = Created (length (created st))" "st' = st1\<lparr>deferredGlobs := deferredGlobs st @ [(demangle s, length (created st))]\<rparr>"
      using assms(3) None f c l(3,4) by (auto simp: data_symbol_def bnd_def andthen_def split: if_splits)
    let ?d = "(demangle s, length (created st))"
    have below: "snd d < length (created st)" if "d \<in> set (deferredGlobs st) \<union> X" for d
      using assms(1) that by (auto simp: linked_def placeholders_def pending_def)
    have new: "pending (created st') ?d" using assms(2) by (simp add: pending_def s(2) l(3))
    have free: "length (created st) \<notin> snd ` (set (deferredGlobs st) \<union> X)" using below by force
    have "placeholders st' X"
      using l(1) free new unfolding linked_def placeholders_def by (auto simp: s(2) l(4) image_Un)
    moreover have "data_ok C (created st') (set (deferredGlobs st') \<union> X) x" if "x \<in> set (created st')" for x
      by (rule data_ok_mono[of C "created st1" "set (deferredGlobs st1) \<union> X"]) (use l(1,4) that in \<open>auto simp: linked_def s(2)\<close>)
    ultimately have "linked C X st'" using l(1) by (simp add: linked_def s(2))
    moreover have "grown st st'" using l(2) unfolding s(2) by (simp add: grown_def l(4))
    ultimately show ?thesis by (simp add: s)
  qed
qed

lemma linked_items:
  assumes "\<forall>s off. OffsetSym s off \<in> set ds \<longrightarrow> demangle (demangle s) = demangle s"
  shows "linked C X st \<Longrightarrow> data_items ds st = Inr (vs, st') \<Longrightarrow>
    linked C X st' \<and> grown st st' \<and> list_all2 (item_ok C (created st') (set (deferredGlobs st') \<union> X)) ds vs"
  using assms
proof (induction ds arbitrary: st vs)
  case (Cons d ds)
  show ?case
  proof (cases d)
    case (OffsetSym s off)
    with Cons.prems(2) obtain r st1 vs1 where r: "data_symbol s st = Inr (r, st1)" "data_items ds st1 = Inr (vs1, st')" "vs = InitPtr r off # vs1"
      by (auto simp: bnd_eq_Inr)
    have "demangle (demangle s) = demangle s" using Cons.prems(3) OffsetSym by auto
    from linked_symbol[OF Cons.prems(1) this r(1)] have l: "linked C X st1" "grown st st1"
      "item_ok C (created st1) (set (deferredGlobs st1) \<union> X) (OffsetSym s off) (InitPtr r off)" by blast+
    from Cons.IH[OF l(1) r(2)] Cons.prems(3) have i: "linked C X st'" "grown st1 st'"
      "list_all2 (item_ok C (created st') (set (deferredGlobs st') \<union> X)) ds vs1" by auto
    have "item_ok C (created st') (set (deferredGlobs st') \<union> X) (OffsetSym s off) (InitPtr r off)"
      by (rule item_ok_mono[OF l(3) denotes_grown[OF _ i(2)]]) (use i(2) in \<open>auto simp: grown_def\<close>)
    with i grown_trans[OF l(2) i(2)] show ?thesis by (simp add: r(3) OffsetSym del: item_ok.simps)
  next
    case (DataByte b)
    with Cons.prems(2) obtain vs1 where r: "data_items ds st = Inr (vs1, st')" "vs = InitByte b # vs1"
      by (auto simp: bnd_eq_Inr)
    from Cons.IH[OF Cons.prems(1) r(1)] Cons.prems(3) show ?thesis by (simp add: r(2) DataByte)
  qed
qed simp

section \<open>Lifting one object\<close>

lemma linked_lazy:
  assumes "linked C X st" and "names_plain C" and "lazyAddGlobal C nm st = Inr (r, st')"
  shows "linked C X st' \<and> grown st st' \<and> denotes C (created st') r (real_name nm)"
proof -
  let ?n = "real_name nm"
  have new: "linked C X st' \<and> grown st st' \<and> denotes C (created st') r ?n"
    if "create x st = Inr (r, st')" "obj_name x = Some ?n" "\<forall>n vs al c. x \<noteq> DataVariable n vs al c" for x
  proof -
    have "data_ok C (created st) (set (deferredGlobs st) \<union> X) x" using that(3) by (cases x) (auto simp: data_ok_def)
    from linked_create[OF assms(1) this that(1)] that(2) show ?thesis by blast
  qed
  show ?thesis
  proof (cases "?n = ''__stack_chk_fail'' \<or> ?n = lk_name C")
    case True
    show ?thesis
    proof (cases "?n = ''__stack_chk_fail''")
      case True
      with assms(3) new[of StackChkFail] show ?thesis by (simp add: lazyAddGlobal_def Let_def obj_name_def)
    next
      case False
      with True assms(1,3) show ?thesis by (auto simp: lazyAddGlobal_def Let_def denotes_def)
    qed
  next
    case False
    note l = assms(3)[unfolded lazyAddGlobal_def Let_def, simplified False if_False simp_thms]
    show ?thesis
    proof (cases "find_fun (lk_module C) ?n")
      case (Some F)
      with l False new[of "FunctionCopy (copyFunctionToTarget F ?n)"] show ?thesis
        by (simp add: obj_name_def copyFunctionToTarget_def new_declaration_def)
    next
      case f: None
      show ?thesis
      proof (cases "find (\<lambda>g. demangle (gname g) = ?n) (lk_data C)")
        case (Some g)
        then have g: "g \<in> set (lk_data C)" "demangle (gname g) = ?n" by (auto simp: find_Some_iff)
        from l f Some False obtain vs st1 where d: "data_items (gdata g) st = Inr (vs, st1)"
          "create (DataVariable ?n vs (galign g) (data_constant g)) st1 = Inr (r, st')" by (auto simp: bnd_eq_Inr)
        have "\<forall>s off. OffsetSym s off \<in> set (gdata g) \<longrightarrow> demangle (demangle s) = demangle s"
          using assms(2) g(1) by (auto simp: names_plain_def symbols_def)
        from linked_items[OF this assms(1) d(1)] have i: "linked C X st1" "grown st st1"
          "list_all2 (item_ok C (created st1) (set (deferredGlobs st1) \<union> X)) (gdata g) vs" by blast+
        from i(3) g have ok: "data_ok C (created st1) (set (deferredGlobs st1) \<union> X) (DataVariable ?n vs (galign g) (data_constant g))"
          by (auto simp: data_ok_def)
        have "obj_name (DataVariable ?n vs (galign g) (data_constant g)) = Some ?n" by (simp add: obj_name_def)
        with linked_create[OF i(1) ok d(2)] grown_trans[OF i(2)] show ?thesis by blast
      next
        case g: None
        show ?thesis
        proof (cases "find (\<lambda>g. \<not> g_init g \<and> g_name g = ?n) (m_globals (lk_module C))")
          case (Some v)
          then have "g_name v = ?n" by (auto simp: find_Some_iff)
          with l f g Some False new[of "DeclaredVariable v"] show ?thesis by (simp add: obj_name_def)
        next
          case v: None
          with l f g False new[of "ImplicitIntrinsic ?n t" for t] show ?thesis
            by (auto simp: obj_name_def split: option.splits)
        qed
      qed
    qed
  qed
qed

section \<open>Filling in a placeholder\<close>

lemma obj_name_replace [simp]: "obj_name (replace_ref k g x) = obj_name x"
  by (cases x) (simp_all add: obj_name_def replace_ref_def)

lemma fill_denotes:
  assumes "denotes C os r nm" and "\<exists>n. os ! k = Placeholder n"
  shows "denotes C ((map (replace_ref k g) os)[k := Erased]) r nm"
proof (cases r)
  case (Created j)
  have "obj_name (os ! k) = None" using assms(2) by (auto simp: obj_name_def)
  with assms(1) Created show ?thesis by (cases "j = k") (auto simp: denotes_def)
qed (use assms(1) in \<open>simp add: denotes_def\<close>)

lemma not_denotes_placeholder: "os ! k = Placeholder n \<Longrightarrow> \<not> denotes C os (Created k) nm"
  by (simp add: denotes_def obj_name_def)

lemma fill_item:
  assumes "item_ok C os (insert (nm, k) D) d v" and "\<exists>n. os ! k = Placeholder n" and "denotes C os g (real_name nm)"
    and "\<And>d. d \<in> D \<Longrightarrow> snd d \<noteq> k"
  shows "item_ok C ((map (replace_ref k g) os)[k := Erased]) D d (subst_ref k g v)"
proof (cases v)
  case (InitPtr r off)
  show ?thesis
  proof (cases d)
    case (OffsetSym s off')
    note i = assms(1)[unfolded InitPtr OffsetSym, simplified]
    show ?thesis
    proof (cases "r = Created k")
      case True
      with i not_denotes_placeholder assms(2) obtain k' where "r = Created k'" "(demangle s, k') \<in> insert (nm, k) D" by blast
      with True assms(4) have "demangle s = nm" by force
      with i True fill_denotes[OF assms(3,2)] show ?thesis by (simp add: InitPtr OffsetSym subst_ref_def)
    next
      case False
      with i fill_denotes[OF _ assms(2)] show ?thesis by (auto simp: InitPtr OffsetSym subst_ref_def)
    qed
  qed (use assms(1) InitPtr in simp)
qed (use assms(1) in \<open>cases d; simp add: subst_ref_def\<close>)

lemma linked_fill:
  assumes "linked C {(nm, k)} st" and "denotes C (created st) g (real_name nm)"
  shows "linked C {} (fill_in nm k g st)"
proof -
  let ?os = "(map (replace_ref k g) (created st))[k := Erased]"
  have ph: "\<exists>n. created st ! k = Placeholder n" "k < length (created st)" "demangle nm = nm"
    and other: "\<And>d. d \<in> set (deferredGlobs st) \<Longrightarrow> snd d \<noteq> k"
    using assms(1) by (auto simp: linked_def placeholders_def pending_def)
  have "pending ?os d" if "d \<in> set (deferredGlobs st)" for d
    using assms(1) other[OF that] that by (fastforce simp: linked_def placeholders_def pending_def replace_ref_def)
  moreover have "data_ok C ?os (set (deferredGlobs st)) x" if "x \<in> set ?os" for x
  proof (cases "x = Erased")
    case False
    with that obtain y where y: "y \<in> set (created st)" "x = replace_ref k g y" by (auto dest!: set_update_subset_insert[THEN subsetD])
    show ?thesis
    proof (cases y)
      case (DataVariable n vs al c)
      with assms(1) y(1) obtain m where m: "m \<in> set (lk_data C)" "demangle (gname m) = n" "al = galign m" "c = data_constant m"
        "list_all2 (item_ok C (created st) (insert (nm, k) (set (deferredGlobs st)))) (gdata m) vs"
        by (fastforce simp: linked_def data_ok_def)
      have "list_all2 (item_ok C ?os (set (deferredGlobs st))) (gdata m) (map (subst_ref k g) vs)"
        unfolding list.rel_map by (rule list.rel_mono_strong[OF m(5)]) (rule fill_item[OF _ ph(1) assms(2) other])
      with m show ?thesis by (auto simp: y(2) DataVariable replace_ref_def data_ok_def)
    qed (simp_all add: y(2) replace_ref_def data_ok_def)
  qed (simp add: data_ok_def)
  moreover have "distinct (map snd (deferredGlobs st))" using assms(1) by (simp add: linked_def placeholders_def)
  ultimately show ?thesis
    using assms ph(3) fill_denotes[OF _ ph(1), of C] by (auto simp: linked_def placeholders_def fill_in_def)
qed

end
