(* ===== verification/Globals_Props.thy ===== *)
theory Globals_Props
  imports Globals_Inv
begin

text \<open>
  The properties of the lookup of globals.
\<close>

section \<open>The loop over the placeholders\<close>

lemma linked_pop:
  assumes "linked C {} st" and "deferredGlobs st = (nm, k) # ds"
  shows "linked C {(nm, k)} (st\<lparr>deferredGlobs := ds\<rparr>)"
  using assms by (auto simp: linked_def placeholders_def)

lemma step_linked:
  assumes "linked C {} st" and "names_plain C" and "deferredGlobs st = (nm, k) # ds"
    and "lazyAddGlobal C nm (st\<lparr>deferredGlobs := ds\<rparr>) = Inr (g, st')"
  shows "linked C {} (fill_in nm k g st') \<and> (\<forall>r n. denotes C (created st) r n \<longrightarrow> denotes C (created (fill_in nm k g st')) r n)"
proof -
  from linked_lazy[OF linked_pop[OF assms(1,3)] assms(2,4)]
  have l: "linked C {(nm, k)} st'" "grown (st\<lparr>deferredGlobs := ds\<rparr>) st'" "denotes C (created st') g (real_name nm)" by blast+
  have "denotes C (created (fill_in nm k g st')) r n" if "denotes C (created st) r n" for r n
  proof -
    have "denotes C (created st') r n" using denotes_grown[OF _ l(2)] that by simp
    moreover have "\<exists>n. created st' ! k = Placeholder n" using l(1) by (simp add: linked_def placeholders_def pending_def)
    ultimately show ?thesis using fill_denotes by (simp add: fill_in_def)
  qed
  with linked_fill[OF l(1,3)] show ?thesis by blast
qed

lemma process_linked:
  assumes "names_plain C"
  shows "linked C {} st \<Longrightarrow> process_deferred n C st = Some (Inr st') \<Longrightarrow>
    linked C {} st' \<and> deferredGlobs st' = [] \<and> (\<forall>r nm. denotes C (created st) r nm \<longrightarrow> denotes C (created st') r nm)"
proof (induction n arbitrary: st)
  case 0
  then show ?case by (auto simp: process_deferred.simps split: list.splits)
next
  case (Suc n)
  show ?case
  proof (cases "deferredGlobs st")
    case Nil
    with Suc.prems show ?thesis by (simp add: process_deferred.simps)
  next
    case (Cons d ds)
    then obtain nm k where d: "deferredGlobs st = (nm, k) # ds" by (cases d) auto
    with Suc.prems(2) obtain g st1 where l: "lazyAddGlobal C nm (st\<lparr>deferredGlobs := ds\<rparr>) = Inr (g, st1)"
      "process_deferred n C (fill_in nm k g st1) = Some (Inr st')"
      by (auto simp: process_deferred.simps[of "Suc n"] split: sum.splits)
    from step_linked[OF Suc.prems(1) assms d l(1)] Suc.IH[OF _ l(2)] show ?thesis by blast
  qed
qed

text \<open>An item of an initializer and the item of the data it stands for.\<close>

fun item_links :: "link_ctx \<Rightarrow> gobj list \<Rightarrow> RODataItem \<Rightarrow> init \<Rightarrow> bool" where
  "item_links C os (DataByte b) (InitByte b') \<longleftrightarrow> b' = b"
| "item_links C os (OffsetSym s off) (InitPtr r off') \<longleftrightarrow> off' = off \<and> denotes C os r (real_name (demangle s))"
| "item_links _ _ _ _ \<longleftrightarrow> False"


definition demo_link :: link_ctx where
  "demo_link = \<lparr>lk_name = ''f'', lk_module = \<lparr>m_globals = [], m_funs = []\<rparr>,
     lk_data = [\<lparr>gname = ''a'', galign = 8, gsection = ''.data'', gdata = [DataByte 7, OffsetSym ''b'' 4]\<rparr>,
       \<lparr>gname = ''b'', galign = 8, gsection = ''.rodata'', gdata = [OffsetSym ''a'' 0]\<rparr>]\<rparr>"

abbreviation no_globals :: gstate where
  "no_globals \<equiv> \<lparr>created = [], LLVMglobals = Map.empty, deferredGlobs = []\<rparr>"

lemma demo_symbols: "symbols demo_link = {''a'', ''b''}"
  by (auto simp: symbols_def demo_link_def)

lemma demo_demangle: "demangle ''a'' = ''a''" "demangle ''b'' = ''b''"
  by (simp_all add: demangle_def)

lemma demo_lookup:
  "lookupGlobal 2 demo_link ''a'' no_globals = Some (Inr (Created 1,
     \<lparr>created = [Erased, DataVariable ''a'' [InitByte 7, InitPtr (Created 2) 4] 8 False, DataVariable ''b'' [InitPtr (Created 1) 0] 8 True],
       LLVMglobals = [''a'' \<mapsto> Created 1, ''b'' \<mapsto> Created 2], deferredGlobs = []\<rparr>))"
  by (simp add: lookupGlobal_def lazyAddGlobal_def demo_link_def demangle_def real_name_def intrinsic_names_def find_fun_def Let_def
      process_deferred.simps data_symbol_def bnd_def andthen_def create_def fill_in_def replace_ref_def subst_ref_def data_constant_def numeral_2_eq_2)


section \<open>Termination\<close>

definition plain_symbols :: "link_ctx \<Rightarrow> bool" where
  "plain_symbols C \<longleftrightarrow> (\<forall>s \<in> symbols C. demangle s = s)"

definition waiting :: "gstate \<Rightarrow> string set" where
  "waiting st = fst ` set (deferredGlobs st)"

lemma finite_waiting [simp]: "finite (waiting st)"
  by (simp add: waiting_def)

text \<open>The work left: a symbol not met yet can be deferred twice, one that waits once more unless it has been lifted.\<close>

definition work :: "link_ctx \<Rightarrow> gstate \<Rightarrow> nat" where
  "work C st = 2 * card (symbols C - dom (LLVMglobals st) - waiting st) + length (deferredGlobs st) + card (waiting st - dom (LLVMglobals st))"

definition queue_ok :: "link_ctx \<Rightarrow> gstate \<Rightarrow> bool" where
  "queue_ok C st \<longleftrightarrow> distinct (map fst (deferredGlobs st)) \<and> waiting st \<subseteq> symbols C"

lemma finite_symbols [simp]: "finite (symbols C)"
proof -
  have "symbols C \<subseteq> (\<Union>g \<in> set (lk_data C). \<Union>d \<in> set (gdata g). case d of OffsetSym s _ \<Rightarrow> {s} | _ \<Rightarrow> {})"
    by (force simp: symbols_def)
  moreover have "finite \<dots>" by (auto split: RODataItem.split)
  ultimately show ?thesis by (rule finite_subset)
qed

lemma card_new: "A = insert x B \<Longrightarrow> x \<notin> B \<Longrightarrow> finite B \<Longrightarrow> card A = Suc (card B)"
  by simp

lemma work_symbol:
  assumes "queue_ok C st" and "s \<in> symbols C" and "demangle s = s" and "data_symbol s st = Inr (r, st')"
  shows "queue_ok C st' \<and> work C st' = work C st \<and> LLVMglobals st' = LLVMglobals st"
proof (cases "LLVMglobals st s = None \<and> s \<notin> waiting st")
  case True
  then have f: "find (\<lambda>d. fst d = s) (deferredGlobs st) = None" by (force simp: find_None_iff waiting_def)
  with True assms(3,4) have st': "deferredGlobs st' = deferredGlobs st @ [(s, length (created st))]" "LLVMglobals st' = LLVMglobals st"
    by (auto simp: data_symbol_def bnd_def andthen_def create_def split: if_splits)
  let ?U = "symbols C - dom (LLVMglobals st) - waiting st" and ?V = "waiting st - dom (LLVMglobals st)"
  have s: "s \<in> ?U" "s \<notin> ?V" using True assms(2) by auto
  have "symbols C - dom (LLVMglobals st) - waiting st' = ?U - {s}" "waiting st' - dom (LLVMglobals st) = insert s ?V"
    using True by (auto simp: waiting_def st')
  moreover have "card (?U - {s}) = card ?U - 1" "0 < card ?U" using s(1) by (simp_all add: card_gt_0_iff) blast
  moreover have "card (insert s ?V) = Suc (card ?V)" using s(2) by simp
  ultimately have "work C st' = work C st" by (simp add: work_def) (simp add: st')
  with assms(1,2) True show ?thesis by (auto simp: queue_ok_def waiting_def st')
next
  case False
  have "st' = st"
  proof (cases "LLVMglobals st s")
    case None
    with False obtain d where "find (\<lambda>d. fst d = s) (deferredGlobs st) = Some d" by (cases "find (\<lambda>d. fst d = s) (deferredGlobs st)") (auto simp: find_None_iff waiting_def)
    with None assms(4) show ?thesis by (cases d) (auto simp: data_symbol_def bnd_def)
  qed (use assms(4) in \<open>auto simp: data_symbol_def bnd_def\<close>)
  with assms(1) show ?thesis by simp
qed

lemma work_items:
  assumes "\<forall>s off. OffsetSym s off \<in> set ds \<longrightarrow> s \<in> symbols C \<and> demangle s = s"
  shows "queue_ok C st \<Longrightarrow> data_items ds st = Inr (vs, st') \<Longrightarrow>
    queue_ok C st' \<and> work C st' = work C st \<and> LLVMglobals st' = LLVMglobals st"
  using assms
proof (induction ds arbitrary: st vs)
  case (Cons d ds)
  show ?case
  proof (cases d)
    case (OffsetSym s off)
    with Cons.prems(2) obtain r st1 vs1 where r: "data_symbol s st = Inr (r, st1)" "data_items ds st1 = Inr (vs1, st')"
      by (auto simp: bnd_eq_Inr)
    from work_symbol[OF Cons.prems(1) _ _ r(1)] Cons.prems(3) OffsetSym
    have w: "queue_ok C st1" "work C st1 = work C st" "LLVMglobals st1 = LLVMglobals st" by auto
    have "\<forall>s off. OffsetSym s off \<in> set ds \<longrightarrow> s \<in> symbols C \<and> demangle s = s" using Cons.prems(3) by auto
    from Cons.IH[OF w(1) r(2) this] w show ?thesis by simp
  next
    case (DataByte b)
    with Cons.prems(2) obtain vs1 where r: "data_items ds st = Inr (vs1, st')" by (auto simp: bnd_eq_Inr)
    have "\<forall>s off. OffsetSym s off \<in> set ds \<longrightarrow> s \<in> symbols C \<and> demangle s = s" using Cons.prems(3) by auto
    from Cons.IH[OF Cons.prems(1) r this] show ?thesis .
  qed
qed simp

lemma work_lazy:
  assumes "plain_symbols C" and "queue_ok C st" and "lazyAddGlobal C nm st = Inr (r, st')"
  shows "queue_ok C st' \<and> work C st' = work C st \<and> LLVMglobals st' = LLVMglobals st"
proof -
  have new: "queue_ok C st2 \<and> work C st2 = work C st1 \<and> LLVMglobals st2 = LLVMglobals st1"
    if "queue_ok C st1" "create x st1 = Inr (r, st2)" for x st1 st2
    proof -
    have "deferredGlobs st2 = deferredGlobs st1" "LLVMglobals st2 = LLVMglobals st1" using that(2) by (auto simp: create_def)
    with that(1) show ?thesis by (simp add: queue_ok_def work_def waiting_def)
  qed
  have items: "queue_ok C st1 \<and> work C st1 = work C st \<and> LLVMglobals st1 = LLVMglobals st"
    if "find (\<lambda>g. demangle (gname g) = real_name nm) (lk_data C) = Some g" "data_items (gdata g) st = Inr (vs, st1)" for g vs st1
  proof (rule work_items[OF _ assms(2) that(2)])
    have "g \<in> set (lk_data C)" using that(1) by (auto simp: find_Some_iff)
    with assms(1) show "\<forall>s off. OffsetSym s off \<in> set (gdata g) \<longrightarrow> s \<in> symbols C \<and> demangle s = s"
      by (auto simp: plain_symbols_def symbols_def)
  qed
  from assms(3) consider "st' = st" | x where "create x st = Inr (r, st')"
    | g vs st1 x where "find (\<lambda>g. demangle (gname g) = real_name nm) (lk_data C) = Some g" "data_items (gdata g) st = Inr (vs, st1)" "create x st1 = Inr (r, st')"
    by (auto simp: lazyAddGlobal_def Let_def bnd_eq_Inr split: if_splits option.splits)
  then show ?thesis
  proof cases
    case 3
    from items[OF 3(1,2)] new[OF _ 3(3)] show ?thesis by auto
  qed (use assms(2) new in auto)
qed

lemma work_step:
  assumes "plain_symbols C" and "queue_ok C st" and "deferredGlobs st = (nm, k) # ds"
    and "lazyAddGlobal C nm (st\<lparr>deferredGlobs := ds\<rparr>) = Inr (g, st')"
  shows "queue_ok C (fill_in nm k g st') \<and> work C (fill_in nm k g st') < work C st"
proof -
  let ?st1 = "st\<lparr>deferredGlobs := ds\<rparr>" and ?S = "symbols C" and ?M = "dom (LLVMglobals st)" and ?W = "fst ` set ds"
  have nm: "nm \<in> ?S" "nm \<notin> ?W" and q1: "queue_ok C ?st1" using assms(2,3) by (auto simp: queue_ok_def waiting_def)
  from work_lazy[OF assms(1) q1 assms(4)] have l: "queue_ok C st'" "work C st' = work C ?st1" "LLVMglobals st' = LLVMglobals st" by simp_all
  have ws: "waiting ?st1 = ?W" "waiting st = insert nm ?W" and wf: "waiting (fill_in nm k g st') = waiting st'"
    by (simp_all add: waiting_def assms(3) fill_in_def)
  have f: "deferredGlobs (fill_in nm k g st') = deferredGlobs st'" "dom (LLVMglobals (fill_in nm k g st')) = insert nm ?M"
    by (simp_all add: fill_in_def l(3))
  have "work C (fill_in nm k g st') < work C st"
  proof (cases "nm \<in> ?M")
    case True
    then have "insert nm ?M = ?M" by blast
    then have "work C (fill_in nm k g st') = work C ?st1" unfolding l(2)[symmetric] by (simp add: work_def f wf l(3))
    moreover have "?S - ?M - insert nm ?W = ?S - ?M - ?W" "insert nm ?W - ?M = ?W - ?M" using True by auto
    ultimately show ?thesis using assms(3) by (simp add: work_def ws)
  next
    case False
    have "card (?S - ?M - ?W) = Suc (card (?S - ?M - insert nm ?W))" by (rule card_new[of _ nm]) (use False nm in auto)
    moreover have "card (insert nm ?W - ?M) = Suc (card (?W - ?M))" by (rule card_new[of _ nm]) (use False nm in auto)
    ultimately have eq: "work C ?st1 = work C st" using assms(3) by (simp add: work_def ws)
    let ?W' = "waiting st'"
    have "2 * card (?S - insert nm ?M - ?W') + card (?W' - insert nm ?M) < 2 * card (?S - ?M - ?W') + card (?W' - ?M)"
    proof (cases "nm \<in> ?W'")
      case True
      have "card (?W' - ?M) = Suc (card (?W' - insert nm ?M))" by (rule card_new[of _ nm]) (use False True in auto)
      moreover have "?S - insert nm ?M - ?W' = ?S - ?M - ?W'" using True by auto
      ultimately show ?thesis by simp
    next
      case out: False
      have "card (?S - ?M - ?W') = Suc (card (?S - insert nm ?M - ?W'))" by (rule card_new[of _ nm]) (use False nm(1) out in auto)
      moreover have "?W' - insert nm ?M = ?W' - ?M" using out by auto
      ultimately show ?thesis by simp
    qed
    then have "work C (fill_in nm k g st') < work C st'" by (simp add: work_def f wf l(3))
    with l(2) eq show ?thesis by simp
  qed
  with l(1) show ?thesis by (simp add: queue_ok_def f(1) wf)
qed

lemma process_ends:
  assumes "plain_symbols C"
  shows "queue_ok C st \<Longrightarrow> work C st \<le> n \<Longrightarrow> process_deferred n C st \<noteq> None"
proof (induction n arbitrary: st)
  case 0
  then have "deferredGlobs st = []" by (simp add: work_def)
  then show ?case by (simp add: process_deferred.simps)
next
  case (Suc n)
  show ?case
  proof (cases "deferredGlobs st")
    case (Cons d ds)
    then obtain nm k where d: "deferredGlobs st = (nm, k) # ds" by (cases d) auto
    show ?thesis
    proof (cases "lazyAddGlobal C nm (st\<lparr>deferredGlobs := ds\<rparr>)")
      case (Inr r)
      then obtain g st' where l: "lazyAddGlobal C nm (st\<lparr>deferredGlobs := ds\<rparr>) = Inr (g, st')" by (cases r) auto
      from work_step[OF assms Suc.prems(1) d l] Suc.prems(2) have "process_deferred n C (fill_in nm k g st') \<noteq> None" by (intro Suc.IH) auto
      with l d show ?thesis by (simp add: process_deferred.simps[of "Suc n"])
    qed (simp add: process_deferred.simps[of "Suc n"] d)
  qed (simp add: process_deferred.simps)
qed

text \<open>C33. The loop over the placeholders ends. When the data refers to objects by names that demangling leaves alone,
  \<open>lookupGlobal\<close> returns - with a constant or with the error of an unknown symbol - after at most two rounds for each symbol of
  the data, however the objects refer to each other.\<close>

theorem lookupGlobal_ends:
  assumes "plain_symbols C" and "deferredGlobs st = []" and "2 * card (symbols C) \<le> n"
  shows "lookupGlobal n C nm st \<noteq> None"
proof (cases "LLVMglobals st (demangle nm)")
  case None
  show ?thesis
  proof (cases "lazyAddGlobal C (demangle nm) st")
    case (Inr r)
    then obtain g st' where l: "lazyAddGlobal C (demangle nm) st = Inr (g, st')" by (cases r) auto
    have q: "queue_ok C st" using assms(2) by (simp add: queue_ok_def waiting_def)
    have "work C st \<le> 2 * card (symbols C)" by (simp add: work_def waiting_def assms(2) card_mono)
    with work_lazy[OF assms(1) q l] have w: "queue_ok C st'" "work C st' \<le> 2 * card (symbols C)" by simp_all
    let ?st = "st'\<lparr>LLVMglobals := (LLVMglobals st')(demangle nm \<mapsto> g)\<rparr>"
    have "card (symbols C - dom (LLVMglobals ?st) - waiting ?st) \<le> card (symbols C - dom (LLVMglobals st') - waiting st')"
      "card (waiting ?st - dom (LLVMglobals ?st)) \<le> card (waiting st' - dom (LLVMglobals st'))"
      by (rule card_mono; auto simp: waiting_def)+
    then have "work C ?st \<le> work C st'" by (simp add: work_def)
    with w assms(3) have "process_deferred n C ?st \<noteq> None" by (intro process_ends[OF assms(1)]) (simp_all add: queue_ok_def waiting_def)
    with l None show ?thesis by (auto simp: lookupGlobal_def Let_def split: sum.split)
  qed (use None in \<open>simp add: lookupGlobal_def Let_def\<close>)
qed (simp add: lookupGlobal_def Let_def)

theorem lookupGlobal_ends_witness: "lookupGlobal 4 demo_link ''b'' no_globals \<noteq> None"
proof (rule lookupGlobal_ends)
  show "plain_symbols demo_link" by (simp add: plain_symbols_def demo_symbols demo_demangle)
qed (simp_all add: demo_symbols)

section \<open>A lookup that does not return\<close>

definition private_cycle :: link_ctx where
  "private_cycle = \<lparr>lk_name = ''f'', lk_module = \<lparr>m_globals = [], m_funs = []\<rparr>,
     lk_data = [\<lparr>gname = ''.L.x'', galign = 8, gsection = ''.data'', gdata = [OffsetSym ''.L.x'' 0]\<rparr>]\<rparr>"

lemma private_lazy:
  assumes "LLVMglobals st ''.L.x'' = None" and "deferredGlobs st = []"
  shows "\<exists>g os. lazyAddGlobal private_cycle ''.x'' st = Inr (g, \<lparr>created = os, LLVMglobals = LLVMglobals st, deferredGlobs = [(''.x'', length (created st))]\<rparr>)"
  using assms by (cases st) (simp add: lazyAddGlobal_def private_cycle_def demangle_def suffix_to_prefix real_name_def intrinsic_names_def
      find_fun_def Let_def data_symbol_def bnd_def andthen_def create_def)

lemma private_process:
  "LLVMglobals st ''.L.x'' = None \<Longrightarrow> deferredGlobs st = [(''.x'', k)] \<Longrightarrow> process_deferred n private_cycle st = None"
proof (induction n arbitrary: st k)
  case 0
  then show ?case by (simp add: process_deferred.simps)
next
  case (Suc n)
  from private_lazy[of "st\<lparr>deferredGlobs := []\<rparr>"] Suc.prems(1) obtain g os j where
    l: "lazyAddGlobal private_cycle ''.x'' (st\<lparr>deferredGlobs := []\<rparr>) = Inr (g, \<lparr>created = os, LLVMglobals = LLVMglobals st, deferredGlobs = [(''.x'', j)]\<rparr>)" by auto
  have "process_deferred n private_cycle (fill_in ''.x'' k g \<lparr>created = os, LLVMglobals = LLVMglobals st, deferredGlobs = [(''.x'', j)]\<rparr>) = None"
    by (rule Suc.IH) (use Suc.prems(1) in \<open>simp_all add: fill_in_def\<close>)
  then show ?case by (simp add: process_deferred.simps[of "Suc n"] Suc.prems(2) l)
qed

text \<open>C34. Demangled and mangled names are mixed up. The tables of \<open>lookupGlobal\<close> are keyed by demangled names and
  \<open>lazyAddGlobal\<close> looks the symbols of the data up by their assembler names: for a private object that refers to itself under
  the name \<open>.L.x\<close> no bound is enough, it is deferred and lifted again for ever.\<close>

theorem private_cycle_never_ends: "lookupGlobal n private_cycle ''.L.x'' no_globals = None"
proof -
  obtain g os j where l: "lazyAddGlobal private_cycle ''.x'' no_globals = Inr (g, \<lparr>created = os, LLVMglobals = Map.empty, deferredGlobs = [(''.x'', j)]\<rparr>)"
    using private_lazy[of no_globals] by auto
  moreover have "demangle ''.L.x'' = ''.x''" by (simp add: demangle_def suffix_to_prefix)
  ultimately show ?thesis by (simp add: lookupGlobal_def private_process)
qed

end
