(* ===== verification/Validate.thy ===== *)
theory Validate
  imports Stack_Objects Globals Adjust
begin

text \<open>
  The driver's validation of one function (\<open>doit\<close> in \<open>bpf-tv.cpp\<close>), \<open>liftFunc\<close> (\<open>lifter.cpp\<close>) and
  \<open>fixupOptimizedTgt\<close> (\<open>mc2llvm.cpp\<close>). The LLVM backend, its optimizer and verifier, the lifter's run and Alive2 are
  parameters: fields of the environment. Every \<open>exit(-1)\<close> is an outcome with the message the code prints.
\<close>

section \<open>The optimized lifted function\<close>

text \<open>The allocation function is known by its name; it is absent if the optimizer removed it.\<close>

definition drop_tail :: "sinst \<Rightarrow> sinst" where
  "drop_tail i = (if isCallInst i then i\<lparr>s_tail := False\<rparr> else i)"

definition drop_attrs :: "sarg \<Rightarrow> sarg" where
  "drop_attrs a = a\<lparr>a_attrs := filter (\<lambda>x. x \<notin> {''captures'', ''readnone'', ''readonly'', ''writeonly'', ''initializes''}) (a_attrs a)\<rparr>"

definition stack_inst :: "nat \<Rightarrow> int \<Rightarrow> sinst" where
  "stack_inst n bytes = \<lparr>s_id = n, s_type = SPtr 0, s_op = SAlloca True (Some (nat bytes)), s_ops = [IntC 64 bytes], s_name = ''stack'',
     s_volatile = False, s_atomic = False, s_line = None, s_ret_attrs = [], s_tail = False\<rparr>"

definition calls_myalloc :: "smodule \<Rightarrow> string \<Rightarrow> sinst \<Rightarrow> bool" where
  "calls_myalloc M my i \<longleftrightarrow> isCallInst i \<and> (case called_function M i of Some G \<Rightarrow> f_name G = my | None \<Rightarrow> False)"

definition replace_myalloc :: "nat \<Rightarrow> int \<Rightarrow> sinst \<Rightarrow> sfunc \<Rightarrow> sfunc" where
  "replace_myalloc g bytes i F = replaceAllUsesWith (Inst (s_id i)) (Inst g) (insert_before (s_id i) (stack_inst g bytes) F)"

text \<open>A second call of the allocation function fails the code's assertion.\<close>

definition fixupOptimizedTgt :: "smodule \<Rightarrow> string option \<Rightarrow> int \<Rightarrow> sfunc \<Rightarrow> lift_error + sfunc" where
  "fixupOptimizedTgt M myAllocVH stackSize tgt = (let F = (map_insts drop_tail tgt)\<lparr>f_args := map drop_attrs (f_args tgt)\<rparr> in
     case myAllocVH of
       None \<Rightarrow> Inr F
     | Some my \<Rightarrow> (case filter (calls_myalloc M my) (insts F) of
         [] \<Rightarrow> Inr F
       | [i] \<Rightarrow> Inr (eraseFromParent (s_id i) (replace_myalloc (next_id F) stackSize i F))
       | _ \<Rightarrow> Inl (Assertion ''myAllocCall == nullptr'')))"

definition liftFunc :: "('x \<Rightarrow> lift_error + sfunc \<times> sfunc) \<Rightarrow> (sfunc \<Rightarrow> string + sfunc) \<Rightarrow> (sfunc \<Rightarrow> lift_error + sfunc) \<Rightarrow> 'x \<Rightarrow> lift_error + sfunc \<times> sfunc" where
  "liftFunc run optimize fixup x = (case run x of
     Inl e \<Rightarrow> Inl e
   | Inr (adjustedSrc, tgtFn) \<Rightarrow> (case optimize tgtFn of
         Inl err \<Rightarrow> Inl (ExitError ''ERROR running LLVM optimizations'')
       | Inr opt \<Rightarrow> (case fixup opt of Inl e \<Rightarrow> Inl e | Inr t \<Rightarrow> Inr (adjustedSrc, t))))"

section \<open>Pointer loads that reach a call\<close>

text \<open>One value of the worklist: its users are a call that takes it (no result), or extend the list.\<close>

fun flow_users :: "svalue \<Rightarrow> sinst list \<Rightarrow> nat list \<Rightarrow> nat list option" where
  "flow_users v [] flow = Some flow"
| "flow_users v (u # us) flow = (if isCallBase u then (if v \<in> set (call_args u) then None else flow_users v us flow)
     else if s_op u = SPhi \<or> s_op u = SSelect then flow_users v us (flow @ [s_id u])
     else flow_users v us flow)"

definition all_refs :: "sfunc \<Rightarrow> nat set" where
  "all_refs F = (\<Union>i \<in> set (insts F). refs i)"

lemma finite_refs [simp]: "finite (refs i)"
proof -
  have "refs i \<subseteq> (\<lambda>v. case v of Inst n \<Rightarrow> n | _ \<Rightarrow> 0) ` set (s_ops i)" by (force simp: refs_def)
  then show ?thesis by (rule finite_subset) simp
qed

lemma finite_all_refs [simp]: "finite (all_refs F)"
  by (simp add: all_refs_def)

lemma no_users: "n \<notin> all_refs F \<Longrightarrow> users F (Inst n) = []"
  using set_users[of _ F "Inst n"] by (cases "users F (Inst n)") (fastforce simp: all_refs_def refs_def)+

function flow_search :: "sfunc \<Rightarrow> nat list \<Rightarrow> nat set \<Rightarrow> bool" where
  "flow_search F flow seen = (if flow = [] then False
     else let v = last flow; rest = butlast flow in
       if v \<in> seen then flow_search F rest seen
       else (case flow_users (Inst v) (users F (Inst v)) rest of
           None \<Rightarrow> True
         | Some flow' \<Rightarrow> flow_search F flow' (insert v seen)))"
  by pat_completeness auto
termination
proof (relation "measures [\<lambda>(F, flow, seen). card (all_refs F - seen), \<lambda>(F, flow, seen). length flow]")
  fix F flow seen v rest flow'
  assume f: "flow \<noteq> []" "v = last flow" "rest = butlast flow" "v \<notin> seen"
    and u: "flow_users (Inst v) (users F (Inst v)) rest = Some flow'"
  show "((F, flow', insert v seen), F, flow, seen) \<in> measures [\<lambda>(F, flow, seen). card (all_refs F - seen), \<lambda>(F, flow, seen). length flow]"
  proof (cases "v \<in> all_refs F")
    case True
    with f(4) have "all_refs F - insert v seen \<subset> all_refs F - seen" by blast
    then have "card (all_refs F - insert v seen) < card (all_refs F - seen)" by (rule psubset_card_mono[rotated]) simp
    then show ?thesis by simp
  next
    case False
    then have "flow' = rest" "all_refs F - insert v seen = all_refs F - seen" using u no_users by auto
    with f show ?thesis by simp
  qed
qed (auto simp: less_Suc_eq_le)

declare flow_search.simps [simp del]

definition ptrLoadReachesCall :: "sfunc \<Rightarrow> bool" where
  "ptrLoadReachesCall F \<longleftrightarrow> list_ex (\<lambda>li. s_op li = SLoad \<and> isPointerTy (s_type li) \<and> flow_search F [s_id li] {}) (insts F)"

section \<open>Validation of a function\<close>

datatype verdict = Correct | Unsound | Unproved | AliveError

text \<open>An outcome: an \<open>exit(-1)\<close>, a failure inside the lifter, an \<open>exit(0)\<close> after writing the assembly, the end of the
  function with the functions compared and the verdict, or a run that does not end.\<close>

datatype outcome = Exit string | Crash lift_error | AsmOnly | Compared sfunc sfunc "verdict option" | Hangs

record 'a tool =
  tl_targetFound :: bool
  tl_llvm2alive :: "smodule \<Rightarrow> sfunc \<Rightarrow> bool"
  tl_generateAsm :: "smodule \<Rightarrow> ('a \<times> StackSlot list) option"
  tl_readFile :: "string \<Rightarrow> 'a option"
  tl_liftFunc :: "smodule \<Rightarrow> driver \<Rightarrow> 'a \<Rightarrow> StackSlot list \<Rightarrow> lift_error + sfunc \<times> sfunc"
  tl_broken :: "sfunc \<Rightarrow> bool"
  tl_compare :: "sfunc \<Rightarrow> sfunc \<Rightarrow> verdict"
  tl_const_gep :: "sinst \<Rightarrow> int option"
  tl_underlying :: "sfunc \<Rightarrow> svalue \<Rightarrow> svalue"
  tl_alignment :: "sfunc \<Rightarrow> svalue \<Rightarrow> nat"
  tl_aligns :: "sfunc \<Rightarrow> nat \<Rightarrow> nat"
  stackEscapeAllowed :: bool
  opt_asm_input :: string
  opt_asm_only :: bool
  run_replace_ptrtoint :: bool
  opt_skip_verification :: bool

definition deleteBodies :: "sfunc \<Rightarrow> smodule \<Rightarrow> smodule" where
  "deleteBodies F M = M\<lparr>m_funs := map (\<lambda>G. if f_name G \<noteq> f_name F \<and> \<not> isDeclaration G
     then G\<lparr>f_body := [], f_linkage := ExternalLinkage\<rparr> else G) (m_funs M)\<rparr>"

definition with_function :: "sfunc \<Rightarrow> smodule \<Rightarrow> smodule" where
  "with_function F M = M\<lparr>m_funs := map (\<lambda>G. if f_name G = f_name F then F else G) (m_funs M)\<rparr>"

text \<open>The semantic copy the refinement check consumes.\<close>

definition semantic_copy :: "driver \<Rightarrow> smodule \<Rightarrow> driver \<times> smodule" where
  "semantic_copy d M = (let d' = replaceIdentityInlineAsm (stripEmptyInlineAsm d) in
     case rewriteHelperCallsByNumber (fun_of d') M of (F, M') \<Rightarrow> (d'\<lparr>fun_of := F\<rparr>, M'))"

text \<open>The assembly: the backend's, from the unmodified function, or a file.\<close>

definition get_asm :: "'a tool \<Rightarrow> smodule \<Rightarrow> sfunc \<Rightarrow> string + 'a \<times> StackSlot list \<times> driver \<times> smodule" where
  "get_asm E M F = (let d = addDebugInfo F; CodegenM = with_function (fun_of d) M in
     case semantic_copy d M of (d', M') \<Rightarrow>
       if opt_asm_input E = '''' then
         (if \<not> tl_llvm2alive E M' (fun_of d') then Inl ''Fatal error, exiting''
          else (case tl_generateAsm E CodegenM of
              None \<Rightarrow> Inl ''ERROR: BPF backend reported an error lowering this function''
            | Some (asm, slots) \<Rightarrow> Inr (asm, slots, d', M')))
       else (case tl_readFile E (opt_asm_input E) of
           None \<Rightarrow> Inl ''cannot read the assembly''
         | Some asm \<Rightarrow> Inr (asm, [], d', M')))"

definition multiple_escapes :: "'a tool \<Rightarrow> smodule \<Rightarrow> sfunc \<Rightarrow> bool" where
  "multiple_escapes E M F1 \<longleftrightarrow> 1 < length (escapingStackObjects M (tl_underlying E F1) F1)"

definition judge :: "'a tool \<Rightarrow> smodule \<Rightarrow> sfunc \<Rightarrow> sfunc \<Rightarrow> outcome" where
  "judge E M F1 F2 = (if opt_skip_verification E then Compared F1 F2 None
     else (let v = tl_compare E F1 F2 in
       if v = Unsound \<and> \<not> stackEscapeAllowed E then
         (if multiple_escapes E M F1 then Exit ''ERROR: refinement failed under the per-object stack model''
          else if ptrLoadReachesCall F1 then Exit ''ERROR: refinement failed for a function whose pointer-typed load reaches a call argument''
          else Compared F1 F2 (Some v))
       else Compared F1 F2 (Some v)))"

definition split_and_judge :: "'a tool \<Rightarrow> smodule \<Rightarrow> StackSlot list \<Rightarrow> sfunc \<Rightarrow> sfunc \<Rightarrow> outcome" where
  "split_and_judge E M slots F1 F2 = (let F2' = (if run_replace_ptrtoint E then tryReplacePtrtoInt F2 else F2) in
     case rewriteStackObjects (tl_const_gep E) (tl_underlying E) (tl_alignment E) M slots (tl_aligns E F2') F2' of
       None \<Rightarrow> Hangs
     | Some (ok, G, _) \<Rightarrow>
         if \<not> ok \<and> multiple_escapes E M F1 \<and> \<not> stackEscapeAllowed E then Exit ''ERROR: multiple stack objects escape to callees''
         else if tl_broken E G then Exit ''ERROR: Lifted module is broken, this should not happen''
         else judge E M F1 G)"

definition doit :: "'a tool \<Rightarrow> smodule \<Rightarrow> sfunc \<Rightarrow> outcome" where
  "doit E M0 srcFn = (if ft_vararg (f_type srcFn) then Exit ''ERROR: varargs not supported''
     else if list_ex g_threadLocal (m_globals M0) then Exit ''ERROR: thread_local not supported''
     else (let M = deleteBodies srcFn M0 in
       if \<not> tl_targetFound E then Exit ''Can't lookup target''
       else (case get_asm E M srcFn of
           Inl e \<Rightarrow> Exit e
         | Inr (asm, slots, d, M') \<Rightarrow>
             if opt_asm_only E then AsmOnly
             else (case tl_liftFunc E M' d asm slots of
                 Inl e \<Rightarrow> Crash e
               | Inr (F1, F2) \<Rightarrow> split_and_judge E M' slots F1 F2))))"

section \<open>The choice of the function\<close>

definition select_function :: "string \<Rightarrow> smodule \<Rightarrow> string + sfunc option" where
  "select_function opt_fn M = (if opt_fn \<noteq> '''' then (case find_fun M opt_fn of
       None \<Rightarrow> Inl ''ERROR: Couldn't find function to verify'' | Some F \<Rightarrow> Inr (Some F))
     else Inr (find (\<lambda>F. \<not> isDeclaration F) (m_funs M)))"

end
