(* ===== verification/Validate_Props.thy ===== *)
theory Validate_Props
  imports Validate Stack_Props
begin

text \<open>
  The properties of the validation of a function.
\<close>

section \<open>The worklist\<close>

text \<open>The pointer flows from a value to the phis and selects that read it; a call takes it.\<close>

definition flows :: "sfunc \<Rightarrow> (nat \<times> nat) set" where
  "flows F = {(n, k). \<exists>u \<in> set (insts F). (s_op u = SPhi \<or> s_op u = SSelect) \<and> n \<in> refs u \<and> s_id u = k}"

definition taken :: "sfunc \<Rightarrow> nat \<Rightarrow> bool" where
  "taken F n \<longleftrightarrow> (\<exists>u \<in> set (insts F). isCallBase u \<and> Inst n \<in> set (s_ops u) \<and> Inst n \<in> set (call_args u))"

lemma flow_users_None: "flow_users v us flow = None \<longleftrightarrow> (\<exists>u \<in> set us. isCallBase u \<and> v \<in> set (call_args u))"
  by (induction us arbitrary: flow) (auto simp del: isCallBase.simps)

lemma flow_users_Some:
  "flow_users v us flow = Some flow' \<Longrightarrow> set flow' = set flow \<union> {s_id u |u. u \<in> set us \<and> (s_op u = SPhi \<or> s_op u = SSelect)}"
proof (induction us arbitrary: flow)
  case (Cons u us)
  show ?case
  proof (cases "isCallBase u")
    case True
    then have "s_op u \<noteq> SPhi \<and> s_op u \<noteq> SSelect" by (auto split: sop.splits)
    with Cons True show ?thesis by (auto simp del: isCallBase.simps split: if_splits)
  next
    case False
    show ?thesis
    proof (cases "s_op u = SPhi \<or> s_op u = SSelect")
      case True
      with False Cons.prems have "flow_users v us (flow @ [s_id u]) = Some flow'" by (simp del: isCallBase.simps)
      from Cons.IH[OF this] True show ?thesis by auto
    next
      case no: False
      with False Cons.prems have "flow_users v us flow = Some flow'" by (simp del: isCallBase.simps)
      from Cons.IH[OF this] no show ?thesis by auto
    qed
  qed
qed simp

lemma flow_step:
  shows "flow_users (Inst n) (users F (Inst n)) rest = None \<longleftrightarrow> taken F n"
    and "flow_users (Inst n) (users F (Inst n)) rest = Some flow' \<Longrightarrow> set flow' = set rest \<union> {k. (n, k) \<in> flows F}"
  using flow_users_None[of "Inst n" "users F (Inst n)" rest] flow_users_Some[of "Inst n" "users F (Inst n)" rest flow'] set_users[of _ F "Inst n"]
  by (auto simp: taken_def flows_def refs_def simp del: isCallBase.simps)

text \<open>The values seen are not taken by a call, and what they flow to is seen or on the list.\<close>

lemma flow_search_iff:
  assumes "\<forall>n \<in> seen. \<not> taken F n \<and> (\<forall>k. (n, k) \<in> flows F \<longrightarrow> k \<in> seen \<union> set flow)"
  shows "flow_search F flow seen \<longleftrightarrow> (\<exists>n \<in> set flow \<union> seen. \<exists>k. (n, k) \<in> (flows F)\<^sup>* \<and> taken F k)"
  using assms
proof (induction F flow seen rule: flow_search.induct)
  case (1 F flow seen)
  show ?case
  proof (cases "flow = []")
    case True
    have "k \<in> seen" if "(n, k) \<in> (flows F)\<^sup>*" "n \<in> seen" for n k
      using that by (induction rule: rtrancl_induct) (use 1(3) True in auto)
    moreover have "\<not> flow_search F [] seen" by (simp add: flow_search.simps)
    ultimately show ?thesis using 1(3) True by auto
  next
    case False
    let ?v = "last flow" and ?rest = "butlast flow"
    have split: "set flow = insert ?v (set ?rest)" using False by (metis append_butlast_last_id list.simps(15) rotate1.simps(2) set_rotate1)
    show ?thesis
    proof (cases "?v \<in> seen")
      case True
      have "flow_search F ?rest seen \<longleftrightarrow> (\<exists>n \<in> set ?rest \<union> seen. \<exists>k. (n, k) \<in> (flows F)\<^sup>* \<and> taken F k)"
        by (rule 1(1)[OF False refl refl True]) (use 1(3) True split in auto)
      moreover have "set ?rest \<union> seen = set flow \<union> seen" using True split by auto
      ultimately show ?thesis using False True by (simp add: flow_search.simps[of F flow])
    next
      case new: False
      show ?thesis
      proof (cases "flow_users (Inst ?v) (users F (Inst ?v)) ?rest")
        case None
        with flow_step(1) have "taken F ?v" by blast
        moreover have "flow_search F flow seen" using False new None by (simp add: flow_search.simps[of F flow] Let_def)
        ultimately show ?thesis using split by blast
      next
        case (Some flow')
        note s = flow_step(2)[OF Some]
        have nt: "\<not> taken F ?v" using Some flow_step(1)[of ?v F ?rest] by auto
        have "flow_search F flow' (insert ?v seen) \<longleftrightarrow> (\<exists>n \<in> set flow' \<union> insert ?v seen. \<exists>k. (n, k) \<in> (flows F)\<^sup>* \<and> taken F k)"
          by (rule 1(2)[OF False refl refl new Some]) (use 1(3) nt s split in auto)
        also have "\<dots> \<longleftrightarrow> (\<exists>n \<in> set flow \<union> seen. \<exists>k. (n, k) \<in> (flows F)\<^sup>* \<and> taken F k)"
          unfolding s split by (blast intro: converse_rtrancl_into_rtrancl)
        finally show ?thesis using False new Some by (simp add: flow_search.simps[of F flow] Let_def)
      qed
    qed
  qed
qed

lemma ptrLoadReachesCall_flows:
  "ptrLoadReachesCall F \<longleftrightarrow> (\<exists>li \<in> set (insts F). s_op li = SLoad \<and> isPointerTy (s_type li) \<and>
     (\<exists>k. (s_id li, k) \<in> (flows F)\<^sup>* \<and> taken F k))"
  by (simp add: ptrLoadReachesCall_def list_ex_iff flow_search_iff)

text \<open>C35. The worklist is the transitive closure. \<open>ptrLoadReachesCall\<close>, which ends on every function, finds a pointer load
  exactly when the loaded pointer, through any chain of phis and selects, is an argument of a call.\<close>

theorem ptrLoadReachesCall_iff:
  "ptrLoadReachesCall F \<longleftrightarrow> (\<exists>li \<in> set (insts F). s_op li = SLoad \<and> isPointerTy (s_type li) \<and>
     (\<exists>k. (s_id li, k) \<in> (flows F)\<^sup>* \<and> taken F k))"
  by (rule ptrLoadReachesCall_flows)

section \<open>Verdicts\<close>

lemma judge_cases:
  assumes "judge E M F1 F2 = Compared G1 G2 (Some Unsound)"
  shows "stackEscapeAllowed E \<or> (\<not> multiple_escapes E M G1 \<and> \<not> ptrLoadReachesCall G1)" "G1 = F1" "G2 = F2"
    "tl_compare E G1 G2 = Unsound"
  using assms by (auto simp: judge_def Let_def split: if_splits)

text \<open>C36. A verdict of unsoundness stands only outside the classes the driver cannot judge. If \<open>doit\<close> ends with the
  verdict that the lifted function does not refine the source, then Alive2 said so of the very functions compared, at most one stack object of the source
  escapes to a callee, no pointer loaded from memory reaches a call through phis and selects - unless the override is set -,
  and the lifted function is well-formed; a function with variable arguments or a module with thread-local variables gets no verdict.\<close>

theorem unsound_verdict_trusted:
  assumes "doit E M F = Compared F1 F2 (Some Unsound)" and "\<not> stackEscapeAllowed E"
  shows "\<exists>asm slots d M'. get_asm E (deleteBodies F M) F = Inr (asm, slots, d, M') \<and> tl_compare E F1 F2 = Unsound \<and> \<not> tl_broken E F2 \<and>
    length (escapingStackObjects M' (tl_underlying E F1) F1) \<le> 1 \<and>
    (\<forall>li \<in> set (insts F1). s_op li = SLoad \<longrightarrow> isPointerTy (s_type li) \<longrightarrow> (\<forall>k. (s_id li, k) \<in> (flows F1)\<^sup>* \<longrightarrow> \<not> taken F1 k)) \<and>
    \<not> ft_vararg (f_type F) \<and> (\<forall>g \<in> set (m_globals M). \<not> g_threadLocal g)"
proof -
  from assms(1) obtain asm slots d M' G1 G2 where g: "get_asm E (deleteBodies F M) F = Inr (asm, slots, d, M')"
    and s: "split_and_judge E M' slots G1 G2 = Compared F1 F2 (Some Unsound)" and v: "\<not> ft_vararg (f_type F)" "\<not> list_ex g_threadLocal (m_globals M)"
    by (auto simp: doit_def Let_def split: if_splits sum.splits)
  from s obtain G where j: "judge E M' G1 G = Compared F1 F2 (Some Unsound)" "\<not> tl_broken E G"
    by (auto simp: split_and_judge_def Let_def split: if_splits option.splits)
  note c = judge_cases[OF j(1)]
  from c assms(2) have "length (escapingStackObjects M' (tl_underlying E F1) F1) \<le> 1" "\<not> ptrLoadReachesCall F1"
    by (auto simp: multiple_escapes_def)
  with g c j(2) v show ?thesis by (auto simp: ptrLoadReachesCall_flows list_ex_iff)
qed

definition yes_tool :: "unit tool" where
  "yes_tool = \<lparr>tl_targetFound = True, tl_llvm2alive = (\<lambda>_ _. True), tl_generateAsm = (\<lambda>_. Some ((), [])), tl_readFile = (\<lambda>_. None),
     tl_liftFunc = (\<lambda>_ d _ _. Inr (fun_of d, fun_of d)), tl_broken = (\<lambda>_. False), tl_compare = (\<lambda>_ _. Unsound), tl_const_gep = (\<lambda>_. None),
     tl_underlying = (\<lambda>_ v. v), tl_alignment = (\<lambda>_ _. 1), tl_aligns = (\<lambda>_ _. 1), stackEscapeAllowed = False, opt_asm_input = '''',
     opt_asm_only = False, run_replace_ptrtoint = False, opt_skip_verification = False\<rparr>"

abbreviation ret_param :: sfunc where
  "ret_param \<equiv> mk_sfunc [[mk_sinst 0 SVoid SRet [Param 0]]]"

abbreviation ret_module :: smodule where
  "ret_module \<equiv> \<lparr>m_globals = [], m_funs = [ret_param]\<rparr>"

theorem unsound_verdict_trusted_witness:
  "\<exists>F1 F2. doit yes_tool ret_module ret_param = Compared F1 F2 (Some Unsound) \<and> tl_compare yes_tool F1 F2 = Unsound \<and> \<not> tl_broken yes_tool F2"
proof -
  have "\<exists>F1 F2. doit yes_tool ret_module ret_param = Compared F1 F2 (Some Unsound)"
    by (simp add: doit_def Let_def yes_tool_def get_asm_def semantic_copy_def split_and_judge_def rewriteStackObjects_def judge_def
        multiple_escapes_def escapingStackObjects_def inst_escapes_def ptrLoadReachesCall_def deleteBodies_def with_function_def mk_sfunc_def mk_sinst_def
        addDebugInfo_def insts_def stripEmptyInlineAsm_def barriers_def empty_asm_def replaceIdentityInlineAsm_def replace_identity_def find_inst_def
        rewriteHelperCallsByNumber_def rewrite_helper_call_def helper_call_def isDeclaration_def)
  then obtain F1 F2 where d: "doit yes_tool ret_module ret_param = Compared F1 F2 (Some Unsound)" by blast
  with unsound_verdict_trusted[OF d] show ?thesis by (auto simp: yes_tool_def)
qed

end
