(* ===== verification/Fixup_Props.thy ===== *)
theory Fixup_Props
  imports Validate Adjust_Sound Stack_Props
begin

text \<open>
  The optimized lifted function after \<open>fixupOptimizedTgt\<close>: the stack is an alloca, the calls have no \<open>tail\<close> marker, and the
  function does what it did.
\<close>

section \<open>Functions that differ in the number of one value\<close>

definition renamed :: "nat \<Rightarrow> nat \<Rightarrow> venv \<Rightarrow> venv \<Rightarrow> bool" where
  "renamed n g \<eta> \<theta> \<longleftrightarrow> (\<forall>k. k \<noteq> n \<longrightarrow> k \<noteq> g \<longrightarrow> \<theta> k = \<eta> k) \<and> \<theta> g = \<eta> n"

lemma renamed_upd: "renamed n g \<eta> \<theta> \<Longrightarrow> k \<noteq> n \<Longrightarrow> k \<noteq> g \<Longrightarrow> renamed n g (\<eta>(k \<mapsto> x)) (\<theta>(k \<mapsto> x))"
  by (simp add: renamed_def)

lemma renamed_new: "renamed n g \<eta> \<theta> \<Longrightarrow> renamed n g (\<eta>(n \<mapsto> x)) (\<theta>(g \<mapsto> x))"
  by (simp add: renamed_def)

fun same_flow :: "(venv \<Rightarrow> venv \<Rightarrow> bool) \<Rightarrow> 'm flow option \<Rightarrow> 'm flow option \<Rightarrow> bool" where
  "same_flow rel (Some (Next \<eta> m)) (Some (Next \<theta> m')) \<longleftrightarrow> rel \<eta> \<theta> \<and> m' = m"
| "same_flow rel (Some (Jump b \<eta> m)) (Some (Jump b' \<theta> m')) \<longleftrightarrow> b' = b \<and> rel \<eta> \<theta> \<and> m' = m"
| "same_flow rel (Some (Done v m)) (Some (Done v' m')) \<longleftrightarrow> v' = v \<and> m' = m"
| "same_flow rel None None \<longleftrightarrow> True"
| "same_flow rel _ _ \<longleftrightarrow> False"

text \<open>The instruction computes the same with the number renamed.\<close>

definition copied :: "nat \<Rightarrow> nat \<Rightarrow> sinst \<Rightarrow> sinst \<Rightarrow> bool" where
  "copied n g i j \<longleftrightarrow> s_op j = s_op i \<and> s_type j = s_type i \<and> s_id j = s_id i \<and> s_ops j = map (subst_value (Inst n) (Inst g)) (s_ops i)
     \<and> s_id i \<noteq> n \<and> s_id i \<noteq> g \<and> g \<notin> refs i"

lemma renamed_vals:
  assumes "renamed n g \<eta> \<theta>" and "map a_type (f_args G) = map a_type (f_args F)" and "g \<notin> refs i"
  shows "map (src_val P G \<theta>) (map (subst_value (Inst n) (Inst g)) (s_ops i)) = map (src_val P F \<eta>) (s_ops i)"
proof -
  have len: "length (f_args G) = length (f_args F)" using assms(2) by (metis length_map)
  have ty: "a_type (f_args G ! k) = a_type (f_args F ! k)" if "k < length (f_args F)" for k
    using arg_cong[OF assms(2), of "\<lambda>xs. xs ! k"] that len by simp
  have "src_val P G \<theta> (subst_value (Inst n) (Inst g) v) = src_val P F \<eta> v" if "v \<in> set (s_ops i)" for v
  proof (cases v)
    case (Inst k)
    with that assms(3) have "k \<noteq> g" by (auto simp: refs_def)
    with assms(1) Inst show ?thesis by (auto simp: renamed_def subst_value_def)
  qed (use len ty in \<open>auto simp: subst_value_def\<close>)
  then show ?thesis by simp
qed

lemma copied_exec:
  assumes "copied n g i j" and "renamed n g \<eta> \<theta>" and "map a_type (f_args G) = map a_type (f_args F)"
  shows "same_flow (renamed n g) (exec_src S P F prev i \<eta> m) (exec_src S P G prev j \<theta> m)"
proof -
  have j: "s_op j = s_op i" "s_type j = s_type i" "s_id j = s_id i" "s_ops j = map (subst_value (Inst n) (Inst g)) (s_ops i)"
    and i: "s_id i \<noteq> n" "s_id i \<noteq> g" "g \<notin> refs i" using assms(1) by (simp_all add: copied_def)
  note vals = renamed_vals[OF assms(2,3) i(3), of P]
  have upd: "same_flow (renamed n g) (map_option (\<lambda>(x, m'). Next (\<eta>(s_id i \<mapsto> fit t x)) m') r) (map_option (\<lambda>(x, m'). Next (\<theta>(s_id i \<mapsto> fit t x)) m') r)" for r t
    using renamed_upd[OF assms(2) i(1,2), of "fit t _"] by (cases r) (auto simp del: fun_upd_apply)
  have jump: "same_flow (renamed n g) (map_option (\<lambda>(b, m'). Jump (nat b) \<eta> m') r) (map_option (\<lambda>(b, m'). Jump (nat b) \<theta> m') r)" for r :: "(int \<times> 'a) option"
    using assms(2) by (cases r) auto
  have same: "same_flow (renamed n g) r r" if "case r of Some (Done _ _) \<Rightarrow> True | None \<Rightarrow> True | _ \<Rightarrow> False" for r :: "'a flow option"
    using that by (auto split: option.splits flow.splits)
  show ?thesis
    unfolding exec_src_def j vals using upd jump
    by (cases "s_op i") (auto simp: Let_def simp del: map_map intro!: same split: list.split option.split)
qed

section \<open>Runs\<close>

text \<open>Every instruction is copied, or is the allocation, whose number is renamed.\<close>

definition renamed_inst :: "'m llvm_sem \<Rightarrow> 'm src_sem \<Rightarrow> sfunc \<Rightarrow> sfunc \<Rightarrow> nat \<Rightarrow> nat \<Rightarrow> sinst \<Rightarrow> sinst \<Rightarrow> bool" where
  "renamed_inst S P F G n g i j \<longleftrightarrow> copied n g i j \<or> (\<not> is_phi i \<and> \<not> is_phi j \<and> (\<forall>prev \<eta> \<theta> m. renamed n g \<eta> \<theta> \<longrightarrow>
     same_flow (renamed n g) (exec_src S P F prev i \<eta> m) (exec_src S P G prev j \<theta> m)))"

lemma renamed_srcs:
  assumes "map a_type (f_args G) = map a_type (f_args F)"
  shows "list_all2 (renamed_inst S P F G n g) xs ys \<Longrightarrow> renamed n g \<eta> \<theta> \<Longrightarrow>
    same_flow (renamed n g) (exec_srcs S P F prev xs \<eta> m) (exec_srcs S P G prev ys \<theta> m)"
proof (induction xs ys arbitrary: \<eta> \<theta> m rule: list_all2_induct)
  case (Cons i xs j ys)
  have "same_flow (renamed n g) (exec_src S P F prev i \<eta> m) (exec_src S P G prev j \<theta> m)"
    using Cons.hyps(1) copied_exec[OF _ Cons.prems assms, of i j S P prev m] Cons.prems unfolding renamed_inst_def by blast
  then show ?case
  proof (cases rule: same_flow.elims(2))
    case (1 \<eta>' m1 \<theta>' m2)
    then show ?thesis using Cons.IH[of \<eta>' \<theta>' m1] by simp
  qed auto
qed simp

lemma renamed_phis:
  assumes "map a_type (f_args G) = map a_type (f_args F)" and "renamed n g \<eta>0 \<theta>0"
  shows "list_all2 (copied n g) xs ys \<Longrightarrow> renamed n g \<eta> \<theta> \<Longrightarrow>
    rel_option (renamed n g) (exec_phis P F prev xs \<eta>0 \<eta> m) (exec_phis P G prev ys \<theta>0 \<theta> m)"
proof (induction xs ys arbitrary: \<eta> \<theta> rule: list_all2_induct)
  case (Cons i xs j ys)
  have j: "s_type j = s_type i" "s_id j = s_id i" "s_ops j = map (subst_value (Inst n) (Inst g)) (s_ops i)"
    and i: "s_id i \<noteq> n" "s_id i \<noteq> g" "g \<notin> refs i" using Cons.hyps(1) by (simp_all add: copied_def)
  note vals = renamed_vals[OF assms(2,1) i(3), of P]
  show ?case
  proof (cases "sem_op P prev SPhi (s_type i) (map (src_val P F \<eta>0) (s_ops i)) m")
    case (Some r)
    with Cons.IH[OF renamed_upd[OF Cons.prems i(1,2)], of "fit (s_type i) (fst r)"] show ?thesis
      by (cases r) (simp add: j vals del: fun_upd_apply map_map)
  qed (simp add: j vals del: map_map)
qed simp

lemma list_all2_while:
  assumes "list_all2 rel xs ys" and "\<And>x y. rel x y \<Longrightarrow> Q y = P x"
  shows "list_all2 rel (takeWhile P xs) (takeWhile Q ys) \<and> list_all2 rel (dropWhile P xs) (dropWhile Q ys)"
  using assms by (induction xs ys rule: list_all2_induct) auto

lemma renamed_block:
  assumes "map a_type (f_args G) = map a_type (f_args F)" and "list_all2 (renamed_inst S P F G n g) xs ys" and "renamed n g \<eta> \<theta>"
  shows "same_flow (renamed n g) (exec_sblock S P F prev xs \<eta> m) (exec_sblock S P G prev ys \<theta> m)"
proof -
  have phi: "is_phi j = is_phi i" if "renamed_inst S P F G n g i j" for i j
    using that by (auto simp: renamed_inst_def copied_def is_phi_def)
  from list_all2_while[OF assms(2), of is_phi is_phi] phi
  have w: "list_all2 (renamed_inst S P F G n g) (takeWhile is_phi xs) (takeWhile is_phi ys)"
    "list_all2 (renamed_inst S P F G n g) (dropWhile is_phi xs) (dropWhile is_phi ys)" by auto
  have c: "list_all2 (copied n g) (takeWhile is_phi xs) (takeWhile is_phi ys)"
    using w(1) by (rule list.rel_mono_strong) (auto simp: renamed_inst_def dest: set_takeWhileD)
  from renamed_phis[OF assms(1,3) c assms(3), of P prev m] show ?thesis
  proof (cases rule: option.rel_cases)
    case (Some \<eta>1 \<theta>1)
    with renamed_srcs[OF assms(1) w(2) Some(3), of prev m] show ?thesis by (simp add: exec_sblock_def)
  qed (simp add: exec_sblock_def)
qed

lemma renamed_run:
  assumes "map a_type (f_args G) = map a_type (f_args F)" and "list_all2 (list_all2 (renamed_inst S P F G n g)) (f_body F) (f_body G)"
  shows "renamed n g \<eta> \<theta> \<Longrightarrow> run_src fuel S P G prev b \<theta> m = run_src fuel S P F prev b \<eta> m"
proof (induction fuel arbitrary: prev b \<eta> \<theta> m)
  case (Suc fuel)
  have len: "length (f_body G) = length (f_body F)" using list_all2_lengthD[OF assms(2)] by simp
  show ?case
  proof (cases "length (f_body F) \<le> b")
    case False
    then have "list_all2 (renamed_inst S P F G n g) (f_body F ! b) (f_body G ! b)" using list_all2_nthD[OF assms(2), of b] by simp
    from renamed_block[OF assms(1) this Suc.prems, of prev m] show ?thesis
      by (cases rule: same_flow.elims(2)) (use False len Suc.IH in auto)
  qed (simp add: len)
qed simp

section \<open>The fixed function\<close>

lemma next_id_above:
  assumes "i \<in> set (insts F)"
  shows "s_id i < next_id F"
proof -
  have "s_id i \<le> fold max (map s_id (insts F)) 0" using assms by (intro fold_max_ge) simp
  then show ?thesis by (simp add: next_id_def)
qed

text \<open>What the rewrite makes of an instruction.\<close>

definition fixed_inst :: "nat \<Rightarrow> nat \<Rightarrow> int \<Rightarrow> sinst \<Rightarrow> sinst" where
  "fixed_inst n g bytes i = (if s_id i = n then stack_inst g bytes else subst_inst (Inst n) (Inst g) i)"

lemma replaced_body:
  assumes "n \<noteq> g" and "s_id i = n"
  shows "f_body (eraseFromParent n (replace_myalloc g bytes i F)) = map (map (fixed_inst n g bytes)) (f_body F)"
proof -
  have "filter (\<lambda>i. s_id i \<noteq> n) (map (subst_inst (Inst n) (Inst g)) (concat (map (\<lambda>i. if s_id i = n then [stack_inst g bytes, i] else [i]) bb))) =
      map (fixed_inst n g bytes) bb" for bb
    using assms by (induction bb) (auto simp: fixed_inst_def stack_inst_def subst_inst_def subst_value_def)
  then show ?thesis
    by (simp add: replace_myalloc_def eraseFromParent_def replaceAllUsesWith_def map_insts_def insert_before_def assms(2) del: filter_map)
qed

text \<open>The allocation function does what the alloca does: a call of it gives the address the alloca gives and leaves the memory as
  the alloca leaves it.\<close>

definition allocates :: "'m src_sem \<Rightarrow> sfunc \<Rightarrow> sinst \<Rightarrow> int \<Rightarrow> bool" where
  "allocates P F i bytes \<longleftrightarrow> s_type i = SPtr 0 \<and> (\<forall>t prev \<eta> m. s_op i = SCall t \<longrightarrow>
     sem_op P prev (SCall t) (SPtr 0) (map (src_val P F \<eta>) (s_ops i)) m =
     sem_op P prev (SAlloca True (Some (nat bytes))) (SPtr 0) [Some (fit (SInt 64) bytes)] m)"

definition refs_known :: "sfunc \<Rightarrow> bool" where
  "refs_known F \<longleftrightarrow> (\<forall>i \<in> set (insts F). refs i \<subseteq> s_id ` set (insts F))"

lemma drop_tail_simps [simp]: "s_id (drop_tail i) = s_id i" "s_type (drop_tail i) = s_type i" "s_op (drop_tail i) = s_op i" "s_ops (drop_tail i) = s_ops i"
  "refs (drop_tail i) = refs i" "isCallInst (drop_tail i) = isCallInst i" "call_type (drop_tail i) = call_type i"
  by (simp_all add: drop_tail_def refs_def)

lemma a_type_drop_attrs [simp]: "a_type (drop_attrs a) = a_type a"
  by (simp add: drop_attrs_def)

lemma calls_drop_tail [simp]: "calls_myalloc M my (drop_tail i) = calls_myalloc M my i"
proof -
  have "called_function M (drop_tail i) = called_function M i"
    by (auto simp: called_function_def getCalledOperand_def split: svalue.split option.split)
  then show ?thesis by (simp add: calls_myalloc_def del: isCallInst.simps)
qed

lemma renamed_refl: "renamed n n \<eta> \<eta>"
  by (simp add: renamed_def)

lemma subst_same [simp]: "subst_value v v x = x"
  by (simp add: subst_value_def)

lemma dropped_run:
  assumes "refs_known F" and "map a_type (f_args G) = map a_type (f_args F)" and "f_body G = map (map drop_tail) (f_body F)"
  shows "run_src fuel S P G prev b \<eta> m = run_src fuel S P F prev b \<eta> m"
proof -
  let ?n = "next_id F"
  have "renamed_inst S P F G ?n ?n i (drop_tail i)" if "i \<in> set (insts F)" for i
  proof -
    have "s_id i \<noteq> ?n" using next_id_above[OF that] by simp
    moreover have "?n \<notin> refs i" using assms(1) that next_id_above by (fastforce simp: refs_known_def)
    ultimately show ?thesis by (simp add: renamed_inst_def copied_def map_idI)
  qed
  then have "list_all2 (list_all2 (renamed_inst S P F G ?n ?n)) (f_body F) (f_body G)"
    unfolding assms(3) list.rel_map by (intro list.rel_refl_strong) (auto simp: insts_def list.rel_map intro: list.rel_refl_strong)
  from renamed_run[OF assms(2) this renamed_refl] show ?thesis .
qed

lemma fixed_run:
  assumes "refs_known F" and "distinct_ids F" and i: "i \<in> set (insts F)" "isCallInst i" "allocates P F i bytes" and "n = s_id i" "g = next_id F"
    and "map a_type (f_args G) = map a_type (f_args F)" and "f_body G = map (map (fixed_inst n g bytes)) (f_body F)"
    and "renamed n g \<eta> \<theta>"
  shows "run_src fuel S P G prev b \<theta> m = run_src fuel S P F prev b \<eta> m"
proof -
  have copy: "renamed_inst S P F G n g j (fixed_inst n g bytes j)" if j: "j \<in> set (insts F)" for j
  proof (cases "s_id j = n")
    case True
    have "j = i" using find_inst_in[OF assms(2) j] find_inst_in[OF assms(2) i(1)] True assms(6) by (metis option.inject)
    obtain t where t: "s_op i = SCall t" using i(2) by (cases "s_op i") auto
    have "same_flow (renamed n g) (exec_src S P F prev i \<eta> m) (exec_src S P G prev (stack_inst g bytes) \<theta> m)"
      if "renamed n g \<eta> \<theta>" for prev \<eta> \<theta> m
    proof -
      let ?r = "sem_op P prev (SAlloca True (Some (nat bytes))) (SPtr 0) [Some (fit (SInt 64) bytes)] m"
      have "exec_src S P F prev i \<eta> m = map_option (\<lambda>(x, m'). Next (\<eta>(n \<mapsto> fit (SPtr 0) x)) m') ?r"
        using i(3) t assms(6) by (simp add: exec_src_def op_result_def byte_gep_def allocates_def)
      moreover have "exec_src S P G prev (stack_inst g bytes) \<theta> m = map_option (\<lambda>(x, m'). Next (\<theta>(g \<mapsto> fit (SPtr 0) x)) m') ?r"
        by (simp add: exec_src_def op_result_def byte_gep_def stack_inst_def)
      ultimately show ?thesis using renamed_new[OF that, of "fit (SPtr 0) _"] by (cases ?r) (auto simp del: fun_upd_apply)
    qed
    then show ?thesis using t True \<open>j = i\<close> by (simp add: renamed_inst_def fixed_inst_def is_phi_def stack_inst_def)
  next
    case False
    have "s_id j \<noteq> g" using next_id_above[OF j] assms(7) by simp
    moreover have "g \<notin> refs j" using assms(1,7) j next_id_above by (fastforce simp: refs_known_def)
    ultimately show ?thesis using False by (simp add: renamed_inst_def copied_def fixed_inst_def)
  qed
  have "list_all2 (list_all2 (renamed_inst S P F G n g)) (f_body F) (f_body G)"
    unfolding assms(9) list.rel_map by (intro list.rel_refl_strong) (use copy in \<open>auto simp: insts_def list.rel_map intro: list.rel_refl_strong\<close>)
  from renamed_run[OF assms(8) this assms(10)] show ?thesis .
qed

text \<open>The function without \<open>tail\<close> markers and dropped attributes.\<close>

definition cleaned :: "sfunc \<Rightarrow> sfunc" where
  "cleaned F = (map_insts drop_tail F)\<lparr>f_args := map drop_attrs (f_args F)\<rparr>"

lemma cleaned_parts:
  "f_args (cleaned F) = map drop_attrs (f_args F)" "f_body (cleaned F) = map (map drop_tail) (f_body F)"
  "insts (cleaned F) = map drop_tail (insts F)"
  by (simp_all add: cleaned_def map_insts_def insts_def map_concat)

lemma cleaned_run:
  "refs_known F \<Longrightarrow> run_src fuel S P (cleaned F) prev b Map.empty m = run_src fuel S P F prev b Map.empty m"
  by (rule dropped_run) (simp_all add: cleaned_parts)

lemma cleaned_marks:
  "isCallInst (drop_tail i) \<longrightarrow> \<not> s_tail (drop_tail i)"
  "a \<in> set (map drop_attrs (f_args F)) \<Longrightarrow> {''captures'', ''readnone'', ''readonly'', ''writeonly'', ''initializes''} \<inter> set (a_attrs a) = {}"
  by (auto simp: drop_tail_def drop_attrs_def simp del: isCallInst.simps)

lemma cleaned_allocates: "allocates P F i bytes \<Longrightarrow> allocates P (cleaned F) (drop_tail i) bytes"
proof -
  have "src_val P (cleaned F) = src_val P F"
  proof (intro ext)
    fix \<eta> v
    have "value_type (cleaned F) (Param k) = value_type F (Param k)" for k by (simp add: cleaned_parts drop_attrs_def)
    then show "src_val P (cleaned F) \<eta> v = src_val P F \<eta> v" by (cases v) simp_all
  qed
  then show "allocates P F i bytes \<Longrightarrow> allocates P (cleaned F) (drop_tail i) bytes" by (simp add: allocates_def)
qed

text \<open>The result: the cleaned function, or the cleaned function with its only allocation call replaced.\<close>

lemma fixup_cases:
  assumes "fixupOptimizedTgt M my bytes F = Inr G"
  obtains "G = cleaned F"
  | f i where "my = Some f" "i \<in> set (insts F)" "calls_myalloc M f i"
      "G = eraseFromParent (s_id i) (replace_myalloc (next_id (cleaned F)) bytes (drop_tail i) (cleaned F))"
proof (cases my)
  case None
  with assms that(1) show ?thesis by (simp add: fixupOptimizedTgt_def Let_def cleaned_def)
next
  case (Some f)
  note r = assms[unfolded fixupOptimizedTgt_def Let_def Some option.case cleaned_def[symmetric]]
  show ?thesis
  proof (cases "filter (calls_myalloc M f) (insts (cleaned F))")
    case Nil
    with r that(1) show ?thesis by simp
  next
    case (Cons i rest)
    with r have one: "rest = []" by (cases rest) simp_all
    have "i \<in> set (filter (calls_myalloc M f) (insts (cleaned F)))" unfolding Cons by simp
    then have "i \<in> set (insts (cleaned F)) \<and> calls_myalloc M f i" unfolding set_filter by blast
    then obtain i0 where "i0 \<in> set (insts F)" "i = drop_tail i0" "calls_myalloc M f i0" by (auto simp: cleaned_parts)
    with r Cons one Some that(2) show ?thesis by simp
  qed
qed

lemma replaced_run:
  assumes "refs_known F" and "distinct_ids F" and i: "i \<in> set (insts F)" "isCallInst i" "allocates P F i bytes"
    and G: "G = eraseFromParent (s_id i) (replace_myalloc (next_id (cleaned F)) bytes (drop_tail i) (cleaned F))"
  shows "run_src fuel S P G prev b Map.empty m = run_src fuel S P (cleaned F) prev b Map.empty m"
    and "f_args G = map drop_attrs (f_args F)" and "\<forall>j \<in> set (insts G). isCallInst j \<longrightarrow> \<not> s_tail j"
proof -
  let ?F = "cleaned F" and ?i = "drop_tail i"
  let ?n = "s_id ?i" and ?g = "next_id ?F"
  have mem: "?i \<in> set (insts ?F)" using i(1) by (simp add: cleaned_parts)
  have G': "G = eraseFromParent ?n (replace_myalloc ?g bytes ?i ?F)" using G by simp
  have ne: "?n \<noteq> ?g" using next_id_above[OF mem] by simp
  have gbody: "f_body G = map (map (fixed_inst ?n ?g bytes)) (f_body ?F)" unfolding G' by (rule replaced_body[OF ne refl])
  show gargs: "f_args G = map drop_attrs (f_args F)"
    unfolding G by (simp add: eraseFromParent_def replace_myalloc_def replaceAllUsesWith_def map_insts_def insert_before_def cleaned_parts(1))
  have known: "refs_known ?F" using assms(1) by (simp add: refs_known_def cleaned_parts image_image)
  have dist: "distinct_ids ?F" using assms(2) by (simp add: distinct_ids_def cleaned_parts o_def)
  have call: "isCallInst ?i" using i(2) by (simp del: isCallInst.simps)
  show "run_src fuel S P G prev b Map.empty m = run_src fuel S P ?F prev b Map.empty m"
    by (rule fixed_run[OF known dist mem call cleaned_allocates[OF i(3)] refl refl _ gbody]) (simp_all add: gargs renamed_def cleaned_parts)
  show "\<forall>j \<in> set (insts G). isCallInst j \<longrightarrow> \<not> s_tail j"
  proof
    fix j assume "j \<in> set (insts G)"
    then obtain k where "k \<in> set (insts F)" "j = fixed_inst ?n ?g bytes (drop_tail k)"
      by (auto simp: insts_def gbody cleaned_parts)
    with cleaned_marks(1)[of k] show "isCallInst j \<longrightarrow> \<not> s_tail j" by (simp add: fixed_inst_def stack_inst_def subst_inst_def)
  qed
qed


abbreviation malloc_type :: fun_ty where
  "malloc_type \<equiv> \<lparr>ft_ret = SPtr 0, ft_params = [SInt 64], ft_vararg = False\<rparr>"

abbreviation myalloc_call :: sinst where
  "myalloc_call \<equiv> (mk_sinst 2 (SPtr 0) (SCall malloc_type) [IntC 64 1280, Func ''myalloc''])\<lparr>s_tail := True\<rparr>"

abbreviation myalloc_fun :: sfunc where
  "myalloc_fun \<equiv> mk_sfunc [[myalloc_call, mk_sinst 3 (SPtr 0) (SGEP (SInt 8)) [Inst 2, IntC 64 1024], mk_sinst 4 SVoid SRet [Inst 3]]]"

abbreviation myalloc_module :: smodule where
  "myalloc_module \<equiv> \<lparr>m_globals = [], m_funs = [new_declaration ''myalloc'' malloc_type]\<rparr>"

definition alloc_sem :: "bytemem src_sem" where
  "alloc_sem = \<lparr>sem_val = (\<lambda>_. Some 0), sem_op = (\<lambda>_ _ _ _ m. Some (4096, m))\<rparr>"


end
