(* ===== verification/Linear.thy ===== *)
theory Linear
  imports Function_Sim Bytes_Flow
begin

text \<open>
  Machines that run code where it lies: the assembly text by positions and labels, the bytecode by program
  counters and numeric offsets. Instructions have the meaning of \<open>Bpf_Isa\<close>; only control differs from the block
  machine of \<open>Function_Sim\<close>. The blocks the streamer and \<open>runBytes\<close> hand to the lifter run as the
  code they were made from.
\<close>

section \<open>Machines\<close>

fun run_steps :: "(nat \<Rightarrow> regs \<times> 'm \<Rightarrow> 'm outcome option) \<Rightarrow> nat \<Rightarrow> nat \<Rightarrow> regs \<times> 'm \<Rightarrow> (regs \<times> 'm) option" where
  "run_steps stp 0 p st = None"
| "run_steps stp (Suc n) p st = Option.bind (stp p st) (\<lambda>out. case out of
     Goto q \<rho> m \<Rightarrow> run_steps stp n q (\<rho>, m) | Exit \<rho> m \<Rightarrow> Some (\<rho>, m))"

text \<open>One instruction, given the place that follows it and the place its branch goes to. A branch to no place has
  no meaning.\<close>

definition exec_insn :: "'m llvm_sem \<Rightarrow> nat \<Rightarrow> nat option \<Rightarrow> mcinst \<Rightarrow> regs \<times> 'm \<Rightarrow> 'm outcome option" where
  "exec_insn S nxt target I st = (case st of (\<rho>, m) \<Rightarrow>
     if is_branch I then Option.bind target (\<lambda>q. map_option (\<lambda>t. Goto (if t then q else nxt) \<rho> m) (isa_taken I \<rho>))
     else if getOpcode I = RET then Some (Exit \<rho> m)
     else map_option (\<lambda>(\<rho>', m'). Goto nxt \<rho>' m') (isa_exec S I st))"

text \<open>The destination of a branch, as its only operand or the third one.\<close>

definition branch_operand :: "mcinst \<Rightarrow> mcoperand option" where
  "branch_operand I = (if getOpcode I \<in> {JMP, JMPL} then (case operands I of [op] \<Rightarrow> Some op | _ \<Rightarrow> None)
     else (case operands I of [_, _, op] \<Rightarrow> Some op | _ \<Rightarrow> None))"

definition symbol_target :: "listing \<Rightarrow> mcinst \<Rightarrow> nat option" where
  "symbol_target a I = (case branch_operand I of Some (ExprOp (SymbolRef t)) \<Rightarrow> map_of (llabels a) t | _ \<Rightarrow> None)"

definition asm_step :: "'m llvm_sem \<Rightarrow> listing \<Rightarrow> nat \<Rightarrow> regs \<times> 'm \<Rightarrow> 'm outcome option" where
  "asm_step S a p st = (if p < length (lcode a) then exec_insn S (Suc p) (symbol_target a (lcode a ! p)) (lcode a ! p) st else None)"

definition offset_target :: "DecodedInsn \<Rightarrow> nat option" where
  "offset_target d = (case branch_operand (di_inst d) of
     Some (ImmOp v) \<Rightarrow> if 0 \<le> int (next_unit d) + v then Some (nat (int (next_unit d) + v)) else None | _ \<Rightarrow> None)"

definition bytecode_step :: "'m llvm_sem \<Rightarrow> DecodedInsn list \<Rightarrow> nat \<Rightarrow> regs \<times> 'm \<Rightarrow> 'm outcome option" where
  "bytecode_step S ds pc st = (case find (\<lambda>d. di_unit d = pc) ds of None \<Rightarrow> None
     | Some d \<Rightarrow> exec_insn S (next_unit d) (offset_target d) (di_inst d) st)"

text \<open>A machine that follows another one, as long as the other one goes on.\<close>

locale machine_follows =
  fixes stp1 stp2 :: "nat \<Rightarrow> regs \<times> 'm \<Rightarrow> 'm outcome option" and rel :: "nat \<Rightarrow> nat \<Rightarrow> bool"
  assumes goes: "rel p q \<Longrightarrow> stp1 p st = Some (Goto p' \<rho> m) \<Longrightarrow> stp1 p' (\<rho>, m) \<noteq> None \<Longrightarrow>
      \<exists>q'. rel p' q' \<and> stp2 q st = Some (Goto q' \<rho> m)"
    and exits: "rel p q \<Longrightarrow> stp1 p st = Some (Exit \<rho> m) \<Longrightarrow> stp2 q st = Some (Exit \<rho> m)"
begin

lemma follows_run: "rel p q \<Longrightarrow> run_steps stp1 n p st = Some r \<Longrightarrow> run_steps stp2 n q st = Some r"
proof (induction n arbitrary: p q st)
  case (Suc n)
  from Suc.prems(2) obtain out where out: "stp1 p st = Some out"
    "(case out of Goto q \<rho> m \<Rightarrow> run_steps stp1 n q (\<rho>, m) | Exit \<rho> m \<Rightarrow> Some (\<rho>, m)) = Some r"
    by (auto simp: bind_eq_Some_conv)
  show ?case
  proof (cases out)
    case (Goto p' \<rho> m)
    with out have run: "run_steps stp1 n p' (\<rho>, m) = Some r" by simp
    then have "stp1 p' (\<rho>, m) \<noteq> None" by (cases n; cases "stp1 p' (\<rho>, m)") auto
    with goes[OF Suc.prems(1)] out(1) Goto obtain q' where "rel p' q'" "stp2 q st = Some (Goto q' \<rho> m)" by blast
    with Suc.IH[OF this(1) run] show ?thesis by simp
  next
    case (Exit \<rho> m)
    with exits[OF Suc.prems(1)] out show ?thesis by simp
  qed
qed simp

end

section \<open>The blocks run as the text they were made from\<close>

text \<open>Terminators of BPF are the branches and the exit.\<close>

locale bpf_code_analysis = bpf_analysis +
  assumes terminators: "isTerminator A op \<Longrightarrow> op = RET \<or> is_branch (mk_inst op [])"

interpretation code: bpf_code_analysis bpf_desc
  by unfold_locales (auto simp: bpf_desc_def Let_def is_branch_def split: opcode.splits)

definition laid_out :: "instr_analysis \<Rightarrow> listing \<Rightarrow> MCBasicBlock \<Rightarrow> MCBasicBlock list \<Rightarrow> MCBasicBlock list \<Rightarrow> bool" where
  "laid_out A a e bbs out \<longleftrightarrow> (\<exists>k0. collected A a k0 bbs) \<and> getName e = ''bpf-tv#entry'' \<and> getInstrs e = [mk_inst JMP [ImmOp 1]]
     \<and> same_blocks (e # bbs) out \<and> (\<forall>i < Suc (length bbs). \<exists>ss. block_succs A (e # bbs) i = Inr ss \<and>
       getSuccs (out ! i) = map (\<lambda>b. getName ((e # bbs) ! b)) ss)"

lemma laid_out_parts:
  assumes "laid_out A a e bbs out"
  obtains k0 where "collected A a k0 bbs" "getName e = ''bpf-tv#entry''" "getInstrs e = [mk_inst JMP [ImmOp 1]]" "same_blocks (e # bbs) out"
    "index_of nm out = index_of nm (e # bbs)" "distinct (map getName (e # bbs))"
    "length out = Suc (length bbs)" "\<And>i. i < length bbs \<Longrightarrow> getInstrs (out ! Suc i) = getInstrs (bbs ! i)"
    "getInstrs (out ! 0) = [mk_inst JMP [ImmOp 1]]"
proof -
  from assms obtain k0 where k: "collected A a k0 bbs" and e: "getName e = ''bpf-tv#entry''" "getInstrs e = [mk_inst JMP [ImmOp 1]]"
    and s: "same_blocks (e # bbs) out" unfolding laid_out_def by blast
  show ?thesis
    using k e s index_of_same_blocks[OF s] asm_names_distinct[OF collectedD(1,2)[OF k] e(1)] same_blocks_length[OF s]
      same_blocks_nth(2)[OF s]
    by (intro that[OF k e s]) force+
qed

lemma laid_out_succs:
  assumes "laid_out A a e bbs out" "i \<le> length bbs"
  obtains ss where "block_succs A (e # bbs) i = Inr ss" "getSuccs (out ! i) = map (\<lambda>b. getName ((e # bbs) ! b)) ss"
  using assms unfolding laid_out_def by (metis less_Suc_eq_le)

lemma label_block:
  assumes L: "laid_out A a e bbs out" and q: "map_of (llabels a) t = Some q" and t: "asm_name t"
  obtains b where "index_of t out = Some (Suc b)" "b < length bbs" "offset bbs b = q"
proof -
  from laid_out_parts[OF L, of t] obtain k0 where c: "collected A a k0 bbs" and e: "getName e = ''bpf-tv#entry''"
    and i: "index_of t out = index_of t (e # bbs)" by metis
  from names_ok_target[OF collectedD(1,2)[OF c] t] q obtain b where b: "index_of t bbs = Some b" "offset bbs b = q" by blast
  with that[of b] i e t show ?thesis by (auto simp: asm_name_def index_of_Some)
qed

lemma next_name:
  assumes L: "laid_out A a e bbs out" and i: "i < length bbs" and q: "offset bbs (Suc i) < length (lcode a)"
  shows "Suc i < length bbs" "next_block (e # bbs) (Suc i) = Some (Suc (Suc i))"
    "index_of (getName ((e # bbs) ! Suc (Suc i))) out = Some (Suc (Suc i))"
proof -
  from laid_out_parts[OF L, of "getName ((e # bbs) ! Suc (Suc i))"] obtain k0 where c: "collected A a k0 bbs"
    and ix: "index_of (getName ((e # bbs) ! Suc (Suc i))) out = index_of (getName ((e # bbs) ! Suc (Suc i))) (e # bbs)"
    and d: "distinct (map getName (e # bbs))" by metis
  show n: "Suc i < length bbs"
  proof (rule ccontr)
    assume "\<not> Suc i < length bbs"
    with i have "Suc i = length bbs" by simp
    with q offset_end[of bbs] collectedD(3)[OF c] show False by simp
  qed
  then show "next_block (e # bbs) (Suc i) = Some (Suc (Suc i))" by (simp add: next_block_def)
  from index_of_distinct[OF d, of "Suc (Suc i)"] n ix show "index_of (getName ((e # bbs) ! Suc (Suc i))) out = Some (Suc (Suc i))"
    by simp
qed

context bpf_code_analysis
begin

lemma kinds:
  shows "getOpcode I \<in> {JMP, JMPL} \<Longrightarrow> isUnconditionalBranch A (getOpcode I)"
    and "is_branch I \<Longrightarrow> getOpcode I \<notin> {JMP, JMPL} \<Longrightarrow> isConditionalBranch A (getOpcode I)"
    and "is_branch I \<Longrightarrow> isTerminator A (getOpcode I)"
    and "\<not> is_branch I \<Longrightarrow> getOpcode I \<noteq> RET \<Longrightarrow> \<not> isTerminator A (getOpcode I)"
  using jump jcond jset branch_kinds branch_terminates terminators[of "getOpcode I"]
  by (auto simp: is_branch_def split: opcode.splits)

lemma goes_on:
  assumes "laid_out A a e bbs out" and i: "i < length bbs" "getInstrs (bbs ! i) \<noteq> []"
    and I: "\<not> isTerminator A (getOpcode (last (getInstrs (bbs ! i))))" and n: "next_block (e # bbs) (Suc i) = Some b"
  shows "getSuccs (out ! Suc i) = [getName ((e # bbs) ! b)]"
proof -
  from laid_out_succs[OF assms(1), of "Suc i"] i(1) obtain ss where ss: "block_succs A (e # bbs) (Suc i) = Inr ss"
    "getSuccs (out ! Suc i) = map (\<lambda>b. getName ((e # bbs) ! b)) ss" by auto
  have "\<not> isConditionalBranch A (getOpcode (last (getInstrs (bbs ! i))))" "\<not> isUnconditionalBranch A (getOpcode (last (getInstrs (bbs ! i))))"
    "\<not> isReturn A (getOpcode (last (getInstrs (bbs ! i))))"
    using I branch_kinds branch_terminates return_terminates by blast+
  with ss i n show ?thesis by (auto simp: block_succs_def Let_def add_next_def addSucc_def)
qed

lemma conditional_succs:
  assumes L: "laid_out A a e bbs out" and i: "i < length bbs" "getInstrs (bbs ! i) \<noteq> []"
    and I: "isConditionalBranch A (getOpcode (last (getInstrs (bbs ! i))))" "branch_symbol (last (getInstrs (bbs ! i))) = Some t"
    and b: "index_of t (e # bbs) = Some b"
  shows "getSuccs (out ! Suc i) = map (\<lambda>b. getName ((e # bbs) ! b)) (add_next (next_block (e # bbs) (Suc i)) [b])"
proof -
  from laid_out_succs[OF L, of "Suc i"] i(1) obtain ss where ss: "block_succs A (e # bbs) (Suc i) = Inr ss"
    "getSuccs (out ! Suc i) = map (\<lambda>b. getName ((e # bbs) ! b)) ss" by auto
  have "findTargetLabel (last (getInstrs (bbs ! i))) = Inr t" using I(2) by (simp add: findTargetLabel_def branch_symbol_def)
  with ss i I(1) b branch_exclusive[OF I(1)] show ?thesis
    by (simp add: block_succs_def Let_def del: index_of.simps)
qed

end

text \<open>Where a branch lands.\<close>

lemma fallthrough_cases:
  "fallthrough t [t] = t" "fallthrough t [t, f] = f"
  by (simp_all add: fallthrough_def)

lemma taken_operands:
  assumes "isa_taken I \<rho> = Some t" "getOpcode I \<notin> {JMP, JMPL}" "operands I = [x, y, z]"
  shows "\<not> is_ExprOp x" "\<not> is_ExprOp y"
  using assms by (auto simp: isa_taken_def isa_compare_def src64_def src32_def split: opcode.splits mcoperand.splits reg_width.splits
    Option.bind_splits)

lemma conditional_dest:
  assumes ops: "operands I = [x, y, ExprOp (SymbolRef nm)]" and op: "getOpcode I \<notin> {JMP, JMPL}" and b: "index_of nm out = Some b"
  shows "branch_dest out [nm] I t = Some b"
    and "f \<noteq> nm \<Longrightarrow> index_of f out = Some c \<Longrightarrow> branch_dest out [nm, f] I t = Some (if t then b else c)"
proof -
  have "getOpcode I \<noteq> JMP" "getOpcode I \<noteq> JMPL" using op by auto
  then show "branch_dest out [nm] I t = Some b"
    and "f \<noteq> nm \<Longrightarrow> index_of f out = Some c \<Longrightarrow> branch_dest out [nm, f] I t = Some (if t then b else c)"
    using b by (simp_all add: branch_dest_def ops fallthrough_cases)
qed

context bpf_code_analysis
begin

lemma branch_lands:
  assumes L: "laid_out A a e bbs out" and i: "at_block bbs i k" "Suc k = length (getInstrs (bbs ! i))"
    and I: "I = lcode a ! (offset bbs i + k)" "is_branch I" "isa_taken I \<rho> = Some t" and d: "symbol_target a I = Some d"
    and q: "q = (if t then d else Suc (offset bbs i + k))" "q < length (lcode a)"
  obtains j where "branch_dest out (getSuccs (out ! Suc i)) I t = Some (Suc j)" "j < length bbs" "offset bbs j = q"
proof -
  from laid_out_parts[OF L] obtain k0 where c: "collected A a k0 bbs" by metis
  have il: "i < length bbs" and ne: "getInstrs (bbs ! i) \<noteq> []" using i by (auto simp: at_block_def)
  have l: "last (getInstrs (bbs ! i)) = I" using last_nth[OF c i] I(1) by simp
  from d obtain nm where nm: "branch_operand I = Some (ExprOp (SymbolRef nm))" "map_of (llabels a) nm = Some d"
    by (auto simp: symbol_target_def split: option.splits mcoperand.splits mcexpr.splits)
  have sym: "branch_symbol I = Some nm"
  proof (cases "getOpcode I \<in> {JMP, JMPL}")
    case True
    with nm(1) show ?thesis by (auto simp: branch_operand_def branch_symbol_def split: list.splits)
  next
    case False
    with nm(1) obtain x y where ops: "operands I = [x, y, ExprOp (SymbolRef nm)]" by (auto simp: branch_operand_def split: list.splits)
    from taken_operands[OF I(3) False this] show ?thesis by (cases x; cases y) (auto simp: branch_symbol_def ops)
  qed
  have "asm_name nm" using symbol_asm[OF c i(1)] sym I(1) by simp
  from label_block[OF L nm(2) this] obtain b where b: "index_of nm out = Some (Suc b)" "b < length bbs" "offset bbs b = d" .
  show ?thesis
  proof (cases "getOpcode I \<in> {JMP, JMPL}")
    case True
    with I(3) have t by (auto simp: isa_taken_def)
    moreover have "operands I = [ExprOp (SymbolRef nm)]" using nm(1) True by (auto simp: branch_operand_def split: list.splits)
    ultimately show ?thesis using that[of b] b q True by (simp add: branch_dest_def)
  next
    case False
    with nm(1) obtain x y where ops: "operands I = [x, y, ExprOp (SymbolRef nm)]" by (auto simp: branch_operand_def split: list.splits)
    from laid_out_parts[OF L, of nm] b(1) have ix: "index_of nm (e # bbs) = Some (Suc b)" by metis
    then have nb: "getName ((e # bbs) ! Suc b) = nm" by (simp only: index_of_Some)
    have ss: "getSuccs (out ! Suc i) = map (\<lambda>b. getName ((e # bbs) ! b)) (add_next (next_block (e # bbs) (Suc i)) [Suc b])"
      using conditional_succs[OF L il ne, of nm "Suc b"] kinds(2)[OF I(2) False] sym ix by (simp only: l)
    have p: "Suc (offset bbs i + k) = offset bbs (Suc i)" using offset_Suc[OF il] i(2) by simp
    note dest = conditional_dest[OF ops False b(1)]
    show ?thesis
    proof (cases "offset bbs (Suc i) < length (lcode a)")
      case True
      note n = next_name[OF L il True]
      have "branch_dest out (getSuccs (out ! Suc i)) I t = Some (if t then Suc b else Suc (Suc i))"
      proof (cases "b = Suc i")
        case True
        with ss n nb have "getSuccs (out ! Suc i) = [nm]" by (simp add: add_next_def addSucc_def)
        with True dest(1) show ?thesis by simp
      next
        case False
        then have "getName ((e # bbs) ! Suc (Suc i)) \<noteq> nm" using n(3) b(1) by auto
        from dest(2)[OF this n(3)] False ss n(2) nb show ?thesis by (simp add: add_next_def addSucc_def)
      qed
      with that[of "if t then b else Suc i"] b q(1) n(1) p show ?thesis by auto
    next
      case no: False
      with q p have t: t by (auto split: if_splits)
      have "\<not> Suc i < length bbs"
        using no at_block_0[OF wf_nth[OF c, of "Suc i"]] offset_inside(2)[of bbs "Suc i" 0] collectedD(3)[OF c] by auto
      then have "getSuccs (out ! Suc i) = [nm]" using ss nb by (simp add: next_block_def add_next_def)
      with dest(1) that[of b] b q(1) t show ?thesis by simp
    qed
  qed
qed

end

abbreviation (input) go_on :: "nat \<Rightarrow> 'm llvm_sem \<Rightarrow> MCBasicBlock list \<Rightarrow> 'm outcome \<Rightarrow> (regs \<times> 'm) option" where
  "go_on n S out r \<equiv> (case r of Goto j \<rho> m \<Rightarrow> run_blocks n S out j (\<rho>, m) | Exit \<rho> m \<Rightarrow> Some (\<rho>, m))"

text \<open>The place in the text an outcome continues at is the start of the block it names.\<close>

fun lands :: "MCBasicBlock list \<Rightarrow> 'm outcome \<Rightarrow> 'm outcome \<Rightarrow> bool" where
  "lands bbs (Exit \<rho> m) r = (r = Exit \<rho> m)"
| "lands bbs (Goto q \<rho> m) r = (\<exists>j < length bbs. r = Goto (Suc j) \<rho> m \<and> offset bbs j = q)"

lemma asm_step_lt: "run_steps (asm_step S a) n p st = Some r \<Longrightarrow> p < length (lcode a)"
  by (cases n; cases "p < length (lcode a)") (auto simp: asm_step_def)

context bpf_code_analysis
begin

lemma last_step:
  assumes L: "laid_out A a e bbs out" and i: "at_block bbs i k" "Suc k = length (getInstrs (bbs ! i))"
    and o: "exec_insn S (Suc (offset bbs i + k)) (symbol_target a (lcode a ! (offset bbs i + k))) (lcode a ! (offset bbs i + k)) st = Some o1"
    and q: "\<And>q \<rho> m. o1 = Goto q \<rho> m \<Longrightarrow> q < length (lcode a)"
  shows "\<exists>o2. exec_instrs S out (getSuccs (out ! Suc i)) [lcode a ! (offset bbs i + k)] st = Some o2 \<and> lands bbs o1 o2"
proof -
  let ?I = "lcode a ! (offset bbs i + k)" and ?p = "offset bbs i + k"
  obtain \<rho> m where st: "st = (\<rho>, m)" by (cases st)
  from laid_out_parts[OF L] obtain k0 where c: "collected A a k0 bbs" by metis
  have il: "i < length bbs" and ne: "getInstrs (bbs ! i) \<noteq> []" using i by (auto simp: at_block_def)
  have p: "Suc ?p = offset bbs (Suc i)" using offset_Suc[OF il] i(2) by simp
  consider (branch) "is_branch ?I" | (ret) "\<not> is_branch ?I" "getOpcode ?I = RET" | (plain) "\<not> is_branch ?I" "getOpcode ?I \<noteq> RET" by blast
  then show ?thesis
  proof cases
    case branch
    with o obtain d t where d: "symbol_target a ?I = Some d" "isa_taken ?I \<rho> = Some t" "o1 = Goto (if t then d else Suc ?p) \<rho> m"
      by (auto simp: exec_insn_def st bind_eq_Some_conv)
    from branch_lands[OF L i refl branch d(2,1) refl q[OF d(3)]] obtain j where
      "branch_dest out (getSuccs (out ! Suc i)) ?I t = Some (Suc j)" "j < length bbs" "offset bbs j = (if t then d else Suc ?p)" .
    with d branch show ?thesis by (auto simp: st)
  next
    case ret
    with o show ?thesis by (auto simp: exec_insn_def st)
  next
    case plain
    then obtain \<rho>' m' where st': "isa_exec S ?I st = Some (\<rho>', m')" "o1 = Goto (offset bbs (Suc i)) \<rho>' m'"
      using o by (auto simp: exec_insn_def st p)
    note n = next_name[OF L il q[OF st'(2)]]
    have "\<not> isTerminator A (getOpcode (last (getInstrs (bbs ! i))))"
      using kinds(4)[OF plain] last_nth[OF c i] by simp
    from goes_on[OF L il ne this n(2)] st' plain n show ?thesis by (auto simp: exec_end_def)
  qed
qed

lemma blocks_run:
  assumes L: "laid_out A a e bbs out" and i: "at_block bbs i k" and r: "run_steps (asm_step S a) n (offset bbs i + k) st = Some r"
  shows "\<exists>n'. Option.bind (exec_instrs S out (getSuccs (out ! Suc i)) (drop k (getInstrs (bbs ! i))) st) (go_on n' S out) = Some r"
  using i r
proof (induction n arbitrary: i k st)
  case (Suc n)
  let ?I = "lcode a ! (offset bbs i + k)" and ?p = "offset bbs i + k"
  obtain \<rho> m where st: "st = (\<rho>, m)" by (cases st)
  from laid_out_parts[OF L] obtain k0 where c: "collected A a k0 bbs" by metis
  have ins: "getInstrs (out ! Suc j) = getInstrs (bbs ! j)" if "j < length bbs" for j using laid_out_parts[OF L] that by metis
  have drop: "drop k (getInstrs (bbs ! i)) = ?I # drop (Suc k) (getInstrs (bbs ! i))"
    using Suc.prems(1) code_of_nth[OF Suc.prems(1)] by (simp add: at_block_def collectedD(3)[OF c] Cons_nth_drop_Suc)
  from Suc.prems(2) obtain o1 where o1: "exec_insn S (Suc ?p) (symbol_target a ?I) ?I st = Some o1"
    "(case o1 of Goto q \<rho> m \<Rightarrow> run_steps (asm_step S a) n q (\<rho>, m) | Exit \<rho> m \<Rightarrow> Some (\<rho>, m)) = Some r"
    by (auto simp: asm_step_def[of S a ?p st] bind_eq_Some_conv split: if_splits)
  have il: "i < length bbs" using Suc.prems(1) by (simp add: at_block_def)
  have enter: "\<exists>n'. run_blocks n' S out (Suc j) st' = Some r"
    if "j < length bbs" "run_steps (asm_step S a) n (offset bbs j) st' = Some r" for j st'
  proof -
    have "at_block bbs j 0" using at_block_0[OF wf_nth[OF c]] that(1) by simp
    from Suc.IH[OF this, of st'] that obtain n' where
      "Option.bind (exec_instrs S out (getSuccs (out ! Suc j)) (getInstrs (bbs ! j)) st') (go_on n' S out) = Some r" by auto
    then have "run_blocks (Suc n') S out (Suc j) st' = Some r" by (simp add: exec_block_def ins[OF that(1)])
    then show ?thesis by blast
  qed
  show ?case
  proof (cases "Suc k < length (getInstrs (bbs ! i))")
    case True
    have "?I \<in> set (butlast (getInstrs (bbs ! i)))"
      using True code_of_nth[OF Suc.prems(1)] unfolding collectedD(3)[OF c]
      by (metis Suc_lessE diff_Suc_1 length_butlast nth_butlast nth_mem not_less_eq)
    then have "\<not> ends_block A ?I" using wf_nth[OF c il] by (simp add: block_wf_def)
    then have plain: "\<not> is_branch ?I" "getOpcode ?I \<noteq> RET"
      using kinds(3) exit_insn return_terminates by (auto simp: ends_block_def)
    then obtain st' where st': "isa_exec S ?I st = Some st'" "run_steps (asm_step S a) n (offset bbs i + Suc k) st' = Some r"
      using o1 by (auto simp: exec_insn_def st split: prod.splits)
    have "at_block bbs i (Suc k)" using True il by (simp add: at_block_def)
    from Suc.IH[OF this st'(2)] show ?thesis using st' plain by (simp add: drop)
  next
    case False
    with Suc.prems(1) have k: "Suc k = length (getInstrs (bbs ! i))" by (simp add: at_block_def)
    then have "drop (Suc k) (getInstrs (bbs ! i)) = []" by simp
    note drop = drop[unfolded this]
    have "q < length (lcode a)" if "o1 = Goto q \<rho> m" for q \<rho> m using o1(2) that asm_step_lt by fastforce
    then obtain o2 where
      o2: "exec_instrs S out (getSuccs (out ! Suc i)) (drop k (getInstrs (bbs ! i))) st = Some o2" "lands bbs o1 o2"
      using last_step[OF L Suc.prems(1) k o1(1)] unfolding drop by blast
    show ?thesis
    proof (cases o1)
      case (Goto q \<rho>' m')
      with o2(2) obtain j where j: "o2 = Goto (Suc j) \<rho>' m'" "j < length bbs" "offset bbs j = q" by auto
      from enter[OF j(2)] o1(2) Goto j obtain n' where "run_blocks n' S out (Suc j) (\<rho>', m') = Some r" by auto
      with o2(1) j(1) show ?thesis by auto
    qed (use o1 o2 in auto)
  qed
qed simp

lemma text_runs:
  assumes L: "laid_out A a e bbs out" and r: "run_steps (asm_step S a) n 0 st = Some r"
  shows "\<exists>n'. run_blocks n' S out 0 st = Some r"
proof -
  from laid_out_parts[OF L, of "getName ((e # bbs) ! 1)"] obtain k0 where c: "collected A a k0 bbs" and e: "getInstrs e = [mk_inst JMP [ImmOp 1]]"
    and o: "getInstrs (out ! 0) = [mk_inst JMP [ImmOp 1]]" "index_of (getName ((e # bbs) ! 1)) out = index_of (getName ((e # bbs) ! 1)) (e # bbs)"
    "distinct (map getName (e # bbs))" "\<And>i. i < length bbs \<Longrightarrow> getInstrs (out ! Suc i) = getInstrs (bbs ! i)" by metis
  have ne: "bbs \<noteq> []" using asm_step_lt[OF r] collectedD(3)[OF c] by auto
  then have "at_block bbs 0 0" using at_block_0[OF wf_nth[OF c, of 0]] by simp
  from blocks_run[OF L this, of S n st r] r obtain n' where
    n': "Option.bind (exec_instrs S out (getSuccs (out ! 1)) (getInstrs (bbs ! 0)) st) (go_on n' S out) = Some r"
    by (auto simp: offset_def)
  from laid_out_succs[OF L, of 0] obtain ss where ss: "block_succs A (e # bbs) 0 = Inr ss" "getSuccs (out ! 0) = map (\<lambda>b. getName ((e # bbs) ! b)) ss" by auto
  then have "getSuccs (out ! 0) = [getName ((e # bbs) ! 1)]"
    using e ne by (auto simp: block_succs_def Let_def jump next_block_def)
  moreover have "index_of (getName ((e # bbs) ! 1)) out = Some 1" using o(2) index_of_distinct[OF o(3), of 1] ne by simp
  ultimately have "exec_block S out 0 st = Some (Goto 1 (fst st) (snd st))"
    by (cases st) (simp add: exec_block_def o(1) is_branch_def isa_taken_def branch_dest_def)
  moreover have "exec_block S out 1 st = exec_instrs S out (getSuccs (out ! 1)) (getInstrs (bbs ! 0)) st"
    using o(4)[of 0] ne by (simp add: exec_block_def)
  ultimately have "run_blocks (Suc (Suc n')) S out 0 st = Some r" using n' by simp
  then show ?thesis by blast
qed

end

end
