(* ===== verification/Linear_Bytes.thy ===== *)
theory Linear_Bytes
  imports Linear
begin

text \<open>
  The bytecode runs as the text \<open>runBytes\<close> renders it as: every branch offset becomes the label of the instruction
  it reaches.
\<close>

text \<open>A listing renders decoded instructions when it has them at the same places, with symbols for offsets.\<close>

definition rendered_insn :: "DecodedInsn list \<Rightarrow> listing \<Rightarrow> DecodedInsn \<Rightarrow> mcinst \<Rightarrow> bool" where
  "rendered_insn ds a d I \<longleftrightarrow> (is_branch I \<longleftrightarrow> is_branch (di_inst d)) \<and> (if is_branch I
     then \<forall>u. offset_target d = Some u \<longrightarrow> (\<forall>\<rho>. isa_taken I \<rho> = isa_taken (di_inst d) \<rho>) \<and>
       (\<exists>q < length ds. symbol_target a I = Some q \<and> di_unit (ds ! q) = u)
     else I = di_inst d)"

definition rendered :: "DecodedInsn list \<Rightarrow> listing \<Rightarrow> bool" where
  "rendered ds a \<longleftrightarrow> contiguous 0 ds \<and> length (lcode a) = length ds \<and> (\<forall>p < length ds. rendered_insn ds a (ds ! p) (lcode a ! p))"

definition located :: "DecodedInsn list \<Rightarrow> listing \<Rightarrow> nat \<Rightarrow> nat \<Rightarrow> bool" where
  "located ds a pc p \<longleftrightarrow> rendered ds a \<and> p < length ds \<and> di_unit (ds ! p) = pc"

lemma find_unit:
  assumes "contiguous u ds"
  shows "find (\<lambda>d. di_unit d = pc) ds = Some d \<longleftrightarrow> (\<exists>p < length ds. d = ds ! p \<and> di_unit d = pc)"
proof -
  have "i = j" if "i < length ds" "j < length ds" "di_unit (ds ! i) = di_unit (ds ! j)" for i j
    using contiguous_distinct[OF assms] that nth_eq_iff_index_eq[of "map di_unit ds" i j] by simp
  then show ?thesis unfolding find_Some_iff by (metis less_trans nat_neq_iff)
qed

lemma contiguous_units_pos: "contiguous u ds \<Longrightarrow> p < length ds \<Longrightarrow> 0 < di_units (ds ! p)"
proof (induction ds arbitrary: u p)
  case (Cons d ds)
  then show ?case by (cases p) auto
qed simp

lemma contiguous_units_mono:
  assumes "contiguous u ds" "q \<le> p" "p < length ds"
  shows "di_unit (ds ! q) \<le> di_unit (ds ! p)"
  using assms(2,3)
proof (induction p rule: dec_induct)
  case (step p)
  with contiguous_nth[OF assms(1), of p] show ?case by (simp add: next_unit_def)
qed simp

lemma located_step:
  assumes at: "located ds a pc p" and s: "bytecode_step S ds pc st = Some r"
  shows "case r of Exit \<rho> m \<Rightarrow> asm_step S a p st = Some (Exit \<rho> m)
     | Goto pc' \<rho> m \<Rightarrow> bytecode_step S ds pc' (\<rho>, m) \<noteq> None \<longrightarrow> (\<exists>p'. located ds a pc' p' \<and> asm_step S a p st = Some (Goto p' \<rho> m))"
proof -
  let ?d = "ds ! p" and ?I = "lcode a ! p"
  obtain \<rho> m where st: "st = (\<rho>, m)" by (cases st)
  from at have c: "contiguous 0 ds" and len: "length (lcode a) = length ds" and p: "p < length ds" "di_unit ?d = pc" and re: "rendered_insn ds a ?d ?I"
    and R: "rendered ds a" by (auto simp: located_def rendered_def)
  have "find (\<lambda>d. di_unit d = pc) ds = Some ?d" using find_unit[OF c] p by blast
  with s have e: "exec_insn S (next_unit ?d) (offset_target ?d) (di_inst ?d) st = Some r" by (simp add: bytecode_step_def)
  have step: "asm_step S a p st = exec_insn S (Suc p) (symbol_target a ?I) ?I st" using p len by (simp add: asm_step_def)
  have nxt: "located ds a (next_unit ?d) (Suc p)" if some: "bytecode_step S ds (next_unit ?d) st' \<noteq> None" for st'
  proof -
    from some obtain d' where "find (\<lambda>d. di_unit d = next_unit ?d) ds = Some d'" by (auto simp: bytecode_step_def split: option.splits)
    then obtain q where q: "q < length ds" "di_unit (ds ! q) = next_unit ?d" unfolding find_unit[OF c] by blast
    have "Suc p < length ds"
    proof (rule ccontr)
      assume "\<not> Suc p < length ds"
      with q(1) have "q \<le> p" by simp
      then have "di_unit (ds ! q) \<le> di_unit ?d" using contiguous_units_mono[OF c _ p(1)] by blast
      with q(2) contiguous_units_pos[OF c p(1)] show False by (simp add: next_unit_def)
    qed
    with contiguous_nth[OF c this] R show ?thesis by (simp add: located_def)
  qed
  show ?thesis
  proof (cases "is_branch ?I")
    case True
    with re e obtain u t where u: "offset_target ?d = Some u" "isa_taken (di_inst ?d) \<rho> = Some t" "r = Goto (if t then u else next_unit ?d) \<rho> m"
      by (auto simp: exec_insn_def rendered_insn_def st bind_eq_Some_conv)
    from re True u(1) obtain q where q: "q < length ds" "symbol_target a ?I = Some q" "di_unit (ds ! q) = u"
      "isa_taken ?I \<rho> = isa_taken (di_inst ?d) \<rho>" unfolding rendered_insn_def by auto
    with True u(2) have "asm_step S a p st = Some (Goto (if t then q else Suc p) \<rho> m)"
      unfolding step by (simp add: exec_insn_def st)
    moreover have "located ds a u q" using q R by (simp add: located_def)
    ultimately show ?thesis using u(3) nxt by auto
  next
    case False
    with re have "?I = di_inst ?d" by (simp add: rendered_insn_def)
    with e False nxt show ?thesis unfolding step by (auto simp: exec_insn_def st split: if_splits)
  qed
qed

interpretation bytecode: machine_follows "bytecode_step S ds" "asm_step S a" "located ds a" for S ds a
proof unfold_locales
  fix p q st p' \<rho> and m :: 'a
  assume "located ds a p q"
  note s = located_step[OF this, of S st]
  show "bytecode_step S ds p st = Some (Goto p' \<rho> m) \<Longrightarrow> bytecode_step S ds p' (\<rho>, m) \<noteq> None \<Longrightarrow>
     \<exists>q'. located ds a p' q' \<and> asm_step S a q st = Some (Goto q' \<rho> m)" using s by fastforce
  show "bytecode_step S ds p st = Some (Exit \<rho> m) \<Longrightarrow> asm_step S a q st = Some (Exit \<rho> m)" using s by fastforce
qed

section \<open>What \<open>runBytes\<close> makes of the bytecode renders it\<close>

context bpf_disassembler
begin

lemma stages_no_symbols:
  assumes "bytes_stages dis A bytes ds lds rs" "d \<in> set ds" "op \<in> set (operands (di_inst d))"
  shows "\<not> is_ExprOp op"
proof -
  from assms(1) obtain raw where raw: "decode dis bytes = Inr raw" "list_all2 (\<lambda>d n. normalize_insn A d = Inr n) raw ds"
    unfolding bytes_stages_def by blast
  from assms(2) obtain i where i: "i < length ds" "d = ds ! i" by (auto simp: in_set_conv_nth)
  with raw(2) have "normalize_insn A (raw ! i) = Inr d" "raw ! i \<in> set raw" by (auto simp: list_all2_conv_all_nth)
  with normalize_insn_same(3)[OF this(1)] decode_tiles(4)[OF raw(1)] assms(3) show ?thesis using same_shape_no_symbols by blast
qed

end

lemma symbol_last:
  assumes "branch_symbol r = Some l" "butlast (operands r) = xs" "\<forall>x \<in> set xs. \<not> is_ExprOp x"
  shows "operands r = xs @ [ExprOp (SymbolRef l)]"
proof -
  have ne: "operands r \<noteq> []" using assms(1) by (auto simp: branch_symbol_def)
  then have ops: "operands r = xs @ [last (operands r)]" using assms(2) by (metis append_butlast_last_id)
  have "first_symbol (xs @ [y]) = first_symbol [y]" for y
    using assms(3)
  proof (induction xs)
    case (Cons x xs)
    then show ?case by (cases x) auto
  qed simp
  then have "first_symbol [last (operands r)] = Some l" using assms(1) ops by (metis branch_symbol_def)
  then have "last (operands r) = ExprOp (SymbolRef l)" by (cases "[last (operands r)]" rule: first_symbol.cases) auto
  with ops show ?thesis by simp
qed

lemma branch_operand_last:
  assumes "branch_operand I = Some op"
  obtains xs where "operands I = xs @ [op]" "length xs = (if getOpcode I \<in> {JMP, JMPL} then 0 else 2)"
  using assms that[of "butlast (operands I)"] by (auto simp: branch_operand_def split: if_splits list.splits)

lemma isa_taken_same:
  assumes "getOpcode J = getOpcode I" "operands I = xs @ [x]" "operands J = xs @ [y]" "length xs = (if getOpcode I \<in> {JMP, JMPL} then 0 else 2)"
  shows "isa_taken J = isa_taken I"
proof (cases "getOpcode I \<in> {JMP, JMPL}")
  case True
  then show ?thesis using assms(1) by (auto simp: isa_taken_def)
next
  case False
  with assms(4) obtain a b where "xs = [a, b]" by (auto simp: length_Suc_conv numeral_2_eq_2)
  with assms show ?thesis by (auto simp: isa_taken_def isa_compare_def fun_eq_iff split: opcode.splits mcoperand.splits)
qed

lemma branch_operand_snoc:
  assumes "operands J = xs @ [y]" "length xs = (if getOpcode J \<in> {JMP, JMPL} then 0 else 2)"
  shows "branch_operand J = Some y"
  using assms by (auto simp: branch_operand_def length_Suc_conv numeral_2_eq_2 split: if_splits)

context bpf_code_analysis
begin

lemma branches: "isBranch A (getOpcode I) \<longleftrightarrow> is_branch I"
proof
  assume b: "isBranch A (getOpcode I)"
  then have "getOpcode I \<noteq> RET" using exit_insn return_no_branch by auto
  with kinds(4)[of I] branch_terminates[OF b] show "is_branch I" by blast
next
  assume "is_branch I"
  with kinds(1,2)[of I] branch_kinds[of "getOpcode I"] show "isBranch A (getOpcode I)" by blast
qed

lemma stages_rendered:
  assumes dis: "bpf_disassembler dis" and st: "bytes_stages dis A bytes ds lds rs"
  shows "rendered ds (bytes_listing lds rs)"
proof -
  from st have c: "contiguous 0 ds" and r: "list_all2 (retargeted A (set (map di_unit ds))) ds rs"
    and l: "leaders A ds = Inr lds" "ds \<noteq> []" by (simp_all add: bytes_stages_def)
  note rs = list_all2_retargeted[OF r]
  have "rendered_insn ds (bytes_listing lds rs) (ds ! p) (di_inst (rs ! p))" if p: "p < length ds" for p
  proof -
    let ?d = "ds ! p" and ?I = "di_inst (ds ! p)" and ?J = "di_inst (rs ! p)"
    have re: "retargeted A (set (map di_unit ds)) ?d (rs ! p)" using r p by (simp add: list_all2_conv_all_nth)
    then have op: "getOpcode ?J = getOpcode ?I" by (simp add: retargeted_def)
    then have br: "is_branch ?J = is_branch ?I" by (simp add: is_branch_def)
    show ?thesis
    proof (cases "is_branch ?J")
      case False
      with re br branches[of ?I] show ?thesis by (simp add: rendered_insn_def retargeted_def)
    next
      case True
      then have isb: "isBranch A (getOpcode ?I)" using branches br by simp
      with re obtain v where v: "last (operands ?I) = ImmOp v" "0 \<le> int (next_unit ?d) + v" "nat (int (next_unit ?d) + v) \<in> set (map di_unit ds)"
        and sym: "branch_symbol ?J = Some (labelName (nat (int (next_unit ?d) + v)))" and but: "butlast (operands ?J) = butlast (operands ?I)"
        by (auto simp: retargeted_def)
      have "(\<forall>\<rho>. isa_taken ?J \<rho> = isa_taken ?I \<rho>) \<and>
          (\<exists>q < length ds. symbol_target (bytes_listing lds rs) ?J = Some q \<and> di_unit (ds ! q) = u)" if u: "offset_target ?d = Some u" for u
      proof -
        from u obtain v' where v': "branch_operand ?I = Some (ImmOp v')" "u = nat (int (next_unit ?d) + v')"
          by (auto simp: offset_target_def split: option.splits mcoperand.splits if_splits)
        from branch_operand_last[OF v'(1)] obtain xs where xs: "operands ?I = xs @ [ImmOp v']"
          "length xs = (if getOpcode ?I \<in> {JMP, JMPL} then 0 else 2)" .
        with v(1) v'(2) have vu: "v' = v" "u = nat (int (next_unit ?d) + v)" by simp_all
        have "\<forall>x \<in> set xs. \<not> is_ExprOp x" using bpf_disassembler.stages_no_symbols[OF dis st, of ?d] p xs(1) by simp
        from symbol_last[OF sym _ this] but xs(1) have J: "operands ?J = xs @ [ExprOp (SymbolRef (labelName u))]" by (simp add: vu)
        have "branch_operand ?J = Some (ExprOp (SymbolRef (labelName u)))" by (rule branch_operand_snoc[OF J]) (simp add: xs(2) op)
        moreover from v(3) vu(2) obtain q where q: "q < length ds" "di_unit (ds ! q) = u" by (auto simp: in_set_conv_nth)
        moreover have "u \<in> lds" using leaders_closed(3)[OF l _ isb v(1,2)] p vu(2) by simp
        then have "map_of (labels_from lds 0 rs) (labelName u) = Some q"
          using label_target[of rs u lds q] contiguous_distinct[OF c] rs(1,2) q by (metis nth_map)
        ultimately have "symbol_target (bytes_listing lds rs) ?J = Some q" by (simp add: symbol_target_def bytes_listing_def)
        with q isa_taken_same[OF op xs(1) J xs(2)] show ?thesis by auto
      qed
      with br True show ?thesis by (simp add: rendered_insn_def)
    qed
  qed
  with c rs(1) show ?thesis by (simp add: rendered_def bytes_listing_def)
qed

end

end
