(* ===== verification/Pipeline.thy ===== *)
theory Pipeline
  imports Linear_Bytes Support_Props
begin

text \<open>
  The whole lifter: \<open>mc2llvm::run\<close> from the assembly text and \<open>bpf2llvm::runBytes\<close> from bytecode. The components are
  composed as the code composes them - the checks and the clone of the source, the streamer or the decoder, the
  passes over the blocks, the translation - and so are their properties.
\<close>

section \<open>The two entries of the lifter\<close>

text \<open>What the lifter object is built with: the module and the function, the slots, the description of the
  instructions, LLVM's verifier and analysis of pointers. \<open>lf_view\<close> gives the lifter's view of the clone: its types and attributes
  and, with the collected data objects, the addresses of globals.\<close>

record lifting =
  lf_allowStackEscape :: bool
  lf_module :: smodule
  lf_underlying :: "svalue \<Rightarrow> svalue"
  lf_slots :: "StackSlot list option"
  lf_src :: sfunc
  lf_view :: "adjusted \<Rightarrow> MCGlobal list \<Rightarrow> src_env"
  lf_analysis :: instr_analysis
  lf_valid :: "code \<Rightarrow> bool"

definition prepare :: "lifting \<Rightarrow> lift_error + adjusted" where
  "prepare L = map_sum id fst (setupLift (lf_allowStackEscape L) (lf_module L) (lf_underlying L) (lf_slots L) (lf_src L)
     \<lparr>typeSet = [], totalAllocas = 0\<rparr>)"

definition lift_collected :: "lifting \<Rightarrow> adjusted \<Rightarrow> MCFunction \<Rightarrow> lstate \<Rightarrow> lift_error + adjusted \<times> lstate" where
  "lift_collected L adj F s = map_sum id (\<lambda>(u, s'). (adj, s')) (liftMCFunction (lf_valid L) (lf_view L adj (MCglobals F)) (BBs F) s)"

text \<open>A run of the assembly parser: the callbacks it makes and whether it reports an error in the end.\<close>

definition mc2llvm_run :: "lifting \<Rightarrow> (nat \<Rightarrow> nat option) \<Rightarrow> mc_event list \<times> bool \<Rightarrow> lstate \<Rightarrow> lift_error + adjusted \<times> lstate" where
  "mc2llvm_run L lm parser s0 = (case prepare L of Inl e \<Rightarrow> Inl e
     | Inr adj \<Rightarrow>
    (case parse_run (lf_analysis L) (fst parser) (new_streamer NOP lm) of Inl e \<Rightarrow> Inl e
     | Inr (u, Str) \<Rightarrow>
    if snd parser then Inl (ExitError ''AsmParser failed'')
    else (case finish_function (lf_analysis L) JMP (MF Str) of Inl e \<Rightarrow> Inl e
     | Inr F \<Rightarrow> lift_collected L adj F s0)))"

definition bpf2llvm_runBytes :: "lifting \<Rightarrow> disassembler \<Rightarrow> byte list \<Rightarrow> lstate \<Rightarrow> lift_error + adjusted \<times> lstate" where
  "bpf2llvm_runBytes L dis bytes s0 = (case prepare L of Inl e \<Rightarrow> Inl e
     | Inr adj \<Rightarrow> (case runBytes dis (lf_analysis L) (f_name (lf_src L)) bytes of Inl e \<Rightarrow> Inl e
     | Inr F \<Rightarrow> lift_collected L adj F (s0\<lparr>bytesMode := True\<rparr>)))"

section \<open>The entry block is apart\<close>

text \<open>No instruction names the entry block: \<open>#\<close> begins a comment of the assembly.\<close>

definition entry_unnamed :: "listing \<Rightarrow> bool" where
  "entry_unnamed a \<longleftrightarrow> (\<forall>I \<in> set (lcode a). ExprOp (SymbolRef ''bpf-tv#entry'') \<notin> set (operands I))"

context bpf_code_analysis
begin

lemma laid_out_finished:
  assumes c: "collected A a k0 bbs" and F: "BBs F = bbs" and r: "finish_function A JMP F = Inr F'"
  obtains e where "laid_out A a e bbs (BBs F')"
proof -
  from finished[OF c F r] obtain e where e: "getName e = ''bpf-tv#entry''" "getInstrs e = [mk_inst JMP [ImmOp 1]]" "same_blocks (e # bbs) (BBs F')"
    "\<forall>i < Suc (length bbs). \<exists>ss. block_succs A (e # bbs) i = Inr ss \<and>
       getSuccs (BBs F' ! i) = map (\<lambda>b. getName ((e # bbs) ! b)) ss" .
  show ?thesis by (rule that[of e], unfold laid_out_def, intro conjI exI[of _ k0] c e)
qed

lemma laid_out_apart:
  assumes L: "laid_out A a e bbs out" and u: "entry_unnamed a"
  shows "entry_apart out"
  unfolding entry_apart_def
proof (intro ballI conjI)
  from L obtain k0 where c: "collected A a k0 bbs" and e: "getName e = ''bpf-tv#entry''" "getInstrs e = [mk_inst JMP [ImmOp 1]]"
    and s: "same_blocks (e # bbs) out" unfolding laid_out_def by blast
  note d = asm_names_distinct[OF collectedD(1,2)[OF c] e(1)]
  have name: "getName (out ! 0) = getName e" using same_blocks_nth(1)[OF s, of 0] by simp
  fix bb assume "bb \<in> set out"
  then obtain i where i: "i < length out" "bb = out ! i" by (auto simp: in_set_conv_nth)
  then have il: "i \<le> length bbs" using same_blocks_length[OF s] by simp
  from laid_out_succs[OF L il] obtain ss where ss: "block_succs A (e # bbs) i = Inr ss" "getSuccs (out ! i) = map (\<lambda>b. getName ((e # bbs) ! b)) ss" .
  have "getName e \<noteq> getName ((e # bbs) ! j)" if "j \<in> set ss" for j
    using finished_succs(2)[OF c e s ss il that] d by (cases j) (auto simp: image_iff Bex_def in_set_conv_nth)
  then show "getName (out ! 0) \<notin> set (getSuccs bb)" unfolding i(2) ss(2) name set_map image_iff by blast
  show "ExprOp (SymbolRef (getName (out ! 0))) \<notin> set (operands I)" if I: "I \<in> set (getInstrs bb)" for I
  proof (cases i)
    case 0
    with I i(2) same_blocks_nth(2)[OF s, of 0] e(2) show ?thesis by (auto simp: mk_inst_def)
  next
    case (Suc j)
    with il I i(2) same_blocks_nth(2)[OF s, of i] have "I \<in> set (lcode a)" by (auto simp: collectedD(3)[OF c, symmetric])
    with u show ?thesis by (simp add: entry_unnamed_def name e(1))
  qed
qed

end

section \<open>Composition\<close>

text \<open>What LLVM provides when the lifted function is entered: its instructions behave as documented, the stack is allocated,
  the scratch global is readable.\<close>

definition callable :: "'m llvm_sem \<Rightarrow> 'm machine \<Rightarrow> int \<Rightarrow> 'm \<Rightarrow> bool" where
  "callable S \<sigma> p m \<longleftrightarrow> langref S \<and> sem_call S ''myalloc'' [(64, 1280), (64, 16)] (mem \<sigma>) = Some (p, m) \<and> in_width 64 p \<and> readable_scratch S m"

text \<open>The lifted function \<open>se\<close> does what a machine does from place 0.\<close>

definition computes :: "'m llvm_sem \<Rightarrow> src_env \<Rightarrow> lstate \<Rightarrow> (nat \<Rightarrow> regs \<times> 'm \<Rightarrow> 'm outcome option) \<Rightarrow> 'm machine \<Rightarrow> int \<Rightarrow> 'm \<Rightarrow> bool" where
  "computes S E se stp \<sigma> p m \<longleftrightarrow> (\<exists>\<rho>. entry_regs E (args \<sigma>) (word_of_int p) \<rho> \<and>
     (\<forall>n \<rho>' m'. run_steps stp n 0 (\<rho>, m) = Some (\<rho>', m') \<longrightarrow>
       (\<exists>\<sigma>'. steps S (fn se) (Run 0 0 \<sigma>) (Returned (return_value E (\<rho>' 0)) \<sigma>') \<and> mem \<sigma>' = m')))"

lemma computes_mono:
  assumes "computes S E se stp \<sigma> p m" "\<And>n st r. run_steps stp' n 0 st = Some r \<Longrightarrow> run_steps stp n 0 st = Some r"
  shows "computes S E se stp' \<sigma> p m"
  using assms unfolding computes_def by blast

lemma prepared_returnable:
  assumes "prepare L = Inr adj" "src_view adj E" "returns (lf_src L)"
  shows "returnable E"
proof -
  from assms(1) obtain st where "setupLift (lf_allowStackEscape L) (lf_module L) (lf_underlying L) (lf_slots L) (lf_src L)
      \<lparr>typeSet = [], totalAllocas = 0\<rparr> = Inr (adj, st)"
    by (auto simp: prepare_def map_sum_def split: sum.splits)
  with setupLift_iff checked_env(1)[OF _ _ assms(2,3)] show ?thesis by blast
qed

context bpf_code_analysis
begin

lemma collected_computes:
  assumes L: "laid_out A a e bbs (BBs F)" and u: "entry_unnamed a" and E: "returnable E" and t: "args_typed E (args \<sigma>)" and S: "callable S \<sigma> p m"
    and s: "fn s0 = []" "unspecifiedOff s0 = 0" and se: "liftMCFunction valid E (BBs F) s0 = Inr ((), se)"
  shows "computes S E se (asm_step S a) \<sigma> p m"
proof -
  from S have S': "langref S" "sem_call S ''myalloc'' [(64, 1280), (64, 16)] (mem \<sigma>) = Some (p, m)" "in_width 64 p" "readable_scratch S m"
    by (simp_all add: callable_def)
  from langref.lifted_function[OF S'(1) E laid_out_apart[OF L u] s se S'(2-4) t] show ?thesis
    unfolding computes_def using text_runs[OF L] by metis
qed

lemma streamed_laid_out:
  assumes r: "parse_run A evs (new_streamer NOP lm) = Inr (u, s)" "finish_function A JMP (MF s) = Inr F" and a: "asm_listing (listing_of lm evs)"
  obtains e bbs where "laid_out A (listing_of lm evs) e bbs (BBs F)"
proof -
  from code.loop[OF listed_empty r(1)[unfolded parse_run_def]]
  have l: "listed A lm (listing_of lm evs) s" by (simp add: listing_of_def)
  then obtain k where k: "str_inv A s" "code_of (BBs (MF s)) = lcode (listing_of lm evs)" "names_ok k (listing_of lm evs) (BBs (MF s))"
    by (rule listedE)
  then have "collected A (listing_of lm evs) k (BBs (MF s))" using a by (simp add: collected_def str_inv_def)
  from laid_out_finished[OF this refl r(2)] that show ?thesis by metis
qed

lemma bytes_laid_out:
  assumes "bpf_disassembler dis" "runBytes dis A nm bytes = Inr F" and len: "length bytes < 2 ^ 32"
  obtains ds lds rs e bbs where "bytes_stages dis A bytes ds lds rs" "laid_out A (bytes_listing lds rs) e bbs (BBs F)"
proof -
  from bpf_disassembler.runBytes_stages[OF assms(1,2)] obtain ds lds rs where st: "bytes_stages dis A bytes ds lds rs"
    and fin: "finish_function A JMP (populate lds rs None (setName nm new_MCFunction)) = Inr F" by blast
  from laid_out_finished[OF bytes_collected[OF st len] refl fin] that[OF st] show ?thesis by metis
qed

lemma bytes_entry_unnamed:
  assumes dis: "bpf_disassembler dis" and st: "bytes_stages dis A bytes ds lds rs"
  shows "entry_unnamed (bytes_listing lds rs)"
  unfolding entry_unnamed_def
proof
  fix I assume "I \<in> set (lcode (bytes_listing lds rs))"
  then obtain p where p: "p < length rs" "I = di_inst (rs ! p)" by (auto simp: bytes_listing_def in_set_conv_nth)
  from st have r: "list_all2 (retargeted A (set (map di_unit ds))) ds rs" by (simp add: bytes_stages_def)
  then have re: "retargeted A (set (map di_unit ds)) (ds ! p) (rs ! p)" and d: "ds ! p \<in> set ds"
    using p(1) by (auto simp: list_all2_conv_all_nth)
  have ns: "\<not> is_ExprOp op" if "op \<in> set (operands (di_inst (ds ! p)))" for op
    using bpf_disassembler.stages_no_symbols[OF dis st d that] .
  then have none: "ExprOp x \<notin> set (operands (di_inst (ds ! p)))" for x by (metis mcoperand.disc(9))
  show "ExprOp (SymbolRef ''bpf-tv#entry'') \<notin> set (operands I)"
  proof (cases "isBranch A (getOpcode (di_inst (ds ! p)))")
    case True
    with re obtain u where u: "branch_symbol I = Some (labelName u)" "butlast (operands I) = butlast (operands (di_inst (ds ! p)))"
      by (auto simp: retargeted_def p(2))
    have "operands I = butlast (operands (di_inst (ds ! p))) @ [ExprOp (SymbolRef (labelName u))]"
      by (rule symbol_last[OF u]) (use ns in \<open>auto dest: in_set_butlastD\<close>)
    with none show ?thesis by (auto simp: labelName_def dest!: in_set_butlastD)
  next
    case False
    with re none show ?thesis by (auto simp: retargeted_def p(2))
  qed
qed

end

end
