(* ===== verification/Pipeline_Props.thy ===== *)
theory Pipeline_Props
  imports Pipeline Streamer_Props Bytes_Props
begin

text \<open>
  The properties of the lifter as a whole, from the assembly text or the bytecode to the LLVM function.
\<close>

section \<open>Concrete inputs\<close>

text \<open>The source of \<open>Support_Props\<close>, lifted from the text of \<open>Streamer_Props\<close> and from bytecode: \<open>r0 = 3; if r1 != 0 goto +1;
  r0 = 4; exit\<close>.\<close>

definition demo_lifting :: lifting where
  "demo_lifting = \<lparr>lf_allowStackEscape = False, lf_module = demo_module, lf_underlying = id, lf_slots = None, lf_src = demo_src,
     lf_view = (\<lambda>adj gs. demo_view), lf_analysis = bpf_desc, lf_valid = (\<lambda>_. True)\<rparr>"

definition skip_bytes :: "byte list" where
  "skip_bytes = [0xb7, 0, 0, 0, 3, 0, 0, 0,  0x55, 1, 1, 0, 0, 0, 0, 0,  0xb7, 0, 0, 0, 4, 0, 0, 0,  0x95, 0, 0, 0, 0, 0, 0, 0]"

definition byte_call :: "bytemem machine" where
  "byte_call = \<lparr>env = Map.empty, slots = Map.empty, mem = (\<lambda>_. 0), args = (\<lambda>i. if i = 0 then Some (VInt 8 0) else None)\<rparr>"

definition bb :: "string \<Rightarrow> mcinst list \<Rightarrow> string list \<Rightarrow> MCBasicBlock" where
  "bb nm is ss = \<lparr>getName = nm, getInstrs = is, getSuccs = ss\<rparr>"

definition at_line :: "mcinst \<Rightarrow> mcinst" where
  "at_line I = I\<lparr>loc := Some 0\<rparr>"

definition text_blocks :: "MCBasicBlock list" where
  "text_blocks = [bb ''bpf-tv#entry'' [mk_inst JMP [ImmOp 1]] [''f''],
     bb ''f'' [mk_inst NOP [], at_line (mk_inst MOV_ri [RegOp (R 0), ImmOp 1]),
       at_line (mk_inst (JCOND JEQ RI B64) [RegOp (R 1), ImmOp 0, ExprOp (SymbolRef ''LBB0_2'')])] [''LBB0_2'', ''1''],
     bb ''1'' [at_line (mk_inst MOV_ri [RegOp (R 0), ImmOp 2])] [''LBB0_2''],
     bb ''LBB0_2'' [mk_inst NOP [], at_line (mk_inst RET [])] []]"

definition skip_blocks :: "MCBasicBlock list" where
  "skip_blocks = [bb ''bpf-tv#entry'' [mk_inst JMP [ImmOp 1]] [''L0''],
     bb ''L0'' [mk_inst MOV_ri [RegOp (R 0), ImmOp 3],
       mk_inst (JCOND JNE RI B64) [RegOp (R 1), ImmOp 0, ExprOp (SymbolRef ''L3'')]] [''L3'', ''L2''],
     bb ''L2'' [mk_inst MOV_ri [RegOp (R 0), ImmOp 4]] [''L3''],
     bb ''L3'' [mk_inst RET []] []]"

lemma text_streamed: "\<exists>s F. parse_run bpf_desc demo_events (new_streamer NOP demo_lines) = Inr ((), s) \<and>
   finish_function bpf_desc JMP (MF s) = Inr F \<and> BBs F = text_blocks"
proof -
  have "map_sum id BBs (streamed bpf_desc demo_lines demo_events) = Inr text_blocks" by code_simp
  then show ?thesis by (auto simp: streamed_def map_sum_def split: sum.splits)
qed

lemma skip_decoded: "\<exists>F. runBytes mini_dis bpf_desc ''f'' skip_bytes = Inr F \<and> BBs F = skip_blocks"
proof -
  have "map_sum id BBs (runBytes mini_dis bpf_desc ''f'' skip_bytes) = Inr skip_blocks" by code_simp
  then show ?thesis by (auto simp: map_sum_def split: sum.splits)
qed

lemma blocks_4_run:
  assumes "length bbs = 4" "\<And>b. b \<in> {0, 1, 2, 3} \<Longrightarrow> exec_block ref_sem bbs b (\<lambda>_. 0, \<lambda>_. 0) \<noteq> None"
  shows "\<forall>b < length bbs. \<exists>st out. exec_block ref_sem bbs b st = Some out"
proof (intro allI impI)
  fix b assume "b < length bbs"
  then have "b \<in> {0, 1, 2, 3}" using assms(1) by auto
  from assms(2)[OF this] show "\<exists>st out. exec_block ref_sem bbs b st = Some out" by blast
qed

lemma text_blocks_run: "\<forall>b < length text_blocks. \<exists>st out. exec_block ref_sem text_blocks b st = Some out"
  by (rule blocks_4_run) (auto simp: text_blocks_def bb_def at_line_def demo_exec isa_mov_imm_def)

lemma skip_blocks_run: "\<forall>b < length skip_blocks. \<exists>st out. exec_block ref_sem skip_blocks b st = Some out"
  by (rule blocks_4_run) (auto simp: skip_blocks_def bb_def demo_exec isa_mov_imm_def)

lemma demo_prepared: "prepare demo_lifting = Inr demo_adjusted"
proof -
  have "setupLift False demo_module id None demo_src \<lparr>typeSet = [], totalAllocas = 0\<rparr> =
      Inr (demo_adjusted, \<lparr>typeSet = [SVoid, SInt 8], totalAllocas = 0\<rparr>)"
    unfolding setupLift_iff using demo_src_checked demo_adjust by blast
  then show ?thesis by (simp add: prepare_def demo_lifting_def)
qed

lemma demo_view_ok: "returnable demo_view" "args_supported demo_view" "args_typed demo_view (args byte_call)" "returns demo_src"
  by (simp_all add: returnable_def demo_view_def args_supported_def args_typed_def byte_call_def in_width_def returns_def demo_src_def
      new_inst_def insts_def find_inst_def)

lemma demo_callable: "callable ref_sem byte_call (2 ^ 32) (\<lambda>_. 0)"
proof -
  have "sem_call ref_sem ''myalloc'' [(64, 1280), (64, 16)] (mem byte_call) = Some (2 ^ 32, \<lambda>_. 0)"
    by (simp add: ref_sem_def byte_call_def)
  then show ?thesis by (simp add: callable_def langref_ref_sem ref_readable in_width_def)
qed

lemma demo_lifts:
  assumes "BBs F = bbs" "bbs \<noteq> []" "\<forall>b < length bbs. \<exists>st out. exec_block ref_sem bbs b st = Some out" "fn s = []" "unspecifiedOff s = 0"
  shows "\<exists>se. lift_collected demo_lifting adj F s = Inr (adj, se)"
proof -
  from langref.lift_accepts[OF langref_ref_sem demo_view_ok(1,2) assms(2,4,5,3), of "\<lambda>_. True"]
  obtain se where "liftMCFunction (\<lambda>_. True) demo_view bbs s = Inr ((), se)" by auto
  then show ?thesis by (simp add: lift_collected_def demo_lifting_def assms(1))
qed

lemma r0_returned: "return_value demo_view 1 = Some (VInt 64 1)" "return_value demo_view 4 = Some (VInt 64 4)"
proof -
  have "uint (zext32 (low32 1)) = 1" "uint (zext32 (low32 4)) = 4" by code_simp+
  then show "return_value demo_view 1 = Some (VInt 64 1)" "return_value demo_view 4 = Some (VInt 64 4)"
    by (simp_all add: return_value_def demo_view_def)
qed

lemma computes_ret:
  assumes "computes ref_sem demo_view se stp byte_call (2 ^ 32) (\<lambda>_. 0)"
    and "\<And>\<rho>. \<rho> 1 = 0 \<Longrightarrow> \<exists>\<rho>'. run_steps stp n 0 (\<rho>, \<lambda>_. 0) = Some (\<rho>', \<lambda>_. 0) \<and> return_value demo_view (\<rho>' 0) = v"
  shows "\<exists>\<sigma>'. steps ref_sem (fn se) (Run 0 0 byte_call) (Returned v \<sigma>') \<and> mem \<sigma>' = (\<lambda>_. 0)"
proof -
  from assms(1) obtain \<rho> where \<rho>: "entry_regs demo_view (args byte_call) (word_of_int (2 ^ 32)) \<rho>"
    "\<And>n \<rho>' m'. run_steps stp n 0 (\<rho>, \<lambda>_. 0) = Some (\<rho>', m') \<Longrightarrow>
       \<exists>\<sigma>'. steps ref_sem (fn se) (Run 0 0 byte_call) (Returned (return_value demo_view (\<rho>' 0)) \<sigma>') \<and> mem \<sigma>' = m'"
    unfolding computes_def by blast
  have "uint (\<rho> 1) = 0" using \<rho>(1) by (simp add: entry_regs_def demo_view_def byte_call_def extends_def)
  then have "\<rho> 1 = 0" by (simp add: unsigned_eq_0_iff)
  from assms(2)[of \<rho>, OF this] \<rho>(2) show ?thesis by blast
qed

section \<open>The properties\<close>

text \<open>C38. The lifter is correct on assembly text. When \<open>mc2llvm::run\<close> - the checks and the clone of the source, the streamer on the
  callbacks of the parser, the passes over the blocks, the translation - succeeds, the function it returns computes what the BPF
  machine computes on the text itself, from its first instruction, position by position and label by label: entered with
  arguments of the clone's types, whenever the machine leaves the text, the function returns the value of r0 with the same memory. The
  hypotheses are those of the components: LLVM's part as documented, labels as an assembler accepts them, a source that can return,
  a view of the clone that shows its types.\<close>

theorem lifted_text_correct:
  assumes "mc2llvm_run L lm parser s0 = Inr (adj, se)" and "bpf_code_analysis (lf_analysis L)" and "returns (lf_src L)"
    and "asm_listing (listing_of lm (fst parser))" and "entry_unnamed (listing_of lm (fst parser))"
    and "fn s0 = []" and "unspecifiedOff s0 = 0" and "callable S \<sigma> p m"
    and "\<And>gs. src_view adj (lf_view L adj gs)" and "\<And>gs. args_typed (lf_view L adj gs) (args \<sigma>)"
  shows "\<not> snd parser \<and> (\<exists>gs. computes S (lf_view L adj gs) se (asm_step S (listing_of lm (fst parser))) \<sigma> p m)"
proof -
  from assms(1) obtain Str F where pr: "prepare L = Inr adj" "parse_run (lf_analysis L) (fst parser) (new_streamer NOP lm) = Inr ((), Str)"
    "\<not> snd parser" "finish_function (lf_analysis L) JMP (MF Str) = Inr F"
    and se: "liftMCFunction (lf_valid L) (lf_view L adj (MCglobals F)) (BBs F) s0 = Inr ((), se)"
    by (auto simp: mc2llvm_run_def lift_collected_def map_sum_def split: sum.splits if_splits)
  from bpf_code_analysis.streamed_laid_out[OF assms(2) pr(2,4) assms(4)] obtain e bbs where
    L: "laid_out (lf_analysis L) (listing_of lm (fst parser)) e bbs (BBs F)" .
  from bpf_code_analysis.collected_computes[OF assms(2) L assms(5) prepared_returnable[OF pr(1) assms(9,3)] assms(10,8,6,7) se] pr(3)
  show ?thesis by blast
qed

theorem lifted_text_correct_witness:
  "\<exists>se \<sigma>'. mc2llvm_run demo_lifting demo_lines (demo_events, False) empty_lstate = Inr (demo_adjusted, se) \<and>
     steps ref_sem (fn se) (Run 0 0 byte_call) (Returned (Some (VInt 64 1)) \<sigma>') \<and> mem \<sigma>' = (\<lambda>_. 0)"
proof -
  let ?a = "listing_of demo_lines demo_events"
  from text_streamed obtain Str F where F: "parse_run bpf_desc demo_events (new_streamer NOP demo_lines) = Inr ((), Str)"
    "finish_function bpf_desc JMP (MF Str) = Inr F" "BBs F = text_blocks" by blast
  have init: "fn empty_lstate = []" "unspecifiedOff empty_lstate = 0" by (simp_all add: empty_lstate_def)
  from demo_lifts[OF F(3) _ text_blocks_run init] obtain se where "lift_collected demo_lifting demo_adjusted F empty_lstate = Inr (demo_adjusted, se)"
    by (auto simp: text_blocks_def)
  then have run: "mc2llvm_run demo_lifting demo_lines (demo_events, False) empty_lstate = Inr (demo_adjusted, se)"
    using F demo_prepared by (simp add: mc2llvm_run_def) (simp add: demo_lifting_def)
  have "list_all (\<lambda>I. ExprOp (SymbolRef ''bpf-tv#entry'') \<notin> set (operands I)) (lcode ?a)" by code_simp
  then have u: "entry_unnamed ?a" by (simp add: entry_unnamed_def list_all_iff)
  have L: "lf_analysis demo_lifting = bpf_desc" "lf_src demo_lifting = demo_src" "lf_view demo_lifting adj gs = demo_view" for adj gs
    by (simp_all add: demo_lifting_def)
  have "computes ref_sem demo_view se (asm_step ref_sem ?a) byte_call (2 ^ 32) (\<lambda>_. 0)"
    using lifted_text_correct[OF run, unfolded L fst_conv, OF code.bpf_code_analysis_axioms demo_view_ok(4) demo_asm u init demo_callable demo_src_view
      demo_view_ok(3)] by blast
  moreover have code: "lcode ?a = [mk_inst NOP [], at_line (mk_inst MOV_ri [RegOp (R 0), ImmOp 1]),
       at_line (mk_inst (JCOND JEQ RI B64) [RegOp (R 1), ImmOp 0, ExprOp (SymbolRef ''LBB0_2'')]),
       at_line (mk_inst MOV_ri [RegOp (R 0), ImmOp 2]), mk_inst NOP [], at_line (mk_inst RET [])]"
    and lab: "map_of (llabels ?a) ''LBB0_2'' = Some 4" by code_simp+
  have "run_steps (asm_step ref_sem ?a) 5 0 (\<rho>, \<lambda>_. 0) = Some (\<rho>(0 := 1), \<lambda>_. 0)" if "\<rho> 1 = 0" for \<rho>
    using that by (simp add: eval_nat_numeral asm_step_def code exec_insn_def at_line_def symbol_target_def branch_operand_def lab demo_exec isa_mov_imm_def)
  ultimately show ?thesis using run computes_ret[of se "asm_step ref_sem ?a" 5 "Some (VInt 64 1)"] r0_returned by fastforce
qed

text \<open>C39. The lifter is correct on bytecode. When \<open>runBytes\<close> succeeds, the instructions the disassembler finds tile the input, and
  the function it returns computes what the BPF machine computes on them with program counters and numeric offsets in units of eight bytes, from program
  counter 0: block formation, labels and the sign extension of the fields change nothing.\<close>

theorem lifted_bytecode_correct:
  assumes "bpf2llvm_runBytes L dis bytes s0 = Inr (adj, se)" and "bpf_disassembler dis" and "bpf_code_analysis (lf_analysis L)"
    and "length bytes < 2 ^ 32" and "returns (lf_src L)" and "fn s0 = []" and "unspecifiedOff s0 = 0" and "callable S \<sigma> p m"
    and "\<And>gs. src_view adj (lf_view L adj gs)" and "\<And>gs. args_typed (lf_view L adj gs) (args \<sigma>)"
  shows "\<exists>gs ds lds rs. bytes_stages dis (lf_analysis L) bytes ds lds rs \<and> computes S (lf_view L adj gs) se (bytecode_step S ds) \<sigma> p m"
proof -
  from assms(1) obtain F where pr: "prepare L = Inr adj" "runBytes dis (lf_analysis L) (f_name (lf_src L)) bytes = Inr F"
    and se: "liftMCFunction (lf_valid L) (lf_view L adj (MCglobals F)) (BBs F) (s0\<lparr>bytesMode := True\<rparr>) = Inr ((), se)"
    by (auto simp: bpf2llvm_runBytes_def lift_collected_def map_sum_def split: sum.splits)
  from bpf_code_analysis.bytes_laid_out[OF assms(3,2) pr(2) assms(4)] obtain ds lds rs e bbs where
    st: "bytes_stages dis (lf_analysis L) bytes ds lds rs" and L: "laid_out (lf_analysis L) (bytes_listing lds rs) e bbs (BBs F)" .
  have s: "fn (s0\<lparr>bytesMode := True\<rparr>) = []" "unspecifiedOff (s0\<lparr>bytesMode := True\<rparr>) = 0" using assms(6,7) by simp_all
  note u = bpf_code_analysis.bytes_entry_unnamed[OF assms(3,2) st]
  from st have ds: "ds \<noteq> []" "contiguous 0 ds" by (simp_all add: bytes_stages_def)
  have "located ds (bytes_listing lds rs) 0 0"
    using bpf_code_analysis.stages_rendered[OF assms(3,2) st] ds by (cases ds) (simp_all add: located_def)
  from computes_mono[OF bpf_code_analysis.collected_computes[OF assms(3) L u prepared_returnable[OF pr(1) assms(9,5)] assms(10,8) s se]
      bytecode.follows_run[OF this]] st show ?thesis by blast
qed

theorem lifted_bytecode_correct_witness:
  "\<exists>se \<sigma>'. bpf2llvm_runBytes demo_lifting mini_dis skip_bytes empty_lstate = Inr (demo_adjusted, se) \<and>
     steps ref_sem (fn se) (Run 0 0 byte_call) (Returned (Some (VInt 64 4)) \<sigma>') \<and> mem \<sigma>' = (\<lambda>_. 0)"
proof -
  from skip_decoded obtain F where F: "runBytes mini_dis bpf_desc ''f'' skip_bytes = Inr F" "BBs F = skip_blocks" by blast
  have init: "fn (empty_lstate\<lparr>bytesMode := True\<rparr>) = []" "unspecifiedOff (empty_lstate\<lparr>bytesMode := True\<rparr>) = 0"
    and init0: "fn empty_lstate = []" "unspecifiedOff empty_lstate = 0" by (simp_all add: empty_lstate_def)
  from demo_lifts[OF F(2) _ skip_blocks_run init] obtain se where
    "lift_collected demo_lifting demo_adjusted F (empty_lstate\<lparr>bytesMode := True\<rparr>) = Inr (demo_adjusted, se)"
    by (auto simp: skip_blocks_def)
  then have run: "bpf2llvm_runBytes demo_lifting mini_dis skip_bytes empty_lstate = Inr (demo_adjusted, se)"
    using F demo_prepared by (simp add: bpf2llvm_runBytes_def) (simp add: demo_lifting_def demo_src_def)
  have L: "lf_analysis demo_lifting = bpf_desc" "lf_src demo_lifting = demo_src" "lf_view demo_lifting adj gs = demo_view" for adj gs
    by (simp_all add: demo_lifting_def)
  have len: "length skip_bytes < 2 ^ 32" by (simp add: skip_bytes_def)
  from lifted_bytecode_correct[OF run, unfolded L, OF mini.bpf_disassembler_axioms code.bpf_code_analysis_axioms len demo_view_ok(4) init0
      demo_callable demo_src_view demo_view_ok(3)]
  obtain ds lds rs where ds: "bytes_stages mini_dis bpf_desc skip_bytes ds lds rs"
    and c: "computes ref_sem demo_view se (bytecode_step ref_sem ds) byte_call (2 ^ 32) (\<lambda>_. 0)" by blast
  let ?ds = "[\<lparr>di_inst = mk_inst MOV_ri [RegOp (R 0), ImmOp 3], di_unit = 0, di_units = 1\<rparr>,
     \<lparr>di_inst = mk_inst (JCOND JNE RI B64) [RegOp (R 1), ImmOp 0, ImmOp 1], di_unit = 1, di_units = 1\<rparr>,
     \<lparr>di_inst = mk_inst MOV_ri [RegOp (R 0), ImmOp 4], di_unit = 2, di_units = 1\<rparr>,
     \<lparr>di_inst = mk_inst RET [], di_unit = 3, di_units = 1\<rparr>]"
  have "(case decode mini_dis skip_bytes of Inl e \<Rightarrow> Inl e | Inr raw \<Rightarrow> map_result (normalize_insn bpf_desc) raw) = Inr ?ds" by code_simp
  with ds have "ds = ?ds" by (auto simp: bytes_stages_def simp flip: map_result_Inr split: sum.splits)
  then have "run_steps (bytecode_step ref_sem ds) 4 0 (\<rho>, \<lambda>_. 0) = Some (\<rho>(0 := 4), \<lambda>_. 0)" if "\<rho> 1 = 0" for \<rho>
    using that by (simp add: eval_nat_numeral bytecode_step_def next_unit_def offset_target_def branch_operand_def exec_insn_def demo_exec isa_mov_imm_def)
  then show ?thesis using run computes_ret[OF c, of 4 "Some (VInt 64 4)"] r0_returned by fastforce
qed

end
