(* ===== verification/Conformance.thy ===== *)
theory Conformance
  imports Pipeline
begin

text \<open>
  The conformance plugin (\<open>src/src/conformance/plugin.cpp\<close>): a program in hexadecimal on the standard input, a
  memory in hexadecimal as argument, lifted and executed; the value of r0 is printed. Executing the lifted module (\<open>LLJIT\<close>) is a
  parameter.
\<close>

section \<open>Hexadecimal text\<close>

definition isxdigit :: "char \<Rightarrow> bool" where
  "isxdigit c \<longleftrightarrow> c \<in> set ''0123456789abcdefABCDEF''"

definition digit_value :: "char \<Rightarrow> nat" where
  "digit_value c = (let n = of_char c in if n < 58 then n - 48 else if n < 71 then n - 55 else n - 87)"

text \<open>\<open>stoul(byte, nullptr, 16)\<close> on hexadecimal digits.\<close>

definition stoul16 :: "string \<Rightarrow> nat" where
  "stoul16 s = foldl (\<lambda>a c. 16 * a + digit_value c) 0 s"

text \<open>The loop over \<open>clean\<close>: two digits a byte; a digit left over is a byte of its own.\<close>

fun hex_bytes :: "string \<Rightarrow> byte list" where
  "hex_bytes [] = []"
| "hex_bytes [c] = [word_of_nat (stoul16 [c])]"
| "hex_bytes (c # d # clean) = word_of_nat (stoul16 [c, d]) # hex_bytes clean"

definition parse_hex :: "string \<Rightarrow> byte list" where
  "parse_hex s = hex_bytes (filter isxdigit s)"

text \<open>\<open>printf("%llx")\<close>.\<close>

definition hex_digit :: "nat \<Rightarrow> char" where
  "hex_digit n = ''0123456789abcdef'' ! n"

fun llx :: "nat \<Rightarrow> string" where
  "llx n = (if n < 16 then [hex_digit n] else llx (n div 16) @ [hex_digit (n mod 16)])"

declare llx.simps [simp del]

section \<open>The program\<close>

definition newline :: char where
  "newline = CHR 0x0A"

text \<open>\<open>while (getline(cin, line)) prog_hex += line\<close>.\<close>

function read_lines :: "string \<Rightarrow> string" where
  "read_lines s = (if s = [] then [] else
     takeWhile (\<lambda>c. c \<noteq> newline) s @ read_lines (drop 1 (dropWhile (\<lambda>c. c \<noteq> newline) s)))"
  by pat_completeness auto
termination
proof (relation "measure length")
  fix s :: string assume "s \<noteq> []"
  then show "(drop 1 (dropWhile (\<lambda>c. c \<noteq> newline) s), s) \<in> measure length"
    using length_dropWhile_le[of "\<lambda>c. c \<noteq> newline" s] by (cases s) auto
qed simp

declare read_lines.simps [simp del]

datatype plugin_exit = Usage | Unsupported string | InvalidSize nat | NoTarget | Died lift_error | JitError string | Printed string

text \<open>The loop over the arguments: the last one is the memory.\<close>

fun plugin_args :: "string list \<Rightarrow> string \<Rightarrow> plugin_exit + string" where
  "plugin_args [] mem_hex = Inr mem_hex"
| "plugin_args (arg # argv) mem_hex = (if arg = ''--help'' then Inl Usage
     else if prefix ''--'' arg then Inl (Unsupported arg) else plugin_args argv arg)"

text \<open>The source function with the signature of the tests: r1 the memory, r2 its size.\<close>

definition conformance_test :: sfunc where
  "conformance_test = \<lparr>f_name = ''conformance_test'', f_linkage = ExternalLinkage, f_cc = C_CC,
     f_type = \<lparr>ft_ret = SInt 64, ft_params = [SPtr 0, SInt 64], ft_vararg = False\<rparr>,
     f_args = [\<lparr>a_type = SPtr 0, a_attrs = []\<rparr>, \<lparr>a_type = SInt 64, a_attrs = []\<rparr>], f_ret_attrs = [], f_personality = False,
     f_intrinsic = False, f_constrained_fp = False, f_body = [[new_inst 0 SVoid SRet [IntC 64 0] '''']]\<rparr>"

record plugin_env =
  pe_targetFound :: bool
  pe_dis :: disassembler
  pe_analysis :: instr_analysis
  pe_view :: "adjusted \<Rightarrow> MCGlobal list \<Rightarrow> src_env"
  pe_valid :: "code \<Rightarrow> bool"
  pe_state :: lstate
  pe_execute :: "lstate \<Rightarrow> byte list \<Rightarrow> string + 64 word"

definition conformance_lifting :: "plugin_env \<Rightarrow> lifting" where
  "conformance_lifting E = \<lparr>lf_allowStackEscape = False, lf_module = \<lparr>m_globals = [], m_funs = [conformance_test]\<rparr>,
     lf_underlying = id, lf_slots = None, lf_src = conformance_test, lf_view = pe_view E, lf_analysis = pe_analysis E, lf_valid = pe_valid E\<rparr>"

definition execute :: "plugin_env \<Rightarrow> byte list \<Rightarrow> byte list \<Rightarrow> plugin_exit" where
  "execute E prog bytes = (if prog = [] \<or> length prog mod 8 \<noteq> 0 then InvalidSize (length prog)
     else if \<not> pe_targetFound E then NoTarget
     else (case bpf2llvm_runBytes (conformance_lifting E) (pe_dis E) prog (pe_state E) of Inl e \<Rightarrow> Died e
        | Inr (adj, tgt) \<Rightarrow> (case pe_execute E tgt bytes of Inl msg \<Rightarrow> JitError msg
           | Inr r0 \<Rightarrow> Printed (llx (unat r0) @ [newline]))))"

definition plugin_main :: "plugin_env \<Rightarrow> string list \<Rightarrow> string \<Rightarrow> plugin_exit" where
  "plugin_main E argv input = (case plugin_args argv '''' of Inl e \<Rightarrow> e
     | Inr mem_hex \<Rightarrow> execute E (parse_hex (read_lines input)) (parse_hex mem_hex))"

section \<open>Reading what was written\<close>

definition lower :: "char \<Rightarrow> char" where
  "lower c = (let n = of_char c :: nat in if 65 \<le> n \<and> n < 71 then char_of (n + 32) else c)"

definition hex_byte :: "byte \<Rightarrow> string" where
  "hex_byte b = [hex_digit (unat b div 16), hex_digit (unat b mod 16)]"

text \<open>A text spells bytes when its digits are theirs: any layout, any other characters between, either case.\<close>

definition spells :: "string \<Rightarrow> byte list \<Rightarrow> bool" where
  "spells s bs \<longleftrightarrow> map lower (filter isxdigit s) = concat (map hex_byte bs)"

lemma xdigit_cases:
  assumes "isxdigit c"
  shows "digit_value c < 16" "hex_digit (digit_value c) = lower c" "digit_value (lower c) = digit_value c"
proof -
  have "list_all (\<lambda>c. digit_value c < 16 \<and> hex_digit (digit_value c) = lower c \<and> digit_value (lower c) = digit_value c)
     ''0123456789abcdefABCDEF''" by code_simp
  with assms show "digit_value c < 16" "hex_digit (digit_value c) = lower c" "digit_value (lower c) = digit_value c"
    unfolding isxdigit_def list_all_iff by blast+
qed

lemma digit_hex: "n < 16 \<Longrightarrow> digit_value (hex_digit n) = n \<and> isxdigit (hex_digit n)"
proof -
  have "list_all (\<lambda>n. digit_value (hex_digit n) = n \<and> isxdigit (hex_digit n)) [0..<16]" by code_simp
  then show "n < 16 \<Longrightarrow> digit_value (hex_digit n) = n \<and> isxdigit (hex_digit n)" by (simp only: list_all_iff) auto
qed

lemma stoul16_snoc: "stoul16 (s @ [c]) = 16 * stoul16 s + digit_value c"
  by (simp add: stoul16_def)

lemma stoul16_llx: "stoul16 (llx n) = n"
proof (induction n rule: llx.induct)
  case (1 n)
  show ?case
  proof (cases "n < 16")
    case True
    then show ?thesis using digit_hex by (subst llx.simps) (simp add: stoul16_def)
  next
    case False
    with 1 digit_hex[of "n mod 16"] show ?thesis by (subst llx.simps) (simp add: stoul16_snoc)
  qed
qed

lemma llx_no_zero: "0 < n \<Longrightarrow> hd (llx n) \<noteq> CHR ''0''"
proof (induction n rule: llx.induct)
  case (1 n)
  show ?case
  proof (cases "n < 16")
    case True
    have "digit_value (CHR ''0'') = 0" by code_simp
    with True 1(2) digit_hex[of n] show ?thesis by (subst llx.simps) auto
  next
    case False
    then have "llx (n div 16) \<noteq> []" by (subst llx.simps) simp
    with False 1 show ?thesis by (subst llx.simps) simp
  qed
qed

lemma read_lines_digits: "filter isxdigit (read_lines s) = filter isxdigit s"
proof (induction s rule: read_lines.induct)
  case (1 s)
  have nl: "\<not> isxdigit newline" by (simp add: isxdigit_def newline_def)
  have "filter isxdigit (drop 1 (dropWhile (\<lambda>c. c \<noteq> newline) s)) = filter isxdigit (dropWhile (\<lambda>c. c \<noteq> newline) s)"
  proof (cases "dropWhile (\<lambda>c. c \<noteq> newline) s")
    case (Cons x xs)
    then have "x = newline" by (simp add: dropWhile_eq_Cons_conv)
    with Cons nl show ?thesis by simp
  next
    case Nil
    then show ?thesis unfolding Nil by simp
  qed
  moreover have "filter isxdigit (takeWhile (\<lambda>c. c \<noteq> newline) s) @ filter isxdigit (dropWhile (\<lambda>c. c \<noteq> newline) s) = filter isxdigit s"
    by (simp flip: filter_append)
  ultimately show ?case using 1 by (subst read_lines.simps) auto
qed

lemma byte_digits:
  assumes "isxdigit c" "isxdigit d"
  shows "unat (word_of_nat (stoul16 [c, d]) :: byte) = 16 * digit_value c + digit_value d"
proof -
  have "16 * digit_value c + digit_value d < 2 ^ 8" using xdigit_cases(1)[OF assms(1)] xdigit_cases(1)[OF assms(2)] by simp
  then have "take_bit 8 (16 * digit_value c + digit_value d) = 16 * digit_value c + digit_value d" by (simp only: take_bit_nat_eq_self)
  then show ?thesis by (simp add: stoul16_def unsigned_of_nat del: of_nat_add of_nat_mult)
qed

lemma hex_bytes_spelled:
  assumes "map lower ds = concat (map hex_byte bs)" "\<forall>c \<in> set ds. isxdigit c"
  shows "hex_bytes ds = bs"
  using assms
proof (induction bs arbitrary: ds)
  case (Cons b bs)
  then obtain c d rest where ds: "ds = c # d # rest" "lower c = hex_digit (unat b div 16)" "lower d = hex_digit (unat b mod 16)"
    "map lower rest = concat (map hex_byte bs)" by (fastforce simp: hex_byte_def[of b] map_eq_Cons_conv)
  have "unat b < 256" using unsigned_less[of b] by simp
  then have "digit_value c = unat b div 16" "digit_value d = unat b mod 16"
    using Cons.prems(2) ds xdigit_cases(3)[of c] xdigit_cases(3)[of d] digit_hex by auto
  then have "stoul16 [c, d] = unat b" by (simp add: stoul16_def)
  with Cons.IH[OF ds(4)] Cons.prems(2) ds(1) show ?case by simp
qed simp

lemma spelled_hex_bytes:
  assumes "\<forall>c \<in> set ds. isxdigit c" "even (length ds)"
  shows "concat (map hex_byte (hex_bytes ds)) = map lower ds"
  using assms
proof (induction ds rule: hex_bytes.induct)
  case (3 c d ds)
  then show ?case
    using byte_digits[of c d] xdigit_cases[of c] xdigit_cases[of d] by (simp add: hex_byte_def)
qed simp_all

lemma parse_spelled: "spells s bs \<Longrightarrow> parse_hex s = bs"
  unfolding spells_def parse_hex_def by (rule hex_bytes_spelled) auto

lemma spelled_parse: "even (length (filter isxdigit s)) \<Longrightarrow> spells s (parse_hex s)"
  unfolding spells_def parse_hex_def by (rule spelled_hex_bytes[symmetric]) auto

end
