(* ===== verification/Conformance_Props.thy ===== *)
theory Conformance_Props
  imports Conformance
begin

text \<open>
  The property of the conformance plugin's input and output.
\<close>

text \<open>C40. What is written is what is run, and what is printed can be read back. A program and a memory written in hexadecimal - in
  any layout, split over lines, upper or lower case, with any other characters between - are executed as exactly these
  bytes; if the plugin prints a line then it is the value of r0 of the executed lifted function, in digits that read back as
  r0, without a leading zero. Conversely any text with an even number of digits spells the bytes \<open>parse_hex\<close> reads.\<close>

theorem plugin_round_trip:
  assumes "spells input prog" and "spells mem_text bytes" and "\<not> prefix ''--'' mem_text"
  shows "plugin_main E [mem_text] input = execute E prog bytes \<and>
    (\<forall>out. plugin_main E [mem_text] input = Printed out \<longrightarrow> (\<exists>adj tgt r0.
       bpf2llvm_runBytes (conformance_lifting E) (pe_dis E) prog (pe_state E) = Inr (adj, tgt) \<and> pe_execute E tgt bytes = Inr r0 \<and>
       out = butlast out @ [newline] \<and> stoul16 (butlast out) = unat r0 \<and> (r0 \<noteq> 0 \<longrightarrow> hd out \<noteq> CHR ''0''))) \<and>
    (\<forall>s. even (length (filter isxdigit s)) \<longrightarrow> spells s (parse_hex s))"
proof (intro conjI allI impI)
  have "mem_text \<noteq> ''--help''" using assms(3) by auto
  moreover have "parse_hex (read_lines input) = prog"
    using parse_spelled[OF assms(1)] by (simp add: parse_hex_def read_lines_digits)
  ultimately show main: "plugin_main E [mem_text] input = execute E prog bytes"
    using assms(3) parse_spelled[OF assms(2)] by (simp add: plugin_main_def)
  fix out assume "plugin_main E [mem_text] input = Printed out"
  then obtain adj tgt r0 where run: "bpf2llvm_runBytes (conformance_lifting E) (pe_dis E) prog (pe_state E) = Inr (adj, tgt)"
    "pe_execute E tgt bytes = Inr r0" and out: "out = llx (unat r0) @ [newline]"
    unfolding main by (auto simp: execute_def split: if_splits sum.splits)
  have "llx (unat r0) \<noteq> []" by (subst llx.simps) simp
  then have "r0 \<noteq> 0 \<longrightarrow> hd out \<noteq> CHR ''0''"
    using llx_no_zero[of "unat r0"] by (simp add: out unsigned_eq_0_iff word_neq_0_conv unat_gt_0)
  with run show "\<exists>adj tgt r0. bpf2llvm_runBytes (conformance_lifting E) (pe_dis E) prog (pe_state E) = Inr (adj, tgt) \<and> pe_execute E tgt bytes = Inr r0 \<and>
     out = butlast out @ [newline] \<and> stoul16 (butlast out) = unat r0 \<and> (r0 \<noteq> 0 \<longrightarrow> hd out \<noteq> CHR ''0'')"
    by (auto simp: out stoul16_llx)
qed (rule spelled_parse)

theorem plugin_round_trip_witness:
  "\<forall>E. plugin_main E [''0A:fF''] (''95 00 00 00'' @ [newline] @ ''00000000'') = execute E [0x95, 0, 0, 0, 0, 0, 0, 0] [0x0a, 0xff]"
proof
  fix E
  have "spells (''95 00 00 00'' @ [newline] @ ''00000000'') [0x95, 0, 0, 0, 0, 0, 0, 0]" by code_simp
  moreover have "spells ''0A:fF'' [0x0a, 0xff]" by code_simp
  moreover have "\<not> prefix ''--'' ''0A:fF''" by simp
  ultimately show "plugin_main E [''0A:fF''] (''95 00 00 00'' @ [newline] @ ''00000000'') = execute E [0x95, 0, 0, 0, 0, 0, 0, 0] [0x0a, 0xff]"
    using plugin_round_trip by blast
qed

end
