(* ===== verification/Spec2Isabelle.thy ===== *)
theory Spec2Isabelle
  imports Function_Props Slots_Props Streamer_Props Bytes_Props Support_Props Round_Trip_Props Stack_Props Globals_Props Validate_Props Fixup_Props
    Pipeline_Props Conformance_Props
begin

text \<open>
  A verification development for bpf-tv, a translation validator for LLVM's BPF backend.

  \<^bold>\<open>The program.\<close> The driver (\<open>bpf-tv.cpp\<close>) compiles an LLVM function with LLVM's BPF backend,
  lifts the resulting assembly back to LLVM IR and asks Alive2 whether the lifted function refines the
  source. The lifter is \<open>src/src/lifter\<close>: the streamer collects the assembler's callbacks into basic
  blocks and computes their successors, \<open>mc2llvm\<close> drives the translation of a function and holds the
  instruction builder, \<open>bpf2llvm\<close> translates one BPF instruction at a time. A wrong lifter makes every
  verdict wrong, so the centre of this development is that the lifter gives each BPF instruction the
  meaning RFC 9669 gives it.

  \<^bold>\<open>Theories.\<close>
  \<^item> \<open>Prelude\<close>: the result monad of the lifter (state passing; a failing \<open>assert\<close> and an \<open>exit(-1)\<close> are
    error values), decimal strings.
  \<^item> \<open>LLVM_IR\<close>, \<open>LLVM_Exec\<close>: the IR the lifter emits and its execution. LLVM is not part of the
    repository: the meaning of its instructions is the parameter \<open>llvm_sem\<close>, constrained by the locale
    \<open>langref\<close> to what the Language Reference documents, in the cases it defines.
  \<^item> \<open>Word_Ops\<close>, \<open>Ref_Sem\<close>: the laws of \<open>langref\<close> on machine words, and an executable semantics that
    satisfies them (the interpretation \<open>ref\<close>).
  \<^item> \<open>MC\<close>: registers, operands, opcodes and instructions as LLVM's assembly parser delivers them.
  \<^item> \<open>Builder\<close>: the state of the lifter object and the \<open>create...\<close> helpers of \<open>mc2llvm.h\<close> and the
    total divisions of \<open>mc2llvm.cpp\<close>.
  \<^item> \<open>Bpf_Regs\<close>: register file, operand readers, calling convention (\<open>platformInit\<close>, \<open>doCall\<close>,
    \<open>doHelperCall\<close>, \<open>doReturn\<close>) of \<open>bpf2llvm.cpp\<close>.
  \<^item> \<open>Bpf_Lift\<close>: \<open>bpf2llvm::lift\<close> by groups of its switch, \<open>liftInst\<close> and \<open>liftMCFunction\<close>.
  \<^item> \<open>Bpf_Isa\<close>: the abstract machine, RFC 9669 on 64-bit registers and a memory.
  \<^item> \<open>Emission\<close>, \<open>Builder_WP\<close>, \<open>Division_WP\<close>, \<open>Reg_WP\<close>: what code an emitting action appends computes,
    as weakest preconditions; the simulation relation \<open>sim\<close>.
  \<^item> \<open>Lift_Alu\<close>, \<open>Lift_Mem\<close>, \<open>Lift_Flow\<close>, \<open>Lift_Inst\<close>: the refinement, by instruction group, for a whole
    instruction and for sequences. \<open>Lift_Props\<close> states the properties.

  \<^item> \<open>Streamer\<close>: the streamer (\<open>streamerwrapper.h\<close>, \<open>streamerwrapper.cpp\<close>): the callbacks of the
    assembly parser, the successors of the blocks, the entry block. \<open>Streamer_Inv\<close>: the invariant of
    every callback and the listing the collected blocks stand for. \<open>Streamer_Flow\<close>, \<open>Streamer_Props\<close>: the
    blocks and their successors have the control flow of the assembly text.
  \<^item> \<open>Bytes_Mode\<close>: \<open>bpf2llvm::runBytes\<close>, which builds the blocks from raw bytecode; \<open>Bytes_Flow\<close>,
    \<open>Bytes_Props\<close>: these have the control flow RFC 9669 gives the bytecode.
  \<^item> \<open>Frame\<close>: what lifting an instruction leaves alone: the blocks of other machine blocks, the register
    file, the tables of the lifter. \<open>Function_Sim\<close>: the abstract machine on a list of basic blocks and the
    simulation of one block and of a run over blocks. \<open>Entry_Sim\<close>: the entry code (stack, register storage,
    arguments) establishes the simulation. \<open>Lift_Total\<close>: on code the abstract machine executes the lifter
    does not fail. \<open>Function_Props\<close>: both for \<open>liftMCFunction\<close> as a whole.
  \<^item> \<open>Slots\<close>, \<open>Slots_Props\<close>: the frame slots \<open>generateAsm\<close> (\<open>run_backend.cpp\<close>) hands to the driver.
  \<^item> \<open>Source_IR\<close>, \<open>Source_Exec\<close>: LLVM functions as the driver and the checks see them, and their execution; the
    arithmetic the rewrites speak of has the meaning of \<open>llvm_sem\<close>, every other instruction is the parameter
    \<open>src_sem\<close>. \<open>Support\<close> (\<open>checkSupport\<close>, \<open>escapingStackObjects\<close> and the checks of \<open>bpf2llvm.cpp\<close>),
    \<open>Adjust\<close> (\<open>adjustSrc\<close>, \<open>setupLift\<close>); \<open>Support_Sound\<close>, \<open>Adjust_Sound\<close>, \<open>Support_Props\<close>: what acceptance
    guarantees and that the clone of the source computes what the source computes.
  \<^item> \<open>Driver_Source\<close> (\<open>addDebugInfo\<close>, \<open>stripEmptyInlineAsm\<close>, \<open>replaceIdentityInlineAsm\<close>,
    \<open>rewriteHelperCallsByNumber\<close>), \<open>Round_Trip\<close> (\<open>tryReplacePtrtoInt\<close>): the driver's rewrites; \<open>Driver_Rewrite\<close>,
    \<open>Driver_Props\<close>, \<open>Round_Trip_Props\<close>: they keep the meaning of the function and the line map exact.

  \<^item> \<open>Stack_Objects\<close> (\<open>rewriteStackObjects\<close>); \<open>Stack_Sound\<close>, \<open>Stack_Cover\<close>, \<open>Stack_Props\<close>: the addresses the split code
    computes, the uses the classification accounts for, its end.
  \<^item> \<open>Globals\<close> (\<open>lookupGlobal\<close>, \<open>lazyAddGlobal\<close>, \<open>copyFunctionToTarget\<close>); \<open>Globals_Inv\<close>, \<open>Globals_Props\<close>: the objects
    linked so far, that none is left open, and when the loop ends.
  \<^item> \<open>Validate\<close> (\<open>doit\<close>, \<open>liftFunc\<close>, \<open>fixupOptimizedTgt\<close>, the choice of the function in \<open>main\<close>); \<open>Validate_Props\<close>: the worklist of
    pointer flows and the verdicts; \<open>Fixup_Props\<close>: the fixed function runs like the optimized one.
  \<^item> \<open>Linear\<close>, \<open>Linear_Bytes\<close>: the BPF machine on the assembly text and on bytecode, and that the blocks run as the code they
    were made from. \<open>Pipeline\<close>, \<open>Pipeline_Props\<close>: \<open>mc2llvm::run\<close> and \<open>runBytes\<close> with every step composed, and
    their correctness from text or bytecode to the LLVM function.
  \<^item> \<open>Conformance\<close>, \<open>Conformance_Props\<close>: the conformance plugin (\<open>conformance/plugin.cpp\<close>), its input and output.

  \<^bold>\<open>Bounds.\<close> Registers 0 to 11 have storage. Immediates are within the 32-bit field of the encoding. The
  runner \<open>run_fuel\<close> is only a way to compute an execution; the properties speak of the step relation. Where a machine
  counts its steps (\<open>run_blocks\<close>, \<open>run_steps\<close>, \<open>run_src\<close>) the count is quantified: a run that leaves the code
  after any number of steps is meant. Loops of the code that may not end (\<open>process_deferred\<close>, the classification of frame addresses) have
  their own termination properties.

  \<^bold>\<open>Not modelled.\<close> LLVM itself (backend, optimizer, verifier, assembly parser, disassembler, JIT), Alive2 and the SMT solver, which are
  parameters; the adding of passes in \<open>generateAsm\<close> and the textual repair of \<open>rN = wM\<close> in its result, which work on LLVM's
  objects and its printed text; option parsing, files and messages, the removal of metadata and the summary of \<open>main\<close>; \<open>nameGlobals\<close>, which only
  gives names; \<open>mapExprVar\<close> and the floating-point, vector and saturating helpers of the builder, which nothing on BPF calls.
\<close>

end
